(* ===== verification/Go_Prelude.thy ===== *)
theory Go_Prelude
  imports Complex_Main "HOL-Library.Sublist"
begin

text \<open>
  The part of the Go language and its standard library that the controller's code uses,
  and the lemmas about it that the components share.

  A Go \<^verbatim>\<open>string\<close> is a sequence of bytes, so it is a \<^typ>\<open>string\<close> (a list of 8-bit
  characters) here. An \<^verbatim>\<open>error\<close> is what the code can observe of it: its text, or its
  identity with one of the two sentinel values of package \<^verbatim>\<open>context\<close>. A function that
  returns \<^verbatim>\<open>(T, error)\<close> returns \<open>'a res\<close>; one that returns \<^verbatim>\<open>error\<close> returns
  \<open>goerr option\<close>, with \<open>None\<close> for \<^verbatim>\<open>nil\<close>. Functions of package \<^verbatim>\<open>strings\<close> are
  on bytes; white space is Unicode's, by its UTF-8 encodings, which is exact because no
  encoding of a space can start inside another character.
\<close>

named_theorems go_simps \<open>equations of the Go library functions\<close>
named_theorems clean_intro \<open>facts that a string is free of line breaks\<close>

subsection \<open>Errors and results\<close>

datatype goerr = ErrMsg string | ErrDeadline | ErrCanceled

fun error_msg :: "goerr \<Rightarrow> string" where
  "error_msg (ErrMsg s) = s"
| "error_msg ErrDeadline = ''context deadline exceeded''"
| "error_msg ErrCanceled = ''context canceled''"

type_synonym 'a res = "goerr + 'a"

text \<open>A call whose error is wrapped and returned early: \<^verbatim>\<open>fmt.Errorf("p: %w", err)\<close>.\<close>

definition wrap :: "string \<Rightarrow> goerr \<Rightarrow> goerr" where
  "wrap p e = ErrMsg (p @ '': '' @ error_msg e)"

text \<open>The early return \<^verbatim>\<open>if err := c; err != nil { return err }\<close> before the rest.\<close>

definition and_then :: "goerr option \<Rightarrow> goerr option \<Rightarrow> goerr option" where
  "and_then c rest = (case c of Some e \<Rightarrow> Some e | None \<Rightarrow> rest)"

definition guard_err :: "bool \<Rightarrow> goerr \<Rightarrow> goerr option" where
  "guard_err bad e = (if bad then Some e else None)"

text \<open>A loop that stops at the first error.\<close>

fun first_err :: "('a \<Rightarrow> goerr option) \<Rightarrow> 'a list \<Rightarrow> goerr option" where
  "first_err f [] = None"
| "first_err f (x # xs) = and_then (f x) (first_err f xs)"

text \<open>A call that returns a value or an error, which the caller passes on.\<close>

definition bind_res :: "'a res \<Rightarrow> ('a \<Rightarrow> 'b res) \<Rightarrow> 'b res" where
  "bind_res r f = (case r of Inl e \<Rightarrow> Inl e | Inr x \<Rightarrow> f x)"

definition check_res :: "goerr option \<Rightarrow> 'a res \<Rightarrow> 'a res" where
  "check_res c r = (case c of Some e \<Rightarrow> Inl e | None \<Rightarrow> r)"

text \<open>A call that returns or panics.\<close>

datatype 'a outcome = Ret 'a | Panic string

subsection \<open>Characters\<close>

definition is_lower :: "char \<Rightarrow> bool" where
  "is_lower c \<longleftrightarrow> 97 \<le> (of_char c :: nat) \<and> (of_char c :: nat) \<le> 122"

definition is_upper :: "char \<Rightarrow> bool" where
  "is_upper c \<longleftrightarrow> 65 \<le> (of_char c :: nat) \<and> (of_char c :: nat) \<le> 90"

definition is_digit :: "char \<Rightarrow> bool" where
  "is_digit c \<longleftrightarrow> 48 \<le> (of_char c :: nat) \<and> (of_char c :: nat) \<le> 57"

definition is_hex :: "char \<Rightarrow> bool" where
  "is_hex c \<longleftrightarrow> is_digit c
     \<or> (97 \<le> (of_char c :: nat) \<and> (of_char c :: nat) \<le> 102)
     \<or> (65 \<le> (of_char c :: nat) \<and> (of_char c :: nat) \<le> 70)"

abbreviation is_alpha :: "char \<Rightarrow> bool" where
  "is_alpha c \<equiv> is_lower c \<or> is_upper c"

abbreviation is_alnum :: "char \<Rightarrow> bool" where
  "is_alnum c \<equiv> is_alpha c \<or> is_digit c"

definition digit_val :: "char \<Rightarrow> nat" where
  "digit_val c = of_char c - 48"

definition digit_char :: "nat \<Rightarrow> char" where
  "digit_char d = char_of (48 + d)"

definition NL :: char where "NL = CHR 0x0A"
definition CR :: char where "CR = CHR 0x0D"
definition TAB :: char where "TAB = CHR 0x09"
definition NUL :: char where "NUL = CHR 0x00"
definition BSL :: char where "BSL = CHR 0x5C"
definition DQ :: char where "DQ = CHR 0x22"

subsection \<open>Package strings\<close>

text \<open>\<^verbatim>\<open>strings.HasPrefix\<close>, \<^verbatim>\<open>HasSuffix\<close>, \<^verbatim>\<open>Contains\<close>, \<^verbatim>\<open>TrimPrefix\<close>.\<close>

fun has_prefix :: "string \<Rightarrow> string \<Rightarrow> bool" where
  "has_prefix s [] = True"
| "has_prefix [] (p # ps) = False"
| "has_prefix (c # s) (p # ps) = (c = p \<and> has_prefix s ps)"

fun contains_str :: "string \<Rightarrow> string \<Rightarrow> bool" where
  "contains_str [] p = (p = [])"
| "contains_str (c # s) p = (has_prefix (c # s) p \<or> contains_str s p)"

definition trim_prefix :: "string \<Rightarrow> string \<Rightarrow> string" where
  "trim_prefix s p = (if has_prefix s p then drop (length p) s else s)"

definition contains_any :: "string \<Rightarrow> char list \<Rightarrow> bool" where
  "contains_any s cs = list_ex (\<lambda>c. c \<in> set cs) s"

text \<open>\<^verbatim>\<open>strings.IndexByte\<close> and \<^verbatim>\<open>strings.Index\<close>: \<open>None\<close> for \<^verbatim>\<open>-1\<close>.\<close>

fun index_byte :: "string \<Rightarrow> char \<Rightarrow> nat option" where
  "index_byte [] c = None"
| "index_byte (x # s) c = (if x = c then Some 0 else map_option Suc (index_byte s c))"

fun index_str :: "string \<Rightarrow> string \<Rightarrow> nat option" where
  "index_str [] p = (if p = [] then Some 0 else None)"
| "index_str (x # s) p =
     (if has_prefix (x # s) p then Some 0 else map_option Suc (index_str s p))"

text \<open>\<^verbatim>\<open>strings.Split\<close> at a one-byte separator and \<^verbatim>\<open>strings.Join\<close>.\<close>

fun split_on :: "char \<Rightarrow> string \<Rightarrow> string list" where
  "split_on c [] = [[]]"
| "split_on c (x # s) =
     (if x = c then [] # split_on c s
      else (case split_on c s of [] \<Rightarrow> [[x]] | l # ls \<Rightarrow> (x # l) # ls))"

fun join :: "string \<Rightarrow> string list \<Rightarrow> string" where
  "join sep [] = []"
| "join sep [s] = s"
| "join sep (s # t # ss) = s @ sep @ join sep (t # ss)"

text \<open>
  The UTF-8 encodings of the code points for which \<^verbatim>\<open>unicode.IsSpace\<close> holds:
  \<^verbatim>\<open>\t \n \v \f \r\<close> and the space, U+0085, U+00A0, U+1680, U+2000 to U+200A, U+2028,
  U+2029, U+202F, U+205F and U+3000.
\<close>

definition space_encodings :: "string list" where
  "space_encodings =
     [[CHR 0x09], [CHR 0x0A], [CHR 0x0B], [CHR 0x0C], [CHR 0x0D], [CHR 0x20],
      [CHR 0xC2, CHR 0x85], [CHR 0xC2, CHR 0xA0], [CHR 0xE1, CHR 0x9A, CHR 0x80],
      [CHR 0xE2, CHR 0x80, CHR 0x80], [CHR 0xE2, CHR 0x80, CHR 0x81],
      [CHR 0xE2, CHR 0x80, CHR 0x82], [CHR 0xE2, CHR 0x80, CHR 0x83],
      [CHR 0xE2, CHR 0x80, CHR 0x84], [CHR 0xE2, CHR 0x80, CHR 0x85],
      [CHR 0xE2, CHR 0x80, CHR 0x86], [CHR 0xE2, CHR 0x80, CHR 0x87],
      [CHR 0xE2, CHR 0x80, CHR 0x88], [CHR 0xE2, CHR 0x80, CHR 0x89],
      [CHR 0xE2, CHR 0x80, CHR 0x8A], [CHR 0xE2, CHR 0x80, CHR 0xA8],
      [CHR 0xE2, CHR 0x80, CHR 0xA9], [CHR 0xE2, CHR 0x80, CHR 0xAF],
      [CHR 0xE2, CHR 0x81, CHR 0x9F], [CHR 0xE3, CHR 0x80, CHR 0x80]]"

text \<open>The length of the white-space character at the front, 0 when there is none.\<close>

definition space_len :: "string \<Rightarrow> nat" where
  "space_len s = (case find (has_prefix s) space_encodings of None \<Rightarrow> 0 | Some e \<Rightarrow> length e)"

definition space_len_rev :: "string \<Rightarrow> nat" where
  "space_len_rev s =
     (case find (has_prefix s) (map rev space_encodings) of None \<Rightarrow> 0 | Some e \<Rightarrow> length e)"

function drop_space :: "(string \<Rightarrow> nat) \<Rightarrow> string \<Rightarrow> string" where
  "drop_space f s = (if s = [] \<or> f s = 0 then s else drop_space f (drop (f s) s))"
  by pat_completeness auto
termination
  by (relation "measure (\<lambda>(f, s). length s)") auto

declare drop_space.simps [simp del]

definition trim_left_space :: "string \<Rightarrow> string" where
  "trim_left_space s = drop_space space_len s"

definition trim_right_space :: "string \<Rightarrow> string" where
  "trim_right_space s = rev (drop_space space_len_rev (rev s))"

definition trim_space :: "string \<Rightarrow> string" where
  "trim_space s = trim_right_space (trim_left_space s)"

text \<open>\<^verbatim>\<open>strings.TrimRight\<close> with a set of ASCII characters.\<close>

definition trim_right_set :: "char list \<Rightarrow> string \<Rightarrow> string" where
  "trim_right_set cs s = rev (dropWhile (\<lambda>c. c \<in> set cs) (rev s))"

text \<open>\<^verbatim>\<open>strings.Fields\<close>: the maximal runs between white space.\<close>

function fields_aux :: "string \<Rightarrow> string \<Rightarrow> string list" where
  "fields_aux acc s =
     (case s of
        [] \<Rightarrow> (if acc = [] then [] else [rev acc])
      | c # r \<Rightarrow>
          (if space_len s = 0 then fields_aux (c # acc) r
           else (if acc = [] then [] else [rev acc]) @ fields_aux [] (drop (space_len s) s)))"
  by pat_completeness auto
termination
  by (relation "measure (\<lambda>(acc, s). length s)") auto

declare fields_aux.simps [simp del]

definition str_fields :: "string \<Rightarrow> string list" where
  "str_fields s = fields_aux [] s"

text \<open>
  \<^verbatim>\<open>strings.ToLower\<close> and \<^verbatim>\<open>ToUpper\<close> on ASCII letters. The two letters beyond ASCII whose
  lower case is ASCII (the Kelvin sign and the dotted capital I) are mapped too, so that a
  comparison of the result with an ASCII literal has the outcome it has in Go; the other
  letters beyond ASCII keep their bytes.
\<close>

definition lower_char :: "char \<Rightarrow> char" where
  "lower_char c = (if is_upper c then char_of (of_char c + 32 :: nat) else c)"

definition upper_char :: "char \<Rightarrow> char" where
  "upper_char c = (if is_lower c then char_of (of_char c - 32 :: nat) else c)"

fun to_lower :: "string \<Rightarrow> string" where
  "to_lower [] = []"
| "to_lower [a] = [lower_char a]"
| "to_lower [a, b] =
     (if [a, b] = [CHR 0xC4, CHR 0xB0] then ''i'' else lower_char a # to_lower [b])"
| "to_lower (a # b # c # s) =
     (if [a, b] = [CHR 0xC4, CHR 0xB0] then CHR ''i'' # to_lower (c # s)
      else if [a, b, c] = [CHR 0xE2, CHR 0x84, CHR 0xAA] then CHR ''k'' # to_lower s
      else lower_char a # to_lower (b # c # s))"

text \<open>\<^verbatim>\<open>strings.ToUpper\<close>, with the two letters beyond ASCII whose upper case is ASCII (the
  dotless i and the long s).\<close>

fun to_upper :: "string \<Rightarrow> string" where
  "to_upper [] = []"
| "to_upper [a] = [upper_char a]"
| "to_upper (a # b # s) =
     (if [a, b] = [CHR 0xC4, CHR 0xB1] then CHR ''I'' # to_upper s
      else if [a, b] = [CHR 0xC5, CHR 0xBF] then CHR ''S'' # to_upper s
      else upper_char a # to_upper (b # s))"

subsection \<open>Numbers and formatting\<close>

fun digits_of :: "nat \<Rightarrow> string" where
  "digits_of n = (if n < 10 then [digit_char n] else digits_of (n div 10) @ [digit_char (n mod 10)])"

declare digits_of.simps [simp del]

text \<open>The verb \<^verbatim>\<open>%d\<close>, and \<^verbatim>\<open>strconv.Itoa\<close>.\<close>

definition itoa :: "int \<Rightarrow> string" where
  "itoa i = (if i < 0 then CHR ''-'' # digits_of (nat (- i)) else digits_of (nat i))"

definition digits_val :: "string \<Rightarrow> nat" where
  "digits_val s = foldl (\<lambda>a c. 10 * a + digit_val c) 0 s"

text \<open>
  \<^verbatim>\<open>strconv.ParseInt(s, 10, 64)\<close>, and \<^verbatim>\<open>strconv.Atoi\<close> where \<^verbatim>\<open>int\<close> has 64 bits: an
  optional sign, at least one digit, nothing else, and a value in range.
\<close>

definition sign_digits :: "string \<Rightarrow> bool \<times> string" where
  "sign_digits s =
     (case s of [] \<Rightarrow> (False, [])
      | c # r \<Rightarrow> (if c = CHR ''-'' then (True, r) else if c = CHR ''+'' then (False, r) else (False, s)))"

definition parse_int64 :: "string \<Rightarrow> int option" where
  "parse_int64 s =
     (let (neg, ds) = sign_digits s
      in if ds = [] \<or> \<not> list_all is_digit ds then None
         else let v = (if neg then - int (digits_val ds) else int (digits_val ds))
              in if - (2 ^ 63) \<le> v \<and> v < 2 ^ 63 then Some v else None)"

text \<open>
  The verb \<^verbatim>\<open>%q\<close> on bytes below 128, with Go's escapes; bytes from 128 on are passed through.
\<close>

definition hex_char :: "nat \<Rightarrow> char" where
  "hex_char d = (if d < 10 then char_of (48 + d) else char_of (87 + d))"

definition quote_char :: "char \<Rightarrow> string" where
  "quote_char c =
     (let n = (of_char c :: nat)
      in if c = DQ then [BSL, DQ] else if c = BSL then [BSL, BSL]
         else if n = 7 then BSL # ''a'' else if n = 8 then BSL # ''b''
         else if n = 12 then BSL # ''f'' else if n = 10 then BSL # ''n''
         else if n = 13 then BSL # ''r'' else if n = 9 then BSL # ''t''
         else if n = 11 then BSL # ''v''
         else if n < 32 \<or> n = 127 then BSL # ''x'' @ [hex_char (n div 16), hex_char (n mod 16)]
         else [c])"

definition quote :: "string \<Rightarrow> string" where
  "quote s = DQ # concat (map quote_char s) @ [DQ]"

text \<open>The \<^verbatim>\<open>NumError\<close> of the two functions.\<close>

definition num_error :: "string \<Rightarrow> string \<Rightarrow> goerr" where
  "num_error fn s =
     (let ds = snd (sign_digits s)
      in ErrMsg (''strconv.'' @ fn @ '': parsing '' @ quote s @ '': '' @
                 (if ds = [] \<or> \<not> list_all is_digit ds then ''invalid syntax'' else ''value out of range'')))"

text \<open>\<^verbatim>\<open>hex.EncodeToString\<close>.\<close>

definition hex_encode :: "string \<Rightarrow> string" where
  "hex_encode s =
     concat (map (\<lambda>c. [hex_char (of_char c div 16), hex_char (of_char c mod 16)]) s)"

text \<open>The operating systems the code distinguishes by \<^verbatim>\<open>runtime.GOOS\<close>.\<close>

datatype goos = Linux | Darwin | Windows | OtherOS string

section \<open>Lemmas\<close>

lemma error_msg_wrap [simp]: "error_msg (wrap p e) = p @ '': '' @ error_msg e"
  by (simp add: wrap_def)

lemma and_then_None [simp]: "and_then c r = None \<longleftrightarrow> c = None \<and> r = None"
  by (simp add: and_then_def split: option.splits)

lemma and_then_simps [simp]: "and_then None r = r" "and_then (Some e) r = Some e"
  by (simp_all add: and_then_def)

lemma bind_res_Inr [simp]: "bind_res r f = Inr y \<longleftrightarrow> (\<exists>x. r = Inr x \<and> f x = Inr y)"
  by (simp add: bind_res_def split: sum.splits)

lemma bind_res_simps [simp]: "bind_res (Inl e) f = Inl e" "bind_res (Inr x) f = f x"
  by (simp_all add: bind_res_def)

lemma check_res_Inr [simp]: "check_res c r = Inr y \<longleftrightarrow> c = None \<and> r = Inr y"
  by (simp add: check_res_def split: option.splits)

lemma check_res_simps [simp]: "check_res None r = r" "check_res (Some e) r = Inl e"
  by (simp_all add: check_res_def)

lemma guard_err_None [simp]: "guard_err b e = None \<longleftrightarrow> \<not> b"
  by (simp add: guard_err_def)

lemma guard_err_simps [simp]: "guard_err True e = Some e" "guard_err False e = None"
  by (simp_all add: guard_err_def)

lemma first_err_None: "first_err f xs = None \<longleftrightarrow> (\<forall>x \<in> set xs. f x = None)"
  by (induction xs) auto

lemma first_err_Some:
  "first_err f xs = Some e \<Longrightarrow> \<exists>x \<in> set xs. f x = Some e"
  by (induction xs) (auto simp: and_then_def split: option.splits)

lemma has_prefix_iff: "has_prefix s p \<longleftrightarrow> (\<exists>r. s = p @ r)"
  by (induction s p rule: has_prefix.induct) auto

lemma has_prefix_append [simp]: "has_prefix (p @ r) p"
  by (auto simp: has_prefix_iff)

lemma has_prefix_take: "has_prefix s p \<longleftrightarrow> take (length p) s = p"
  by (induction s p rule: has_prefix.induct) auto

lemma contains_str_iff: "contains_str s p \<longleftrightarrow> (\<exists>a b. s = a @ p @ b)"
proof (induction s)
  case (Cons c s)
  have "(\<exists>a b. c # s = a @ p @ b) \<longleftrightarrow> (\<exists>b. c # s = p @ b) \<or> (\<exists>a b. s = a @ p @ b)"
    by (metis append_Cons append_Nil list.exhaust list.inject)
  with Cons show ?case by (simp add: has_prefix_iff)
qed simp

lemma contains_any_iff: "contains_any s cs \<longleftrightarrow> (\<exists>c \<in> set s. c \<in> set cs)"
  by (auto simp: contains_any_def list_ex_iff)

lemma index_byte_Some:
  "index_byte s c = Some i \<Longrightarrow> i < length s \<and> s ! i = c \<and> c \<notin> set (take i s)"
  by (induction s arbitrary: i) (auto split: if_splits simp: nth_Cons')

lemma index_byte_None [simp]: "index_byte s c = None \<longleftrightarrow> c \<notin> set s"
  by (induction s) auto

lemma index_byte_append:
  "c \<notin> set a \<Longrightarrow> index_byte (a @ c # b) c = Some (length a)"
  by (induction a) auto

lemma split_on_nonempty [simp]: "split_on c s \<noteq> []"
  by (cases s) (auto split: list.splits)

lemma split_on_free: "c \<notin> set s \<Longrightarrow> split_on c s = [s]"
  by (induction s) auto

lemma split_on_append:
  "c \<notin> set a \<Longrightarrow> split_on c (a @ c # s) = a # split_on c s"
  by (induction a) auto

lemma split_on_parts_free: "l \<in> set (split_on c s) \<Longrightarrow> c \<notin> set l"
proof (induction s arbitrary: l)
  case (Cons x s)
  then show ?case
    by (cases "split_on c s") (auto split: if_splits)
qed simp

lemma set_split_on: "l \<in> set (split_on c s) \<Longrightarrow> set l \<subseteq> set s"
proof (induction s arbitrary: l)
  case (Cons x s)
  then show ?case
    by (cases "split_on c s") (auto split: if_splits, fastforce+)
qed simp

lemma join_Cons: "ls \<noteq> [] \<Longrightarrow> join sep (l # ls) = l @ sep @ join sep ls"
  by (cases ls) auto

lemma set_join: "set (join sep ls) \<subseteq> (\<Union>l \<in> set ls. set l) \<union> set sep"
  by (induction sep ls rule: join.induct) auto

text \<open>Splitting undoes joining when no part holds the separator.\<close>

lemma split_on_join:
  "ls \<noteq> [] \<Longrightarrow> \<forall>l \<in> set ls. c \<notin> set l \<Longrightarrow> split_on c (join [c] ls) = ls"
proof (induction ls rule: list_nonempty_induct)
  case (single l)
  then show ?case by (simp add: split_on_free)
next
  case (cons l ls)
  then show ?case by (simp add: join_Cons split_on_append)
qed

lemma set_drop_space: "set (drop_space f s) \<subseteq> set s"
proof (induction f s rule: drop_space.induct)
  case (1 f s)
  then show ?case
    using set_drop_subset [of "f s" s] by (subst drop_space.simps) auto
qed

lemma set_trim_left_space: "set (trim_left_space s) \<subseteq> set s"
  by (simp add: trim_left_space_def set_drop_space)

lemma set_trim_right_space: "set (trim_right_space s) \<subseteq> set s"
  using set_drop_space [of space_len_rev "rev s"] by (simp add: trim_right_space_def)

lemma set_trim_space: "set (trim_space s) \<subseteq> set s"
  using set_trim_left_space [of s] set_trim_right_space [of "trim_left_space s"]
  by (simp add: trim_space_def)

lemma is_digit_digit_char [simp]: "d < 10 \<Longrightarrow> is_digit (digit_char d)"
  by (simp add: is_digit_def digit_char_def)

lemma digit_val_digit_char [simp]: "d < 10 \<Longrightarrow> digit_val (digit_char d) = d"
  by (simp add: digit_val_def digit_char_def)

lemma digits_of_nonempty [simp]: "digits_of n \<noteq> []"
  by (subst digits_of.simps) simp

lemma digits_of_digits: "list_all is_digit (digits_of n)"
proof (induction n rule: digits_of.induct)
  case (1 n)
  then show ?case by (subst digits_of.simps) simp
qed

lemma digits_val_snoc [simp]: "digits_val (s @ [c]) = 10 * digits_val s + digit_val c"
  by (simp add: digits_val_def)

lemma digits_val_digits_of [simp]: "digits_val (digits_of n) = n"
proof (induction n rule: digits_of.induct)
  case (1 n)
  show ?case
  proof (cases "n < 10")
    case True
    then show ?thesis by (subst digits_of.simps) (simp add: digits_val_def)
  next
    case False
    with 1 have "digits_val (digits_of (n div 10)) = n div 10" by simp
    with False show ?thesis by (subst digits_of.simps) simp
  qed
qed

text \<open>The same digits by arithmetic on \<^typ>\<open>int\<close>, for evaluation.\<close>

function int_digits :: "int \<Rightarrow> string" where
  "int_digits i =
     (if i < 10 then [digit_char (nat i)] else int_digits (i div 10) @ [digit_char (nat (i mod 10))])"
  by pat_completeness auto
termination
  by (relation "measure nat") auto

declare int_digits.simps [simp del]

lemma int_digits_eq: "int_digits (int n) = digits_of n"
proof (induction n rule: digits_of.induct)
  case (1 n)
  then show ?case
    by (subst digits_of.simps, subst int_digits.simps) (simp add: zdiv_int zmod_int nat_mod_distrib)
qed

lemma itoa_code [code]:
  "itoa i = (if i < 0 then CHR ''-'' # int_digits (- i) else int_digits i)"
  using int_digits_eq [of "nat i"] int_digits_eq [of "nat (- i)"] by (cases "i < 0") (simp_all add: itoa_def)

lemma digits_of_set: "c \<in> set (digits_of n) \<Longrightarrow> is_digit c"
  using digits_of_digits by (auto simp: list_all_iff)

lemma is_digit_distinct [simp]:
  "\<not> is_digit (CHR ''-'')" "\<not> is_digit (CHR ''+'')" "\<not> is_digit (CHR '':'')"
  "\<not> is_digit (CHR ''.'')" "\<not> is_digit (CHR '' '')" "\<not> is_digit NL" "\<not> is_digit CR"
  by (simp_all add: is_digit_def NL_def CR_def)

lemma digits_of_hd: "digits_of n = c # r \<Longrightarrow> is_digit c"
  using digits_of_set [of c n] by simp

text \<open>Printing and parsing a 64-bit integer is the identity.\<close>

lemma parse_int64_itoa:
  assumes "- (2 ^ 63) \<le> i" "i < 2 ^ 63"
  shows "parse_int64 (itoa i) = Some i"
proof (cases "i < 0")
  case True
  then show ?thesis
    using assms digits_of_digits [of "nat (- i)"] by (simp add: itoa_def parse_int64_def sign_digits_def)
next
  case False
  obtain c r where cr: "digits_of (nat i) = c # r"
    by (cases "digits_of (nat i)") auto
  then have "is_digit c" by (rule digits_of_hd)
  then have "c \<noteq> CHR ''-''" "c \<noteq> CHR ''+''" by auto
  with False cr show ?thesis
    using assms digits_of_digits [of "nat i"] digits_val_digits_of [of "nat i"]
    by (simp add: itoa_def parse_int64_def sign_digits_def)
qed

subsection \<open>Strings without line breaks\<close>

definition clean :: "string \<Rightarrow> bool" where
  "clean s \<longleftrightarrow> NL \<notin> set s \<and> CR \<notin> set s"

lemma clean_append [simp]: "clean (a @ b) \<longleftrightarrow> clean a \<and> clean b"
  by (auto simp: clean_def)

lemma clean_Nil [simp]: "clean []"
  by (simp add: clean_def)

lemma clean_Cons [simp]: "clean (c # s) \<longleftrightarrow> c \<noteq> NL \<and> c \<noteq> CR \<and> clean s"
  by (auto simp: clean_def)

lemma clean_subset: "set t \<subseteq> set s \<Longrightarrow> clean s \<Longrightarrow> clean t"
  by (auto simp: clean_def)

lemma clean_itoa [clean_intro, simp]: "clean (itoa i)"
proof -
  have "clean (digits_of n)" for n
    using digits_of_set [of NL n] digits_of_set [of CR n] by (auto simp: clean_def)
  then show ?thesis by (simp add: itoa_def NL_def CR_def)
qed

lemma clean_join: "clean sep \<Longrightarrow> \<forall>l \<in> set ls. clean l \<Longrightarrow> clean (join sep ls)"
  by (induction sep ls rule: join.induct) auto

lemma NL_CR_literals [simp]: "NL \<noteq> CR" "CR \<noteq> NL"
  by (simp_all add: NL_def CR_def)

subsection \<open>Text without white space\<close>

text \<open>Characters that start no white space, and splitting text made of them.\<close>

definition graphic :: "char \<Rightarrow> bool" where
  "graphic c \<longleftrightarrow> 33 \<le> (of_char c :: nat) \<and> (of_char c :: nat) < 128"

lemma space_len_graphic: "graphic c \<Longrightarrow> space_len (c # r) = 0"
proof -
  assume "graphic c"
  moreover have "list_all (\<lambda>e. e \<noteq> [] \<and> \<not> graphic (hd e)) space_encodings"
    by (simp add: space_encodings_def graphic_def)
  ultimately have "\<not> has_prefix (c # r) e" if "e \<in> set space_encodings" for e
    using that by (cases e) (auto simp: list_all_iff)
  then have "find (has_prefix (c # r)) space_encodings = None" by (simp add: find_None_iff)
  then show ?thesis by (simp add: space_len_def)
qed

lemma space_len_blank: "space_len (CHR '' '' # r) = 1"
  by (simp add: space_len_def space_encodings_def)

lemma fields_aux_graphic:
  "\<forall>c \<in> set w. graphic c \<Longrightarrow> fields_aux acc (w @ s) = fields_aux (rev w @ acc) s"
proof (induction w arbitrary: acc)
  case (Cons c w)
  then have "fields_aux acc ((c # w) @ s) = fields_aux (c # acc) (w @ s)"
    by (subst fields_aux.simps) (simp add: space_len_graphic)
  with Cons show ?case by simp
qed simp

lemma fields_aux_blank:
  "acc \<noteq> [] \<Longrightarrow> fields_aux acc (CHR '' '' # s) = rev acc # fields_aux [] s"
  by (subst fields_aux.simps) (simp add: space_len_blank)

lemma str_fields_join:
  "\<forall>w \<in> set ws. w \<noteq> [] \<and> (\<forall>c \<in> set w. graphic c) \<Longrightarrow> str_fields (join '' '' ws) = ws"
proof (induction ws rule: induct_list012)
  case 1
  then show ?case by (simp add: str_fields_def fields_aux.simps)
next
  case (2 w)
  then show ?case
    using fields_aux_graphic [of w "[]" "[]"] by (simp add: str_fields_def fields_aux.simps [of "rev w"])
next
  case (3 w v ws)
  then have "fields_aux [] (w @ CHR '' '' # join '' '' (v # ws)) = w # fields_aux [] (join '' '' (v # ws))"
    by (simp add: fields_aux_graphic fields_aux_blank)
  with 3 show ?case by (simp add: str_fields_def)
qed

lemma digit_graphic: "is_digit c \<Longrightarrow> graphic c"
  by (simp add: is_digit_def graphic_def)

lemma itoa_graphic: "c \<in> set (itoa i) \<Longrightarrow> graphic c"
proof -
  assume "c \<in> set (itoa i)"
  then have "c = CHR ''-'' \<or> is_digit c"
    by (auto simp: itoa_def dest: digits_of_set split: if_splits)
  then show "graphic c" using digit_graphic by (auto simp: graphic_def)
qed

lemma itoa_nonempty [simp]: "itoa i \<noteq> []"
  by (simp add: itoa_def)

lemma index_str_skip:
  assumes "p \<noteq> []" "\<forall>c \<in> set a. c \<noteq> hd p"
  shows "index_str (a @ s) p = map_option (\<lambda>i. length a + i) (index_str s p)"
  using assms(2)
proof (induction a)
  case Nil
  show ?case by (cases "index_str s p") simp_all
next
  case (Cons c a)
  have "\<not> has_prefix (c # a @ s) p" using Cons.prems assms(1) by (cases p) auto
  with Cons show ?case by (cases "index_str s p") simp_all
qed

lemma index_str_here [simp]: "p \<noteq> [] \<Longrightarrow> index_str (p @ s) p = Some 0"
  by (cases p) (auto simp: has_prefix_iff)

lemma drop_prefix: "n = length a \<Longrightarrow> drop n (a @ b) = b"
  by simp

lemma hd_no_prefix: "e \<noteq> [] \<Longrightarrow> hd e \<noteq> c \<Longrightarrow> \<not> has_prefix (c # r) e"
  by (cases e) auto

lemma space_len_rev_graphic: "graphic c \<Longrightarrow> space_len_rev (c # r) = 0"
proof -
  assume c: "graphic c"
  define es where "es = map rev space_encodings"
  have es: "list_all (\<lambda>e. e \<noteq> [] \<and> \<not> graphic (hd e)) es"
    by (simp add: es_def space_encodings_def graphic_def)
  have "\<not> has_prefix (c # r) e" if "e \<in> set es" for e
    using that es c by (intro hd_no_prefix) (auto simp: list_all_iff)
  then have "find (has_prefix (c # r)) es = None" by (simp add: find_None_iff)
  then show ?thesis by (simp add: space_len_rev_def es_def)
qed

text \<open>Text that starts and ends with a visible character is left alone by \<^verbatim>\<open>TrimSpace\<close>.\<close>

lemma trim_space_graphic:
  assumes "s \<noteq> []" "graphic (hd s)" "graphic (last s)"
  shows "trim_space s = s"
proof -
  have "space_len s = 0" using assms space_len_graphic [of "hd s" "tl s"] by simp
  moreover have "space_len_rev (rev s) = 0"
    using assms space_len_rev_graphic [of "last s" "rev (butlast s)"]
    by (metis append_butlast_last_id rev.simps(2) rev_append rev_rev_ident singleton_rev_conv append_Cons append_Nil)
  ultimately show ?thesis
    by (simp add: trim_space_def trim_left_space_def trim_right_space_def drop_space.simps)
qed

lemma trim_space_Nil [simp]: "trim_space [] = []"
  by (simp add: trim_space_def trim_left_space_def trim_right_space_def drop_space.simps)

end
