(* ===== verification/Retry_Policy.thy ===== *)
theory Retry_Policy
  imports Go_Prelude
begin

text \<open>
  The lifecycle states and \<^verbatim>\<open>lifecycle/retry.go\<close>: the classification of errors, the
  decision to retry and the delay before it, and the policies. Durations are nanoseconds.
  The two products with a \<^verbatim>\<open>float64\<close> are computed exactly, and converted to a duration by
  truncation as the code does; the random number is an argument.
\<close>

section \<open>States\<close>

datatype State =
    StateInit | StateCheckPrivileges | StateSaveNetwork | StateCreateTAP | StateLaunchVM
  | StateWaitTAP | StateConfigureTAP | StateFlushDNS | StateWaitBootstrap | StateRunning
  | StateShutdown | StateRestoreNetwork | StateCleanup | StateFailed

text \<open>The value of the constant (\<^verbatim>\<open>iota\<close>), by which states are ordered.\<close>

fun state_index :: "State \<Rightarrow> nat" where
  "state_index StateInit = 0"
| "state_index StateCheckPrivileges = 1"
| "state_index StateSaveNetwork = 2"
| "state_index StateCreateTAP = 3"
| "state_index StateLaunchVM = 4"
| "state_index StateWaitTAP = 5"
| "state_index StateConfigureTAP = 6"
| "state_index StateFlushDNS = 7"
| "state_index StateWaitBootstrap = 8"
| "state_index StateRunning = 9"
| "state_index StateShutdown = 10"
| "state_index StateRestoreNetwork = 11"
| "state_index StateCleanup = 12"
| "state_index StateFailed = 13"

lemma state_index_inj [simp]: "state_index a = state_index b \<longleftrightarrow> a = b"
  by (cases a; cases b; simp)

instantiation State :: linorder
begin

definition less_eq_State :: "State \<Rightarrow> State \<Rightarrow> bool" where
  "less_eq_State a b \<longleftrightarrow> state_index a \<le> state_index b"

definition less_State :: "State \<Rightarrow> State \<Rightarrow> bool" where
  "less_State a b \<longleftrightarrow> state_index a < state_index b"

instance
  by standard (auto simp: less_eq_State_def less_State_def)

end

definition state_names :: "string list" where
  "state_names = [''Init'', ''CheckPrivileges'', ''SaveNetwork'', ''CreateTAP'', ''LaunchVM'', ''WaitTAP'',
     ''ConfigureTAP'', ''FlushDNS'', ''WaitBootstrap'', ''Running'', ''Shutdown'', ''RestoreNetwork'',
     ''Cleanup'', ''Failed'']"

definition state_string :: "State \<Rightarrow> string" where
  "state_string s = state_names ! state_index s"

lemma state_string_inj: "state_string a = state_string b \<longleftrightarrow> a = b"
  by (cases a; cases b; simp add: state_string_def state_names_def)

section \<open>Retry decisions\<close>

type_synonym duration = int

definition Millisecond :: duration where "Millisecond = 1000000"
definition Second :: duration where "Second = 1000000000"
definition Minute :: duration where "Minute = 60 * Second"

record RetryPolicy =
  MaxAttempts :: int
  BaseDelay :: duration
  MaxDelay :: duration
  JitterFactor :: real

datatype ErrorClass = Transient | Permanent

definition transientPatterns :: "string list" where
  "transientPatterns = [''resource temporarily unavailable'', ''address already in use'',
     ''connection refused'', ''connection reset'']"

definition permanentPatterns :: "string list" where
  "permanentPatterns = [''permission denied'', ''file not found'', ''no such file'', ''config validation'']"

definition ClassifyError :: "State \<Rightarrow> goerr option \<Rightarrow> ErrorClass" where
  "ClassifyError state err =
     (case err of
        None \<Rightarrow> Permanent
      | Some e \<Rightarrow>
          (if e = ErrDeadline then Transient
           else if list_ex (contains_str (error_msg e)) transientPatterns then Transient
           else if list_ex (contains_str (error_msg e)) permanentPatterns then Permanent
           else Transient))"

text \<open>The delay before jitter: the base delay doubled per attempt, capped.\<close>

definition backoff_delay :: "int \<Rightarrow> RetryPolicy \<Rightarrow> duration" where
  "backoff_delay attempt policy =
     (let delay = BaseDelay policy * 2 ^ nat attempt
      in if delay > MaxDelay policy then MaxDelay policy else delay)"

definition with_jitter :: "RetryPolicy \<Rightarrow> real \<Rightarrow> duration \<Rightarrow> duration" where
  "with_jitter policy r delay = \<lfloor>real_of_int delay * (1 + JitterFactor policy * r)\<rfloor>"

definition ShouldRetry ::
  "State \<Rightarrow> goerr option \<Rightarrow> int \<Rightarrow> RetryPolicy option \<Rightarrow> real \<Rightarrow> bool \<times> duration" where
  "ShouldRetry state err attempt policy r =
     (case policy of
        None \<Rightarrow> (False, 0)
      | Some p \<Rightarrow>
          (if attempt \<ge> MaxAttempts p then (False, 0)
           else if ClassifyError state err = Permanent then (False, 0)
           else (True, with_jitter p r (backoff_delay attempt p))))"

definition DefaultRetryPolicy :: "State \<Rightarrow> RetryPolicy option" where
  "DefaultRetryPolicy s =
     (case s of
        StateCreateTAP \<Rightarrow> Some \<lparr>MaxAttempts = 3, BaseDelay = 2 * Second, MaxDelay = 30 * Second, JitterFactor = 1 / 5\<rparr>
      | StateLaunchVM \<Rightarrow> Some \<lparr>MaxAttempts = 2, BaseDelay = 5 * Second, MaxDelay = 30 * Second, JitterFactor = 1 / 5\<rparr>
      | StateSaveNetwork \<Rightarrow> Some \<lparr>MaxAttempts = 2, BaseDelay = 1 * Second, MaxDelay = 10 * Second, JitterFactor = 1 / 10\<rparr>
      | StateConfigureTAP \<Rightarrow> Some \<lparr>MaxAttempts = 2, BaseDelay = 2 * Second, MaxDelay = 15 * Second, JitterFactor = 1 / 5\<rparr>
      | StateFlushDNS \<Rightarrow> Some \<lparr>MaxAttempts = 2, BaseDelay = 1 * Second, MaxDelay = 5 * Second, JitterFactor = 1 / 10\<rparr>
      | _ \<Rightarrow> None)"

section \<open>Lemmas\<close>

lemma DefaultRetryPolicy_bounds:
  "DefaultRetryPolicy s = Some p \<Longrightarrow>
   0 < MaxAttempts p \<and> MaxAttempts p \<le> 3 \<and> 0 < BaseDelay p \<and> BaseDelay p \<le> MaxDelay p
   \<and> 0 \<le> JitterFactor p \<and> JitterFactor p \<le> 1 / 5"
  by (cases s) (auto simp: DefaultRetryPolicy_def Second_def)

lemma ShouldRetry_attempt:
  "fst (ShouldRetry s err a (DefaultRetryPolicy s) r) \<Longrightarrow> a < 3"
  using DefaultRetryPolicy_bounds [of s]
  by (auto simp: ShouldRetry_def split: option.splits if_splits)

lemma backoff_bounds:
  assumes "0 < BaseDelay p" "BaseDelay p \<le> MaxDelay p"
  shows "BaseDelay p \<le> backoff_delay a p" "backoff_delay a p \<le> MaxDelay p"
proof -
  have "BaseDelay p * 1 \<le> BaseDelay p * 2 ^ nat a"
    using assms by (intro mult_left_mono) simp_all
  then show "BaseDelay p \<le> backoff_delay a p" "backoff_delay a p \<le> MaxDelay p"
    using assms by (simp_all add: backoff_delay_def Let_def)
qed

lemma jitter_bounds:
  assumes "0 \<le> JitterFactor p" "0 \<le> r" "r < 1" "0 \<le> d"
  shows "d \<le> with_jitter p r d" "real_of_int (with_jitter p r d) \<le> real_of_int d * (1 + JitterFactor p)"
proof -
  have *: "real_of_int d * 1 \<le> real_of_int d * (1 + JitterFactor p * r)"
    using assms by (intro mult_left_mono) simp_all
  then show "d \<le> with_jitter p r d" by (simp add: with_jitter_def le_floor_iff)
  have "real_of_int d * (1 + JitterFactor p * r) \<le> real_of_int d * (1 + JitterFactor p)"
    using assms by (intro mult_left_mono add_left_mono) (simp_all add: mult_left_le)
  moreover have "real_of_int (with_jitter p r d) \<le> real_of_int d * (1 + JitterFactor p * r)"
    by (simp add: with_jitter_def)
  ultimately show "real_of_int (with_jitter p r d) \<le> real_of_int d * (1 + JitterFactor p)" by linarith
qed

section \<open>Properties\<close>



end
