(* ===== verification/Go_Net.thy ===== *)
theory Go_Net
  imports Go_Prelude
begin

text \<open>
  The functions of Go's package \<^verbatim>\<open>net\<close> that the controller calls on addresses:
  \<^verbatim>\<open>ParseIP\<close> (by \<^verbatim>\<open>netip.ParseAddr\<close>, with its IPv4 and IPv6 parsers), \<^verbatim>\<open>IP.To4\<close>,
  \<^verbatim>\<open>IP.String\<close>, \<^verbatim>\<open>IPMask.Size\<close> and \<^verbatim>\<open>SplitHostPort\<close>. An \<^verbatim>\<open>IP\<close> is the list of its
  bytes, 16 of them as \<^verbatim>\<open>ParseIP\<close> returns it, or 4.
\<close>

type_synonym ip = "nat list"

subsection \<open>IPv4 fields\<close>

text \<open>
  The loop of \<^verbatim>\<open>parseIPv4Fields\<close>: \<open>prev_dot\<close> says that the byte before is a dot or that
  this is the first byte, \<open>dl\<close> is the number of digits of the current octet, \<open>fs\<close> the
  octets so far, last first.
\<close>

fun ipv4_loop :: "bool \<Rightarrow> nat \<Rightarrow> nat \<Rightarrow> nat list \<Rightarrow> string \<Rightarrow> nat list option" where
  "ipv4_loop prev_dot dl v fs [] =
     (if length fs < 3 then None else Some (rev (v # fs)))"
| "ipv4_loop prev_dot dl v fs (c # s) =
     (if is_digit c then
        (if dl = 1 \<and> v = 0 then None
         else let v' = 10 * v + digit_val c
              in if v' > 255 then None else ipv4_loop False (Suc dl) v' fs s)
      else if c = CHR ''.'' then
        (if prev_dot \<or> s = [] then None
         else if length fs = 3 then None
         else ipv4_loop True 0 0 (v # fs) s)
      else None)"

definition ipv4_fields :: "string \<Rightarrow> nat list option" where
  "ipv4_fields s = ipv4_loop True 0 0 [] s"

subsection \<open>IPv6\<close>

definition hex_val :: "char \<Rightarrow> nat" where
  "hex_val c = (if is_digit c then digit_val c
                else if 97 \<le> (of_char c :: nat) then of_char c - 87 else of_char c - 55)"

definition hex_run :: "string \<Rightarrow> string" where
  "hex_run s = takeWhile is_hex s"

definition hex_value :: "string \<Rightarrow> nat" where
  "hex_value s = foldl (\<lambda>a c. 16 * a + hex_val c) 0 s"

text \<open>
  The loop of \<^verbatim>\<open>parseIPv6\<close>: \<open>bs\<close> holds the bytes so far (its length is the loop's
  \<^verbatim>\<open>i\<close>), \<open>ell\<close> the position of the ellipsis. The result is the bytes, the ellipsis and
  the unread rest.
\<close>

function ipv6_loop :: "nat list \<Rightarrow> nat option \<Rightarrow> string \<Rightarrow> (nat list \<times> nat option \<times> string) option" where
  "ipv6_loop bs ell s =
     (if length bs \<ge> 16 then Some (bs, ell, s)
      else let ds = hex_run s; off = length ds; acc = hex_value ds; r = drop off s
      in if off > 4 then None
         else if off = 0 then None
         else if r \<noteq> [] \<and> hd r = CHR ''.'' then
           (if ell = None \<and> length bs \<noteq> 12 then None
            else if length bs + 4 > 16 then None
            else (case ipv4_fields s of None \<Rightarrow> None | Some fs \<Rightarrow> Some (bs @ fs, ell, [])))
         else let bs' = bs @ [acc div 256, acc mod 256]
         in if r = [] then Some (bs', ell, [])
            else if hd r \<noteq> CHR '':'' then None
            else if tl r = [] then None
            else if hd (tl r) = CHR '':'' then
              (if ell \<noteq> None then None
               else if tl (tl r) = [] then Some (bs', Some (length bs'), [])
               else ipv6_loop bs' (Some (length bs')) (tl (tl r)))
            else ipv6_loop bs' ell (tl r))"
  by pat_completeness auto
termination
  by (relation "measure (\<lambda>(bs, ell, s). 16 - length bs)") auto

declare ipv6_loop.simps [simp del]

definition ipv6_finish :: "(nat list \<times> nat option \<times> string) option \<Rightarrow> ip option" where
  "ipv6_finish r =
     (case r of None \<Rightarrow> None
      | Some (bs, ell, rest) \<Rightarrow>
          (if rest \<noteq> [] then None
           else if length bs < 16 then
             (case ell of None \<Rightarrow> None
              | Some e \<Rightarrow> Some (take e bs @ replicate (16 - length bs) 0 @ drop e bs))
           else if ell \<noteq> None then None
           else Some bs))"

text \<open>
  A string with \<^verbatim>\<open>%\<close> has a zone or is malformed, and \<^verbatim>\<open>ParseIP\<close> refuses both.
\<close>

definition parse_ipv6 :: "string \<Rightarrow> ip option" where
  "parse_ipv6 s =
     (if CHR ''%'' \<in> set s then None
      else if has_prefix s ''::'' then
        (if drop 2 s = [] then Some (replicate 16 0)
         else ipv6_finish (ipv6_loop [] (Some 0) (drop 2 s)))
      else ipv6_finish (ipv6_loop [] None s))"

definition v4_in_v6 :: "nat list \<Rightarrow> ip" where
  "v4_in_v6 fs = replicate 10 0 @ [255, 255] @ fs"

definition parse_ip :: "string \<Rightarrow> ip option" where
  "parse_ip s =
     (case find (\<lambda>c. c = CHR ''.'' \<or> c = CHR '':'' \<or> c = CHR ''%'') s of
        None \<Rightarrow> None
      | Some c \<Rightarrow>
          (if c = CHR ''.'' then map_option v4_in_v6 (ipv4_fields s)
           else if c = CHR '':'' then parse_ipv6 s
           else None))"

subsection \<open>Operations on addresses\<close>

definition to4 :: "ip \<Rightarrow> nat list option" where
  "to4 a = (if length a = 4 then Some a
            else if length a = 16 \<and> take 12 a = replicate 10 0 @ [255, 255] then Some (drop 12 a)
            else None)"

fun hex_digits :: "nat \<Rightarrow> string" where
  "hex_digits n = (if n < 16 then [hex_char n] else hex_digits (n div 16) @ [hex_char (n mod 16)])"

declare hex_digits.simps [simp del]

fun groups16 :: "nat list \<Rightarrow> nat list" where
  "groups16 (a # b # r) = (256 * a + b) # groups16 r"
| "groups16 _ = []"

text \<open>
  \<^verbatim>\<open>IP.String\<close>: dotted decimal for IPv4, otherwise the eight groups with the longest run
  of at least two zero groups (the first of them) replaced by \<^verbatim>\<open>::\<close>; another length is
  printed with a leading \<^verbatim>\<open>?\<close>, and the empty one as \<^verbatim>\<open><nil>\<close>.
\<close>

definition zero_run_at :: "nat list \<Rightarrow> nat \<Rightarrow> nat" where
  "zero_run_at gs i = length (takeWhile (\<lambda>g. g = 0) (drop i gs))"

definition best_zero_run :: "nat list \<Rightarrow> (nat \<times> nat) option" where
  "best_zero_run gs =
     foldl (\<lambda>best i. let n = zero_run_at gs i
                     in if n \<ge> 2 \<and> (case best of None \<Rightarrow> True | Some (_, m) \<Rightarrow> n > m)
                        then Some (i, n) else best) None [0..<length gs]"

definition v6_string :: "nat list \<Rightarrow> string" where
  "v6_string gs =
     (case best_zero_run gs of
        None \<Rightarrow> join '':'' (map hex_digits gs)
      | Some (i, n) \<Rightarrow> join '':'' (map hex_digits (take i gs)) @ ''::''
                        @ join '':'' (map hex_digits (drop (i + n) gs)))"

definition v4_string :: "nat list \<Rightarrow> string" where
  "v4_string fs = join ''.'' (map digits_of fs)"

definition ip_string :: "ip \<Rightarrow> string" where
  "ip_string a =
     (if a = [] then ''<nil>''
      else case to4 a of
        Some fs \<Rightarrow> v4_string fs
      | None \<Rightarrow> (if length a = 16 then v6_string (groups16 a)
                 else CHR ''?'' # hex_encode (map char_of a)))"

text \<open>
  \<^verbatim>\<open>IPMask.Size\<close> is the number of leading one bits of a canonical mask of 4 or 16 bytes,
  and 0 for any other mask.
\<close>

definition mask_bits :: "nat list \<Rightarrow> bool list" where
  "mask_bits m = concat (map (\<lambda>b. map (\<lambda>i. odd (b div 2 ^ (7 - i))) [0..<8]) m)"

definition mask_ones :: "nat list \<Rightarrow> nat" where
  "mask_ones m =
     (let ones = length (takeWhile id (mask_bits m))
      in if list_all Not (drop ones (mask_bits m)) then ones else 0)"

text \<open>\<^verbatim>\<open>net.SplitHostPort\<close>: host and port, or the reason there is none.\<close>

definition last_index_byte :: "string \<Rightarrow> char \<Rightarrow> nat option" where
  "last_index_byte s c = map_option (\<lambda>i. length s - 1 - i) (index_byte (rev s) c)"

definition addr_err :: "string \<Rightarrow> string \<Rightarrow> goerr" where
  "addr_err why a = ErrMsg (''address '' @ a @ '': '' @ why)"

definition split_host_port :: "string \<Rightarrow> (string \<times> string) res" where
  "split_host_port hp =
     (case last_index_byte hp (CHR '':'') of
        None \<Rightarrow> Inl (addr_err ''missing port in address'' hp)
      | Some i \<Rightarrow>
          (if hp \<noteq> [] \<and> hd hp = CHR ''['' then
             (case index_byte hp (CHR '']'') of
                None \<Rightarrow> Inl (addr_err (''missing '' @ [CHR 0x27] @ '']'' @ [CHR 0x27] @ '' in address'') hp)
              | Some e \<Rightarrow>
                  (if Suc e = length hp then Inl (addr_err ''missing port in address'' hp)
                   else if Suc e \<noteq> i then
                     (if hp ! Suc e = CHR '':'' then Inl (addr_err ''too many colons in address'' hp)
                      else Inl (addr_err ''missing port in address'' hp))
                   else if CHR ''['' \<in> set (drop 1 hp) then
                     Inl (addr_err (''unexpected '' @ [CHR 0x27] @ ''['' @ [CHR 0x27] @ '' in address'') hp)
                   else if CHR '']'' \<in> set (drop (Suc e) hp) then
                     Inl (addr_err (''unexpected '' @ [CHR 0x27] @ '']'' @ [CHR 0x27] @ '' in address'') hp)
                   else Inr (take (e - 1) (drop 1 hp), drop (Suc i) hp)))
           else if CHR '':'' \<in> set (take i hp) then Inl (addr_err ''too many colons in address'' hp)
           else if CHR ''['' \<in> set hp then
             Inl (addr_err (''unexpected '' @ [CHR 0x27] @ ''['' @ [CHR 0x27] @ '' in address'') hp)
           else if CHR '']'' \<in> set hp then
             Inl (addr_err (''unexpected '' @ [CHR 0x27] @ '']'' @ [CHR 0x27] @ '' in address'') hp)
           else Inr (take i hp, drop (Suc i) hp)))"

section \<open>Lemmas\<close>

definition ip_char :: "char \<Rightarrow> bool" where
  "ip_char c \<longleftrightarrow> is_hex c \<or> c = CHR ''.'' \<or> c = CHR '':''"

lemma ip_char_not_break: "ip_char c \<Longrightarrow> c \<noteq> NL \<and> c \<noteq> CR"
  by (auto simp: ip_char_def is_hex_def is_digit_def NL_def CR_def)

lemma ipv4_loop_chars:
  "ipv4_loop pd dl v fs s = Some r \<Longrightarrow> \<forall>c \<in> set s. ip_char c"
  by (induction pd dl v fs s rule: ipv4_loop.induct)
     (auto simp: ip_char_def is_hex_def Let_def split: if_splits)

lemma ipv4_loop_ok:
  "ipv4_loop pd dl v fs s = Some r \<Longrightarrow> length fs \<le> 3 \<Longrightarrow> v \<le> 255 \<Longrightarrow> \<forall>f \<in> set fs. f \<le> 255 \<Longrightarrow>
   length r = 4 \<and> (\<forall>f \<in> set r. f \<le> 255)"
proof (induction s arbitrary: pd dl v fs)
  case Nil
  then have "length fs = 3" "r = rev (v # fs)" by (simp_all split: if_splits)
  with Nil.prems show ?case by auto
next
  case (Cons c s)
  show ?case
  proof (cases "is_digit c")
    case True
    with Cons.prems(1) have "ipv4_loop False (Suc dl) (10 * v + digit_val c) fs s = Some r"
      and "10 * v + digit_val c \<le> 255"
      by (simp_all add: Let_def split: if_splits)
    with Cons.IH Cons.prems show ?thesis by blast
  next
    case False
    with Cons.prems(1) have "ipv4_loop True 0 0 (v # fs) s = Some r" and "length fs \<noteq> 3"
      by (simp_all split: if_splits)
    with Cons.IH [of True 0 0 "v # fs"] Cons.prems show ?thesis by simp
  qed
qed

lemma ipv4_fields_ok: "ipv4_fields s = Some r \<Longrightarrow> length r = 4 \<and> (\<forall>f \<in> set r. f \<le> 255)"
  unfolding ipv4_fields_def by (erule ipv4_loop_ok) simp_all

lemma hex_run_split: "s = hex_run s @ drop (length (hex_run s)) s"
  by (metis hex_run_def takeWhile_dropWhile_id dropWhile_eq_drop)

lemma hex_run_chars: "c \<in> set (hex_run s) \<Longrightarrow> ip_char c"
  using set_takeWhileD [of c is_hex s] by (auto simp: hex_run_def ip_char_def)

text \<open>One round of the IPv6 loop, as the cases in which it gives a result.\<close>

lemma ipv6_loop_cases:
  assumes "ipv6_loop bs ell s = Some x"
  defines "r \<equiv> drop (length (hex_run s)) s"
  defines "bs' \<equiv> bs @ [hex_value (hex_run s) div 256, hex_value (hex_run s) mod 256]"
  obtains (full) "length bs \<ge> 16" "x = (bs, ell, s)"
  | (v4) fs where "length bs < 16" "length bs + 4 \<le> 16" "ipv4_fields s = Some fs" "x = (bs @ fs, ell, [])"
  | (last) "length bs < 16" "r = []" "x = (bs', ell, [])"
  | (ell_last) "length bs < 16" "r = '':''  @ '':'' @ []" "x = (bs', Some (length bs'), [])"
  | (ell) q where "length bs < 16" "r = CHR '':'' # CHR '':'' # q" "ipv6_loop bs' (Some (length bs')) q = Some x"
  | (group) q where "length bs < 16" "r = CHR '':'' # q" "ipv6_loop bs' ell q = Some x"
proof -
  have eq: "ipv6_loop bs ell s = Some x" by (rule assms(1))
  show thesis
  proof (cases "length bs \<ge> 16")
    case True
    with eq show thesis by (intro full) (simp_all add: ipv6_loop.simps [of bs ell s])
  next
    case False
    note eq' = eq [unfolded ipv6_loop.simps [of bs ell s] Let_def, folded r_def bs'_def]
    show thesis
    proof (cases "r \<noteq> [] \<and> hd r = CHR ''.''")
      case True
      with eq' False obtain fs where "ipv4_fields s = Some fs" "length bs + 4 \<le> 16" "x = (bs @ fs, ell, [])"
        by (auto split: if_splits option.splits)
      with False show thesis by (intro v4) simp_all
    next
      case nodot: False
      show thesis
      proof (cases r)
        case Nil
        with eq' False show thesis by (intro last) (simp_all split: if_splits)
      next
        case (Cons c q)
        with eq' False nodot have c: "c = CHR '':''" "q \<noteq> []" by (simp_all split: if_splits)
        then obtain d t where q: "q = d # t" by (cases q) auto
        show thesis
        proof (cases "d = CHR '':''")
          case True
          with eq' False Cons c q show thesis
            by (cases "t = []") (intro ell_last ell, simp_all split: if_splits)+
        next
          case False
          with eq' \<open>\<not> length bs \<ge> 16\<close> Cons c q show thesis
            by (intro group) (simp_all split: if_splits)
        qed
      qed
    qed
  qed
qed

lemma ipv6_loop_chars:
  "ipv6_loop bs ell s = Some (bs', ell', []) \<Longrightarrow> \<forall>c \<in> set s. ip_char c"
proof (induction "16 - length bs" arbitrary: bs ell s rule: less_induct)
  case less
  have hs: "\<forall>c \<in> set s. ip_char c" if "\<forall>c \<in> set (drop (length (hex_run s)) s). ip_char c"
    using that hex_run_split [of s] hex_run_chars [of _ s] by (metis Un_iff set_append)
  have dc: "ip_char (CHR '':'')" by (simp add: ip_char_def)
  from less.prems show ?case
  proof (cases rule: ipv6_loop_cases)
    case full
    then show ?thesis by simp
  next
    case v4
    then show ?thesis by (auto simp: ipv4_fields_def dest: ipv4_loop_chars)
  next
    case last
    then show ?thesis by (intro hs) simp
  next
    case ell_last
    then show ?thesis using dc by (intro hs) simp
  next
    case (ell q)
    from ell have "\<forall>c \<in> set q. ip_char c" by (intro less.hyps [OF _ ell(3)]) simp
    with ell dc show ?thesis by (intro hs) simp
  next
    case (group q)
    from group have "\<forall>c \<in> set q. ip_char c" by (intro less.hyps [OF _ group(3)]) simp
    with group dc show ?thesis by (intro hs) simp
  qed
qed

lemma ipv6_finish_chars:
  "ipv6_finish (ipv6_loop bs ell s) = Some a \<Longrightarrow> \<forall>c \<in> set s. ip_char c"
  using ipv6_loop_chars [of bs ell s]
  by (auto simp: ipv6_finish_def split: option.splits if_splits)

lemma parse_ipv6_chars: "parse_ipv6 s = Some a \<Longrightarrow> \<forall>c \<in> set s. ip_char c"
proof -
  assume a: "parse_ipv6 s = Some a"
  have dc: "ip_char (CHR '':'')" by (simp add: ip_char_def)
  show ?thesis
  proof (cases "has_prefix s ''::''")
    case True
    then obtain r where s: "s = ''::'' @ r" by (auto simp: has_prefix_iff)
    with a dc show ?thesis
      by (auto simp: parse_ipv6_def dest: ipv6_finish_chars split: if_splits)
  next
    case False
    with a show ?thesis by (auto simp: parse_ipv6_def dest: ipv6_finish_chars split: if_splits)
  qed
qed

text \<open>What \<^verbatim>\<open>ParseIP\<close> accepts is made of hexadecimal digits, dots and colons.\<close>

lemma parse_ip_chars: "parse_ip s = Some a \<Longrightarrow> \<forall>c \<in> set s. ip_char c"
  by (auto simp: parse_ip_def ipv4_fields_def
           dest: parse_ipv6_chars ipv4_loop_chars split: option.splits if_splits)

lemma parse_ip_clean: "parse_ip s = Some a \<Longrightarrow> clean s"
  using parse_ip_chars [of s a] ip_char_not_break by (auto simp: clean_def)

end
