(* ===== verification/Config_Model.thy ===== *)
theory Config_Model
  imports Go_Net
begin

text \<open>
  Package \<^verbatim>\<open>config\<close>: the configuration records, \<^verbatim>\<open>DefaultConfig\<close>, \<^verbatim>\<open>Validate\<close>, \<^verbatim>\<open>Load\<close>,
  the schema migration and \<^verbatim>\<open>Diff\<close>. Fields keep the source's names, with a prefix for
  the fields of the nested structs (\<open>br_\<close>, \<open>px_\<close>, \<open>rt_\<close>, \<open>sv_\<close>, \<open>en_\<close>, \<open>vc_\<close>, \<open>fhe_\<close>, \<open>bw_\<close>, \<open>rl_\<close>).
  A slice is an optional list because \<^verbatim>\<open>reflect.DeepEqual\<close> tells a nil slice from an
  empty one. Integers are only compared and printed, so they are unbounded.
\<close>

section \<open>Data\<close>

type_synonym slice = "string list option"

definition elems :: "slice \<Rightarrow> string list" where
  "elems s = (case s of None \<Rightarrow> [] | Some xs \<Rightarrow> xs)"

record BridgeConfig =
  br_UseBridges :: bool
  br_Transport :: string
  br_Bridges :: slice

record ProxyConfig =
  px_Type :: string
  px_Address :: string
  px_Username :: string
  px_Password :: string

record RetryConfig =
  rt_Enabled :: bool
  rt_MaxAttempts :: int

record ServiceConfig =
  sv_RunAtLoad :: bool

record EntropyConfig =
  en_EnableHaveged :: bool
  en_EnableRngd :: bool
  en_ExposeRDRAND :: bool
  en_SerialEntropyDevice :: string
  en_VirtioRNGMaxBytes :: int
  en_VirtioRNGPeriod :: int
  en_KernelEntropyBytes :: int

record VectorConfig =
  vc_Enabled :: bool
  vc_IndexDir :: string
  vc_Dimension :: int
  vc_ModelPath :: string
  vc_HNSWm :: int
  vc_HNSWefConstruct :: int
  vc_HNSWefSearch :: int
  vc_SearchMode :: string
  vc_TopK :: int

record FHEConfig =
  fhe_Enabled :: bool
  fhe_IndexDir :: string
  fhe_DocumentDirs :: slice
  fhe_ShareEnabled :: bool
  fhe_HiddenServicePort :: int
  fhe_Peers :: slice
  fhe_RingDegree :: int
  fhe_AutoIndex :: bool
  fhe_AutoIndexInterval :: int
  fhe_MaxIndexSizeMB :: int

record BrowserConfig =
  bw_Enabled :: bool
  bw_VMMemoryMB :: int
  bw_VMCPUs :: int
  bw_KernelPath :: string
  bw_InitrdPath :: string
  bw_StateDiskPath :: string
  bw_QMPSocketPath :: string
  bw_VNCDisplay :: int
  bw_AutoStart :: bool
  bw_CanaryIntervalSec :: int
  bw_HoneyTokens :: bool
  bw_AutoRemediate :: bool

record RelayConfig =
  rl_ExcludeNodes :: slice
  rl_ExcludeExitNodes :: slice
  rl_StrictNodes :: bool

record Config =
  Version :: int
  TAPName :: string
  HostIP :: string
  VMIP :: string
  SubnetMask :: string
  DNS1 :: string
  DNS2 :: string
  SOCKSPort :: int
  ControlPort :: int
  TransPort :: int
  DNSPort :: int
  VMMemoryMB :: int
  VMCPUs :: int
  KernelPath :: string
  InitrdPath :: string
  StateDiskPath :: string
  QMPSocketPath :: string
  Verbose :: bool
  Accel :: string
  Headless :: bool
  VhostNet :: bool
  IOMMUEnabled :: bool
  Bridge :: BridgeConfig
  Proxy :: ProxyConfig
  Service :: ServiceConfig
  Retry :: RetryConfig
  Entropy :: EntropyConfig
  Relays :: RelayConfig
  Browser :: BrowserConfig
  FHE :: FHEConfig
  Vector :: VectorConfig

section \<open>Defaults\<close>

text \<open>\<^verbatim>\<open>filepath.Join\<close> on non-empty clean elements, which is all the code passes to it here.\<close>

definition path_sep :: "goos \<Rightarrow> char" where
  "path_sep os = (if os = Windows then BSL else CHR ''/'')"

definition filepath_join :: "goos \<Rightarrow> string list \<Rightarrow> string" where
  "filepath_join os ps = join [path_sep os] ps"

definition pipe_path :: "string \<Rightarrow> string" where
  "pipe_path n = [BSL, BSL] @ ''.'' @ [BSL] @ ''pipe'' @ [BSL] @ n"

definition defaultQMPPath :: "goos \<Rightarrow> string" where
  "defaultQMPPath os =
     (if os = Windows then pipe_path ''torvm-qmp'' else ''/run/torvm/qmp.sock'')"

definition defaultBrowserQMPPath :: "goos \<Rightarrow> string" where
  "defaultBrowserQMPPath os =
     (if os = Windows then pipe_path ''torvm-browser-qmp'' else ''/run/torvm/browser-qmp.sock'')"

text \<open>Fields the composite literal leaves out have the zero value of their type.\<close>

definition DefaultConfig :: "goos \<Rightarrow> Config" where
  "DefaultConfig os =
     \<lparr>Version = 0,
      TAPName = (if os = Windows then ''TorVM Tap'' else ''torvm0''),
      HostIP = ''10.10.10.2'', VMIP = ''10.10.10.1'', SubnetMask = ''255.255.255.252'',
      DNS1 = ''4.2.2.4'', DNS2 = ''4.2.2.2'',
      SOCKSPort = 9050, ControlPort = 9051, TransPort = 9095, DNSPort = 9093,
      VMMemoryMB = 128, VMCPUs = 2,
      KernelPath = filepath_join os [''dist'', ''vm'', ''vmlinuz''],
      InitrdPath = filepath_join os [''dist'', ''vm'', ''initramfs.gz''],
      StateDiskPath = filepath_join os [''dist'', ''vm'', ''state.img''],
      QMPSocketPath = defaultQMPPath os,
      Verbose = False, Accel = '''', Headless = False, VhostNet = False, IOMMUEnabled = False,
      Bridge = \<lparr>br_UseBridges = False, br_Transport = '''', br_Bridges = None\<rparr>,
      Proxy = \<lparr>px_Type = '''', px_Address = '''', px_Username = '''', px_Password = ''''\<rparr>,
      Service = \<lparr>sv_RunAtLoad = False\<rparr>,
      Retry = \<lparr>rt_Enabled = True, rt_MaxAttempts = 3\<rparr>,
      Entropy = \<lparr>en_EnableHaveged = True, en_EnableRngd = True, en_ExposeRDRAND = True,
                 en_SerialEntropyDevice = '''', en_VirtioRNGMaxBytes = 1024,
                 en_VirtioRNGPeriod = 1000, en_KernelEntropyBytes = 64\<rparr>,
      Relays = \<lparr>rl_ExcludeNodes = None, rl_ExcludeExitNodes = None, rl_StrictNodes = False\<rparr>,
      Browser = \<lparr>bw_Enabled = False, bw_VMMemoryMB = 512, bw_VMCPUs = 2,
                 bw_KernelPath = filepath_join os [''dist'', ''browservm'', ''vmlinuz''],
                 bw_InitrdPath = filepath_join os [''dist'', ''browservm'', ''initramfs.gz''],
                 bw_StateDiskPath = filepath_join os [''dist'', ''browservm'', ''state.img''],
                 bw_QMPSocketPath = defaultBrowserQMPPath os,
                 bw_VNCDisplay = 1, bw_AutoStart = True, bw_CanaryIntervalSec = 5,
                 bw_HoneyTokens = True, bw_AutoRemediate = True\<rparr>,
      FHE = \<lparr>fhe_Enabled = False, fhe_IndexDir = filepath_join os [''dist'', ''fhe''],
             fhe_DocumentDirs = None, fhe_ShareEnabled = False, fhe_HiddenServicePort = 8443,
             fhe_Peers = None, fhe_RingDegree = 12, fhe_AutoIndex = False,
             fhe_AutoIndexInterval = 60, fhe_MaxIndexSizeMB = 512\<rparr>,
      Vector = \<lparr>vc_Enabled = False, vc_IndexDir = filepath_join os [''dist'', ''vector''],
                vc_Dimension = 128, vc_ModelPath = '''', vc_HNSWm = 16,
                vc_HNSWefConstruct = 200, vc_HNSWefSearch = 50, vc_SearchMode = ''hybrid'',
                vc_TopK = 10\<rparr>\<rparr>"

section \<open>Validation\<close>

text \<open>
  The two patterns for TAP names: a letter followed by at most 14 letters or digits, and on
  Windows a letter followed by at most 63 letters, digits, spaces or hyphens. In a Go
  expression \<^verbatim>\<open>$\<close> matches at the end of the text only.
\<close>

definition match_name :: "(char \<Rightarrow> bool) \<Rightarrow> nat \<Rightarrow> string \<Rightarrow> bool" where
  "match_name p n s =
     (case s of [] \<Rightarrow> False | c # r \<Rightarrow> is_alpha c \<and> list_all p r \<and> length r \<le> n)"

definition tapNameUnixRe :: "string \<Rightarrow> bool" where
  "tapNameUnixRe s = match_name (\<lambda>c. is_alnum c) 14 s"

definition tapNameWindowsRe :: "string \<Rightarrow> bool" where
  "tapNameWindowsRe s = match_name (\<lambda>c. is_alnum c \<or> c = CHR '' '' \<or> c = CHR ''-'') 63 s"

definition validateTAPName :: "goos \<Rightarrow> string \<Rightarrow> goerr option" where
  "validateTAPName os name =
     (if name = [] then Some (ErrMsg ''TAPName must not be empty'')
      else if os = Windows then
        guard_err (\<not> tapNameWindowsRe name)
          (ErrMsg (''TAPName '' @ quote name @ '' does not match allowed pattern (letters, digits, spaces, hyphens; max 64 chars)''))
      else
        guard_err (\<not> tapNameUnixRe name)
          (ErrMsg (''TAPName '' @ quote name @ '' does not match allowed pattern (letter followed by up to 14 alphanumeric chars)'')))"

definition validatePort :: "string \<Rightarrow> int \<Rightarrow> goerr option" where
  "validatePort name port =
     guard_err (port < 1 \<or> port > 65535) (ErrMsg (name @ '' must be 1-65535, got '' @ itoa port))"

text \<open>The repeated form \<^verbatim>\<open>if v < lo || v > hi { return ... got %d }\<close>.\<close>

definition check_range :: "string \<Rightarrow> int \<Rightarrow> int \<Rightarrow> int \<Rightarrow> goerr option" where
  "check_range what lo hi v =
     guard_err (v < lo \<or> v > hi) (ErrMsg (what @ '', got '' @ itoa v))"

text \<open>The repeated form \<^verbatim>\<open>switch v { case ...: default: return ... }\<close>.\<close>

definition check_member :: "string \<Rightarrow> string list \<Rightarrow> string \<Rightarrow> goerr option" where
  "check_member name allowed v =
     guard_err (v \<notin> set allowed) (ErrMsg (''invalid '' @ name @ '': '' @ quote v))"

definition check_nonempty :: "(string \<times> string) list \<Rightarrow> goerr option" where
  "check_nonempty ps =
     first_err (\<lambda>(name, val). guard_err (val = []) (ErrMsg (name @ '' must not be empty''))) ps"

definition validate_ips :: "Config \<Rightarrow> goerr option" where
  "validate_ips c =
     first_err (\<lambda>(name, val). guard_err (parse_ip val = None)
                  (ErrMsg (''invalid IP for '' @ name @ '': '' @ quote val)))
       [(''HostIP'', HostIP c), (''VMIP'', VMIP c), (''SubnetMask'', SubnetMask c),
        (''DNS1'', DNS1 c), (''DNS2'', DNS2 c)]"

definition validate_vm :: "goos \<Rightarrow> Config \<Rightarrow> goerr option" where
  "validate_vm os c =
     and_then (validatePort ''SOCKSPort'' (SOCKSPort c))
    (and_then (validatePort ''ControlPort'' (ControlPort c))
    (and_then (validatePort ''TransPort'' (TransPort c))
    (and_then (validatePort ''DNSPort'' (DNSPort c))
    (and_then (check_range ''VMMemoryMB must be 32-4096'' 32 4096 (VMMemoryMB c))
    (and_then (check_range ''VMCPUs must be 1-16'' 1 16 (VMCPUs c))
    (and_then (check_nonempty [(''KernelPath'', KernelPath c), (''InitrdPath'', InitrdPath c),
                 (''StateDiskPath'', StateDiskPath c), (''QMPSocketPath'', QMPSocketPath c)])
    (and_then (validateTAPName os (TAPName c))
    (and_then (check_member ''Accel'' ['''', ''kvm'', ''hvf'', ''whpx'', ''tcg''] (Accel c))
    (and_then (check_member ''Proxy.Type'' ['''', ''http'', ''https'', ''socks5''] (px_Type (Proxy c)))
              (check_member ''Bridge.Transport'' ['''', ''none'', ''obfs4'', ''meek-azure'', ''snowflake'']
                 (br_Transport (Bridge c))))))))))))"

definition validate_entropy :: "EntropyConfig \<Rightarrow> goerr option" where
  "validate_entropy e =
     and_then (check_range ''Entropy.VirtioRNGMaxBytes must be 64-65536'' 64 65536 (en_VirtioRNGMaxBytes e))
    (and_then (check_range ''Entropy.VirtioRNGPeriod must be 100-60000'' 100 60000 (en_VirtioRNGPeriod e))
    (and_then (check_range ''Entropy.KernelEntropyBytes must be 16-256'' 16 256 (en_KernelEntropyBytes e))
    (let d = en_SerialEntropyDevice e in
     if d = [] then None
     else
       and_then (guard_err (contains_str d [NUL])
                   (ErrMsg ''Entropy.SerialEntropyDevice contains null byte''))
      (and_then (guard_err (\<not> has_prefix d ''/dev/'')
                   (ErrMsg (''Entropy.SerialEntropyDevice must be a /dev/ path, got '' @ quote d)))
                (guard_err (contains_str d ''..'')
                   (ErrMsg (''Entropy.SerialEntropyDevice must not contain '' @ [CHR 0x27] @ ''..'' @ [CHR 0x27])))))))"

definition validate_vector :: "VectorConfig \<Rightarrow> goerr option" where
  "validate_vector v =
     (if \<not> vc_Enabled v then None
      else
        and_then (check_range ''Vector.Dimension must be 8-2048'' 8 2048 (vc_Dimension v))
       (and_then (check_range ''Vector.HNSWm must be 4-64'' 4 64 (vc_HNSWm v))
       (and_then (check_range ''Vector.HNSWefConstruct must be 10-1000'' 10 1000 (vc_HNSWefConstruct v))
       (and_then (check_range ''Vector.HNSWefSearch must be 10-500'' 10 500 (vc_HNSWefSearch v))
       (and_then (check_range ''Vector.TopK must be 1-1000'' 1 1000 (vc_TopK v))
                 (check_member ''Vector.SearchMode'' [''keyword'', ''vector'', ''hybrid'', '''']
                    (vc_SearchMode v)))))))"

definition validate_fhe :: "FHEConfig \<Rightarrow> goerr option" where
  "validate_fhe f =
     (if \<not> fhe_Enabled f then None
      else
        and_then (check_range ''FHE.RingDegree must be 10-15 (logN)'' 10 15 (fhe_RingDegree f))
       (and_then (if fhe_HiddenServicePort f \<noteq> 0
                  then validatePort ''FHE.HiddenServicePort'' (fhe_HiddenServicePort f) else None)
       (and_then (check_range ''FHE.MaxIndexSizeMB must be 1-10240'' 1 10240 (fhe_MaxIndexSizeMB f))
                 (check_range ''FHE.AutoIndexInterval must be 1-1440 minutes'' 1 1440
                    (fhe_AutoIndexInterval f)))))"

definition validate_browser :: "BrowserConfig \<Rightarrow> goerr option" where
  "validate_browser b =
     (if \<not> bw_Enabled b then None
      else
        and_then (check_range ''Browser.VMMemoryMB must be 256-4096'' 256 4096 (bw_VMMemoryMB b))
       (and_then (check_range ''Browser.VMCPUs must be 1-8'' 1 8 (bw_VMCPUs b))
       (and_then (check_range ''Browser.VNCDisplay must be 0-99'' 0 99 (bw_VNCDisplay b))
       (and_then (check_range ''Browser.CanaryIntervalSec must be 1-300'' 1 300 (bw_CanaryIntervalSec b))
                 (check_nonempty [(''Browser.KernelPath'', bw_KernelPath b),
                    (''Browser.InitrdPath'', bw_InitrdPath b),
                    (''Browser.StateDiskPath'', bw_StateDiskPath b),
                    (''Browser.QMPSocketPath'', bw_QMPSocketPath b)])))))"

definition Validate :: "goos \<Rightarrow> Config \<Rightarrow> goerr option" where
  "Validate os c =
     and_then (validate_ips c)
    (and_then (validate_vm os c)
    (and_then (validate_entropy (Entropy c))
    (and_then (validate_vector (Vector c))
    (and_then (validate_fhe (FHE c)) (validate_browser (Browser c))))))"

section \<open>Migration and loading\<close>

definition ConfigVersion :: int where "ConfigVersion = 1"

text \<open>
  The calls of package \<^verbatim>\<open>encoding/json\<close> on the bytes of the file, as arguments of the
  definitions that make them: \<^verbatim>\<open>Unmarshal\<close> into the version envelope, into a
  \<^verbatim>\<open>map[string]json.RawMessage\<close> (which can stay nil) and over a \<^verbatim>\<open>Config\<close>, and
  \<^verbatim>\<open>MarshalIndent\<close> of the map. Every statement below holds whatever they return.
\<close>

record jsonlib =
  js_envelope :: "string \<Rightarrow> int res"
  js_raw :: "string \<Rightarrow> (string \<rightharpoonup> string) option res"
  js_marshal :: "(string \<rightharpoonup> string) \<Rightarrow> string res"
  js_config :: "string \<Rightarrow> Config \<Rightarrow> Config res"

text \<open>The migration chain; an assignment to an entry of a nil map panics.\<close>

function migrate_loop :: "jsonlib \<Rightarrow> string \<Rightarrow> int \<Rightarrow> string outcome" where
  "migrate_loop js data v =
     (if v < ConfigVersion then
        (if v = 0 then
           (case js_raw js data of
              Inl _ \<Rightarrow> Ret data
            | Inr None \<Rightarrow> Panic ''assignment to entry in nil map''
            | Inr (Some raw) \<Rightarrow>
                (case js_marshal js (raw(''config_version'' \<mapsto> ''1'')) of
                   Inl _ \<Rightarrow> Ret data
                 | Inr migrated \<Rightarrow> migrate_loop js migrated 1))
         else Ret data)
      else Ret data)"
  by pat_completeness auto
termination
  by (relation "measure (\<lambda>(js, data, v). nat (ConfigVersion - v))") (auto simp: ConfigVersion_def)

declare migrate_loop.simps [simp del]

definition migrateJSON :: "jsonlib \<Rightarrow> string \<Rightarrow> string outcome" where
  "migrateJSON js data =
     migrate_loop js data (case js_envelope js data of Inl _ \<Rightarrow> 0 | Inr v \<Rightarrow> v)"

text \<open>What \<^verbatim>\<open>os.Stat\<close> and \<^verbatim>\<open>os.ReadFile\<close> answer: \<open>Absent\<close> is an error for which
  \<^verbatim>\<open>os.IsNotExist\<close> holds.\<close>

datatype 'a file_res = Present 'a | Absent goerr | FileErr goerr

unbundle bit_operations_syntax

fun octal_digits :: "nat \<Rightarrow> nat \<Rightarrow> string" where
  "octal_digits 0 n = []"
| "octal_digits (Suc k) n = octal_digits k (n div 8) @ [digit_char (n mod 8)]"

definition insecure_msg :: "string \<Rightarrow> nat \<Rightarrow> string" where
  "insecure_msg path perm =
     ''config file '' @ path @ '' has insecure permissions '' @ octal_digits 4 perm
     @ ''; must not be group-writable or world-writable (expected 0600 or 0644)''"

text \<open>The permission check of \<^verbatim>\<open>Load\<close>; \<^verbatim>\<open>0022\<close> is 18.\<close>

definition check_perm :: "goos \<Rightarrow> string \<Rightarrow> nat file_res \<Rightarrow> goerr option" where
  "check_perm os path st =
     (if os = Windows then None
      else case st of
        FileErr e \<Rightarrow> Some (wrap ''stat config file'' e)
      | Absent _ \<Rightarrow> None
      | Present perm \<Rightarrow> guard_err (perm AND 18 \<noteq> 0) (ErrMsg (insecure_msg path perm)))"

definition validated :: "goos \<Rightarrow> string \<Rightarrow> Config \<Rightarrow> Config res" where
  "validated os what cfg =
     (case Validate os cfg of Some e \<Rightarrow> Inl (wrap what e) | None \<Rightarrow> Inr cfg)"

definition Load ::
  "goos \<Rightarrow> jsonlib \<Rightarrow> (string \<Rightarrow> nat file_res) \<Rightarrow> (string \<Rightarrow> string file_res) \<Rightarrow> string \<Rightarrow> Config res outcome" where
  "Load os js stat read_file path =
     (let cfg = DefaultConfig os in
      if path = [] then Ret (validated os ''default config invalid'' cfg)
      else case check_perm os path (stat path) of
        Some e \<Rightarrow> Ret (Inl e)
      | None \<Rightarrow>
          (case read_file path of
             Absent _ \<Rightarrow> Ret (validated os ''default config invalid'' cfg)
           | FileErr e \<Rightarrow> Ret (Inl e)
           | Present data \<Rightarrow>
               (case migrateJSON js data of
                  Panic m \<Rightarrow> Panic m
                | Ret data' \<Rightarrow>
                    (case js_config js data' cfg of
                       Inl e \<Rightarrow> Ret (Inl e)
                     | Inr cfg' \<Rightarrow>
                         Ret (validated os ''config validation'' (cfg'\<lparr>Version := ConfigVersion\<rparr>))))))"

section \<open>Differences\<close>

record ConfigDiff =
  HotReloadable :: "string list"
  RestartRequired :: "string list"

definition HasChanges :: "ConfigDiff \<Rightarrow> bool" where
  "HasChanges d \<longleftrightarrow> length (HotReloadable d) > 0 \<or> length (RestartRequired d) > 0"

definition hotReloadableFields :: "string list" where
  "hotReloadableFields = [''Bridge'', ''Proxy'', ''Verbose'', ''Relays'', ''FHE'', ''Vector'']"

text \<open>
  The fields of the struct in the order reflection visits them: name, \<^verbatim>\<open>json\<close> tag, and
  \<^verbatim>\<open>reflect.DeepEqual\<close> on the field. All of them are exported.
\<close>

type_synonym field = "string \<times> string \<times> (Config \<Rightarrow> Config \<Rightarrow> bool)"

definition eq_on :: "(Config \<Rightarrow> 'a) \<Rightarrow> Config \<Rightarrow> Config \<Rightarrow> bool" where
  "eq_on f a b \<longleftrightarrow> f a = f b"

definition config_fields :: "field list" where
  "config_fields =
     [(''Version'', ''config_version'', eq_on Version), (''TAPName'', ''tap_name'', eq_on TAPName),
      (''HostIP'', ''host_ip'', eq_on HostIP), (''VMIP'', ''vm_ip'', eq_on VMIP),
      (''SubnetMask'', ''subnet_mask'', eq_on SubnetMask), (''DNS1'', ''dns1'', eq_on DNS1),
      (''DNS2'', ''dns2'', eq_on DNS2), (''SOCKSPort'', ''socks_port'', eq_on SOCKSPort),
      (''ControlPort'', ''control_port'', eq_on ControlPort), (''TransPort'', ''trans_port'', eq_on TransPort),
      (''DNSPort'', ''dns_port'', eq_on DNSPort), (''VMMemoryMB'', ''vm_memory_mb'', eq_on VMMemoryMB),
      (''VMCPUs'', ''vm_cpus'', eq_on VMCPUs), (''KernelPath'', ''kernel_path'', eq_on KernelPath),
      (''InitrdPath'', ''initrd_path'', eq_on InitrdPath),
      (''StateDiskPath'', ''state_disk_path'', eq_on StateDiskPath),
      (''QMPSocketPath'', ''qmp_socket_path'', eq_on QMPSocketPath), (''Verbose'', ''verbose'', eq_on Verbose),
      (''Accel'', ''accel'', eq_on Accel), (''Headless'', ''headless'', eq_on Headless),
      (''VhostNet'', ''-'', eq_on VhostNet), (''IOMMUEnabled'', ''-'', eq_on IOMMUEnabled),
      (''Bridge'', ''bridge'', eq_on Bridge), (''Proxy'', ''proxy'', eq_on Proxy),
      (''Service'', ''service'', eq_on Service), (''Retry'', ''retry'', eq_on Retry),
      (''Entropy'', ''entropy'', eq_on Entropy), (''Relays'', ''relays'', eq_on Relays),
      (''Browser'', ''browser'', eq_on Browser), (''FHE'', ''fhe'', eq_on FHE),
      (''Vector'', ''vector'', eq_on Vector)]"

definition field_label :: "string \<Rightarrow> string \<Rightarrow> string" where
  "field_label name tag = name @ '' ('' @ tag @ '')''"

definition diff_field :: "Config \<Rightarrow> Config \<Rightarrow> ConfigDiff \<Rightarrow> field \<Rightarrow> ConfigDiff" where
  "diff_field old new d fld =
     (case fld of (name, tag, same) \<Rightarrow>
        if tag = ''-'' then d
        else if same old new then d
        else if name \<in> set hotReloadableFields
          then d\<lparr>HotReloadable := HotReloadable d @ [field_label name tag]\<rparr>
        else d\<lparr>RestartRequired := RestartRequired d @ [field_label name tag]\<rparr>)"

definition Diff :: "Config \<Rightarrow> Config \<Rightarrow> ConfigDiff" where
  "Diff old new =
     foldl (diff_field old new) \<lparr>HotReloadable = [], RestartRequired = []\<rparr> config_fields"

section \<open>Lemmas\<close>

named_theorems validate_defs \<open>the definitions \<^verbatim>\<open>Validate\<close> is made of\<close>

lemmas [validate_defs] =
  Validate_def validate_ips_def validate_vm_def validate_entropy_def validate_vector_def
  validate_fhe_def validate_browser_def validatePort_def check_range_def check_member_def
  check_nonempty_def Let_def

lemma default_ips:
  "parse_ip ''10.10.10.2'' = Some (v4_in_v6 [10, 10, 10, 2])"
  "parse_ip ''10.10.10.1'' = Some (v4_in_v6 [10, 10, 10, 1])"
  "parse_ip ''255.255.255.252'' = Some (v4_in_v6 [255, 255, 255, 252])"
  "parse_ip ''4.2.2.4'' = Some (v4_in_v6 [4, 2, 2, 4])"
  "parse_ip ''4.2.2.2'' = Some (v4_in_v6 [4, 2, 2, 2])"
  by code_simp+

lemma default_tap_names: "tapNameWindowsRe ''TorVM Tap''" "tapNameUnixRe ''torvm0''"
  by code_simp+

lemma filepath_join_nonempty: "filepath_join os (p # q # ps) \<noteq> []"
  by (simp add: filepath_join_def)

lemma Validate_DefaultConfig: "Validate os (DefaultConfig os) = None"
  by (simp add: validate_defs DefaultConfig_def default_ips default_tap_names validateTAPName_def
                filepath_join_nonempty defaultQMPPath_def defaultBrowserQMPPath_def pipe_path_def)

lemma Validate_ips:
  assumes "Validate os c = None" "v \<in> {HostIP c, VMIP c, SubnetMask c, DNS1 c, DNS2 c}"
  shows "\<exists>ip. parse_ip v = Some ip"
  using assms by (auto simp: Validate_def validate_ips_def first_err_None)

lemma Validate_vm:
  assumes "Validate os c = None"
  shows "SOCKSPort c \<in> {1..65535}" "ControlPort c \<in> {1..65535}"
    "TransPort c \<in> {1..65535}" "DNSPort c \<in> {1..65535}"
    "VMMemoryMB c \<in> {32..4096}" "VMCPUs c \<in> {1..16}"
    "validateTAPName os (TAPName c) = None"
    "Accel c \<in> {'''', ''kvm'', ''hvf'', ''whpx'', ''tcg''}"
    "px_Type (Proxy c) \<in> {'''', ''http'', ''https'', ''socks5''}"
    "br_Transport (Bridge c) \<in> {'''', ''none'', ''obfs4'', ''meek-azure'', ''snowflake''}"
proof -
  have "validate_vm os c = None" using assms by (simp add: Validate_def)
  note v = this [unfolded validate_vm_def validatePort_def check_range_def check_member_def
             and_then_None guard_err_None]
  from v show "SOCKSPort c \<in> {1..65535}" "ControlPort c \<in> {1..65535}"
    "TransPort c \<in> {1..65535}" "DNSPort c \<in> {1..65535}"
    "VMMemoryMB c \<in> {32..4096}" "VMCPUs c \<in> {1..16}"
    by simp_all
  from v show "validateTAPName os (TAPName c) = None" by simp
  from v show "Accel c \<in> {'''', ''kvm'', ''hvf'', ''whpx'', ''tcg''}"
    "px_Type (Proxy c) \<in> {'''', ''http'', ''https'', ''socks5''}"
    "br_Transport (Bridge c) \<in> {'''', ''none'', ''obfs4'', ''meek-azure'', ''snowflake''}"
    by simp_all
qed

lemma Validate_entropy:
  assumes "Validate os c = None"
  shows "en_VirtioRNGMaxBytes (Entropy c) \<in> {64..65536}"
    "en_VirtioRNGPeriod (Entropy c) \<in> {100..60000}"
    "en_KernelEntropyBytes (Entropy c) \<in> {16..256}"
    "en_SerialEntropyDevice (Entropy c) \<noteq> [] \<Longrightarrow> has_prefix (en_SerialEntropyDevice (Entropy c)) ''/dev/''"
proof -
  have "validate_entropy (Entropy c) = None" using assms by (simp add: Validate_def)
  note v = this [unfolded validate_entropy_def check_range_def and_then_None guard_err_None Let_def]
  from v show "en_VirtioRNGMaxBytes (Entropy c) \<in> {64..65536}"
    "en_VirtioRNGPeriod (Entropy c) \<in> {100..60000}"
    "en_KernelEntropyBytes (Entropy c) \<in> {16..256}"
    by simp_all
  assume "en_SerialEntropyDevice (Entropy c) \<noteq> []"
  with v show "has_prefix (en_SerialEntropyDevice (Entropy c)) ''/dev/''" by simp
qed

text \<open>A name accepted on a Unix system is an identifier of at most 15 characters.\<close>

lemma tap_name_unix:
  assumes "validateTAPName os n = None" "os \<noteq> Windows"
  shows "n \<noteq> [] \<and> length n \<le> 15 \<and> (\<forall>c \<in> set n. is_alnum c)"
  using assms
  by (cases n) (auto simp: validateTAPName_def tapNameUnixRe_def match_name_def list_all_iff)

lemma tap_name_windows:
  assumes "validateTAPName Windows n = None"
  shows "n \<noteq> [] \<and> length n \<le> 64 \<and> (\<forall>c \<in> set n. is_alnum c \<or> c = CHR '' '' \<or> c = CHR ''-'')"
  using assms
  by (cases n) (auto simp: validateTAPName_def tapNameWindowsRe_def match_name_def list_all_iff)

lemma validated_ok: "validated os w c = Inr c' \<longleftrightarrow> Validate os c = None \<and> c' = c"
  by (auto simp: validated_def split: option.splits)

definition changed :: "Config \<Rightarrow> Config \<Rightarrow> field \<Rightarrow> bool" where
  "changed a b f \<longleftrightarrow> fst (snd f) \<noteq> ''-'' \<and> \<not> snd (snd f) a b"

definition hot :: "field \<Rightarrow> bool" where
  "hot f \<longleftrightarrow> fst f \<in> set hotReloadableFields"

lemma diff_fold:
  "foldl (diff_field a b) d fs =
   \<lparr>HotReloadable = HotReloadable d @
      map (\<lambda>f. field_label (fst f) (fst (snd f))) (filter (\<lambda>f. changed a b f \<and> hot f) fs),
    RestartRequired = RestartRequired d @
      map (\<lambda>f. field_label (fst f) (fst (snd f))) (filter (\<lambda>f. changed a b f \<and> \<not> hot f) fs)\<rparr>"
  by (induction fs arbitrary: d) (auto simp: diff_field_def changed_def hot_def)

lemma Diff_eq:
  "HotReloadable (Diff a b) =
     map (\<lambda>f. field_label (fst f) (fst (snd f))) (filter (\<lambda>f. changed a b f \<and> hot f) config_fields)"
  "RestartRequired (Diff a b) =
     map (\<lambda>f. field_label (fst f) (fst (snd f))) (filter (\<lambda>f. changed a b f \<and> \<not> hot f) config_fields)"
  by (simp_all add: Diff_def diff_fold)

lemma HasChanges_iff: "HasChanges (Diff a b) \<longleftrightarrow> (\<exists>f \<in> set config_fields. changed a b f)"
  by (auto simp: HasChanges_def Diff_eq filter_empty_conv)

lemma no_restart_iff:
  "RestartRequired (Diff a b) = [] \<longleftrightarrow> (\<forall>f \<in> set config_fields. changed a b f \<longrightarrow> hot f)"
  by (auto simp: Diff_eq filter_empty_conv)

section \<open>Properties\<close>

text \<open>
  A configuration that \<^verbatim>\<open>Load\<close> returns passes \<^verbatim>\<open>Validate\<close>, whatever the file, its
  permissions and the JSON decoder say, and it is either exactly the default configuration
  (no path, or no such file) or carries the current schema version. On a system other than
  Windows it never comes from a file that the group or the world can write.
\<close>

theorem Load_returns_valid:
  assumes "Load os js stat read_file path = Ret (Inr c)"
  shows "Validate os c = None \<and> (c = DefaultConfig os \<or> Version c = ConfigVersion)
    \<and> (c = DefaultConfig os \<or> os = Windows \<or> (\<forall>perm. stat path = Present perm \<longrightarrow> perm AND 18 = 0))"
proof (cases "path = []")
  case True
  with assms show ?thesis by (simp add: Load_def Let_def validated_ok)
next
  case False
  with assms have p: "check_perm os path (stat path) = None"
    by (simp add: Load_def Let_def split: option.splits)
  with assms False show ?thesis
    by (auto simp: Load_def Let_def validated_ok check_perm_def
             split: file_res.splits outcome.splits sum.splits if_splits)
qed

text \<open>A decoder that changes one field, and a readable file with mode 0644.\<close>

definition sample_json :: jsonlib where
  "sample_json = \<lparr>js_envelope = (\<lambda>_. Inr 1), js_raw = (\<lambda>_. Inr (Some Map.empty)),
     js_marshal = (\<lambda>_. Inr ''{}''), js_config = (\<lambda>_ c. Inr (c\<lparr>SOCKSPort := 9150\<rparr>))\<rparr>"

lemma Validate_sample: "Validate Linux ((DefaultConfig Linux)\<lparr>SOCKSPort := 9150, Version := 1\<rparr>) = None"
  by (simp add: validate_defs DefaultConfig_def default_ips default_tap_names validateTAPName_def
                filepath_join_nonempty defaultQMPPath_def defaultBrowserQMPPath_def)

theorem Load_returns_valid_witness:
  "Load Linux sample_json (\<lambda>_. Present 420) (\<lambda>_. Present ''{}'') ''c.json''
     = Ret (Inr ((DefaultConfig Linux)\<lparr>SOCKSPort := 9150, Version := 1\<rparr>))
   \<and> Validate Linux ((DefaultConfig Linux)\<lparr>SOCKSPort := 9150, Version := 1\<rparr>) = None"
proof -
  have *: "Load Linux sample_json (\<lambda>_. Present 420) (\<lambda>_. Present ''{}'') ''c.json''
     = Ret (Inr ((DefaultConfig Linux)\<lparr>SOCKSPort := 9150, Version := 1\<rparr>))"
    by (simp add: Load_def Let_def check_perm_def migrateJSON_def migrate_loop.simps sample_json_def
                  ConfigVersion_def validated_def Validate_sample)
  show ?thesis using Load_returns_valid [OF *] * by blast
qed

text \<open>
  C17. \<^verbatim>\<open>Diff\<close> reports a change exactly when the two configurations differ in a field that
  is persisted (all but \<^verbatim>\<open>VhostNet\<close> and \<^verbatim>\<open>IOMMUEnabled\<close>), and it asks for a restart
  exactly when they differ outside the six fields that can be applied at run time: with no
  \<^verbatim>\<open>RestartRequired\<close> entry, replacing these six in the old configuration gives the new one.
\<close>

theorem Diff_sound_complete:
  "(HasChanges (Diff old new) \<longleftrightarrow>
      old\<lparr>VhostNet := VhostNet new, IOMMUEnabled := IOMMUEnabled new\<rparr> \<noteq> new)
   \<and> (RestartRequired (Diff old new) = [] \<longleftrightarrow>
      old\<lparr>Verbose := Verbose new, Bridge := Bridge new, Proxy := Proxy new,
          Relays := Relays new, FHE := FHE new, Vector := Vector new,
          VhostNet := VhostNet new, IOMMUEnabled := IOMMUEnabled new\<rparr> = new)"
  unfolding HasChanges_iff no_restart_iff
  by (cases old; cases new)
     (simp add: config_fields_def changed_def eq_on_def hot_def hotReloadableFields_def)

text \<open>
  A configuration file that holds the JSON text \<^verbatim>\<open>null\<close> makes \<^verbatim>\<open>migrateJSON\<close> panic:
  \<^verbatim>\<open>Unmarshal\<close> accepts it, leaves the version at 0 and the map nil, and the assignment
  to \<^verbatim>\<open>raw["config_version"]\<close> follows.
\<close>

theorem migrateJSON_nil_map_panics:
  assumes "js_envelope js data = Inr 0" "js_raw js data = Inr None"
  shows "migrateJSON js data = Panic ''assignment to entry in nil map''"
  using assms by (simp add: migrateJSON_def migrate_loop.simps ConfigVersion_def)

end
