(* ===== verification/Torrc.thy ===== *)
theory Torrc
  imports Config_Model
begin

text \<open>
  \<^verbatim>\<open>config/torrc.go\<close>: the checks on what goes into a torrc line and \<^verbatim>\<open>TorrcOverlay\<close>, which
  writes the bridge, proxy, relay and hidden-service settings as torrc lines. The main
  result is that no setting can add a line of its own.
\<close>

section \<open>Definitions\<close>

definition is_control :: "char \<Rightarrow> bool" where
  "is_control c \<longleftrightarrow> (of_char c :: nat) < 32 \<or> (of_char c :: nat) = 127"

text \<open>The loop is over the runes of the value; a rune below 128 is a byte of its own.\<close>

definition sanitizeTorrcLine :: "string \<Rightarrow> string \<Rightarrow> goerr option" where
  "sanitizeTorrcLine fld value =
     (if contains_any value [CR, NL]
      then Some (ErrMsg (''torrc '' @ fld @ '' contains newline characters''))
      else case find is_control value of
        None \<Rightarrow> None
      | Some c \<Rightarrow> Some (ErrMsg (''torrc '' @ fld @ '' contains control character 0x''
                                  @ [hex_char (of_char c div 16), hex_char (of_char c mod 16)])))"

definition bridgeLineRe :: "string \<Rightarrow> bool" where
  "bridgeLineRe s \<longleftrightarrow> s \<noteq> [] \<and> list_all (\<lambda>c. is_alnum c \<or> c \<in> set ''.:[] /=,+_-'') s"

definition fingerprintRe :: "string \<Rightarrow> bool" where
  "fingerprintRe s =
     (case s of [] \<Rightarrow> False | c # r \<Rightarrow> c = CHR ''$'' \<and> length r = 40 \<and> list_all is_hex r)"

definition countryCodeRe :: "string \<Rightarrow> bool" where
  "countryCodeRe s =
     (length s = 4 \<and> s ! 0 = CHR ''{'' \<and> is_alpha (s ! 1) \<and> is_alpha (s ! 2) \<and> s ! 3 = CHR ''}'')"

definition credentialRe :: "string \<Rightarrow> bool" where
  "credentialRe s \<longleftrightarrow>
     s \<noteq> [] \<and> list_all (\<lambda>c. is_alnum c \<or> c \<in> set ''!@#$%^&*()_+=[]{}<>,.?/~-'') s"

definition maxCredentialLen :: nat where "maxCredentialLen = 255"

definition validateBridgeLine :: "string \<Rightarrow> goerr option" where
  "validateBridgeLine line =
     and_then (sanitizeTorrcLine ''bridge'' line)
    (and_then (guard_err (length line > 1024)
                 (ErrMsg (''bridge line too long ('' @ itoa (int (length line)) @ '' chars, max 1024)'')))
              (guard_err (\<not> bridgeLineRe line)
                 (ErrMsg (''bridge line contains invalid characters: '' @ quote line))))"

definition validateProxyAddress :: "string \<Rightarrow> goerr option" where
  "validateProxyAddress addr =
     and_then (sanitizeTorrcLine ''proxy address'' addr)
     (case split_host_port addr of
        Inl e \<Rightarrow> Some (wrap (''proxy address '' @ quote addr @ '' is not valid host:port'') e)
      | Inr (host, port) \<Rightarrow>
          and_then (guard_err (host = []) (ErrMsg ''proxy address has empty host''))
                   (guard_err (port = []) (ErrMsg ''proxy address has empty port'')))"

definition validateCredential :: "string \<Rightarrow> string \<Rightarrow> goerr option" where
  "validateCredential fld value =
     (if value = [] then None
      else
        and_then (sanitizeTorrcLine fld value)
       (and_then (guard_err (length value > maxCredentialLen)
                    (ErrMsg (fld @ '' too long ('' @ itoa (int (length value)) @ '' chars, max ''
                             @ itoa (int maxCredentialLen) @ '')'')))
                 (guard_err (\<not> credentialRe value) (ErrMsg (fld @ '' contains invalid characters'')))))"

definition validateRelayEntry :: "string \<Rightarrow> goerr option" where
  "validateRelayEntry entry =
     and_then (sanitizeTorrcLine ''relay entry'' entry)
              (guard_err (\<not> fingerprintRe entry \<and> \<not> countryCodeRe entry)
                 (ErrMsg (''relay entry '' @ quote entry
                          @ '' must be a fingerprint ($hex40) or country code ({XX})'')))"

definition validateRelayConfig :: "RelayConfig \<Rightarrow> goerr option" where
  "validateRelayConfig rc =
     and_then (first_err (\<lambda>e. map_option (wrap ''ExcludeNodes'') (validateRelayEntry e))
                 (elems (rl_ExcludeNodes rc)))
              (first_err (\<lambda>e. map_option (wrap ''ExcludeExitNodes'') (validateRelayEntry e))
                 (elems (rl_ExcludeExitNodes rc)))"

text \<open>The lines of each part of \<^verbatim>\<open>TorrcOverlay\<close>, in order.\<close>

definition transport_lines :: "string \<Rightarrow> string list res" where
  "transport_lines t =
     (if t = ''obfs4'' then Inr [''ClientTransportPlugin obfs4 exec /usr/bin/obfs4proxy'']
      else if t = ''meek-azure'' then Inr [''ClientTransportPlugin meek_lite exec /usr/bin/obfs4proxy'']
      else if t = ''snowflake'' then Inr [''ClientTransportPlugin snowflake exec /usr/bin/snowflake-client'']
      else if t = [] \<or> t = ''none'' then Inr []
      else Inl (ErrMsg (''unsupported bridge transport: '' @ quote t)))"

fun bridge_lines :: "string list \<Rightarrow> string list res" where
  "bridge_lines [] = Inr []"
| "bridge_lines (x # bs) =
     (let b = trim_space x in
      if b = [] then bridge_lines bs
      else check_res (validateBridgeLine b)
             (bind_res (bridge_lines bs) (\<lambda>ls. Inr ((''Bridge '' @ b) # ls))))"

definition bridge_part :: "BridgeConfig \<Rightarrow> string list res" where
  "bridge_part b =
     (if br_UseBridges b then
        bind_res (transport_lines (br_Transport b)) (\<lambda>ts.
        bind_res (bridge_lines (elems (br_Bridges b))) (\<lambda>bs.
        Inr (''UseBridges 1'' # ts @ bs)))
      else Inr [])"

definition proxy_lines :: "ProxyConfig \<Rightarrow> string list" where
  "proxy_lines p =
     (let t = to_lower (px_Type p); a = px_Address p; u = px_Username p; w = px_Password p in
      if t = ''http'' then
        (''HTTPProxy '' @ a) # (if u \<noteq> [] then [''HTTPProxyAuthenticator '' @ u @ '':'' @ w] else [])
      else if t = ''https'' then
        (''HTTPSProxy '' @ a) # (if u \<noteq> [] then [''HTTPSProxyAuthenticator '' @ u @ '':'' @ w] else [])
      else if t = ''socks5'' then
        (''Socks5Proxy '' @ a) #
          (if u \<noteq> [] then [''Socks5ProxyUsername '' @ u, ''Socks5ProxyPassword '' @ w] else [])
      else [])"

definition proxy_part :: "ProxyConfig \<Rightarrow> string list res" where
  "proxy_part p =
     (if px_Type p \<noteq> [] \<and> px_Address p \<noteq> [] then
        check_res (validateProxyAddress (px_Address p))
       (check_res (validateCredential ''proxy username'' (px_Username p))
       (check_res (validateCredential ''proxy password'' (px_Password p))
       (Inr (proxy_lines p))))
      else Inr [])"

definition relay_part :: "RelayConfig \<Rightarrow> string list res" where
  "relay_part r =
     check_res (validateRelayConfig r)
       (Inr ((if elems (rl_ExcludeNodes r) \<noteq> []
              then [''ExcludeNodes '' @ join '','' (elems (rl_ExcludeNodes r))] else [])
           @ (if elems (rl_ExcludeExitNodes r) \<noteq> []
              then [''ExcludeExitNodes '' @ join '','' (elems (rl_ExcludeExitNodes r))] else [])
           @ (if rl_StrictNodes r then [''StrictNodes 1''] else [])))"

definition fhe_part :: "Config \<Rightarrow> string list" where
  "fhe_part c =
     (let f = FHE c; port = fhe_HiddenServicePort f in
      if fhe_Enabled f \<and> fhe_ShareEnabled f \<and> port > 0 then
        [''HiddenServiceDir /home/tor/hidden_service/fhe_index'',
         ''HiddenServicePort '' @ itoa port @ '' '' @ HostIP c @ '':'' @ itoa port]
      else [])"

definition overlay_lines :: "Config \<Rightarrow> string list res" where
  "overlay_lines c =
     bind_res (bridge_part (Bridge c)) (\<lambda>bs.
     bind_res (proxy_part (Proxy c)) (\<lambda>ps.
     bind_res (relay_part (Relays c)) (\<lambda>rs.
     Inr (bs @ ps @ rs @ fhe_part c))))"

definition TorrcOverlay :: "Config \<Rightarrow> string res" where
  "TorrcOverlay c =
     bind_res (overlay_lines c)
       (\<lambda>ls. Inr (if length ls = 0 then [] else join [NL] ls @ [NL]))"

text \<open>
  \<^verbatim>\<open>parseTorrcOverlay\<close> of \<^verbatim>\<open>lifecycle.go\<close>, which turns the overlay into the argument of
  \<^verbatim>\<open>SetConf\<close>: a map from keyword to value.
\<close>

definition parse_directive :: "(string \<rightharpoonup> string) \<Rightarrow> string \<Rightarrow> (string \<rightharpoonup> string)" where
  "parse_directive m x =
     (let line = trim_space x in
      if line = [] then m
      else case index_byte line (CHR '' '') of
        None \<Rightarrow> m(line \<mapsto> [])
      | Some i \<Rightarrow> m(take i line \<mapsto> drop (Suc i) line))"

definition parseTorrcOverlay :: "string \<Rightarrow> (string \<rightharpoonup> string)" where
  "parseTorrcOverlay overlay = foldl parse_directive Map.empty (split_on NL overlay)"

section \<open>Lemmas\<close>

lemma is_control_break [simp]: "is_control NL" "is_control CR"
  by (simp_all add: is_control_def NL_def CR_def)

lemma sanitize_clean: "sanitizeTorrcLine fld v = None \<longleftrightarrow> list_all (\<lambda>c. \<not> is_control c) v"
proof -
  have "contains_any v [CR, NL] \<Longrightarrow> \<exists>c \<in> set v. is_control c"
    by (auto simp: contains_any_iff intro: bexI [of _ NL] bexI [of _ CR])
  moreover have "find is_control v = None \<longleftrightarrow> list_all (\<lambda>c. \<not> is_control c) v"
    by (auto simp: find_None_iff list_all_iff)
  ultimately show ?thesis
    by (auto simp: sanitizeTorrcLine_def list_all_iff split: option.splits)
qed

lemma no_control_clean: "list_all (\<lambda>c. \<not> is_control c) v \<Longrightarrow> clean v"
  using is_control_break by (auto simp: clean_def list_all_iff)

lemmas sanitize_cleanD = no_control_clean [OF iffD1 [OF sanitize_clean]]

lemma validateBridgeLine_clean: "validateBridgeLine l = None \<Longrightarrow> clean l"
  by (auto simp: validateBridgeLine_def intro: sanitize_cleanD)

lemma validateProxyAddress_clean: "validateProxyAddress a = None \<Longrightarrow> clean a"
  by (auto simp: validateProxyAddress_def intro: sanitize_cleanD)

lemma validateCredential_clean: "validateCredential f a = None \<Longrightarrow> clean a"
  by (auto simp: validateCredential_def intro: sanitize_cleanD split: if_splits)

lemma validateRelayEntry_clean: "validateRelayEntry a = None \<Longrightarrow> clean a"
  by (auto simp: validateRelayEntry_def intro: sanitize_cleanD)

lemma validateRelayConfig_iff:
  "validateRelayConfig r = None \<longleftrightarrow>
     (\<forall>e \<in> set (elems (rl_ExcludeNodes r)) \<union> set (elems (rl_ExcludeExitNodes r)).
        validateRelayEntry e = None)"
  by (auto simp: validateRelayConfig_def first_err_None)

text \<open>The keyword of a torrc line and the keywords the overlay uses.\<close>

definition torrc_key :: "string \<Rightarrow> string" where
  "torrc_key l = takeWhile (\<lambda>c. c \<noteq> CHR '' '') l"

definition overlay_keywords :: "string list" where
  "overlay_keywords =
     [''UseBridges'', ''ClientTransportPlugin'', ''Bridge'', ''HTTPProxy'', ''HTTPProxyAuthenticator'',
      ''HTTPSProxy'', ''HTTPSProxyAuthenticator'', ''Socks5Proxy'', ''Socks5ProxyUsername'',
      ''Socks5ProxyPassword'', ''ExcludeNodes'', ''ExcludeExitNodes'', ''StrictNodes'',
      ''HiddenServiceDir'', ''HiddenServicePort'']"

definition safe_line :: "string \<Rightarrow> bool" where
  "safe_line l \<longleftrightarrow> clean l \<and> torrc_key l \<in> set overlay_keywords"

lemmas safe_simps = safe_line_def torrc_key_def overlay_keywords_def NL_def CR_def

lemma transport_safe: "transport_lines t = Inr ls \<Longrightarrow> l \<in> set ls \<Longrightarrow> safe_line l"
  by (auto simp: transport_lines_def safe_simps split: if_splits)

lemma bridge_line_safe: "clean b \<Longrightarrow> safe_line (''Bridge '' @ b)"
  by (simp add: safe_simps)

lemma bridge_lines_safe: "bridge_lines bs = Inr ls \<Longrightarrow> l \<in> set ls \<Longrightarrow> safe_line l"
proof (induction bs arbitrary: ls)
  case (Cons x bs)
  then show ?case
    using bridge_line_safe [OF validateBridgeLine_clean, of "trim_space x"]
    by (auto simp: Let_def split: if_splits)
qed simp

lemma bridge_lines_eq:
  "bridge_lines bs = Inr ls \<Longrightarrow>
   ls = map (\<lambda>b. ''Bridge '' @ trim_space b) (filter (\<lambda>b. trim_space b \<noteq> []) bs)"
  by (induction bs arbitrary: ls) (auto simp: Let_def split: if_splits)

lemma bridge_part_safe: "bridge_part b = Inr ls \<Longrightarrow> l \<in> set ls \<Longrightarrow> safe_line l"
  using transport_safe [of "br_Transport b" _ l] bridge_lines_safe [of "elems (br_Bridges b)" _ l]
  by (auto simp: bridge_part_def split: if_splits) (simp add: safe_simps)

lemma proxy_part_safe:
  assumes "proxy_part p = Inr ls" "l \<in> set ls"
  shows "safe_line l"
proof -
  have "clean (px_Address p)" "clean (px_Username p)" "clean (px_Password p)"
    and "ls = proxy_lines p"
    using assms
    by (auto simp: proxy_part_def split: if_splits
             dest: validateProxyAddress_clean validateCredential_clean)
  with assms(2) show ?thesis
    by (auto simp: proxy_lines_def Let_def safe_simps split: if_splits)
qed

lemma relay_part_safe:
  assumes "relay_part r = Inr ls" "l \<in> set ls"
  shows "safe_line l"
proof -
  have "clean (join '','' (elems (rl_ExcludeNodes r)))" "clean (join '','' (elems (rl_ExcludeExitNodes r)))"
    using assms
    by (auto simp: relay_part_def validateRelayConfig_iff NL_def CR_def
             intro!: clean_join dest: validateRelayEntry_clean)
  with assms show ?thesis
    by (auto simp: relay_part_def safe_simps split: if_splits)
qed

lemma fhe_part_safe: "clean (HostIP c) \<Longrightarrow> l \<in> set (fhe_part c) \<Longrightarrow> safe_line l"
  using clean_itoa [of "fhe_HiddenServicePort (FHE c)"]
  by (auto simp: fhe_part_def Let_def safe_simps split: if_splits)

lemma overlay_lines_safe:
  assumes "Validate os c = None" "overlay_lines c = Inr ls" "l \<in> set ls"
  shows "safe_line l"
proof -
  obtain ip where "parse_ip (HostIP c) = Some ip" using Validate_ips [OF assms(1), of "HostIP c"] by auto
  then have "clean (HostIP c)" by (rule parse_ip_clean)
  with assms(2,3) show ?thesis
    by (auto simp: overlay_lines_def dest: bridge_part_safe proxy_part_safe relay_part_safe fhe_part_safe)
qed

lemma join_snoc_Nil: "ls \<noteq> [] \<Longrightarrow> join sep ls @ sep = join sep (ls @ [[]])"
  by (induction ls rule: list_nonempty_induct) (simp_all add: join_Cons)

text \<open>Splitting a text written as lines ended by line feeds.\<close>

lemma split_lines:
  assumes "ls \<noteq> []" "\<forall>l \<in> set ls. clean l"
  shows "split_on NL (join [NL] ls @ [NL]) = ls @ [[]]"
proof -
  have "split_on NL (join [NL] (ls @ [[]])) = ls @ [[]]"
    using assms by (intro split_on_join) (auto simp: clean_def)
  then show ?thesis using assms by (simp add: join_snoc_Nil)
qed

lemma relay_entry_no_comma:
  assumes "validateRelayEntry e = None"
  shows "CHR '','' \<notin> set e"
proof -
  from assms consider "fingerprintRe e" | "countryCodeRe e"
    by (auto simp: validateRelayEntry_def)
  then show ?thesis
  proof cases
    case 1
    then show ?thesis
      by (auto simp: fingerprintRe_def list_all_iff is_hex_def is_digit_def split: list.splits)
  next
    case 2
    then obtain a b where "e = [CHR ''{'', a, b, CHR ''}'']" "is_alpha a" "is_alpha b"
      by (auto simp: countryCodeRe_def length_Suc_conv numeral_eq_Suc)
    then show ?thesis by (auto simp: is_lower_def is_upper_def)
  qed
qed

section \<open>Properties\<close>

text \<open>
  C13. No injection into the torrc: for a validated configuration the overlay is empty or
  consists of exactly the lines the code built, each ended by one line feed, with no
  carriage return anywhere, and each line starts with one of the fifteen keywords the code
  writes. So no bridge line, proxy address, credential or relay entry can add a directive.
\<close>

theorem TorrcOverlay_no_injection:
  assumes "Validate os c = None" "TorrcOverlay c = Inr out"
  shows "out = [] \<or>
    (\<exists>ls. overlay_lines c = Inr ls \<and> split_on NL out = ls @ [[]] \<and> CR \<notin> set out
          \<and> (\<forall>l \<in> set ls. torrc_key l \<in> set overlay_keywords))"
proof -
  obtain ls where ls: "overlay_lines c = Inr ls" and out: "out = (if length ls = 0 then [] else join [NL] ls @ [NL])"
    using assms(2) by (auto simp: TorrcOverlay_def)
  have safe: "\<forall>l \<in> set ls. clean l \<and> torrc_key l \<in> set overlay_keywords"
    using overlay_lines_safe [OF assms(1) ls] by (simp add: safe_line_def)
  show ?thesis
  proof (cases "ls = []")
    case False
    have "CR \<notin> set (join [NL] ls)"
      using set_join [of "[NL]" ls] safe by (auto simp: clean_def)
    with False safe ls out show ?thesis by (auto simp: split_lines clean_def)
  qed (simp add: out)
qed

definition sample_bridged :: Config where
  "sample_bridged = (DefaultConfig Linux)\<lparr>Bridge := \<lparr>br_UseBridges = True, br_Transport = ''obfs4'',
     br_Bridges = Some ['' obfs4 1.2.3.4:443 AB '']\<rparr>\<rparr>"

lemma sample_bridged_valid: "Validate Linux sample_bridged = None"
  by (simp add: sample_bridged_def validate_defs DefaultConfig_def default_ips default_tap_names
        validateTAPName_def filepath_join_nonempty defaultQMPPath_def defaultBrowserQMPPath_def)

lemma sample_bridged_overlay:
  "overlay_lines sample_bridged =
     Inr [''UseBridges 1'', ''ClientTransportPlugin obfs4 exec /usr/bin/obfs4proxy'',
          ''Bridge obfs4 1.2.3.4:443 AB'']"
  by code_simp

theorem TorrcOverlay_no_injection_witness:
  "\<exists>out ls. TorrcOverlay sample_bridged = Inr out \<and> split_on NL out = ls @ [[]] \<and> length ls = 3
      \<and> (\<forall>l \<in> set ls. torrc_key l \<in> set overlay_keywords)"
proof -
  obtain out where "TorrcOverlay sample_bridged = Inr out" "out \<noteq> []"
    by (simp add: TorrcOverlay_def sample_bridged_overlay)
  with TorrcOverlay_no_injection [OF sample_bridged_valid, of out] sample_bridged_overlay
  show ?thesis by auto
qed

text \<open>
  The overlay says what the settings say: the \<^verbatim>\<open>Bridge\<close> lines are the configured
  bridges, trimmed, blank ones left out, in order; and the values of the two exclusion
  lines, split at commas, are the configured entries again. Every entry of an exclusion
  list has the form of a fingerprint or of a country code.
\<close>

theorem TorrcOverlay_content:
  assumes "overlay_lines c = Inr ls"
  shows "(br_UseBridges (Bridge c) \<longrightarrow>
            (\<exists>pre post. ls = pre @ map (\<lambda>b. ''Bridge '' @ trim_space b)
               (filter (\<lambda>b. trim_space b \<noteq> []) (elems (br_Bridges (Bridge c)))) @ post))
    \<and> (elems (rl_ExcludeNodes (Relays c)) \<noteq> [] \<longrightarrow>
         (\<exists>v. ''ExcludeNodes '' @ v \<in> set ls \<and> split_on (CHR '','') v = elems (rl_ExcludeNodes (Relays c))))
    \<and> (elems (rl_ExcludeExitNodes (Relays c)) \<noteq> [] \<longrightarrow>
         (\<exists>v. ''ExcludeExitNodes '' @ v \<in> set ls \<and> split_on (CHR '','') v = elems (rl_ExcludeExitNodes (Relays c))))
    \<and> (\<forall>e \<in> set (elems (rl_ExcludeNodes (Relays c))) \<union> set (elems (rl_ExcludeExitNodes (Relays c))).
         fingerprintRe e \<or> countryCodeRe e)"
proof -
  obtain bs ps rs where parts: "bridge_part (Bridge c) = Inr bs" "proxy_part (Proxy c) = Inr ps"
    "relay_part (Relays c) = Inr rs" and ls: "ls = bs @ ps @ rs @ fhe_part c"
    using assms by (auto simp: overlay_lines_def)
  have valid: "validateRelayConfig (Relays c) = None"
    using parts(3) by (simp add: relay_part_def)
  have rt: "split_on (CHR '','') (join '','' es) = es"
    if "es \<noteq> []" "set es \<subseteq> set (elems (rl_ExcludeNodes (Relays c))) \<union> set (elems (rl_ExcludeExitNodes (Relays c)))" for es
    using that valid relay_entry_no_comma
    by (intro split_on_join) (auto simp: validateRelayConfig_iff)
  have entries: "\<forall>e \<in> set (elems (rl_ExcludeNodes (Relays c))) \<union> set (elems (rl_ExcludeExitNodes (Relays c))).
         fingerprintRe e \<or> countryCodeRe e"
    using valid by (auto simp: validateRelayConfig_iff validateRelayEntry_def)
  have bridges: "br_UseBridges (Bridge c) \<longrightarrow>
            (\<exists>pre post. ls = pre @ map (\<lambda>b. ''Bridge '' @ trim_space b)
               (filter (\<lambda>b. trim_space b \<noteq> []) (elems (br_Bridges (Bridge c)))) @ post)"
  proof
    assume "br_UseBridges (Bridge c)"
    then obtain ts where "bs = (''UseBridges 1'' # ts) @ map (\<lambda>b. ''Bridge '' @ trim_space b)
               (filter (\<lambda>b. trim_space b \<noteq> []) (elems (br_Bridges (Bridge c))))"
      using parts(1) by (auto simp: bridge_part_def dest: bridge_lines_eq)
    then show "\<exists>pre post. ls = pre @ map (\<lambda>b. ''Bridge '' @ trim_space b)
               (filter (\<lambda>b. trim_space b \<noteq> []) (elems (br_Bridges (Bridge c)))) @ post"
      unfolding ls by (metis append.assoc)
  qed
  have "rs = (if elems (rl_ExcludeNodes (Relays c)) \<noteq> []
              then [''ExcludeNodes '' @ join '','' (elems (rl_ExcludeNodes (Relays c)))] else [])
           @ (if elems (rl_ExcludeExitNodes (Relays c)) \<noteq> []
              then [''ExcludeExitNodes '' @ join '','' (elems (rl_ExcludeExitNodes (Relays c)))] else [])
           @ (if rl_StrictNodes (Relays c) then [''StrictNodes 1''] else [])"
    using parts(3) by (simp add: relay_part_def)
  with rt entries bridges show ?thesis unfolding ls by auto
qed

theorem TorrcOverlay_content_witness:
  "\<exists>ls pre post. overlay_lines sample_bridged = Inr ls
     \<and> ls = pre @ map (\<lambda>b. ''Bridge '' @ trim_space b)
               (filter (\<lambda>b. trim_space b \<noteq> []) ['' obfs4 1.2.3.4:443 AB '']) @ post"
proof -
  have "br_UseBridges (Bridge sample_bridged)"
    "elems (br_Bridges (Bridge sample_bridged)) = ['' obfs4 1.2.3.4:443 AB '']"
    by (simp_all add: sample_bridged_def elems_def)
  with TorrcOverlay_content [OF sample_bridged_overlay] sample_bridged_overlay show ?thesis by auto
qed

subsection \<open>The overlay as \<^verbatim>\<open>SETCONF\<close> directives\<close>

lemma index_byte_takeWhile:
  "index_byte s c = (if c \<in> set s then Some (length (takeWhile (\<lambda>x. x \<noteq> c) s)) else None)"
  by (induction s) auto

lemma take_torrc_key: "take (length (torrc_key l)) l = torrc_key l"
  unfolding torrc_key_def by (metis takeWhile_eq_take)

definition torrc_value :: "string \<Rightarrow> string" where
  "torrc_value l = drop (Suc (length (torrc_key l))) l"

lemma torrc_key_free: "CHR '' '' \<notin> set l \<Longrightarrow> torrc_key l = l"
  by (auto simp: torrc_key_def)

lemma parse_directive_line:
  assumes "trim_space l = l" "l \<noteq> []"
  shows "parse_directive m l = m(torrc_key l \<mapsto> torrc_value l)"
proof (cases "CHR '' '' \<in> set l")
  case True
  with assms show ?thesis
    using take_torrc_key [of l]
    by (simp add: parse_directive_def Let_def index_byte_takeWhile torrc_value_def flip: torrc_key_def)
next
  case False
  with assms show ?thesis
    by (simp add: parse_directive_def Let_def index_byte_takeWhile torrc_value_def torrc_key_free)
qed

lemma fold_directives:
  assumes "\<forall>l \<in> set ls. trim_space l = l \<and> l \<noteq> []"
  shows "foldl parse_directive m ls k =
    (case find (\<lambda>l. torrc_key l = k) (rev ls) of Some l \<Rightarrow> Some (torrc_value l) | None \<Rightarrow> m k)"
  using assms
proof (induction ls rule: rev_induct)
  case (snoc l ls)
  then show ?case by (simp add: parse_directive_line)
qed simp

text \<open>
  \<^verbatim>\<open>parseTorrcOverlay\<close> on the overlay that \<^verbatim>\<open>TorrcOverlay\<close> wrote: the map it returns
  gives for each keyword the value of the last line with that keyword and nothing else, so
  it loses no directive exactly as long as no keyword repeats. (With two bridges it keeps the
  second only, since both lines have the keyword \<^verbatim>\<open>Bridge\<close>.)
\<close>

theorem parseTorrcOverlay_last_line:
  assumes "Validate os c = None" "overlay_lines c = Inr ls" "TorrcOverlay c = Inr out"
    and "\<forall>l \<in> set ls. trim_space l = l"
  shows "parseTorrcOverlay out k = map_option torrc_value (find (\<lambda>l. torrc_key l = k) (rev ls))"
proof (cases "ls = []")
  case True
  with assms show ?thesis
    by (simp add: TorrcOverlay_def parseTorrcOverlay_def parse_directive_def)
next
  case False
  have safe: "\<forall>l \<in> set ls. clean l \<and> torrc_key l \<in> set overlay_keywords"
    using overlay_lines_safe [OF assms(1,2)] by (simp add: safe_line_def)
  then have ne: "\<forall>l \<in> set ls. trim_space l = l \<and> l \<noteq> []"
    using assms(4) by (auto simp: torrc_key_def overlay_keywords_def)
  have "split_on NL out = ls @ [[]]"
    using assms(2,3) False safe split_lines [of ls] by (auto simp: TorrcOverlay_def)
  then have "parseTorrcOverlay out = foldl parse_directive Map.empty ls"
    by (simp add: parseTorrcOverlay_def parse_directive_def)
  then show ?thesis
    using fold_directives [OF ne, of Map.empty k] by (simp split: option.splits)
qed

definition two_bridges :: Config where
  "two_bridges = (DefaultConfig Linux)\<lparr>Bridge := \<lparr>br_UseBridges = True, br_Transport = ''none'',
     br_Bridges = Some [''1.2.3.4:443'', ''5.6.7.8:443'']\<rparr>\<rparr>"

lemma two_bridges_valid: "Validate Linux two_bridges = None"
  by (simp add: two_bridges_def validate_defs DefaultConfig_def default_ips default_tap_names
        validateTAPName_def filepath_join_nonempty defaultQMPPath_def defaultBrowserQMPPath_def)

lemma two_bridges_lines:
  "overlay_lines two_bridges = Inr [''UseBridges 1'', ''Bridge 1.2.3.4:443'', ''Bridge 5.6.7.8:443'']"
  by code_simp

lemma two_bridges_trimmed:
  "\<forall>l \<in> set [''UseBridges 1'', ''Bridge 1.2.3.4:443'', ''Bridge 5.6.7.8:443'']. trim_space l = l"
  by code_simp

theorem parseTorrcOverlay_last_line_witness:
  "\<exists>out. TorrcOverlay two_bridges = Inr out
     \<and> parseTorrcOverlay out ''Bridge'' = Some ''5.6.7.8:443''
     \<and> parseTorrcOverlay out ''UseBridges'' = Some ''1''"
proof -
  obtain out where out: "TorrcOverlay two_bridges = Inr out"
    by (simp add: TorrcOverlay_def two_bridges_lines)
  note p = parseTorrcOverlay_last_line [OF two_bridges_valid two_bridges_lines out two_bridges_trimmed]
  have "parseTorrcOverlay out ''Bridge'' = Some ''5.6.7.8:443''"
    by (simp add: p torrc_key_def torrc_value_def)
  moreover have "parseTorrcOverlay out ''UseBridges'' = Some ''1''"
    by (simp add: p torrc_key_def torrc_value_def)
  ultimately show ?thesis using out by blast
qed

end
