(* ===== verification/Lifecycle.thy ===== *)
theory Lifecycle
  imports Retry_Policy Torrc
begin

text \<open>
  \<^verbatim>\<open>lifecycle/lifecycle.go\<close> and \<^verbatim>\<open>lifecycle/failsafe.go\<close>: the engine that drives the VM
  through its states. Everything outside the engine (the VM controller, the network manager,
  the context, the clock, the control connection) is a function of the environment record
  \<open>env\<close> on an abstract world \<open>'w\<close>, and the results below hold for every environment that
  meets the hypotheses they state. The record \<open>sys\<close> is the engine's state together with the
  world and with the list of the calls made so far (\<open>calls\<close>, which the code does not have).
  The two polling loops and the loop of \<^verbatim>\<open>Run\<close> take fuel.
\<close>

section \<open>Environment and state\<close>

datatype ('s, 'c) event =
    Observe State State
  | ESaveConfig "'s res"
  | ERestoreConfig 's "goerr option"
  | ECreateTAP string ip ip "nat list option" "goerr option"
  | EDestroyTAP string "goerr option"
  | ESetupRouting string ip "goerr option"
  | ETeardownRouting "goerr option"
  | EFlushDNS "goerr option"
  | EStart "goerr option"
  | EStop "goerr option"
  | EIsRunning bool
  | EWait "goerr option"
  | EDial string "goerr option"
  | EConnect string "'c res"
  | EAuthenticate 'c "goerr option"
  | EClose 'c
  | EBootstrap 'c "(int \<times> string) res"
  | ESignal 'c string "goerr option"
  | ESetConf 'c "string \<rightharpoonup> string" "goerr option"
  | ESetVerbose bool

record ('w, 's, 'c) env =
  ctx_err :: "'w \<Rightarrow> goerr option \<times> 'w"
  Getuid :: "'w \<Rightarrow> int \<times> 'w"
  Now :: "'w \<Rightarrow> int \<times> 'w"
  Sleep :: "duration \<Rightarrow> 'w \<Rightarrow> 'w"
  After_or_done :: "duration \<Rightarrow> 'w \<Rightarrow> bool \<times> 'w"
  Float64 :: "'w \<Rightarrow> real \<times> 'w"
  SaveConfig :: "'w \<Rightarrow> 's res \<times> 'w"
  RestoreConfig :: "'s \<Rightarrow> 'w \<Rightarrow> goerr option \<times> 'w"
  CreateTAP :: "string \<Rightarrow> ip \<Rightarrow> ip \<Rightarrow> nat list option \<Rightarrow> 'w \<Rightarrow> goerr option \<times> 'w"
  DestroyTAP :: "string \<Rightarrow> 'w \<Rightarrow> goerr option \<times> 'w"
  SetupRouting :: "string \<Rightarrow> ip \<Rightarrow> 'w \<Rightarrow> goerr option \<times> 'w"
  TeardownRouting :: "'w \<Rightarrow> goerr option \<times> 'w"
  FlushDNS :: "'w \<Rightarrow> goerr option \<times> 'w"
  Start :: "'w \<Rightarrow> goerr option \<times> 'w"
  Stop :: "'w \<Rightarrow> goerr option \<times> 'w"
  IsRunning :: "'w \<Rightarrow> bool \<times> 'w"
  Wait :: "'w \<Rightarrow> goerr option \<times> 'w"
  Dial :: "string \<Rightarrow> 'w \<Rightarrow> goerr option \<times> 'w"
  NewControlClient :: "string \<Rightarrow> 'w \<Rightarrow> 'c res \<times> 'w"
  Authenticate :: "'c \<Rightarrow> 'w \<Rightarrow> goerr option \<times> 'w"
  CloseControl :: "'c \<Rightarrow> 'w \<Rightarrow> unit \<times> 'w"
  GetBootstrapStatus :: "'c \<Rightarrow> 'w \<Rightarrow> (int \<times> string) res \<times> 'w"
  SignalTor :: "'c \<Rightarrow> string \<Rightarrow> 'w \<Rightarrow> goerr option \<times> 'w"
  SetConf :: "'c \<Rightarrow> (string \<rightharpoonup> string) \<Rightarrow> 'w \<Rightarrow> goerr option \<times> 'w"
  notify_state :: "State \<Rightarrow> State \<Rightarrow> 'w \<Rightarrow> 'w"
  notify_bootstrap :: "int \<Rightarrow> string \<Rightarrow> 'w \<Rightarrow> 'w"

text \<open>
  The fields of \<^verbatim>\<open>Engine\<close> that change, \<^verbatim>\<open>FailSafe.active\<close>, the world and the calls. A Go
  map of counters reads 0 where it has no entry, so \<open>attempts\<close> is a function.
\<close>

record ('w, 's, 'c) sys =
  config :: Config
  state :: State
  savedNet :: "'s option"
  attempts :: "State \<Rightarrow> int"
  active :: bool
  TorControl :: "'c option"
  world :: 'w
  calls :: "('s, 'c) event list"

definition NewEngine :: "Config \<Rightarrow> 'w \<Rightarrow> ('w, 's, 'c) sys" where
  "NewEngine cfg w = \<lparr>config = cfg, state = StateInit, savedNet = None, attempts = (\<lambda>_. 0),
     active = False, TorControl = None, world = w, calls = []\<rparr>"

text \<open>A call of the environment that is recorded, and one that is not.\<close>

definition ask :: "('w \<Rightarrow> 'a \<times> 'w) \<Rightarrow> ('a \<Rightarrow> ('s, 'c) event) \<Rightarrow> ('w, 's, 'c) sys \<Rightarrow> 'a \<times> ('w, 's, 'c) sys" where
  "ask f ev s =
     (case f (world s) of (r, w) \<Rightarrow> (r, s\<lparr>world := w, calls := calls s @ [ev r]\<rparr>))"

definition poll :: "('w \<Rightarrow> 'a \<times> 'w) \<Rightarrow> ('w, 's, 'c) sys \<Rightarrow> 'a \<times> ('w, 's, 'c) sys" where
  "poll f s = (case f (world s) of (r, w) \<Rightarrow> (r, s\<lparr>world := w\<rparr>))"

section \<open>Operations\<close>

definition transition :: "('w, 's, 'c) env \<Rightarrow> State \<Rightarrow> ('w, 's, 'c) sys \<Rightarrow> ('w, 's, 'c) sys" where
  "transition env nxt s =
     s\<lparr>attempts := (attempts s)(state s := 0), state := nxt,
       world := notify_state env (state s) nxt (world s),
       calls := calls s @ [Observe (state s) nxt]\<rparr>"

definition Activate :: "('w, 's, 'c) env \<Rightarrow> ('w, 's, 'c) sys \<Rightarrow> ('w, 's, 'c) sys" where
  "Activate env s =
     (if active s then s
      else case ask (TeardownRouting env) ETeardownRouting s of (_, s') \<Rightarrow> s'\<lparr>active := True\<rparr>)"

definition Deactivate :: "('w, 's, 'c) sys \<Rightarrow> ('w, 's, 'c) sys" where
  "Deactivate s = (if \<not> active s then s else s\<lparr>active := False\<rparr>)"

text \<open>A step that succeeded moves on; one that failed returns the error from where it is.\<close>

definition advance ::
  "('w, 's, 'c) env \<Rightarrow> State \<Rightarrow> goerr option \<times> ('w, 's, 'c) sys \<Rightarrow> goerr option \<times> ('w, 's, 'c) sys" where
  "advance env nxt r =
     (case r of (Some e, s) \<Rightarrow> (Some e, s) | (None, s) \<Rightarrow> (None, transition env nxt s))"

definition checkPrivileges ::
  "goos \<Rightarrow> ('w, 's, 'c) env \<Rightarrow> ('w, 's, 'c) sys \<Rightarrow> goerr option \<times> ('w, 's, 'c) sys" where
  "checkPrivileges os env s =
     (if os = Windows then (None, s)
      else case poll (Getuid env) s of
        (uid, s1) \<Rightarrow>
          (if uid \<noteq> 0
           then (case poll (Getuid env) s1 of
                   (uid2, s2) \<Rightarrow> (Some (ErrMsg (''must run as root (current uid='' @ itoa uid2 @ '')'')), s2))
           else (None, s1)))"

definition doSaveNetwork ::
  "('w, 's, 'c) env \<Rightarrow> ('w, 's, 'c) sys \<Rightarrow> goerr option \<times> ('w, 's, 'c) sys" where
  "doSaveNetwork env s =
     (case ask (SaveConfig env) ESaveConfig s of
        (Inl e, s1) \<Rightarrow> (Some e, s1)
      | (Inr saved, s1) \<Rightarrow> (None, transition env StateCreateTAP (s1\<lparr>savedNet := Some saved\<rparr>)))"

definition doCreateTAP ::
  "('w, 's, 'c) env \<Rightarrow> ('w, 's, 'c) sys \<Rightarrow> goerr option \<times> ('w, 's, 'c) sys" where
  "doCreateTAP env s =
     (let c = config s in
      case parse_ip (HostIP c) of
        None \<Rightarrow> (Some (ErrMsg (''invalid HostIP: '' @ quote (HostIP c))), s)
      | Some hostIP \<Rightarrow>
         (case parse_ip (VMIP c) of
            None \<Rightarrow> (Some (ErrMsg (''invalid VMIP: '' @ quote (VMIP c))), s)
          | Some vmIP \<Rightarrow>
             (case parse_ip (SubnetMask c) of
                None \<Rightarrow> (Some (ErrMsg (''invalid SubnetMask: '' @ quote (SubnetMask c))), s)
              | Some maskIP \<Rightarrow>
                  advance env StateLaunchVM
                    (ask (CreateTAP env (TAPName c) hostIP vmIP (to4 maskIP))
                       (ECreateTAP (TAPName c) hostIP vmIP (to4 maskIP)) s))))"

definition doLaunchVM ::
  "('w, 's, 'c) env \<Rightarrow> ('w, 's, 'c) sys \<Rightarrow> goerr option \<times> ('w, 's, 'c) sys" where
  "doLaunchVM env s = advance env StateWaitTAP (ask (Start env) EStart s)"

definition vm_addr :: "Config \<Rightarrow> int \<Rightarrow> string" where
  "vm_addr c port = VMIP c @ '':'' @ itoa port"

text \<open>The delay after a failed probe doubles up to the cap, which both polling loops share.\<close>

definition next_backoff :: "duration \<Rightarrow> duration" where
  "next_backoff b = (if b * 2 > 10 * Second then 10 * Second else b * 2)"

text \<open>
  The polling loop of \<^verbatim>\<open>doWaitTAP\<close> and \<^verbatim>\<open>doWaitBootstrap\<close>, which have the same body up to
  the probe, the messages and the next state. The error that \<^verbatim>\<open>return ctx.Err()\<close> returns is
  the one the check before it saw: once it is not nil, \<^verbatim>\<open>Err\<close> of a context keeps returning
  the same error.
\<close>

fun wait_loop ::
  "('w, 's, 'c) env \<Rightarrow> (('w, 's, 'c) sys \<Rightarrow> bool \<times> ('w, 's, 'c) sys) \<Rightarrow> string \<Rightarrow> string \<Rightarrow> State \<Rightarrow>
   nat \<Rightarrow> int \<Rightarrow> duration \<Rightarrow> ('w, 's, 'c) sys \<Rightarrow> (goerr option \<times> ('w, 's, 'c) sys) option" where
  "wait_loop env probe timeout exited nxt 0 deadline backoff s = None"
| "wait_loop env probe timeout exited nxt (Suc n) deadline backoff s =
     (case poll (Now env) s of (now, s0) \<Rightarrow>
      if \<not> now < deadline then Some (Some (ErrMsg timeout), s0)
      else case poll (ctx_err env) s0 of
        (Some e, s1) \<Rightarrow> Some (Some e, s1)
      | (None, s1) \<Rightarrow>
          (case ask (IsRunning env) EIsRunning s1 of
             (False, s2) \<Rightarrow> Some (Some (ErrMsg exited), s2)
           | (True, s2) \<Rightarrow>
               (case probe s2 of
                  (True, s3) \<Rightarrow> Some (None, transition env nxt s3)
                | (False, s3) \<Rightarrow>
                    wait_loop env probe timeout exited nxt n deadline (next_backoff backoff)
                      (s3\<lparr>world := Sleep env backoff (world s3)\<rparr>))))"

definition probe_control :: "('w, 's, 'c) env \<Rightarrow> ('w, 's, 'c) sys \<Rightarrow> bool \<times> ('w, 's, 'c) sys" where
  "probe_control env s =
     (let addr = vm_addr (config s) (ControlPort (config s)) in
      case ask (Dial env addr) (EDial addr) s of (err, s1) \<Rightarrow> (err = None, s1))"

definition doWaitTAP ::
  "('w, 's, 'c) env \<Rightarrow> nat \<Rightarrow> ('w, 's, 'c) sys \<Rightarrow> (goerr option \<times> ('w, 's, 'c) sys) option" where
  "doWaitTAP env n s =
     (case poll (Now env) s of (now, s0) \<Rightarrow>
        wait_loop env (probe_control env) ''TAP connect timeout after 1m0s'' ''VM exited during TAP wait''
          StateConfigureTAP n (now + 60 * Second) (500 * Millisecond) s0)"

definition doConfigureTAP ::
  "('w, 's, 'c) env \<Rightarrow> ('w, 's, 'c) sys \<Rightarrow> goerr option \<times> ('w, 's, 'c) sys" where
  "doConfigureTAP env s =
     (let c = config s in
      case parse_ip (VMIP c) of
        None \<Rightarrow> (Some (ErrMsg (''invalid VMIP: '' @ quote (VMIP c))), s)
      | Some vmIP \<Rightarrow>
          advance env StateFlushDNS
            (ask (SetupRouting env (TAPName c) vmIP) (ESetupRouting (TAPName c) vmIP) s))"

text \<open>The control connection is kept only when it could be authenticated.\<close>

definition connect_control :: "('w, 's, 'c) env \<Rightarrow> ('w, 's, 'c) sys \<Rightarrow> ('w, 's, 'c) sys" where
  "connect_control env s =
     (let addr = vm_addr (config s) (ControlPort (config s)) in
      case ask (NewControlClient env addr) (EConnect addr) s of
        (Inl _, s1) \<Rightarrow> s1
      | (Inr client, s1) \<Rightarrow>
          (case ask (Authenticate env client) (EAuthenticate client) s1 of
             (Some _, s2) \<Rightarrow> snd (ask (CloseControl env client) (\<lambda>_. EClose client) s2)
           | (None, s2) \<Rightarrow> s2\<lparr>TorControl := Some client\<rparr>))"

definition doFlushDNS ::
  "('w, 's, 'c) env \<Rightarrow> ('w, 's, 'c) sys \<Rightarrow> goerr option \<times> ('w, 's, 'c) sys" where
  "doFlushDNS env s =
     (case ask (FlushDNS env) EFlushDNS s of
        (_, s1) \<Rightarrow> (None, transition env StateWaitBootstrap (connect_control env s1)))"

text \<open>One probe of the bootstrap: whether Tor is ready.\<close>

definition probe_bootstrap :: "('w, 's, 'c) env \<Rightarrow> ('w, 's, 'c) sys \<Rightarrow> bool \<times> ('w, 's, 'c) sys" where
  "probe_bootstrap env s =
     (case TorControl s of
        Some client \<Rightarrow>
          (case ask (GetBootstrapStatus env client) (EBootstrap client) s of
             (Inr (progress, summary), s1) \<Rightarrow>
               (progress \<ge> 100, s1\<lparr>world := notify_bootstrap env progress summary (world s1)\<rparr>)
           | (Inl _, s1) \<Rightarrow> (False, s1))
      | None \<Rightarrow>
          (let addr = vm_addr (config s) (SOCKSPort (config s)) in
           case ask (Dial env addr) (EDial addr) s of (err, s1) \<Rightarrow> (err = None, s1)))"

definition doWaitBootstrap ::
  "('w, 's, 'c) env \<Rightarrow> nat \<Rightarrow> ('w, 's, 'c) sys \<Rightarrow> (goerr option \<times> ('w, 's, 'c) sys) option" where
  "doWaitBootstrap env n s =
     (case poll (Now env) s of (now, s0) \<Rightarrow>
        wait_loop env (probe_bootstrap env) ''Tor bootstrap timeout after 5m0s'' ''VM exited during bootstrap''
          StateRunning n (now + 5 * Minute) Second s0)"

definition doRunning ::
  "('w, 's, 'c) env \<Rightarrow> ('w, 's, 'c) sys \<Rightarrow> goerr option \<times> ('w, 's, 'c) sys" where
  "doRunning env s =
     (case ask (Wait env) EWait (Deactivate s) of
        (None, s1) \<Rightarrow> (None, transition env StateShutdown s1)
      | (Some _, s1) \<Rightarrow>
          (case poll (ctx_err env) s1 of
             (None, s2) \<Rightarrow> (None, transition env StateShutdown (Activate env s2))
           | (Some _, s2) \<Rightarrow> (None, transition env StateShutdown s2)))"

definition close_control :: "('w, 's, 'c) env \<Rightarrow> ('w, 's, 'c) sys \<Rightarrow> ('w, 's, 'c) sys" where
  "close_control env s =
     (case TorControl s of
        None \<Rightarrow> s
      | Some client \<Rightarrow> (snd (ask (CloseControl env client) (\<lambda>_. EClose client) s))\<lparr>TorControl := None\<rparr>)"

definition doShutdown ::
  "('w, 's, 'c) env \<Rightarrow> ('w, 's, 'c) sys \<Rightarrow> goerr option \<times> ('w, 's, 'c) sys" where
  "doShutdown env s =
     (case ask (IsRunning env) EIsRunning (close_control env s) of
        (True, s1) \<Rightarrow> (None, transition env StateRestoreNetwork (snd (ask (Stop env) EStop s1)))
      | (False, s1) \<Rightarrow> (None, transition env StateRestoreNetwork s1))"

definition doRestoreNetwork ::
  "('w, 's, 'c) env \<Rightarrow> ('w, 's, 'c) sys \<Rightarrow> goerr option \<times> ('w, 's, 'c) sys" where
  "doRestoreNetwork env s =
     (case ask (TeardownRouting env) ETeardownRouting s of (err, s1) \<Rightarrow>
      let s2 = (if err \<noteq> None then Activate env s1 else s1);
          s3 = (case savedNet s2 of
                  None \<Rightarrow> s2
                | Some saved \<Rightarrow> snd (ask (RestoreConfig env saved) (ERestoreConfig saved) s2));
          s4 = snd (ask (DestroyTAP env (TAPName (config s3))) (EDestroyTAP (TAPName (config s3))) s3)
      in (None, transition env StateCleanup s4))"

definition doCleanup :: "('w, 's, 'c) sys \<Rightarrow> goerr option \<times> ('w, 's, 'c) sys" where
  "doCleanup s = (None, Deactivate s)"

section \<open>The loop\<close>

text \<open>
  One round of the loop of \<^verbatim>\<open>Run\<close>: either it goes on, or \<^verbatim>\<open>Run\<close> returns. \<open>None\<close> means
  that the fuel of a polling loop ran out.
\<close>

datatype 'a step = Continue 'a | Return "goerr option" 'a

text \<open>
  What the loop does with the error of a step. Whether to retry does not depend on the
  random number, which is drawn only for a retry.
\<close>

definition on_error ::
  "('w, 's, 'c) env \<Rightarrow> goerr option \<Rightarrow> ('w, 's, 'c) sys \<Rightarrow> ('w, 's, 'c) sys" where
  "on_error env err s =
     (case err of
        None \<Rightarrow> s
      | Some e \<Rightarrow>
          (let retry = ShouldRetry (state s) err (attempts s (state s)) (DefaultRetryPolicy (state s)) in
           if fst (retry 0) then
             (case poll (Float64 env) s of (r, s1) \<Rightarrow>
              case poll (After_or_done env (snd (retry r)))
                     (s1\<lparr>attempts := (attempts s1)(state s1 := attempts s1 (state s1) + 1)\<rparr>) of
                (True, s2) \<Rightarrow> s2
              | (False, s2) \<Rightarrow> transition env StateShutdown s2)
           else transition env StateShutdown (Activate env s)))"

definition dispatch ::
  "goos \<Rightarrow> ('w, 's, 'c) env \<Rightarrow> nat \<Rightarrow> ('w, 's, 'c) sys \<Rightarrow> ('w, 's, 'c) sys step option" where
  "dispatch os env n s =
     (let go = (\<lambda>(err, s'). Some (Continue (on_error env err s'))) in
      case state s of
        StateInit \<Rightarrow> Some (Continue (transition env StateCheckPrivileges s))
      | StateCheckPrivileges \<Rightarrow>
          (case checkPrivileges os env s of
             (Some e, s1) \<Rightarrow> Some (Return (Some e) s1)
           | (None, s1) \<Rightarrow> Some (Continue (transition env StateSaveNetwork s1)))
      | StateSaveNetwork \<Rightarrow> go (doSaveNetwork env s)
      | StateCreateTAP \<Rightarrow> go (doCreateTAP env s)
      | StateLaunchVM \<Rightarrow> go (doLaunchVM env s)
      | StateWaitTAP \<Rightarrow> (case doWaitTAP env n s of None \<Rightarrow> None | Some r \<Rightarrow> go r)
      | StateConfigureTAP \<Rightarrow> go (doConfigureTAP env s)
      | StateFlushDNS \<Rightarrow> go (doFlushDNS env s)
      | StateWaitBootstrap \<Rightarrow> (case doWaitBootstrap env n s of None \<Rightarrow> None | Some r \<Rightarrow> go r)
      | StateRunning \<Rightarrow> go (doRunning env s)
      | StateShutdown \<Rightarrow> go (doShutdown env s)
      | StateRestoreNetwork \<Rightarrow> go (doRestoreNetwork env s)
      | StateCleanup \<Rightarrow> (case doCleanup s of (err, s1) \<Rightarrow> Some (Return err s1))
      | StateFailed \<Rightarrow> Some (Return (Some (ErrMsg ''lifecycle: entered failed state'')) s))"

definition iterate ::
  "goos \<Rightarrow> ('w, 's, 'c) env \<Rightarrow> nat \<Rightarrow> ('w, 's, 'c) sys \<Rightarrow> ('w, 's, 'c) sys step option" where
  "iterate os env n s =
     (case poll (ctx_err env) s of
        (Some _, s0) \<Rightarrow> dispatch os env n (transition env StateShutdown s0)
      | (None, s0) \<Rightarrow> dispatch os env n s0)"

fun Run ::
  "goos \<Rightarrow> ('w, 's, 'c) env \<Rightarrow> nat \<Rightarrow> nat \<Rightarrow> ('w, 's, 'c) sys \<Rightarrow> (goerr option \<times> ('w, 's, 'c) sys) option" where
  "Run os env n 0 s = None"
| "Run os env n (Suc k) s =
     (case iterate os env n s of
        None \<Rightarrow> None
      | Some (Return err s') \<Rightarrow> Some (err, s')
      | Some (Continue s') \<Rightarrow> Run os env n k s')"

section \<open>Commands from outside the loop\<close>

definition NewIdentity ::
  "('w, 's, 'c) env \<Rightarrow> ('w, 's, 'c) sys \<Rightarrow> goerr option \<times> ('w, 's, 'c) sys" where
  "NewIdentity env s =
     (case TorControl s of
        None \<Rightarrow> (Some (ErrMsg ''tor control not connected''), s)
      | Some client \<Rightarrow> ask (SignalTor env client ''NEWNYM'') (ESignal client ''NEWNYM'') s)"

text \<open>Pushing the settings of the new configuration to Tor; the error of \<^verbatim>\<open>RELOAD\<close> is only logged.\<close>

definition push_config ::
  "('w, 's, 'c) env \<Rightarrow> Config \<Rightarrow> 'c \<Rightarrow> ('w, 's, 'c) sys \<Rightarrow> goerr option \<times> ('w, 's, 'c) sys" where
  "push_config env newCfg client s =
     (case TorrcOverlay newCfg of
        Inl e \<Rightarrow> (Some (wrap ''config reload: generate torrc overlay'' e), s)
      | Inr overlay \<Rightarrow>
          (case (if overlay \<noteq> []
                 then ask (SetConf env client (parseTorrcOverlay overlay))
                          (ESetConf client (parseTorrcOverlay overlay)) s
                 else (None, s)) of
             (Some e, s1) \<Rightarrow> (Some (wrap ''config reload: setconf'' e), s1)
           | (None, s1) \<Rightarrow>
               (None, snd (ask (SignalTor env client ''RELOAD'') (ESignal client ''RELOAD'') s1))))"

definition ReloadConfig ::
  "('w, 's, 'c) env \<Rightarrow> Config \<Rightarrow> ('w, 's, 'c) sys \<Rightarrow> goerr option \<times> ('w, 's, 'c) sys" where
  "ReloadConfig env newCfg s =
     (let diff = Diff (config s) newCfg in
      if \<not> HasChanges diff then (None, s)
      else
        (case (case TorControl s of
                 Some client \<Rightarrow>
                   (if length (HotReloadable diff) > 0 \<and> state s = StateRunning
                    then push_config env newCfg client s else (None, s))
               | None \<Rightarrow> (None, s)) of
           (Some e, s1) \<Rightarrow> (Some e, s1)
         | (None, s1) \<Rightarrow>
             (None, (if Verbose newCfg \<noteq> Verbose (config s1)
                     then s1\<lparr>calls := calls s1 @ [ESetVerbose (Verbose newCfg)]\<rparr> else s1)
                    \<lparr>config := newCfg\<rparr>)))"

end
