(* ===== verification/Lifecycle_Inv.thy ===== *)
theory Lifecycle_Inv
  imports Lifecycle
begin

text \<open>
  The edges of the lifecycle, what has to precede each transition, and the invariant of the
  engine with its preservation by every step; and the progress measure of \<^verbatim>\<open>Run\<close>.
\<close>

section \<open>Histories\<close>

text \<open>
  The edges of the state machine: each state has one successor, and every state can go to
  the shutdown state.
\<close>

fun next_state :: "State \<Rightarrow> State option" where
  "next_state StateInit = Some StateCheckPrivileges"
| "next_state StateCheckPrivileges = Some StateSaveNetwork"
| "next_state StateSaveNetwork = Some StateCreateTAP"
| "next_state StateCreateTAP = Some StateLaunchVM"
| "next_state StateLaunchVM = Some StateWaitTAP"
| "next_state StateWaitTAP = Some StateConfigureTAP"
| "next_state StateConfigureTAP = Some StateFlushDNS"
| "next_state StateFlushDNS = Some StateWaitBootstrap"
| "next_state StateWaitBootstrap = Some StateRunning"
| "next_state StateRunning = Some StateShutdown"
| "next_state StateShutdown = Some StateRestoreNetwork"
| "next_state StateRestoreNetwork = Some StateCleanup"
| "next_state StateCleanup = None"
| "next_state StateFailed = None"

inductive edge :: "State \<Rightarrow> State \<Rightarrow> bool" where
  forward: "next_state a = Some b \<Longrightarrow> edge a b"
| to_shutdown: "edge a StateShutdown"

inductive_simps edge_simps: "edge a b"

code_pred edge .

text \<open>A history of transitions from one state to another along edges, latest last.\<close>

inductive chain :: "State \<Rightarrow> (State \<times> State) list \<Rightarrow> State \<Rightarrow> bool" where
  chain_Nil: "chain a [] a"
| chain_snoc: "chain a xs b \<Longrightarrow> edge b c \<Longrightarrow> chain a (xs @ [(b, c)]) c"

inductive_cases chainE: "chain a xs b"

fun observed :: "('s, 'c) event list \<Rightarrow> (State \<times> State) list" where
  "observed [] = []"
| "observed (Observe a b # es) = (a, b) # observed es"
| "observed (e # es) = observed es"

lemma observed_append [simp]: "observed (xs @ ys) = observed xs @ observed ys"
  by (induction xs rule: observed.induct) auto

text \<open>
  What must have happened right before a transition: the last call of the history is the
  one that allows it.
\<close>

definition is_control_addr :: "string \<Rightarrow> bool" where
  "is_control_addr a \<longleftrightarrow> (\<exists>c. a = vm_addr c (ControlPort c))"

definition justifies :: "('s, 'c) event list \<Rightarrow> State \<Rightarrow> State \<Rightarrow> bool" where
  "justifies cs a b =
     (if b = StateShutdown then True
      else case a of
        StateSaveNetwork \<Rightarrow> (\<exists>sv. cs \<noteq> [] \<and> last cs = ESaveConfig (Inr sv))
      | StateCreateTAP \<Rightarrow> (\<exists>t h v m. cs \<noteq> [] \<and> last cs = ECreateTAP t h v m None)
      | StateLaunchVM \<Rightarrow> cs \<noteq> [] \<and> last cs = EStart None
      | StateWaitTAP \<Rightarrow> (\<exists>c. cs \<noteq> [] \<and> last cs = EDial (vm_addr c (ControlPort c)) None)
      | StateConfigureTAP \<Rightarrow> (\<exists>t g. cs \<noteq> [] \<and> last cs = ESetupRouting t g None)
      | StateWaitBootstrap \<Rightarrow>
          (\<exists>cl p m. cs \<noteq> [] \<and> last cs = EBootstrap cl (Inr (p, m)) \<and> p \<ge> 100)
          \<or> (\<exists>c. cs \<noteq> [] \<and> last cs = EDial (vm_addr c (SOCKSPort c)) None)
      | StateShutdown \<Rightarrow> cs \<noteq> [] \<and> (last cs = EIsRunning False \<or> (\<exists>e. last cs = EStop e))
      | StateRestoreNetwork \<Rightarrow> (\<exists>t e. cs \<noteq> [] \<and> last cs = EDestroyTAP t e)
      | _ \<Rightarrow> True)"

definition justified :: "('s, 'c) event list \<Rightarrow> bool" where
  "justified cs \<longleftrightarrow> (\<forall>pre a b post. cs = pre @ Observe a b # post \<longrightarrow> justifies pre a b)"

lemma justified_Nil [simp]: "justified []"
  by (simp add: justified_def)

lemma justified_snoc:
  "justified (cs @ [e]) \<longleftrightarrow> justified cs \<and> (\<forall>a b. e = Observe a b \<longrightarrow> justifies cs a b)"
  (is "?L \<longleftrightarrow> ?R")
proof
  assume ?L
  then have "justifies cs a b" if "e = Observe a b" for a b
    using that unfolding justified_def by blast
  moreover have "justified cs"
    unfolding justified_def
  proof (intro allI impI)
    fix pre a b post
    assume "cs = pre @ Observe a b # post"
    then have "cs @ [e] = pre @ Observe a b # (post @ [e])" by simp
    with \<open>?L\<close> show "justifies pre a b" unfolding justified_def by blast
  qed
  ultimately show ?R by blast
next
  assume R: ?R
  show ?L
    unfolding justified_def
  proof (intro allI impI)
    fix pre a b post
    assume eq: "cs @ [e] = pre @ Observe a b # post"
    show "justifies pre a b"
    proof (cases post rule: rev_cases)
      case Nil
      with eq R show ?thesis by simp
    next
      case (snoc p x)
      with eq have "cs = pre @ Observe a b # p" by simp
      with R show ?thesis unfolding justified_def by blast
    qed
  qed
qed

definition max_attempts :: "State \<Rightarrow> int" where
  "max_attempts st = (case DefaultRetryPolicy st of None \<Rightarrow> 0 | Some p \<Rightarrow> MaxAttempts p)"

fun saved_of :: "('s, 'c) event \<Rightarrow> 's option" where
  "saved_of (ESaveConfig (Inr sv)) = Some sv"
| "saved_of _ = None"

definition last_saved :: "('s, 'c) event list \<Rightarrow> 's option" where
  "last_saved cs = fold (\<lambda>e acc. case saved_of e of Some sv \<Rightarrow> Some sv | None \<Rightarrow> acc) cs None"

text \<open>
  The invariant of the engine: the transitions follow the edges and were allowed, the
  counters are within the policy and zero for the states it is not in, the failed state is
  not entered, and the saved configuration is the last one that was read.
\<close>

definition engine_inv :: "('w, 's, 'c) sys \<Rightarrow> bool" where
  "engine_inv s \<longleftrightarrow>
     chain StateInit (observed (calls s)) (state s) \<and> justified (calls s)
     \<and> 0 \<le> attempts s (state s) \<and> attempts s (state s) \<le> max_attempts (state s)
     \<and> (\<forall>st. st \<noteq> state s \<longrightarrow> attempts s st = 0)
     \<and> state s \<noteq> StateFailed \<and> savedNet s = last_saved (calls s)"

definition quiet :: "('s, 'c) event \<Rightarrow> bool" where
  "quiet e \<longleftrightarrow> observed [e] = [] \<and> saved_of e = None"

lemma last_saved_snoc [simp]:
  "last_saved (cs @ [e]) = (case saved_of e of Some sv \<Rightarrow> Some sv | None \<Rightarrow> last_saved cs)"
  by (simp add: last_saved_def split: option.splits)

lemma quiet_simps [simp]:
  "quiet (ERestoreConfig sv r)" "quiet (ECreateTAP t h v m r)" "quiet (EDestroyTAP t r)"
  "quiet (ESetupRouting t g r)" "quiet (ETeardownRouting r)" "quiet (EFlushDNS r)"
  "quiet (EStart r)" "quiet (EStop r)" "quiet (EIsRunning b)" "quiet (EWait r)" "quiet (EDial a r)"
  "quiet (EConnect a cr)" "quiet (EAuthenticate c r)" "quiet (EClose c)" "quiet (EBootstrap c br)"
  "quiet (ESignal c sg r)" "quiet (ESetConf c d r)" "quiet (ESetVerbose b)" "quiet (ESaveConfig (Inl e))"
  by (simp_all add: quiet_def)

lemma justified_quiet [simp]: "quiet e \<Longrightarrow> justified (cs @ [e]) \<longleftrightarrow> justified cs"
  unfolding justified_snoc quiet_def by auto

lemma inv_quiet:
  "engine_inv s \<Longrightarrow> quiet e \<Longrightarrow> engine_inv (s\<lparr>world := w, calls := calls s @ [e]\<rparr>)"
  by (simp add: engine_inv_def) (simp add: quiet_def)

lemma inv_frame [simp]:
  "engine_inv (s\<lparr>world := w\<rparr>) = engine_inv s"
  "engine_inv (s\<lparr>active := x\<rparr>) = engine_inv s"
  "engine_inv (s\<lparr>TorControl := t\<rparr>) = engine_inv s"
  "engine_inv (s\<lparr>config := c\<rparr>) = engine_inv s"
  by (simp_all add: engine_inv_def)

lemma max_attempts_nonneg: "0 \<le> max_attempts st"
  using DefaultRetryPolicy_bounds [of st] by (auto simp: max_attempts_def split: option.splits)

lemma inv_transition:
  assumes "engine_inv s" "edge (state s) nxt" "nxt \<noteq> StateFailed" "justifies (calls s) (state s) nxt"
  shows "engine_inv (transition env nxt s)"
  using assms max_attempts_nonneg [of nxt]
  by (auto simp: engine_inv_def transition_def justified_snoc intro: chain_snoc)

subsection \<open>Preservation\<close>

text \<open>Calls, by what they leave unchanged.\<close>

lemma ask_inv: "engine_inv s \<Longrightarrow> (\<And>r. quiet (ev r)) \<Longrightarrow> engine_inv (snd (ask f ev s))"
  by (simp add: ask_def inv_quiet split: prod.splits)

lemma ask_frame [simp]:
  "state (snd (ask f ev s)) = state s" "config (snd (ask f ev s)) = config s"
  "attempts (snd (ask f ev s)) = attempts s" "active (snd (ask f ev s)) = active s"
  "savedNet (snd (ask f ev s)) = savedNet s" "TorControl (snd (ask f ev s)) = TorControl s"
  "calls (snd (ask f ev s)) = calls s @ [ev (fst (ask f ev s))]"
  by (simp_all add: ask_def split: prod.splits)

lemma poll_inv [simp]: "engine_inv (snd (poll f s)) = engine_inv s"
  by (simp add: poll_def split: prod.splits)

lemma poll_frame [simp]:
  "state (snd (poll f s)) = state s" "config (snd (poll f s)) = config s"
  "attempts (snd (poll f s)) = attempts s" "active (snd (poll f s)) = active s"
  "savedNet (snd (poll f s)) = savedNet s" "TorControl (snd (poll f s)) = TorControl s"
  "calls (snd (poll f s)) = calls s"
  by (simp_all add: poll_def split: prod.splits)

lemma transition_frame [simp]:
  "state (transition env nxt s) = nxt" "config (transition env nxt s) = config s"
  "active (transition env nxt s) = active s" "savedNet (transition env nxt s) = savedNet s"
  "TorControl (transition env nxt s) = TorControl s"
  "calls (transition env nxt s) = calls s @ [Observe (state s) nxt]"
  "attempts (transition env nxt s) = (attempts s)(state s := 0)"
  by (simp_all add: transition_def)

lemma ask_split: "ask f ev s = (fst (ask f ev s), snd (ask f ev s))" by simp

lemma Activate_frame [simp]:
  "state (Activate env s) = state s" "config (Activate env s) = config s"
  "attempts (Activate env s) = attempts s" "savedNet (Activate env s) = savedNet s"
  "active (Activate env s)" "TorControl (Activate env s) = TorControl s"
  by (simp_all add: Activate_def case_prod_unfold)

lemma Activate_inv: "engine_inv s \<Longrightarrow> engine_inv (Activate env s)"
  by (simp add: Activate_def case_prod_unfold ask_inv)

lemma Deactivate_frame [simp]:
  "state (Deactivate s) = state s" "config (Deactivate s) = config s" "calls (Deactivate s) = calls s"
  "attempts (Deactivate s) = attempts s" "savedNet (Deactivate s) = savedNet s"
  "\<not> active (Deactivate s)" "TorControl (Deactivate s) = TorControl s"
  by (simp_all add: Deactivate_def)

lemma Deactivate_inv [simp]: "engine_inv (Deactivate s) = engine_inv s"
  by (simp add: Deactivate_def)

lemma shutdown_inv: "engine_inv s \<Longrightarrow> engine_inv (transition env StateShutdown s)"
  by (rule inv_transition) (auto simp: edge_simps justifies_def)

text \<open>
  The contract of a step: it keeps the invariant; when it fails it stays in its state with
  its counter, and when it succeeds it has moved to the successor of its state.
\<close>

definition step_ok :: "('w, 's, 'c) sys \<Rightarrow> goerr option \<times> ('w, 's, 'c) sys \<Rightarrow> bool" where
  "step_ok s r \<longleftrightarrow>
     engine_inv (snd r) \<and> config (snd r) = config s
     \<and> (if fst r = None then next_state (state s) = Some (state (snd r))
        else state (snd r) = state s \<and> attempts (snd r) = attempts s)"

lemma advance_ok:
  assumes "engine_inv s" "\<And>r. quiet (ev r)" "edge (state s) nxt" "nxt \<noteq> StateFailed"
    and "justifies (calls s @ [ev None]) (state s) nxt" "next_state (state s) = Some nxt"
  shows "step_ok s (advance env nxt (ask f ev s))"
proof (cases "fst (ask f ev s)")
  case None
  have "engine_inv (transition env nxt (snd (ask f ev s)))"
    using assms None by (intro inv_transition ask_inv) simp_all
  with None assms(6) show ?thesis
    using ask_frame [of f ev s] by (cases "ask f ev s") (simp add: step_ok_def advance_def)
next
  case (Some e)
  have "engine_inv (snd (ask f ev s))" using assms by (intro ask_inv) simp_all
  with Some show ?thesis
    using ask_frame [of f ev s] by (cases "ask f ev s") (simp add: step_ok_def advance_def)
qed

lemma doSaveNetwork_ok:
  assumes "engine_inv s" "state s = StateSaveNetwork"
  shows "step_ok s (doSaveNetwork env s)"
proof -
  obtain r w where f: "SaveConfig env (world s) = (r, w)" by fastforce
  show ?thesis
  proof (cases r)
    case (Inl e)
    with f assms show ?thesis
      by (simp add: doSaveNetwork_def ask_def step_ok_def inv_quiet)
  next
    case (Inr sv)
    have "engine_inv (transition env StateCreateTAP
            (s\<lparr>world := w, calls := calls s @ [ESaveConfig (Inr sv)], savedNet := Some sv\<rparr>))"
      using assms
      by (intro inv_transition) (auto simp: engine_inv_def edge_simps justifies_def justified_snoc)
    with Inr f assms show ?thesis
      by (simp add: doSaveNetwork_def ask_def step_ok_def less_State_def)
  qed
qed

lemma doCreateTAP_ok:
  assumes "engine_inv s" "state s = StateCreateTAP"
  shows "step_ok s (doCreateTAP env s)"
proof -
  have "step_ok s (advance env StateLaunchVM (ask f (ECreateTAP t h v m) s))" for f t h v m
    using assms by (intro advance_ok) (auto simp: edge_simps justifies_def less_State_def)
  moreover have "step_ok s (Some e, s)" for e using assms by (simp add: step_ok_def)
  ultimately show ?thesis by (simp add: doCreateTAP_def Let_def split: option.splits)
qed

lemma doLaunchVM_ok:
  assumes "engine_inv s" "state s = StateLaunchVM"
  shows "step_ok s (doLaunchVM env s)"
  unfolding doLaunchVM_def
  using assms by (intro advance_ok) (auto simp: edge_simps justifies_def less_State_def)

lemma doConfigureTAP_ok:
  assumes "engine_inv s" "state s = StateConfigureTAP"
  shows "step_ok s (doConfigureTAP env s)"
proof -
  have "step_ok s (advance env StateFlushDNS (ask f (ESetupRouting t g) s))" for f t g
    using assms by (intro advance_ok) (auto simp: edge_simps justifies_def less_State_def)
  moreover have "step_ok s (Some e, s)" for e using assms by (simp add: step_ok_def)
  ultimately show ?thesis by (simp add: doConfigureTAP_def Let_def split: option.splits)
qed

text \<open>Two states of a step that differ in the world and in calls only.\<close>

definition same :: "('w, 's, 'c) sys \<Rightarrow> ('w, 's, 'c) sys \<Rightarrow> bool" where
  "same s s' \<longleftrightarrow> state s' = state s \<and> config s' = config s \<and> attempts s' = attempts s
     \<and> (engine_inv s \<longrightarrow> engine_inv s')"

lemma same_trans: "same a b \<Longrightarrow> same b c \<Longrightarrow> same a c"
  by (simp add: same_def)

lemma poll_same: "poll f s = (r, s') \<Longrightarrow> same s s'"
  using poll_frame [of f s] poll_inv [of f s] by (simp add: same_def)

lemma ask_same: "ask f ev s = (r, s') \<Longrightarrow> (\<And>r. quiet (ev r)) \<Longrightarrow> same s s'"
  using ask_frame [of f ev s] ask_inv [of s ev f] by (simp add: same_def)

lemma step_ok_same: "same s s' \<Longrightarrow> step_ok s' r \<Longrightarrow> step_ok s r"
  unfolding same_def step_ok_def by auto

lemma step_ok_fail: "same s s' \<Longrightarrow> engine_inv s \<Longrightarrow> step_ok s (Some e, s')"
  unfolding same_def step_ok_def by auto

lemma wait_loop_ok:
  assumes probe: "\<And>t b t'. probe t = (b, t') \<Longrightarrow> engine_inv t \<Longrightarrow> state t = st \<Longrightarrow>
      same t t' \<and> (b \<longrightarrow> justifies (calls t') st nxt)"
    and nxt: "edge st nxt" "nxt \<noteq> StateFailed" "next_state st = Some nxt"
  shows "wait_loop env probe m1 m2 nxt n d b s = Some r \<Longrightarrow> engine_inv s \<Longrightarrow> state s = st \<Longrightarrow> step_ok s r"
proof (induction n arbitrary: b s)
  case (Suc n)
  obtain now s0 where p0: "poll (Now env) s = (now, s0)" by fastforce
  obtain ce s1 where p1: "poll (ctx_err env) s0 = (ce, s1)" by fastforce
  obtain rn s2 where p2: "ask (IsRunning env) EIsRunning s1 = (rn, s2)" by fastforce
  obtain ok s3 where p3: "probe s2 = (ok, s3)" by fastforce
  have s0: "same s s0" and s1: "same s s1" and s2: "same s s2"
    using poll_same [OF p0] poll_same [OF p1] ask_same [OF p2] by (auto intro: same_trans)
  have s3: "same s s3" "ok \<longrightarrow> justifies (calls s3) st nxt"
    using probe [OF p3] s2 Suc.prems by (auto simp: same_def)
  have fail: "step_ok s (Some e, s')" if "same s s'" for e s'
    using that Suc.prems by (simp add: step_ok_fail)
  show ?case
  proof (cases "now < d \<and> ce = None \<and> rn")
    case False
    then consider (late) "\<not> now < d" | (cancelled) e where "now < d" "ce = Some e"
      | (exited) "now < d" "ce = None" "\<not> rn" by (cases ce) auto
    then show ?thesis
    proof cases
      case late
      with Suc.prems(1) have "r = (Some (ErrMsg m1), s0)" by (simp add: p0)
      with fail s0 show ?thesis by simp
    next
      case cancelled
      with Suc.prems(1) have "r = (ce, s1)" by (simp add: p0 p1)
      with fail s1 cancelled show ?thesis by simp
    next
      case exited
      with Suc.prems(1) have "r = (Some (ErrMsg m2), s2)" by (simp add: p0 p1 p2)
      with fail s2 show ?thesis by simp
    qed
  next
    case True
    show ?thesis
    proof (cases ok)
      case True
      with \<open>now < d \<and> ce = None \<and> rn\<close> Suc.prems(1) have r: "r = (None, transition env nxt s3)"
        by (simp add: p0 p1 p2 p3)
      have "engine_inv (transition env nxt s3)"
        using s3 Suc.prems nxt True by (intro inv_transition) (auto simp: same_def)
      then show ?thesis using r nxt Suc.prems s3 by (simp add: step_ok_def same_def)
    next
      case False
      let ?s = "s3\<lparr>world := Sleep env b (world s3)\<rparr>"
      have "wait_loop env probe m1 m2 nxt n d (next_backoff b) ?s = Some r"
        using \<open>now < d \<and> ce = None \<and> rn\<close> False Suc.prems(1) by (simp add: p0 p1 p2 p3)
      then have "step_ok ?s r"
        using s3 Suc.prems by (intro Suc.IH) (auto simp: same_def)
      moreover have "same s ?s" using s3 by (simp add: same_def)
      ultimately show ?thesis by (rule step_ok_same [rotated])
    qed
  qed
qed simp

lemma ask_calls: "ask f ev s = (r, s') \<Longrightarrow> calls s' = calls s @ [ev r]"
  using ask_frame(7) [of f ev s] by simp

lemma probe_control_ok:
  assumes "probe_control env t = (b, t')"
  shows "same t t' \<and> (b \<longrightarrow> justifies (calls t') StateWaitTAP StateConfigureTAP)"
proof -
  let ?a = "vm_addr (config t) (ControlPort (config t))"
  obtain r where r: "ask (Dial env ?a) (EDial ?a) t = (r, t')" "b = (r = None)"
    using assms by (auto simp: probe_control_def Let_def split: prod.splits)
  have "calls t' = calls t @ [EDial ?a r]" using ask_calls [OF r(1)] .
  with ask_same [OF r(1)] r(2) show ?thesis by (auto simp: justifies_def)
qed

lemma doWaitTAP_ok:
  assumes "doWaitTAP env n s = Some r" "engine_inv s" "state s = StateWaitTAP"
  shows "step_ok s r"
proof -
  obtain now s0 where p0: "poll (Now env) s = (now, s0)" by fastforce
  have "engine_inv s0" "state s0 = StateWaitTAP"
    using assms poll_same [OF p0] by (auto simp: same_def)
  then have "step_ok s0 r"
    using assms(1) unfolding doWaitTAP_def p0 prod.case
    by (intro wait_loop_ok [OF probe_control_ok]) (simp_all add: edge_simps less_State_def)
  then show ?thesis by (rule step_ok_same [OF poll_same [OF p0]])
qed

lemma connect_control_ok:
  "engine_inv s \<Longrightarrow> engine_inv (connect_control env s)"
  "state (connect_control env s) = state s" "config (connect_control env s) = config s"
  "savedNet (connect_control env s) = savedNet s" "active (connect_control env s) = active s"
  by (simp_all add: connect_control_def Let_def case_prod_unfold ask_inv split: sum.splits option.splits)

lemma doFlushDNS_ok:
  assumes "engine_inv s" "state s = StateFlushDNS"
  shows "step_ok s (doFlushDNS env s)"
proof -
  let ?s = "connect_control env (snd (ask (FlushDNS env) EFlushDNS s))"
  have "engine_inv (transition env StateWaitBootstrap ?s)"
    using assms
    by (intro inv_transition connect_control_ok ask_inv)
       (auto simp: edge_simps justifies_def connect_control_ok)
  then show ?thesis
    using assms by (simp add: doFlushDNS_def step_ok_def case_prod_unfold connect_control_ok less_State_def)
qed

lemma probe_bootstrap_ok:
  assumes "probe_bootstrap env t = (b, t')"
  shows "same t t' \<and> (b \<longrightarrow> justifies (calls t') StateWaitBootstrap StateRunning)"
proof (cases "TorControl t")
  case None
  let ?a = "vm_addr (config t) (SOCKSPort (config t))"
  obtain r where r: "ask (Dial env ?a) (EDial ?a) t = (r, t')" "b = (r = None)"
    using assms None by (auto simp: probe_bootstrap_def Let_def split: prod.splits)
  have "calls t' = calls t @ [EDial ?a r]" using ask_calls [OF r(1)] .
  with ask_same [OF r(1)] r(2) show ?thesis by (auto simp: justifies_def)
next
  case (Some cl)
  obtain r t1 where r: "ask (GetBootstrapStatus env cl) (EBootstrap cl) t = (r, t1)" by fastforce
  have c: "calls t1 = calls t @ [EBootstrap cl r]" "same t t1"
    using ask_calls [OF r] ask_same [OF r] by auto
  show ?thesis
  proof (cases r)
    case (Inl e)
    with assms Some r c show ?thesis by (simp add: probe_bootstrap_def)
  next
    case (Inr ps)
    obtain p m where "ps = (p, m)" by fastforce
    with Inr assms Some r have "b = (p \<ge> 100)" "t' = t1\<lparr>world := notify_bootstrap env p m (world t1)\<rparr>"
      by (auto simp: probe_bootstrap_def)
    with c Inr \<open>ps = (p, m)\<close> show ?thesis by (auto simp: same_def justifies_def)
  qed
qed

lemma doWaitBootstrap_ok:
  assumes "doWaitBootstrap env n s = Some r" "engine_inv s" "state s = StateWaitBootstrap"
  shows "step_ok s r"
proof -
  obtain now s0 where p0: "poll (Now env) s = (now, s0)" by fastforce
  have "engine_inv s0" "state s0 = StateWaitBootstrap"
    using assms poll_same [OF p0] by (auto simp: same_def)
  then have "step_ok s0 r"
    using assms(1) unfolding doWaitBootstrap_def p0 prod.case
    by (intro wait_loop_ok [OF probe_bootstrap_ok]) (simp_all add: edge_simps less_State_def)
  then show ?thesis by (rule step_ok_same [OF poll_same [OF p0]])
qed

lemma doRunning_ok:
  assumes "engine_inv s" "state s = StateRunning"
  shows "step_ok s (doRunning env s)"
proof -
  let ?s1 = "snd (ask (Wait env) EWait (Deactivate s))"
  have "engine_inv ?s1" using assms by (intro ask_inv) simp_all
  then have "engine_inv (transition env StateShutdown t)"
    if "t \<in> {?s1, snd (poll (ctx_err env) ?s1), Activate env (snd (poll (ctx_err env) ?s1))}" for t
    using that by (auto intro!: shutdown_inv Activate_inv)
  then show ?thesis
    using assms
    by (auto simp: doRunning_def case_prod_unfold step_ok_def less_State_def split: option.splits)
qed

lemma close_control_ok:
  "engine_inv s \<Longrightarrow> engine_inv (close_control env s)"
  "state (close_control env s) = state s" "config (close_control env s) = config s"
  "savedNet (close_control env s) = savedNet s" "active (close_control env s) = active s"
  "TorControl (close_control env s) = None"
  by (simp_all add: close_control_def ask_inv split: option.splits)

lemma doShutdown_ok:
  assumes "engine_inv s" "state s = StateShutdown"
  shows "step_ok s (doShutdown env s)"
proof -
  let ?s1 = "snd (ask (IsRunning env) EIsRunning (close_control env s))"
  let ?s2 = "snd (ask (Stop env) EStop ?s1)"
  have i: "engine_inv ?s1" "engine_inv ?s2" using assms by (auto intro!: ask_inv close_control_ok)
  have 1: "engine_inv (transition env StateRestoreNetwork ?s2)"
    using assms i by (intro inv_transition) (auto simp: edge_simps justifies_def close_control_ok)
  have 2: "engine_inv (transition env StateRestoreNetwork ?s1)"
    if "\<not> fst (ask (IsRunning env) EIsRunning (close_control env s))"
    using assms i that by (intro inv_transition) (auto simp: edge_simps justifies_def close_control_ok)
  show ?thesis
    using 1 2 assms
    by (auto simp: doShutdown_def case_prod_unfold step_ok_def less_State_def close_control_ok split: bool.splits)
qed

lemma doRestoreNetwork_ok:
  assumes "engine_inv s" "state s = StateRestoreNetwork"
  shows "step_ok s (doRestoreNetwork env s)"
proof -
  let ?s1 = "snd (ask (TeardownRouting env) ETeardownRouting s)"
  define s2 where "s2 = (if fst (ask (TeardownRouting env) ETeardownRouting s) \<noteq> None then Activate env ?s1 else ?s1)"
  define s3 where "s3 = (case savedNet s2 of None \<Rightarrow> s2
     | Some saved \<Rightarrow> snd (ask (RestoreConfig env saved) (ERestoreConfig saved) s2))"
  let ?s4 = "snd (ask (DestroyTAP env (TAPName (config s3))) (EDestroyTAP (TAPName (config s3))) s3)"
  have "engine_inv s2" "state s2 = state s" "config s2 = config s"
    using assms by (auto simp: s2_def intro!: Activate_inv ask_inv)
  then have s3: "engine_inv s3" "state s3 = state s" "config s3 = config s"
    by (auto simp: s3_def intro!: ask_inv split: option.splits)
  have "engine_inv (transition env StateCleanup ?s4)"
    using assms s3 by (intro inv_transition ask_inv) (auto simp: edge_simps justifies_def)
  moreover have "doRestoreNetwork env s = (None, transition env StateCleanup ?s4)"
    unfolding doRestoreNetwork_def case_prod_unfold Let_def s3_def s2_def by (rule refl)
  ultimately show ?thesis using assms s3 by (simp add: step_ok_def less_State_def)
qed

subsection \<open>Progress\<close>

text \<open>
  A number that every round without cancellation makes smaller: the states ahead count
  four each, and the retries left in the current one count one each.
\<close>

definition rounds_left :: "('w, 's, 'c) sys \<Rightarrow> nat" where
  "rounds_left s =
     4 * (13 - state_index (state s)) + nat (max_attempts (state s) - attempts s (state s))"

lemma max_attempts_le: "max_attempts st \<le> 3"
  using DefaultRetryPolicy_bounds [of st] by (auto simp: max_attempts_def split: option.splits)

lemma state_index_le: "state_index st \<le> 13"
  by (cases st) simp_all

lemma rounds_left_less:
  assumes "engine_inv s" "engine_inv s'" "state s < state s'"
  shows "rounds_left s' < rounds_left s"
proof -
  have "state_index (state s) < state_index (state s')" using assms(3) by (simp add: less_State_def)
  moreover have "nat (max_attempts (state s') - attempts s' (state s')) \<le> 3"
    using assms(2) max_attempts_le [of "state s'"] by (auto simp: engine_inv_def)
  ultimately show ?thesis
    using state_index_le [of "state s'"] unfolding rounds_left_def by linarith
qed

lemma next_state_less: "next_state a = Some b \<Longrightarrow> a < b"
  by (cases a) (auto simp: less_State_def)

lemma step_None:
  "step_ok s (None, t) \<longleftrightarrow> engine_inv t \<and> config t = config s \<and> next_state (state s) = Some (state t)"
  by (auto simp: step_ok_def)

lemma step_Some:
  "step_ok s (Some e, t) \<longleftrightarrow>
     engine_inv t \<and> config t = config s \<and> state t = state s \<and> attempts t = attempts s"
  by (auto simp: step_ok_def)

lemma should_retry_policy:
  "fst (ShouldRetry st err a (DefaultRetryPolicy st) r) \<Longrightarrow> a < max_attempts st"
  by (auto simp: ShouldRetry_def max_attempts_def split: option.splits if_splits)

lemma retry_inv:
  assumes "engine_inv s" "attempts s (state s) < max_attempts (state s)"
  shows "engine_inv (s\<lparr>attempts := (attempts s)(state s := attempts s (state s) + 1)\<rparr>)"
  using assms by (simp add: engine_inv_def)

text \<open>After an error below the shutdown state: a retry in the same state, or shutdown.\<close>

lemma on_error_ok:
  assumes "engine_inv s"
  shows "engine_inv (on_error env (Some e) s) \<and>
    config (on_error env (Some e) s) = config s \<and>
    (state (on_error env (Some e) s) = StateShutdown \<or>
     (state (on_error env (Some e) s) = state s \<and>
      attempts (on_error env (Some e) s) (state s) = attempts s (state s) + 1 \<and>
      attempts s (state s) < max_attempts (state s)))"
proof -
  define retry where "retry = ShouldRetry (state s) (Some e) (attempts s (state s)) (DefaultRetryPolicy (state s))"
  show ?thesis
  proof (cases "fst (retry 0)")
    case False
    have "on_error env (Some e) s = transition env StateShutdown (Activate env s)"
      using False by (simp add: on_error_def Let_def retry_def)
    then show ?thesis using assms by (simp add: shutdown_inv Activate_inv)
  next
    case True
    then have a: "attempts s (state s) < max_attempts (state s)"
      unfolding retry_def by (rule should_retry_policy)
    define s1 where "s1 = snd (poll (Float64 env) s)"
    define s1' where "s1' = s1\<lparr>attempts := (attempts s1)(state s1 := attempts s1 (state s1) + 1)\<rparr>"
    define q where "q = poll (After_or_done env (snd (retry (fst (poll (Float64 env) s))))) s1'"
    have s1: "engine_inv s1" "state s1 = state s" "attempts s1 = attempts s" "config s1 = config s"
      using assms by (simp_all add: s1_def)
    then have "engine_inv s1'" unfolding s1'_def using a by (intro retry_inv) simp_all
    then have q: "engine_inv (snd q)" "state (snd q) = state s" "config (snd q) = config s"
      "attempts (snd q) (state s) = attempts s (state s) + 1"
      using s1 by (simp_all add: q_def s1'_def)
    have "on_error env (Some e) s = (if fst q then snd q else transition env StateShutdown (snd q))"
      using True
      by (simp add: on_error_def Let_def case_prod_unfold q_def s1'_def s1_def flip: retry_def split: bool.splits)
    then show ?thesis using q a by (simp add: shutdown_inv)
  qed
qed

lemma on_error_progress:
  assumes "step_ok s (err, t)" "engine_inv s" "state s < StateShutdown \<or> err = None"
  shows "engine_inv (on_error env err t) \<and> config (on_error env err t) = config s
    \<and> rounds_left (on_error env err t) < rounds_left s"
proof (cases err)
  case None
  then show ?thesis
    using assms rounds_left_less [of s t] by (auto simp: on_error_def step_None dest: next_state_less)
next
  case (Some e)
  then have t: "engine_inv t" "config t = config s" "state t = state s" "attempts t = attempts s"
    using assms(1) by (simp_all add: step_Some)
  from on_error_ok [OF t(1), of env e] consider
      "state (on_error env err t) = StateShutdown"
    | "state (on_error env err t) = state s"
      "attempts (on_error env err t) (state s) = attempts s (state s) + 1"
      "attempts s (state s) < max_attempts (state s)"
    using Some t by auto
  then have "rounds_left (on_error env err t) < rounds_left s"
  proof cases
    case 1
    with Some assms on_error_ok [OF t(1), of env e] show ?thesis
      by (intro rounds_left_less) auto
  next
    case 2
    then show ?thesis by (simp add: rounds_left_def)
  qed
  then show ?thesis using Some on_error_ok [OF t(1), of env e] t by simp
qed

lemma doShutdown_None: "fst (doShutdown env s) = None"
  by (simp add: doShutdown_def case_prod_unfold split: bool.splits)

lemma doRestoreNetwork_None: "fst (doRestoreNetwork env s) = None"
  by (simp add: doRestoreNetwork_def case_prod_unfold Let_def)

lemma checkPrivileges_same:
  "engine_inv s \<Longrightarrow> checkPrivileges os env s = (r, t) \<Longrightarrow> same s t"
  by (auto simp: checkPrivileges_def same_def poll_def split: if_splits prod.splits)

text \<open>The step that the loop takes in a state, as one relation between the state before and the result.\<close>

definition state_step ::
  "('w, 's, 'c) env \<Rightarrow> nat \<Rightarrow> ('w, 's, 'c) sys \<Rightarrow> (goerr option \<times> ('w, 's, 'c) sys) option" where
  "state_step env n s =
     (case state s of
        StateSaveNetwork \<Rightarrow> Some (doSaveNetwork env s)
      | StateCreateTAP \<Rightarrow> Some (doCreateTAP env s)
      | StateLaunchVM \<Rightarrow> Some (doLaunchVM env s)
      | StateWaitTAP \<Rightarrow> doWaitTAP env n s
      | StateConfigureTAP \<Rightarrow> Some (doConfigureTAP env s)
      | StateFlushDNS \<Rightarrow> Some (doFlushDNS env s)
      | StateWaitBootstrap \<Rightarrow> doWaitBootstrap env n s
      | StateRunning \<Rightarrow> Some (doRunning env s)
      | StateShutdown \<Rightarrow> Some (doShutdown env s)
      | StateRestoreNetwork \<Rightarrow> Some (doRestoreNetwork env s)
      | _ \<Rightarrow> None)"

lemma state_step_ok: "engine_inv s \<Longrightarrow> state_step env n s = Some r \<Longrightarrow> step_ok s r"
  by (auto simp: state_step_def doSaveNetwork_ok doCreateTAP_ok doLaunchVM_ok doWaitTAP_ok
        doConfigureTAP_ok doFlushDNS_ok doWaitBootstrap_ok doRunning_ok doShutdown_ok
        doRestoreNetwork_ok split: State.splits)

lemma state_step_err:
  "state_step env n s = Some (err, t) \<Longrightarrow> state s < StateShutdown \<or> err = None"
  using doShutdown_None [of env s] doRestoreNetwork_None [of env s]
  by (auto simp: state_step_def less_State_def split: State.splits)

lemma dispatch_Continue:
  assumes "dispatch os env n s = Some (Continue s')"
  obtains (init) "state s = StateInit" "s' = transition env StateCheckPrivileges s"
  | (priv) t where "state s = StateCheckPrivileges" "checkPrivileges os env s = (None, t)"
      "s' = transition env StateSaveNetwork t"
  | (step) err t where "state_step env n s = Some (err, t)" "s' = on_error env err t"
proof (cases "state s = StateInit \<or> state s = StateCheckPrivileges")
  case True
  with assms init priv show thesis
    by (auto simp: dispatch_def Let_def split: prod.splits option.splits)
next
  case False
  with assms obtain r where "state_step env n s = Some r" "s' = on_error env (fst r) (snd r)"
    by (cases "state s")
       (auto simp: dispatch_def state_step_def Let_def doCleanup_def case_prod_unfold split: option.splits)
  then show thesis by (intro step [of "fst r" "snd r"]) simp_all
qed

lemma dispatch_Return:
  assumes "dispatch os env n s = Some (Return err s')" "engine_inv s"
  shows "(state s = StateCheckPrivileges \<and> err \<noteq> None \<and> same s s')
    \<or> (state s = StateCleanup \<and> err = None \<and> s' = Deactivate s)"
proof (cases "state s = StateCheckPrivileges")
  case True
  obtain r t where r: "checkPrivileges os env s = (r, t)" by fastforce
  with assms(1) True have "r \<noteq> None" "err = r" "s' = t"
    by (auto simp: dispatch_def split: option.splits)
  with checkPrivileges_same [OF assms(2) r] True show ?thesis by simp
next
  case False
  have "state s \<noteq> StateFailed" using assms(2) by (simp add: engine_inv_def)
  with False assms(1) show ?thesis
    by (cases "state s")
       (auto simp: dispatch_def Let_def doCleanup_def case_prod_unfold split: option.splits)
qed

lemma dispatch_ok:
  assumes "dispatch os env n s = Some (Continue s')" "engine_inv s"
  shows "engine_inv s' \<and> config s' = config s \<and> rounds_left s' < rounds_left s"
  using assms(1)
proof (cases rule: dispatch_Continue)
  case init
  then have "engine_inv s'"
    using assms(2) by (auto intro!: inv_transition simp: edge_simps justifies_def)
  then show ?thesis using init assms(2) by (auto intro!: rounds_left_less simp: less_State_def)
next
  case (priv t)
  then have t: "same s t" using checkPrivileges_same assms(2) by blast
  then have "engine_inv s'"
    using priv assms(2) by (auto intro!: inv_transition simp: edge_simps justifies_def same_def)
  then show ?thesis
    using priv t assms(2) by (auto intro!: rounds_left_less simp: less_State_def same_def)
next
  case (step err t)
  then show ?thesis
    using on_error_progress [OF state_step_ok [OF assms(2) step(1)] assms(2) state_step_err [OF step(1)]]
    by simp
qed

lemma iterate_inv:
  assumes "iterate os env n s = Some (Continue s')" "engine_inv s"
  shows "engine_inv s' \<and> config s' = config s"
proof -
  obtain ce s0 where p: "poll (ctx_err env) s = (ce, s0)" by fastforce
  have s0: "engine_inv s0" "config s0 = config s" using poll_same [OF p] assms(2) by (auto simp: same_def)
  show ?thesis
  proof (cases ce)
    case None
    with assms(1) have "dispatch os env n s0 = Some (Continue s')" by (simp add: iterate_def p)
    with dispatch_ok s0 show ?thesis by fastforce
  next
    case (Some e)
    with assms(1) have "dispatch os env n (transition env StateShutdown s0) = Some (Continue s')"
      by (simp add: iterate_def p)
    with dispatch_ok [OF _ shutdown_inv [OF s0(1)]] s0 show ?thesis by fastforce
  qed
qed

end
