(* ===== verification/Lifecycle_Props.thy ===== *)
theory Lifecycle_Props
  imports Lifecycle_Inv
begin

text \<open>
  What the lifecycle engine guarantees: the invariant of every reachable state, with
  configuration reloads and new-identity requests between the rounds; termination of \<^verbatim>\<open>Run\<close>
  while the context is not cancelled, and what a completed run has undone; and that \<^verbatim>\<open>Run\<close>
  does not return once the context is cancelled.
\<close>

section \<open>Reachable states\<close>

text \<open>
  The engine moves by rounds of its loop; between two rounds a configuration can be reloaded
  or a new identity requested.
\<close>

inductive engine_step ::
  "goos \<Rightarrow> ('w, 's, 'c) env \<Rightarrow> nat \<Rightarrow> ('w, 's, 'c) sys \<Rightarrow> ('w, 's, 'c) sys \<Rightarrow> bool"
  for os env n where
  round: "iterate os env n s = Some (Continue s') \<Longrightarrow> engine_step os env n s s'"
| reload: "ReloadConfig env newCfg s = (r, s') \<Longrightarrow> engine_step os env n s s'"
| identity: "NewIdentity env s = (r, s') \<Longrightarrow> engine_step os env n s s'"

inductive_cases engine_stepE: "engine_step os env n s s'"

inductive reachable ::
  "goos \<Rightarrow> ('w, 's, 'c) env \<Rightarrow> nat \<Rightarrow> Config \<Rightarrow> ('w, 's, 'c) sys \<Rightarrow> bool"
  for os env n cfg where
  start: "reachable os env n cfg (NewEngine cfg w)"
| step: "reachable os env n cfg s \<Longrightarrow> engine_step os env n s s' \<Longrightarrow> reachable os env n cfg s'"

lemma NewEngine_inv: "engine_inv (NewEngine cfg w)"
  by (simp add: engine_inv_def NewEngine_def last_saved_def max_attempts_nonneg chain_Nil)

lemma ask_inv_eq: "engine_inv s \<Longrightarrow> (\<And>r. quiet (ev r)) \<Longrightarrow> ask f ev s = (r, s') \<Longrightarrow> engine_inv s'"
  using ask_inv [of s ev f] by simp

lemma push_config_inv: "engine_inv s \<Longrightarrow> engine_inv (snd (push_config env c cl s))"
  by (auto simp: push_config_def ask_inv dest: ask_inv_eq [rotated 2] split: sum.splits prod.splits option.splits)

lemma verbose_inv: "engine_inv s \<Longrightarrow> engine_inv (s\<lparr>calls := calls s @ [ESetVerbose b]\<rparr>)"
  using inv_quiet [of s "ESetVerbose b" "world s"] by simp

lemma ReloadConfig_inv: "engine_inv s \<Longrightarrow> engine_inv (snd (ReloadConfig env c s))"
  using push_config_inv [of s env c]
  by (auto simp: ReloadConfig_def Let_def verbose_inv split: option.splits prod.splits if_splits)
     (metis snd_conv verbose_inv)+

lemma NewIdentity_inv: "engine_inv s \<Longrightarrow> engine_inv (snd (NewIdentity env s))"
  by (auto simp: NewIdentity_def ask_inv split: option.splits)

lemma reachable_inv: "reachable os env n cfg s \<Longrightarrow> engine_inv s"
proof (induction rule: reachable.induct)
  case (start w)
  show ?case by (rule NewEngine_inv)
next
  case (step s s')
  from step(2) step(3) show ?case
    by (elim engine_stepE) (use iterate_inv ReloadConfig_inv NewIdentity_inv snd_conv in metis)+
qed

section \<open>Termination\<close>

text \<open>
  What the polling loops rely on: \<^verbatim>\<open>time.Now\<close> reads a clock that no call turns back, and
  \<^verbatim>\<open>time.Sleep\<close> lasts at least as long as asked.
\<close>

definition clock_ok :: "('w, 's, 'c) env \<Rightarrow> ('w \<Rightarrow> int) \<Rightarrow> bool" where
  "clock_ok env time \<longleftrightarrow>
     (\<forall>w. fst (Now env w) = time w \<and> time w \<le> time (snd (Now env w)))
     \<and> (\<forall>d w. time w + d \<le> time (Sleep env d w))
     \<and> (\<forall>w. time w \<le> time (snd (ctx_err env w)) \<and> time w \<le> time (snd (IsRunning env w)))
     \<and> (\<forall>a w. time w \<le> time (snd (Dial env a w)))
     \<and> (\<forall>c w. time w \<le> time (snd (GetBootstrapStatus env c w)))
     \<and> (\<forall>p m w. time w \<le> time (notify_bootstrap env p m w))"

definition min_backoff :: duration where "min_backoff = 500 * Millisecond"

lemma next_backoff_min: "min_backoff \<le> b \<Longrightarrow> min_backoff \<le> next_backoff b"
  by (simp add: next_backoff_def min_backoff_def Second_def Millisecond_def)

lemma world_poll: "poll f s = (r, s') \<Longrightarrow> f (world s) = (r, world s')"
  by (auto simp: poll_def split: prod.splits)

lemma world_ask: "ask f ev s = (r, s') \<Longrightarrow> f (world s) = (r, world s')"
  by (auto simp: ask_def split: prod.splits)

lemma wait_loop_terminates:
  assumes clock: "clock_ok env time"
    and probe: "\<And>t b t'. probe t = (b, t') \<Longrightarrow> time (world t) \<le> time (world t')"
  shows "min_backoff \<le> b \<Longrightarrow> d - time (world s) \<le> int k * min_backoff \<Longrightarrow> k < n \<Longrightarrow>
    wait_loop env probe m1 m2 nxt n d b s \<noteq> None"
proof (induction n arbitrary: b s k)
  case (Suc n)
  obtain now s0 where p0: "poll (Now env) s = (now, s0)" by fastforce
  obtain ce s1 where p1: "poll (ctx_err env) s0 = (ce, s1)" by fastforce
  obtain rn s2 where p2: "ask (IsRunning env) EIsRunning s1 = (rn, s2)" by fastforce
  obtain ok s3 where p3: "probe s2 = (ok, s3)" by fastforce
  let ?s = "s3\<lparr>world := Sleep env b (world s3)\<rparr>"
  have now: "now = time (world s)" and t0: "time (world s) \<le> time (world s0)"
    using clock world_poll [OF p0] by (auto simp: clock_ok_def) (metis fst_conv, metis snd_conv)
  have t1: "time (world s0) \<le> time (world s1)" "time (world s1) \<le> time (world s2)"
    using clock world_poll [OF p1] world_ask [OF p2] by (auto simp: clock_ok_def) (metis snd_conv)+
  have "time (world s3) + b \<le> time (world ?s)" using clock by (simp add: clock_ok_def)
  with t0 t1 probe [OF p3] Suc.prems(1) have t: "time (world s) + min_backoff \<le> time (world ?s)" by linarith
  show ?case
  proof (cases "now < d \<and> ce = None \<and> rn \<and> \<not> ok")
    case False
    then show ?thesis by (auto simp: p0 p1 p2 p3 split: option.splits bool.splits)
  next
    case True
    have "0 < k"
    proof (rule ccontr)
      assume "\<not> 0 < k"
      then have "d \<le> time (world s)" using Suc.prems(2) by simp
      with True now show False by simp
    qed
    then obtain k' where k: "k = Suc k'" by (cases k) auto
    have "d - time (world ?s) \<le> int k' * min_backoff"
      using Suc.prems(2) t by (simp add: k algebra_simps)
    then have "wait_loop env probe m1 m2 nxt n d (next_backoff b) ?s \<noteq> None"
      using Suc.prems k by (intro Suc.IH [of _ _ k'] next_backoff_min) simp_all
    with True show ?thesis by (simp add: p0 p1 p2 p3)
  qed
qed simp

lemma probe_control_time:
  "clock_ok env time \<Longrightarrow> probe_control env t = (b, t') \<Longrightarrow> time (world t) \<le> time (world t')"
  by (auto simp: probe_control_def Let_def clock_ok_def dest!: world_ask split: prod.splits) (metis snd_conv)+

lemma probe_bootstrap_time:
  assumes clock: "clock_ok env time" and p: "probe_bootstrap env t = (b, t')"
  shows "time (world t) \<le> time (world t')"
proof (cases "TorControl t")
  case None
  then obtain a r where "ask (Dial env a) (EDial a) t = (r, t')"
    using p by (auto simp: probe_bootstrap_def Let_def split: prod.splits)
  from world_ask [OF this] clock show ?thesis by (auto simp: clock_ok_def) (metis snd_conv)
next
  case (Some cl)
  obtain r t1 where r: "ask (GetBootstrapStatus env cl) (EBootstrap cl) t = (r, t1)" by fastforce
  have t1: "time (world t) \<le> time (world t1)"
    using world_ask [OF r] clock by (auto simp: clock_ok_def) (metis snd_conv)
  have "time (world t1) \<le> time (world t')"
    using p Some r clock by (auto simp: probe_bootstrap_def clock_ok_def split: sum.splits prod.splits)
  with t1 show ?thesis by linarith
qed

lemma state_step_terminates:
  assumes clock: "clock_ok env time" and n: "601 \<le> n"
    and s: "state s \<notin> {StateInit, StateCheckPrivileges, StateCleanup, StateFailed}"
  shows "state_step env n s \<noteq> None"
proof -
  obtain now s0 where p0: "poll (Now env) s = (now, s0)" by fastforce
  have now: "now \<le> time (world s0)"
    using clock world_poll [OF p0] unfolding clock_ok_def by (metis fst_conv snd_conv)
  have "doWaitTAP env n s \<noteq> None"
    unfolding doWaitTAP_def p0 prod.case
    by (rule wait_loop_terminates [OF clock probe_control_time [OF clock], where k = 120])
       (use now n in \<open>simp_all add: min_backoff_def Second_def Millisecond_def\<close>)
  moreover have "doWaitBootstrap env n s \<noteq> None"
    unfolding doWaitBootstrap_def p0 prod.case
    by (rule wait_loop_terminates [OF clock probe_bootstrap_time [OF clock], where k = 600])
       (use now n in \<open>simp_all add: min_backoff_def Second_def Minute_def Millisecond_def\<close>)
  ultimately show ?thesis using s by (simp add: state_step_def split: State.splits)
qed

lemma dispatch_terminates:
  assumes "clock_ok env time" "601 \<le> n"
  shows "dispatch os env n s \<noteq> None"
proof (cases "state s \<in> {StateInit, StateCheckPrivileges, StateCleanup, StateFailed}")
  case True
  then show ?thesis
    by (auto simp: dispatch_def Let_def doCleanup_def split: prod.splits option.splits)
next
  case False
  with state_step_terminates [OF assms, of s] show ?thesis
    by (auto simp: dispatch_def state_step_def Let_def split: State.splits option.splits prod.splits)
qed

lemma Run_terminates:
  assumes clock: "clock_ok env time" and n: "601 \<le> n" and ctx: "\<forall>w. fst (ctx_err env w) = None"
  shows "engine_inv s \<Longrightarrow> rounds_left s < k \<Longrightarrow> Run os env n k s \<noteq> None"
proof (induction k arbitrary: s)
  case (Suc k)
  obtain ce s0 where p: "poll (ctx_err env) s = (ce, s0)" by fastforce
  then have ce: "ce = None" using ctx world_poll [OF p] by (metis fst_conv)
  have s0: "engine_inv s0" "rounds_left s0 = rounds_left s"
    using poll_same [OF p] Suc.prems(1) by (auto simp: same_def rounds_left_def)
  obtain r where r: "dispatch os env n s0 = Some r" using dispatch_terminates [OF clock n] by fastforce
  show ?case
  proof (cases r)
    case (Continue s')
    with r s0 have "engine_inv s'" "rounds_left s' < rounds_left s" using dispatch_ok by fastforce+
    with Suc have "Run os env n k s' \<noteq> None" by simp
    with r Continue show ?thesis by (simp add: iterate_def p ce)
  next
    case (Return err s')
    with r show ?thesis by (simp add: iterate_def p ce)
  qed
qed simp

section \<open>A completed run\<close>

text \<open>
  The calls at the end of a run: the routing is torn down, then the saved configuration is
  restored (when there is one) and the TAP device destroyed, and nothing else happens but
  that the failsafe may tear the routing down once more.
\<close>

definition restored :: "Config \<Rightarrow> 's option \<Rightarrow> ('s, 'c) event list \<Rightarrow> bool" where
  "restored cfg saved cs \<longleftrightarrow>
     (\<exists>pre err mid rest d.
        cs = pre @ ETeardownRouting err # mid @ rest
             @ [EDestroyTAP (TAPName cfg) d, Observe StateRestoreNetwork StateCleanup]
        \<and> (mid = [] \<or> (\<exists>err'. mid = [ETeardownRouting err']))
        \<and> (case saved of None \<Rightarrow> rest = [] | Some sv \<Rightarrow> \<exists>r. rest = [ERestoreConfig sv r]))"

definition ending :: "('w, 's, 'c) sys \<Rightarrow> bool" where
  "ending s \<longleftrightarrow>
     (StateRestoreNetwork \<le> state s \<longrightarrow> TorControl s = None)
     \<and> (state s = StateCleanup \<longrightarrow> restored (config s) (savedNet s) (calls s))"

lemma Activate_calls:
  "calls (Activate env s) = calls s \<or> (\<exists>e. calls (Activate env s) = calls s @ [ETeardownRouting e])"
  by (simp add: Activate_def case_prod_unfold)

lemma doRestoreNetwork_restored:
  "snd (doRestoreNetwork env s) = t \<Longrightarrow> state s = StateRestoreNetwork \<Longrightarrow>
   restored (config t) (savedNet t) (calls t) \<and> TorControl t = TorControl s"
proof -
  assume t: "snd (doRestoreNetwork env s) = t" and st: "state s = StateRestoreNetwork"
  let ?a = "ask (TeardownRouting env) ETeardownRouting s"
  define s2 where "s2 = (if fst ?a \<noteq> None then Activate env (snd ?a) else snd ?a)"
  define s3 where "s3 = (case savedNet s2 of None \<Rightarrow> s2
     | Some saved \<Rightarrow> snd (ask (RestoreConfig env saved) (ERestoreConfig saved) s2))"
  define s4 where "s4 = snd (ask (DestroyTAP env (TAPName (config s3))) (EDestroyTAP (TAPName (config s3))) s3)"
  have t4: "t = transition env StateCleanup s4"
    using t unfolding doRestoreNetwork_def case_prod_unfold Let_def s4_def s3_def s2_def snd_conv by simp
  have s2: "TorControl s2 = TorControl s" "state s2 = state s" by (simp_all add: s2_def)
  have "calls s2 = calls s @ [ETeardownRouting (fst ?a)]
      \<or> (\<exists>e. calls s2 = calls s @ [ETeardownRouting (fst ?a), ETeardownRouting e])"
    using Activate_calls [of env "snd ?a"] by (cases "fst ?a = None") (simp_all add: s2_def)
  then obtain mid where c2: "calls s2 = calls s @ ETeardownRouting (fst ?a) # mid"
    and mid: "mid = [] \<or> (\<exists>e. mid = [ETeardownRouting e])"
    by blast
  obtain rest where c3: "calls s3 = calls s2 @ rest" and s3: "savedNet s3 = savedNet s2" "config s3 = config s2"
      "TorControl s3 = TorControl s2" "state s3 = state s2"
    and rest: "case savedNet s3 of None \<Rightarrow> rest = [] | Some sv \<Rightarrow> \<exists>r. rest = [ERestoreConfig sv r]"
    by (cases "savedNet s2") (auto simp: s3_def)
  obtain d where c4: "calls s4 = calls s3 @ [EDestroyTAP (TAPName (config s3)) d]"
    and s4: "savedNet s4 = savedNet s3" "config s4 = config s3" "TorControl s4 = TorControl s3" "state s4 = state s3"
    by (simp add: s4_def)
  have "calls t = calls s @ ETeardownRouting (fst ?a) # mid @ rest
      @ [EDestroyTAP (TAPName (config t)) d, Observe StateRestoreNetwork StateCleanup]"
    using c2 c3 c4 s2 s3 s4 st by (simp add: t4)
  then show ?thesis
    using mid rest s2 s3 s4 unfolding restored_def by (simp add: t4) blast
qed

lemma doShutdown_control: "TorControl (snd (doShutdown env s)) = None"
  by (simp add: doShutdown_def case_prod_unfold close_control_ok split: bool.splits)

lemma state_step_ending:
  assumes "state_step env n s = Some (None, t)" "engine_inv s" "ending s"
  shows "ending t"
proof -
  have nx: "next_state (state s) = Some (state t)"
    using state_step_ok [OF assms(2,1)] by (simp add: step_None)
  show ?thesis
  proof (cases "state s = StateShutdown")
    case True
    with assms(1) nx show ?thesis
      using doShutdown_control [of env s] by (auto simp: state_step_def ending_def)
  next
    case nsh: False
    show ?thesis
    proof (cases "state s = StateRestoreNetwork")
      case True
      with assms(1) have "doRestoreNetwork env s = (None, t)" by (simp add: state_step_def)
      with doRestoreNetwork_restored [of env s t] True assms(3) nx show ?thesis
        by (auto simp: ending_def)
    next
      case False
      with nsh nx have "state t < StateRestoreNetwork" "state t \<noteq> StateCleanup"
        by (cases "state s"; auto simp: less_State_def)+
      then show ?thesis by (auto simp: ending_def)
    qed
  qed
qed

lemma transition_ending: "nxt < StateRestoreNetwork \<Longrightarrow> ending (transition env nxt s)"
  by (auto simp: ending_def less_State_def less_eq_State_def)

lemma on_error_ending:
  assumes "engine_inv t" "state t < StateShutdown"
  shows "ending (on_error env (Some e) t)"
proof -
  have "state (on_error env (Some e) t) < StateRestoreNetwork"
    using on_error_ok [OF assms(1), of env e] assms(2) by (auto simp: less_State_def)
  then show ?thesis by (auto simp: ending_def less_State_def less_eq_State_def)
qed

lemma dispatch_ending:
  assumes "dispatch os env n s = Some (Continue s')" "engine_inv s" "ending s"
  shows "ending s'"
  using assms(1)
proof (cases rule: dispatch_Continue)
  case (step err t)
  note ok = state_step_ok [OF assms(2) step(1)]
  show ?thesis
  proof (cases err)
    case None
    with step state_step_ending assms show ?thesis by (auto simp: on_error_def)
  next
    case (Some e)
    with ok state_step_err [OF step(1)] have "engine_inv t" "state t < StateShutdown"
      by (auto simp: step_Some)
    with Some step show ?thesis by (simp add: on_error_ending)
  qed
qed (simp_all add: transition_ending less_State_def)

lemma iterate_ending:
  assumes "iterate os env n s = Some (Continue s')" "engine_inv s" "ending s"
  shows "ending s'"
proof -
  obtain ce s0 where p: "poll (ctx_err env) s = (ce, s0)" by fastforce
  have s0: "engine_inv s0" using poll_same [OF p] assms(2) by (auto simp: same_def)
  have "ending s0" using poll_frame [of "ctx_err env" s] assms(3) p by (simp add: ending_def)
  moreover have "ending (transition env StateShutdown s0)" by (simp add: transition_ending less_State_def)
  ultimately show ?thesis
    using assms(1) dispatch_ending [OF _ s0] dispatch_ending [OF _ shutdown_inv [OF s0]]
    by (cases ce) (auto simp: iterate_def p)
qed

lemma Run_end:
  "Run os env n k s = Some (None, s') \<Longrightarrow> engine_inv s \<Longrightarrow> ending s \<Longrightarrow>
   \<exists>t. engine_inv t \<and> ending t \<and> state t = StateCleanup \<and> config t = config s \<and> s' = Deactivate t"
proof (induction k arbitrary: s)
  case (Suc k)
  show ?case
  proof (cases "iterate os env n s")
    case None
    with Suc.prems show ?thesis by simp
  next
    case (Some r)
    show ?thesis
    proof (cases r)
      case (Continue s1)
      with Some Suc.prems have r: "Run os env n k s1 = Some (None, s')" by simp
      have s1: "engine_inv s1" "ending s1" "config s1 = config s"
        using Some Continue Suc.prems iterate_inv iterate_ending by blast+
      from Suc.IH [OF r s1(1,2)] s1(3) show ?thesis by auto
    next
      case (Return err s1)
      obtain ce s0 where p: "poll (ctx_err env) s = (ce, s0)" by fastforce
      have s0: "engine_inv s0" "config s0 = config s" "ending s0"
        using poll_frame [of "ctx_err env" s] poll_same [OF p] p Suc.prems by (auto simp: same_def ending_def)
      from Return Some Suc.prems have e: "err = None" "s1 = s'" by simp_all
      show ?thesis
      proof (cases ce)
        case None
        with Some Return e have "dispatch os env n s0 = Some (Return None s')" by (simp add: iterate_def p)
        from dispatch_Return [OF this s0(1)] s0 show ?thesis by auto
      next
        case (Some e1)
        with \<open>iterate os env n s = Some r\<close> Return e
        have "dispatch os env n (transition env StateShutdown s0) = Some (Return None s')"
          by (simp add: iterate_def p)
        from dispatch_Return [OF this shutdown_inv [OF s0(1)]] show ?thesis by simp
      qed
    qed
  qed
qed simp

section \<open>Cancellation\<close>

text \<open>
  A property of worlds under which the context is cancelled, and stays so whatever a round
  that shuts down does.
\<close>

definition stays_cancelled :: "('w, 's, 'c) env \<Rightarrow> ('w \<Rightarrow> bool) \<Rightarrow> bool" where
  "stays_cancelled env C \<longleftrightarrow>
     (\<forall>w. C w \<longrightarrow> fst (ctx_err env w) \<noteq> None \<and> C (snd (ctx_err env w))
        \<and> (\<forall>a b. C (notify_state env a b w)) \<and> (\<forall>c. C (snd (CloseControl env c w)))
        \<and> C (snd (IsRunning env w)) \<and> C (snd (Stop env w)))"

text \<open>The state after a number of rounds, none of which returned.\<close>

fun after_rounds ::
  "goos \<Rightarrow> ('w, 's, 'c) env \<Rightarrow> nat \<Rightarrow> nat \<Rightarrow> ('w, 's, 'c) sys \<Rightarrow> ('w, 's, 'c) sys option" where
  "after_rounds os env n 0 s = Some s"
| "after_rounds os env n (Suc k) s =
     (case iterate os env n s of Some (Continue s') \<Rightarrow> after_rounds os env n k s' | _ \<Rightarrow> None)"

definition shutdown_event :: "('s, 'c) event \<Rightarrow> bool" where
  "shutdown_event e \<longleftrightarrow> (\<exists>a b. e = Observe a b) \<or> (\<exists>c. e = EClose c) \<or> (\<exists>b. e = EIsRunning b) \<or> (\<exists>r. e = EStop r)"

lemma world_ask_snd: "world (snd (ask f ev s)) = snd (f (world s))"
  by (simp add: ask_def split: prod.splits)

lemma cancelled_round:
  assumes sc: "stays_cancelled env C" and C: "C (world s)"
  shows "\<exists>s' new. iterate os env n s = Some (Continue s') \<and> C (world s') \<and> calls s' = calls s @ new
    \<and> (\<forall>e \<in> set new. shutdown_event e) \<and> (\<exists>a. Observe a StateShutdown \<in> set new)"
proof -
  obtain ce s0 where p: "poll (ctx_err env) s = (ce, s0)" by fastforce
  have w0: "ctx_err env (world s) = (ce, world s0)" using world_poll [OF p] .
  have ce: "ce \<noteq> None" and C0: "C (world s0)"
    using sc C w0 unfolding stays_cancelled_def by (metis fst_conv, metis snd_conv)
  define s1 where "s1 = transition env StateShutdown s0"
  have s1: "C (world s1)" "state s1 = StateShutdown" "calls s1 = calls s @ [Observe (state s0) StateShutdown]"
    using sc C0 poll_frame [of "ctx_err env" s] p by (simp_all add: s1_def transition_def stays_cancelled_def)
  define s2 where "s2 = close_control env s1"
  have s2: "C (world s2)" "\<exists>new. calls s2 = calls s1 @ new \<and> (\<forall>e \<in> set new. shutdown_event e)" "state s2 = StateShutdown"
    using sc s1 by (auto simp: s2_def close_control_def world_ask_snd stays_cancelled_def shutdown_event_def split: option.splits)
  define s3 where "s3 = snd (ask (IsRunning env) EIsRunning s2)"
  have s3: "C (world s3)" "\<exists>b. calls s3 = calls s2 @ [EIsRunning b]" "state s3 = StateShutdown"
    using sc s2 by (auto simp: s3_def world_ask_snd stays_cancelled_def)
  define s4 where "s4 = snd (ask (Stop env) EStop s3)"
  have s4: "C (world s4)" "\<exists>r. calls s4 = calls s3 @ [EStop r]" "state s4 = StateShutdown"
    using sc s3 by (auto simp: s4_def world_ask_snd stays_cancelled_def)
  define t where "t = (if fst (ask (IsRunning env) EIsRunning s2) then s4 else s3)"
  have t: "C (world t)" "state t = StateShutdown"
    "\<exists>new. calls t = calls s @ new \<and> (\<forall>e \<in> set new. shutdown_event e) \<and> (\<exists>a. Observe a StateShutdown \<in> set new)"
    using s1 s2 s3 s4 by (auto simp: t_def shutdown_event_def)
  have "iterate os env n s = Some (Continue (transition env StateRestoreNetwork t))"
    using ce s1(2)
    by (auto simp: iterate_def p dispatch_def doShutdown_def case_prod_unfold on_error_def t_def s4_def
          s3_def s2_def simp flip: s1_def split: bool.splits)
  moreover have "C (world (transition env StateRestoreNetwork t))"
    using sc t by (simp add: transition_def stays_cancelled_def)
  moreover have "\<exists>new. calls (transition env StateRestoreNetwork t) = calls s @ new \<and> (\<forall>e \<in> set new. shutdown_event e)
      \<and> (\<exists>a. Observe a StateShutdown \<in> set new)"
    using t by (auto simp: shutdown_event_def)
  ultimately show ?thesis by blast
qed

lemma cancelled_rounds:
  assumes sc: "stays_cancelled env C"
  shows "C (world s) \<Longrightarrow> Run os env n k s = None
    \<and> (\<exists>s' new. after_rounds os env n k s = Some s' \<and> calls s' = calls s @ new \<and> (\<forall>e \<in> set new. shutdown_event e))"
proof (induction k arbitrary: s)
  case (Suc k)
  obtain s1 new1 where s1: "iterate os env n s = Some (Continue s1)" "C (world s1)"
    "calls s1 = calls s @ new1" "\<forall>e \<in> set new1. shutdown_event e"
    using cancelled_round [OF sc Suc.prems] by blast
  from Suc.IH [OF s1(2)] s1 show ?case by auto
qed simp

section \<open>Runs of a new engine\<close>

lemma fresh_run_returns:
  assumes "clock_ok env time" "\<forall>w. fst (ctx_err env w) = None" "601 \<le> n" "53 \<le> k"
  shows "\<exists>err s'. Run os env n k (NewEngine cfg w) = Some (err, s')"
proof -
  have "rounds_left (NewEngine cfg w) < k"
    using assms(4) by (simp add: rounds_left_def NewEngine_def max_attempts_def DefaultRetryPolicy_def)
  with Run_terminates [OF assms(1,3,2) NewEngine_inv] show ?thesis by auto
qed

lemma fresh_run_restores:
  assumes "Run os env n k (NewEngine cfg w) = Some (None, s')"
  shows "restored cfg (last_saved (calls s')) (calls s') \<and> TorControl s' = None \<and> \<not> active s'"
proof -
  have "ending (NewEngine cfg w)" by (simp add: ending_def NewEngine_def less_eq_State_def)
  from Run_end [OF assms NewEngine_inv this] obtain t
    where t: "engine_inv t" "ending t" "state t = StateCleanup" "config t = cfg" "s' = Deactivate t"
    by (auto simp: NewEngine_def)
  then show ?thesis by (auto simp: ending_def engine_inv_def less_eq_State_def)
qed

lemma Run_after: "after_rounds os env n j s = Some t \<Longrightarrow> Run os env n (j + k) s = Run os env n k t"
  by (induction j arbitrary: s) (auto split: option.splits step.splits)

lemma after_rounds_add: "after_rounds os env n j s = Some t \<Longrightarrow> after_rounds os env n (j + k) s = after_rounds os env n k t"
  by (induction j arbitrary: s) (auto split: option.splits step.splits)

section \<open>Properties\<close>

text \<open>
  C7. In every reachable state, whatever the VM, the network, the context and the control
  connection answer and whenever a configuration is reloaded or a new identity requested in
  between: the transitions so far form a path from the initial state to the current one,
  along successors and moves to the shutdown state only; the failed state is not entered;
  and the retry counter of the current state is within its policy, all others being zero.
\<close>

theorem lifecycle_transitions:
  assumes "reachable os env n cfg s"
  shows "chain StateInit (observed (calls s)) (state s) \<and> state s \<noteq> StateFailed
    \<and> 0 \<le> attempts s (state s) \<and> attempts s (state s) \<le> max_attempts (state s)
    \<and> (\<forall>st. st \<noteq> state s \<longrightarrow> attempts s st = 0)"
  using reachable_inv [OF assms] by (simp add: engine_inv_def)

text \<open>An environment in which every call succeeds and the world is the clock.\<close>

definition calm :: "(int, unit, unit) env" where
  "calm = \<lparr>ctx_err = (\<lambda>w. (None, w)), Getuid = (\<lambda>w. (0, w)), Now = (\<lambda>w. (w, w)),
     Sleep = (\<lambda>d w. w + d), After_or_done = (\<lambda>d w. (True, w)), Float64 = (\<lambda>w. (0, w)),
     SaveConfig = (\<lambda>w. (Inr (), w)), RestoreConfig = (\<lambda>_ w. (None, w)),
     CreateTAP = (\<lambda>_ _ _ _ w. (None, w)), DestroyTAP = (\<lambda>_ w. (None, w)),
     SetupRouting = (\<lambda>_ _ w. (None, w)), TeardownRouting = (\<lambda>w. (None, w)),
     FlushDNS = (\<lambda>w. (None, w)), Start = (\<lambda>w. (None, w)), Stop = (\<lambda>w. (None, w)),
     IsRunning = (\<lambda>w. (True, w)), Wait = (\<lambda>w. (None, w)), Dial = (\<lambda>_ w. (None, w)),
     NewControlClient = (\<lambda>_ w. (Inr (), w)), Authenticate = (\<lambda>_ w. (None, w)),
     CloseControl = (\<lambda>_ w. ((), w)), GetBootstrapStatus = (\<lambda>_ w. (Inr (100, ''Done''), w)),
     SignalTor = (\<lambda>_ _ w. (None, w)), SetConf = (\<lambda>_ _ w. (None, w)),
     notify_state = (\<lambda>_ _ w. w), notify_bootstrap = (\<lambda>_ _ w. w)\<rparr>"

lemma after_rounds_reachable:
  "reachable os env n cfg s \<Longrightarrow> after_rounds os env n k s = Some s' \<Longrightarrow> reachable os env n cfg s'"
  by (induction k arbitrary: s) (auto split: option.splits step.splits intro: reachable.step engine_step.round)

abbreviation calm_engine :: "(int, unit, unit) sys" where
  "calm_engine \<equiv> NewEngine (DefaultConfig Linux) 0"

text \<open>The rounds of the calm environment, one per state.\<close>

lemma calm_ask [simp]:
  "poll (ctx_err calm) s = (None, s)" "poll (Getuid calm) s = (0, s)"
  "poll (Now calm) s = (world s, s)"
  "ask (SaveConfig calm) ESaveConfig s = (Inr (), s\<lparr>calls := calls s @ [ESaveConfig (Inr ())]\<rparr>)"
  "ask (CreateTAP calm t h v m) ec s = (None, s\<lparr>calls := calls s @ [ec None]\<rparr>)"
  "ask (Start calm) e1 s = (None, s\<lparr>calls := calls s @ [e1 None]\<rparr>)"
  "ask (IsRunning calm) e2 s = (True, s\<lparr>calls := calls s @ [e2 True]\<rparr>)"
  "ask (Dial calm a) e3 s = (None, s\<lparr>calls := calls s @ [e3 None]\<rparr>)"
  "ask (SetupRouting calm t g) e4 s = (None, s\<lparr>calls := calls s @ [e4 None]\<rparr>)"
  "ask (FlushDNS calm) e5 s = (None, s\<lparr>calls := calls s @ [e5 None]\<rparr>)"
  "ask (NewControlClient calm a) e6 s = (Inr (), s\<lparr>calls := calls s @ [e6 (Inr ())]\<rparr>)"
  "ask (Authenticate calm c) e7 s = (None, s\<lparr>calls := calls s @ [e7 None]\<rparr>)"
  "ask (GetBootstrapStatus calm c) e8 s = (Inr (100, ''Done''), s\<lparr>calls := calls s @ [e8 (Inr (100, ''Done''))]\<rparr>)"
  "ask (Wait calm) e9 s = (None, s\<lparr>calls := calls s @ [e9 None]\<rparr>)"
  "ask (Stop calm) e1 s = (None, s\<lparr>calls := calls s @ [e1 None]\<rparr>)"
  "ask (TeardownRouting calm) e1 s = (None, s\<lparr>calls := calls s @ [e1 None]\<rparr>)"
  by (simp_all add: poll_def ask_def calm_def)

lemma calm_round:
  assumes "config s = DefaultConfig Linux" "next_state (state s) = Some b"
  shows "\<exists>t. iterate Linux calm (Suc n) s = Some (Continue (transition calm b t))
    \<and> state t = state s \<and> config t = config s"
proof -
  have ips: "parse_ip (HostIP (DefaultConfig Linux)) = Some (v4_in_v6 [10, 10, 10, 2])"
    "parse_ip (VMIP (DefaultConfig Linux)) = Some (v4_in_v6 [10, 10, 10, 1])"
    "parse_ip (SubnetMask (DefaultConfig Linux)) = Some (v4_in_v6 [255, 255, 255, 252])"
    by (simp_all add: DefaultConfig_def default_ips)
  have nb: "notify_bootstrap calm p m w = w" for p m w by (simp add: calm_def)
  show ?thesis
    using assms
    by (cases "state s")
       (auto simp: iterate_def dispatch_def checkPrivileges_def doSaveNetwork_def doCreateTAP_def
          doLaunchVM_def doWaitTAP_def doConfigureTAP_def doFlushDNS_def doWaitBootstrap_def on_error_def
          doRunning_def doShutdown_def doRestoreNetwork_def close_control_def
          advance_def connect_control_def probe_control_def probe_bootstrap_def Let_def ips
          Second_def Minute_def nb split: option.splits)
qed

lemma next_state_index:
  "state_index a < 12 \<Longrightarrow> \<exists>b. next_state a = Some b \<and> state_index b = Suc (state_index a)"
  by (cases a) simp_all

lemma calm_reachable:
  "k \<le> 12 \<Longrightarrow> \<exists>s. reachable Linux calm 601 (DefaultConfig Linux) s \<and> state_index (state s) = k
     \<and> config s = DefaultConfig Linux
     \<and> (0 < k \<longrightarrow> (\<exists>a pre. calls s = pre @ [Observe a (state s)] \<and> state_index a = k - 1))"
proof (induction k)
  case 0
  have "reachable Linux calm 601 (DefaultConfig Linux) calm_engine" by (rule reachable.start)
  then show ?case by (intro exI [of _ calm_engine]) (simp add: NewEngine_def)
next
  case (Suc k)
  then obtain s where s: "reachable Linux calm 601 (DefaultConfig Linux) s" "state_index (state s) = k"
    "config s = DefaultConfig Linux" by auto
  then obtain b where b: "next_state (state s) = Some b" "state_index b = Suc k"
    using next_state_index [of "state s"] Suc.prems by auto
  obtain t where t: "iterate Linux calm (Suc 600) s = Some (Continue (transition calm b t))"
    "state t = state s" "config t = config s"
    using calm_round [OF s(3) b(1)] by blast
  then have "reachable Linux calm 601 (DefaultConfig Linux) (transition calm b t)"
    using s(1) by (auto intro: reachable.step engine_step.round)
  with b s t show ?case by (intro exI [of _ "transition calm b t"]) auto
qed

lemma calm_running:
  obtains s pre where "reachable Linux calm 601 (DefaultConfig Linux) s" "state s = StateRunning"
    "calls s = pre @ [Observe StateWaitBootstrap StateRunning]"
proof -
  have running: "state_index x = 9 \<longleftrightarrow> x = StateRunning" "state_index x = 8 \<longleftrightarrow> x = StateWaitBootstrap" for x
    by (cases x; simp)+
  show thesis using calm_reachable [of 9] that by (auto simp: running)
qed

lemma calm_completes:
  "config s = DefaultConfig Linux \<Longrightarrow> state s \<noteq> StateFailed \<Longrightarrow> 12 < k + state_index (state s) \<Longrightarrow>
   \<exists>s'. Run Linux calm (Suc n) k s = Some (None, s')"
proof (induction k arbitrary: s)
  case 0
  then have "state s = StateFailed" by (cases "state s") simp_all
  with 0 show ?case by simp
next
  case (Suc k)
  show ?case
  proof (cases "state s = StateCleanup")
    case True
    then show ?thesis by (simp add: iterate_def dispatch_def doCleanup_def)
  next
    case False
    with Suc.prems obtain b where b: "next_state (state s) = Some b" "state_index b = Suc (state_index (state s))"
      by (cases "state s") simp_all
    obtain t where t: "iterate Linux calm (Suc n) s = Some (Continue (transition calm b t))"
      "state t = state s" "config t = config s"
      using calm_round [OF Suc.prems(1) b(1)] by blast
    have "b \<noteq> StateFailed" using b(1) by (cases "state s") auto
    with Suc b t have "\<exists>s'. Run Linux calm (Suc n) k (transition calm b t) = Some (None, s')" by simp
    with t show ?thesis by simp
  qed
qed

theorem lifecycle_transitions_witness:
  "\<exists>s. reachable Linux calm 601 (DefaultConfig Linux) s \<and> state s = StateRunning
     \<and> chain StateInit (observed (calls s)) StateRunning"
  by (rule calm_running) (use lifecycle_transitions in fastforce)



text \<open>
  C3. \<^verbatim>\<open>Run\<close> returns: as long as the context is not cancelled, and given a clock that the
  polling loops can rely on, the loop ends within 53 rounds from a new engine, with at most
  601 probes in each polling loop, however often the VM, the network and Tor fail.
\<close>

theorem Run_returns:
  assumes "clock_ok env time" "\<forall>w. fst (ctx_err env w) = None" "601 \<le> n" "53 \<le> k"
  shows "\<exists>err s'. Run os env n k (NewEngine cfg w) = Some (err, s')"
  using fresh_run_returns [OF assms] .

lemma calm_clock: "clock_ok calm (\<lambda>w. w)"
  by (simp add: clock_ok_def calm_def)

theorem Run_returns_witness:
  "\<exists>err s'. Run Linux calm 601 53 calm_engine = Some (err, s')"
  by (rule Run_returns [OF calm_clock]) (simp_all add: calm_def)

text \<open>
  C4. A run that returns without error has put the network back: its last calls tear the
  routing down, restore the configuration saved at the start (the last one that was read, if
  any was) and destroy the TAP device, with no routing set up after them; the control
  connection is closed and the failsafe is off.
\<close>

theorem Run_restores_network:
  assumes "Run os env n k (NewEngine cfg w) = Some (None, s')"
  shows "restored cfg (last_saved (calls s')) (calls s') \<and> TorControl s' = None \<and> \<not> active s'"
  using fresh_run_restores [OF assms] .

theorem Run_restores_network_witness:
  "\<exists>s'. Run Linux calm 601 53 calm_engine = Some (None, s')
     \<and> restored (DefaultConfig Linux) (last_saved (calls s')) (calls s') \<and> \<not> active s'"
proof -
  obtain s' where s': "Run Linux calm (Suc 600) 53 calm_engine = Some (None, s')"
    using calm_completes [of calm_engine 53 600] by (auto simp: NewEngine_def)
  show ?thesis using Run_restores_network [OF s'] s' by auto
qed

text \<open>
  C1. Once the context is cancelled \<^verbatim>\<open>Run\<close> does not return, whatever state it is in: each
  round starts by moving to the shutdown state, so it shuts the VM down again and again, for
  any number of rounds, and never tears the routing down, restores the saved network
  configuration or destroys the TAP device.
\<close>

theorem Run_cancelled_never_restores:
  assumes "stays_cancelled env C" "C (world s)"
  shows "Run os env n k s = None
    \<and> (\<exists>s' new. after_rounds os env n k s = Some s' \<and> calls s' = calls s @ new
        \<and> (\<forall>e \<in> set new. (\<forall>r. e \<noteq> ETeardownRouting r) \<and> (\<forall>sv r. e \<noteq> ERestoreConfig sv r)
              \<and> (\<forall>t r. e \<noteq> EDestroyTAP t r)))"
  using cancelled_rounds [OF assms, of os n k] unfolding shutdown_event_def by fastforce

theorem Run_cancelled_never_restores_witness:
  "Run Linux (calm\<lparr>ctx_err := \<lambda>w. (Some ErrCanceled, w)\<rparr>) 601 1000000 calm_engine = None"
proof -
  have "stays_cancelled (calm\<lparr>ctx_err := \<lambda>w. (Some ErrCanceled, w)\<rparr>) (\<lambda>_. True)"
    by (simp add: stays_cancelled_def)
  from Run_cancelled_never_restores [OF this] show ?thesis by simp
qed

text \<open>
  C8. A step that fails for good engages the failsafe before the engine leaves its state: if
  the error is not to be retried, the next state is the shutdown state with the failsafe
  active, and when it was not active before, the last call before the transition was to tear
  the routing down.
\<close>

theorem permanent_failure_engages_failsafe:
  assumes "reachable os env n cfg s" "poll (ctx_err env) s = (None, s0)"
    and "state_step env n s0 = Some (Some e, t)"
    and "\<not> fst (ShouldRetry (state s) (Some e) (attempts s (state s)) (DefaultRetryPolicy (state s)) 0)"
  shows "\<exists>s'. iterate os env n s = Some (Continue s') \<and> state s' = StateShutdown \<and> active s'
    \<and> (\<not> active t \<longrightarrow> (\<exists>err. calls s' = calls t @ [ETeardownRouting err, Observe (state s) StateShutdown]))"
proof -
  have s0: "engine_inv s0" "state s0 = state s" "attempts s0 = attempts s"
    using poll_same [OF assms(2)] reachable_inv [OF assms(1)] by (auto simp: same_def)
  then have t: "state t = state s" "attempts t = attempts s"
    using state_step_ok [OF s0(1) assms(3)] by (simp_all add: step_Some)
  have oe: "on_error env (Some e) t = transition env StateShutdown (Activate env t)"
    using assms(4) t by (simp add: on_error_def Let_def)
  have "dispatch os env n s0 = Some (Continue (on_error env (Some e) t))"
    using assms(3) by (cases "state s0") (simp_all add: state_step_def dispatch_def Let_def)
  then have "iterate os env n s = Some (Continue (on_error env (Some e) t))"
    by (simp add: iterate_def assms(2))
  then show ?thesis using t by (auto simp: oe Activate_def case_prod_unfold)
qed

text \<open>The VM cannot be started because its image is missing.\<close>

definition no_image :: "(int, unit, unit) env" where
  "no_image = calm\<lparr>Start := \<lambda>w. (Some (ErrMsg ''vmlinuz: no such file''), w)\<rparr>"

lemma no_image_step:
  "map_option (\<lambda>s. (state s, attempts s (state s), map_option fst (state_step no_image 601 s)))
     (after_rounds Linux no_image 601 4 calm_engine) =
   Some (StateLaunchVM, 0, Some (Some (ErrMsg ''vmlinuz: no such file'')))"
  by code_simp

theorem permanent_failure_engages_failsafe_witness:
  "\<exists>s s'. after_rounds Linux no_image 601 4 calm_engine = Some s
     \<and> iterate Linux no_image 601 s = Some (Continue s') \<and> state s' = StateShutdown \<and> active s'"
proof -
  obtain s t where s: "after_rounds Linux no_image 601 4 calm_engine = Some s" "state s = StateLaunchVM"
      "attempts s (state s) = 0" "state_step no_image 601 s = Some (Some (ErrMsg ''vmlinuz: no such file''), t)"
    using no_image_step by auto
  have p: "poll (ctx_err no_image) s = (None, s)"
    by (simp add: poll_def no_image_def calm_def)
  have "\<not> fst (ShouldRetry (state s) (Some (ErrMsg ''vmlinuz: no such file'')) (attempts s (state s))
                (DefaultRetryPolicy (state s)) 0)"
    unfolding s(2,3) by (simp add: ShouldRetry_def DefaultRetryPolicy_def ClassifyError_def
      transientPatterns_def permanentPatterns_def)
  from permanent_failure_engages_failsafe [OF after_rounds_reachable [OF reachable.start s(1)] p s(4) this]
  show ?thesis using s(1) by blast
qed

text \<open>
  Reloading a configuration with changes that can be applied at run time, while the
  engine is running with a control connection: the overlay of the new configuration is pushed
  in one \<^verbatim>\<open>SETCONF\<close>, unless it is empty, then \<^verbatim>\<open>RELOAD\<close> is signalled, the log level is set
  if it changed, and the new configuration is adopted. Nothing unsets a setting that the old
  configuration had and the new one has not: with an empty overlay no \<^verbatim>\<open>SETCONF\<close> is sent.
\<close>

theorem ReloadConfig_pushes_overlay:
  assumes "HotReloadable (Diff (config s) newCfg) \<noteq> []" "state s = StateRunning" "TorControl s = Some cl"
    and "TorrcOverlay newCfg = Inr overlay"
    and "overlay \<noteq> [] \<Longrightarrow> fst (SetConf env cl (parseTorrcOverlay overlay) (world s)) = None"
  shows "\<exists>r s'. ReloadConfig env newCfg s = (None, s') \<and> config s' = newCfg \<and> state s' = StateRunning
    \<and> calls s' = calls s
        @ (if overlay = [] then [] else [ESetConf cl (parseTorrcOverlay overlay) None])
        @ [ESignal cl ''RELOAD'' r]
        @ (if Verbose newCfg = Verbose (config s) then [] else [ESetVerbose (Verbose newCfg)])"
proof -
  have h: "HasChanges (Diff (config s) newCfg)" using assms(1) by (simp add: HasChanges_def)
  let ?q = "if overlay \<noteq> [] then ask (SetConf env cl (parseTorrcOverlay overlay))
                (ESetConf cl (parseTorrcOverlay overlay)) s else (None, s)"
  obtain s1 where q: "?q = (None, s1)" "config s1 = config s" "state s1 = state s"
    "calls s1 = calls s @ (if overlay = [] then [] else [ESetConf cl (parseTorrcOverlay overlay) None])"
    using assms(5) by (cases "overlay = []"; cases "SetConf env cl (parseTorrcOverlay overlay) (world s)")
      (auto simp: ask_def)
  let ?s2 = "snd (ask (SignalTor env cl ''RELOAD'') (ESignal cl ''RELOAD'') s1)"
  have "push_config env newCfg cl s = (None, ?s2)"
    unfolding push_config_def assms(4) sum.case q(1) by simp
  then have "ReloadConfig env newCfg s =
      (None, (if Verbose newCfg \<noteq> Verbose (config ?s2)
              then ?s2\<lparr>calls := calls ?s2 @ [ESetVerbose (Verbose newCfg)]\<rparr> else ?s2)\<lparr>config := newCfg\<rparr>)"
    using assms(1,2,3) h by (simp add: ReloadConfig_def Let_def)
  then show ?thesis using q assms(2) by auto
qed

definition calm_connected :: "(int, unit, unit) sys" where
  "calm_connected = (NewEngine two_bridges 0)\<lparr>state := StateRunning, TorControl := Some ()\<rparr>"

lemma bridges_removed:
  "HotReloadable (Diff two_bridges (DefaultConfig Linux)) = [''Bridge (bridge)'']"
  "TorrcOverlay (DefaultConfig Linux) = Inr []"
  by code_simp+

theorem ReloadConfig_pushes_overlay_witness:
  "\<exists>r s'. ReloadConfig calm (DefaultConfig Linux) calm_connected = (None, s')
     \<and> config s' = DefaultConfig Linux \<and> calls s' = [ESignal () ''RELOAD'' r]"
proof -
  have 1: "HotReloadable (Diff (config calm_connected) (DefaultConfig Linux)) \<noteq> []"
    using bridges_removed by (simp add: calm_connected_def NewEngine_def)
  have 2: "state calm_connected = StateRunning" "TorControl calm_connected = Some ()"
    by (simp_all add: calm_connected_def)
  have 3: "Verbose (DefaultConfig Linux) = Verbose (config calm_connected)" "calls calm_connected = []"
    by (simp_all add: calm_connected_def NewEngine_def two_bridges_def DefaultConfig_def)
  from ReloadConfig_pushes_overlay [OF 1 2 bridges_removed(2), of calm] 3 show ?thesis by auto
qed

end
