(* ===== verification/Gui_App.thy ===== *)
theory Gui_App
  imports Lifecycle_Props
begin

text \<open>
  The part of the graphical interface that changes the configuration and commands the engine
  (\<^verbatim>\<open>gui/app.go\<close>, \<^verbatim>\<open>bridges_tab.go\<close>, \<^verbatim>\<open>proxy_tab.go\<close>, \<^verbatim>\<open>relays_tab.go\<close>, \<^verbatim>\<open>settings_tab.go\<close>,
  \<^verbatim>\<open>status_tab.go\<close>, \<^verbatim>\<open>systray.go\<close>). A widget is given by the callback the code hangs on it. The
  configuration is a Go pointer that the application and the engine hold each: configurations
  live in a store and the pointers are addresses in it, so that a change through one pointer is
  seen through the other. Drawing, layout and log messages are left out.
\<close>

section \<open>Entries of the exclusion lists\<close>

definition guiFingerprintRe :: "string \<Rightarrow> bool" where
  "guiFingerprintRe s =
     (case s of [] \<Rightarrow> False | c # r \<Rightarrow> c = CHR ''$'' \<and> length r = 40 \<and> list_all is_hex r)"

definition guiCountryCodeRe :: "string \<Rightarrow> bool" where
  "guiCountryCodeRe s =
     (length s = 4 \<and> s ! 0 = CHR ''{'' \<and> is_alpha (s ! 1) \<and> is_alpha (s ! 2) \<and> s ! 3 = CHR ''}'')"

definition guiBareHexRe :: "string \<Rightarrow> bool" where
  "guiBareHexRe s \<longleftrightarrow> length s = 40 \<and> list_all is_hex s"

definition countryName :: "string \<Rightarrow> string option" where
  "countryName = map_of
    [(''US'', ''United States''), (''GB'', ''United Kingdom''), (''DE'', ''Germany''),
     (''FR'', ''France''), (''NL'', ''Netherlands''), (''RU'', ''Russia''),
     (''CN'', ''China''), (''IN'', ''India''), (''CA'', ''Canada''),
     (''AU'', ''Australia''), (''JP'', ''Japan''), (''BR'', ''Brazil''),
     (''SE'', ''Sweden''), (''CH'', ''Switzerland''), (''IT'', ''Italy''),
     (''ES'', ''Spain''), (''UA'', ''Ukraine''), (''PL'', ''Poland''),
     (''RO'', ''Romania''), (''CZ'', ''Czech Republic''), (''AT'', ''Austria''),
     (''FI'', ''Finland''), (''NO'', ''Norway''), (''DK'', ''Denmark''),
     (''SG'', ''Singapore''), (''HK'', ''Hong Kong''), (''KR'', ''South Korea''),
     (''TW'', ''Taiwan''), (''ZA'', ''South Africa''), (''IL'', ''Israel''),
     (''TR'', ''Turkey''), (''IR'', ''Iran'')]"

definition countryCodes :: "string list" where
  "countryCodes =
    [''US'', ''GB'', ''DE'', ''FR'', ''NL'', ''RU'', ''CN'', ''IN'',
     ''CA'', ''AU'', ''JP'', ''BR'', ''SE'', ''CH'', ''IT'', ''ES'',
     ''UA'', ''PL'', ''RO'', ''CZ'', ''AT'', ''FI'', ''NO'', ''DK'',
     ''SG'', ''HK'', ''KR'', ''TW'', ''ZA'', ''IL'', ''TR'', ''IR'']"

text \<open>A missing entry of a Go map reads as the empty string.\<close>

definition countryOptions :: "string list" where
  "countryOptions =
     map (\<lambda>cc. ''{'' @ cc @ ''} '' @ (case countryName cc of None \<Rightarrow> [] | Some name \<Rightarrow> name)) countryCodes"

definition extractCC :: "string \<Rightarrow> string" where
  "extractCC sel = (if length sel < 4 then [] else take 4 sel)"

definition formatExcludeEntry :: "string \<Rightarrow> string" where
  "formatExcludeEntry entry =
     (if length entry = 4 \<and> entry ! 0 = CHR ''{'' \<and> entry ! 3 = CHR ''}''
      then case countryName (to_upper (take 2 (drop 1 entry))) of
             Some name \<Rightarrow> entry @ '' '' @ name
           | None \<Rightarrow> entry
      else entry)"

definition normalizeRelayEntry :: "string \<Rightarrow> string" where
  "normalizeRelayEntry s0 =
     (let s = trim_space s0 in
      if guiBareHexRe s then ''$'' @ s
      else if length s = 4 \<and> s ! 0 = CHR ''{'' \<and> s ! 3 = CHR ''}'' then to_upper s
      else s)"

definition validateGUIRelayEntry :: "string \<Rightarrow> goerr option" where
  "validateGUIRelayEntry entry =
     (if guiFingerprintRe entry \<or> guiCountryCodeRe entry then None
      else Some (ErrMsg (''invalid entry '' @ quote entry @
                         '': must be a fingerprint ($hex40) or country code ({XX})'')))"

fun containsEntry :: "string list \<Rightarrow> string \<Rightarrow> bool" where
  "containsEntry [] entry = False"
| "containsEntry (s # ss) entry = (if s = entry then True else containsEntry ss entry)"

definition add_entry :: "string \<Rightarrow> slice \<Rightarrow> slice" where
  "add_entry entry xs = (if \<not> containsEntry (elems xs) entry then Some (elems xs @ [entry]) else xs)"

definition remove_entry :: "nat \<Rightarrow> slice \<Rightarrow> slice" where
  "remove_entry idx xs =
     (if idx < length (elems xs) then Some (take idx (elems xs) @ drop (Suc idx) (elems xs)) else xs)"

text \<open>The entry for a relay of an active circuit; a relay without fingerprint gives none.\<close>

definition block_name :: "string \<Rightarrow> string" where
  "block_name fp = (if fp \<noteq> [] \<and> \<not> has_prefix fp ''$'' then ''$'' @ fp else fp)"

section \<open>The application\<close>

datatype dialog = ShowError goerr | ShowInformation string string

text \<open>The values the settings tab compares with, in the order memory, CPUs, SOCKS port, verbose.\<close>

type_synonym settings = "int \<times> int \<times> int \<times> bool"

record ('w, 's, 'c) App =
  ap_store :: "Config list"
  ap_cfg :: nat
  ap_engine_cfg :: nat
  ap_engine :: "('w, 's, 'c) sys"
  ap_configPath :: string
  ap_orig :: settings
  ap_dirty :: bool
  ap_dialogs :: "dialog list"
  ap_files :: "(string \<times> string) list"

definition settings_of :: "Config \<Rightarrow> settings" where
  "settings_of c = (VMMemoryMB c, VMCPUs c, SOCKSPort c, Verbose c)"

text \<open>\<^verbatim>\<open>main\<close> gives the same pointer to \<^verbatim>\<open>NewEngine\<close> and to \<^verbatim>\<open>gui.New\<close>.\<close>

definition NewApp :: "Config \<Rightarrow> ('w, 's, 'c) sys \<Rightarrow> string \<Rightarrow> ('w, 's, 'c) App" where
  "NewApp cfg s path =
     \<lparr>ap_store = [cfg], ap_cfg = 0, ap_engine_cfg = 0, ap_engine = s, ap_configPath = path,
      ap_orig = settings_of cfg, ap_dirty = False, ap_dialogs = [], ap_files = []\<rparr>"

definition app_config :: "('w, 's, 'c) App \<Rightarrow> Config" where
  "app_config a = ap_store a ! ap_cfg a"

definition upd_cfg :: "(Config \<Rightarrow> Config) \<Rightarrow> ('w, 's, 'c) App \<Rightarrow> ('w, 's, 'c) App" where
  "upd_cfg f a = a\<lparr>ap_store := (ap_store a)[ap_cfg a := f (app_config a)]\<rparr>"

definition show_dialog :: "dialog \<Rightarrow> ('w, 's, 'c) App \<Rightarrow> ('w, 's, 'c) App" where
  "show_dialog d a = a\<lparr>ap_dialogs := ap_dialogs a @ [d]\<rparr>"

text \<open>The engine with what its pointer points to.\<close>

definition engine_of :: "('w, 's, 'c) App \<Rightarrow> ('w, 's, 'c) sys" where
  "engine_of a = (ap_engine a)\<lparr>config := ap_store a ! ap_engine_cfg a\<rparr>"

text \<open>\<^verbatim>\<open>ReloadConfig\<close> on a pointer: when there are changes and no error it keeps the pointer.\<close>

definition reload_ptr ::
  "('w, 's, 'c) env \<Rightarrow> nat \<Rightarrow> ('w, 's, 'c) App \<Rightarrow> goerr option \<times> ('w, 's, 'c) App" where
  "reload_ptr env p a =
     (let s = engine_of a; newCfg = ap_store a ! p in
      case ReloadConfig env newCfg s of
        (err, s') \<Rightarrow>
          (err, a\<lparr>ap_engine := s',
                  ap_engine_cfg := (if HasChanges (Diff (config s) newCfg) \<and> err = None then p else ap_engine_cfg a)\<rparr>))"

definition hotReloadRelays :: "('w, 's, 'c) env \<Rightarrow> ('w, 's, 'c) App \<Rightarrow> ('w, 's, 'c) App" where
  "hotReloadRelays env a =
     (if state (ap_engine a) = StateRunning then snd (reload_ptr env (ap_cfg a) a) else a)"

section \<open>Callbacks\<close>

definition upd_bridge :: "(BridgeConfig \<Rightarrow> BridgeConfig) \<Rightarrow> ('w, 's, 'c) App \<Rightarrow> ('w, 's, 'c) App" where
  "upd_bridge f = upd_cfg (\<lambda>c. c\<lparr>Bridge := f (Bridge c)\<rparr>)"

definition upd_proxy :: "(ProxyConfig \<Rightarrow> ProxyConfig) \<Rightarrow> ('w, 's, 'c) App \<Rightarrow> ('w, 's, 'c) App" where
  "upd_proxy f = upd_cfg (\<lambda>c. c\<lparr>Proxy := f (Proxy c)\<rparr>)"

definition upd_relays :: "(RelayConfig \<Rightarrow> RelayConfig) \<Rightarrow> ('w, 's, 'c) App \<Rightarrow> ('w, 's, 'c) App" where
  "upd_relays f = upd_cfg (\<lambda>c. c\<lparr>Relays := f (Relays c)\<rparr>)"

text \<open>The text of the bridge lines; a slice to which nothing was appended is nil.\<close>

definition bridge_text :: "string \<Rightarrow> slice" where
  "bridge_text txt =
     (case filter (\<lambda>l. l \<noteq> []) (map trim_space (split_on NL txt)) of [] \<Rightarrow> None | ls \<Rightarrow> Some ls)"

definition transportOptions :: "string list" where
  "transportOptions = [''none'', ''obfs4'', ''meek-azure'', ''snowflake'']"

definition proxyOptions :: "string list" where
  "proxyOptions = [''None'', ''HTTP'', ''HTTPS'', ''SOCKS5'']"

definition proxy_type_selected :: "string \<Rightarrow> ('w, 's, 'c) App \<Rightarrow> ('w, 's, 'c) App" where
  "proxy_type_selected val = upd_proxy (\<lambda>p. p\<lparr>px_Type := (if val = ''None'' then [] else val)\<rparr>)"

definition add_exclude :: "string \<Rightarrow> ('w, 's, 'c) App \<Rightarrow> ('w, 's, 'c) App" where
  "add_exclude entry = upd_relays (\<lambda>r. r\<lparr>rl_ExcludeNodes := add_entry entry (rl_ExcludeNodes r)\<rparr>)"

definition add_exit :: "string \<Rightarrow> ('w, 's, 'c) App \<Rightarrow> ('w, 's, 'c) App" where
  "add_exit entry = upd_relays (\<lambda>r. r\<lparr>rl_ExcludeExitNodes := add_entry entry (rl_ExcludeExitNodes r)\<rparr>)"

definition excludeAdd :: "string \<Rightarrow> ('w, 's, 'c) App \<Rightarrow> ('w, 's, 'c) App" where
  "excludeAdd txt a =
     (let entry = normalizeRelayEntry txt in
      case validateGUIRelayEntry entry of
        Some err \<Rightarrow> show_dialog (ShowError err) a
      | None \<Rightarrow> add_exclude entry a)"

definition exitAdd :: "string \<Rightarrow> ('w, 's, 'c) App \<Rightarrow> ('w, 's, 'c) App" where
  "exitAdd txt a =
     (let entry = normalizeRelayEntry txt in
      case validateGUIRelayEntry entry of
        Some err \<Rightarrow> show_dialog (ShowError err) a
      | None \<Rightarrow> add_exit entry a)"

definition excludeRemove :: "nat \<Rightarrow> ('w, 's, 'c) App \<Rightarrow> ('w, 's, 'c) App" where
  "excludeRemove idx = upd_relays (\<lambda>r. r\<lparr>rl_ExcludeNodes := remove_entry idx (rl_ExcludeNodes r)\<rparr>)"

definition exitRemove :: "nat \<Rightarrow> ('w, 's, 'c) App \<Rightarrow> ('w, 's, 'c) App" where
  "exitRemove idx = upd_relays (\<lambda>r. r\<lparr>rl_ExcludeExitNodes := remove_entry idx (rl_ExcludeExitNodes r)\<rparr>)"

definition addToExclude :: "string \<Rightarrow> ('w, 's, 'c) App \<Rightarrow> ('w, 's, 'c) App" where
  "addToExclude sel a = (let cc = extractCC sel in if cc = [] then a else add_exclude cc a)"

definition addToExitExclude :: "string \<Rightarrow> ('w, 's, 'c) App \<Rightarrow> ('w, 's, 'c) App" where
  "addToExitExclude sel a = (let cc = extractCC sel in if cc = [] then a else add_exit cc a)"

definition block_relay :: "('w, 's, 'c) env \<Rightarrow> string \<Rightarrow> ('w, 's, 'c) App \<Rightarrow> ('w, 's, 'c) App" where
  "block_relay env fingerprint a =
     (let fp = block_name fingerprint in if fp = [] then a else hotReloadRelays env (add_exclude fp a))"

definition block_exit :: "('w, 's, 'c) env \<Rightarrow> string \<Rightarrow> ('w, 's, 'c) App \<Rightarrow> ('w, 's, 'c) App" where
  "block_exit env fingerprint a =
     (let fp = block_name fingerprint in if fp = [] then a else hotReloadRelays env (add_exit fp a))"

text \<open>The confirmed dialogs of the circuits tab and of a tap on the globe, which reload only when
  the entry is new.\<close>

definition circuit_block :: "('w, 's, 'c) env \<Rightarrow> string \<Rightarrow> ('w, 's, 'c) App \<Rightarrow> ('w, 's, 'c) App" where
  "circuit_block env fingerprint a =
     (let fp = (if \<not> has_prefix fingerprint ''$'' then ''$'' @ fingerprint else fingerprint) in
      if \<not> containsEntry (elems (rl_ExcludeNodes (Relays (app_config a)))) fp
      then hotReloadRelays env (add_exclude fp a) else a)"

definition circuit_confirmed :: "('w, 's, 'c) env \<Rightarrow> string \<Rightarrow> ('w, 's, 'c) App \<Rightarrow> ('w, 's, 'c) App" where
  "circuit_confirmed env fingerprint a =
     (let fp = (if \<not> has_prefix fingerprint ''$'' then ''$'' @ fingerprint else fingerprint) in
      show_dialog (ShowInformation ''Relay Blocked'' (''Added '' @ fp @ '' to ExcludeNodes''))
        (circuit_block env fingerprint a))"

definition markDirty :: "('w, 's, 'c) App \<Rightarrow> ('w, 's, 'c) App" where
  "markDirty a = a\<lparr>ap_dirty := settings_of (app_config a) \<noteq> ap_orig a\<rparr>"

definition socks_changed :: "string \<Rightarrow> ('w, 's, 'c) App \<Rightarrow> ('w, 's, 'c) App" where
  "socks_changed s a =
     (case parse_int64 s of
        None \<Rightarrow> a
      | Some n \<Rightarrow> (if n < 1 \<or> n > 65535 then a else markDirty (upd_cfg (\<lambda>c. c\<lparr>SOCKSPort := n\<rparr>) a)))"

text \<open>\<open>marshal\<close> is \<^verbatim>\<open>json.MarshalIndent\<close>, \<open>wr\<close> what \<^verbatim>\<open>os.WriteFile\<close> answers.\<close>

definition saveConfig ::
  "(Config \<Rightarrow> string res) \<Rightarrow> (string \<Rightarrow> goerr option) \<Rightarrow> ('w, 's, 'c) App \<Rightarrow> ('w, 's, 'c) App" where
  "saveConfig marshal wr a =
     (let path = (if ap_configPath a = [] then ''torvm.json'' else ap_configPath a) in
      case marshal (app_config a) of
        Inl err \<Rightarrow> show_dialog (ShowError err) a
      | Inr data \<Rightarrow>
          (case wr path of
             Some err \<Rightarrow> show_dialog (ShowError err) a
           | None \<Rightarrow> show_dialog (ShowInformation ''Saved'' (''Configuration saved to '' @ path))
                       (a\<lparr>ap_files := ap_files a @ [(path, data)]\<rparr>)))"

definition save_pressed ::
  "(Config \<Rightarrow> string res) \<Rightarrow> (string \<Rightarrow> goerr option) \<Rightarrow> ('w, 's, 'c) App \<Rightarrow> ('w, 's, 'c) App" where
  "save_pressed marshal wr a =
     (let a' = saveConfig marshal wr a in markDirty (a'\<lparr>ap_orig := settings_of (app_config a')\<rparr>))"

definition reset_confirmed :: "('w, 's, 'c) App \<Rightarrow> ('w, 's, 'c) App" where
  "reset_confirmed a =
     markDirty (upd_cfg (\<lambda>c. c\<lparr>VMMemoryMB := 256, VMCPUs := 2, SOCKSPort := 9050, Verbose := False\<rparr>) a)"

definition new_identity :: "('w, 's, 'c) env \<Rightarrow> ('w, 's, 'c) App \<Rightarrow> ('w, 's, 'c) App" where
  "new_identity env a = a\<lparr>ap_engine := snd (NewIdentity env (engine_of a))\<rparr>"

text \<open>What the user can do, and what the widgets hand to the callbacks.\<close>

datatype gui_action =
    UseBridges bool | TransportSelected string | BridgeText string
  | ProxyTypeSelected string | ProxyAddress string | ProxyUsername string | ProxyPassword string
  | ExcludeAdd string | ExitAdd string | ExcludeRemove nat | ExitRemove nat
  | CountryExclude string | CountryExit string | BlockRelay string | BlockExit string | CircuitBlock string | GlobeTap string
  | StrictNodes bool
  | MemSlider int | CpuSlider int | SocksText string | VerboseCheck bool | SavePressed | ResetConfirmed
  | NewIdentityPressed

fun gui_step ::
  "('w, 's, 'c) env \<Rightarrow> (Config \<Rightarrow> string res) \<Rightarrow> (string \<Rightarrow> goerr option) \<Rightarrow> gui_action \<Rightarrow>
   ('w, 's, 'c) App \<Rightarrow> ('w, 's, 'c) App" where
  "gui_step env marshal wr (UseBridges b) a = upd_bridge (\<lambda>r. r\<lparr>br_UseBridges := b\<rparr>) a"
| "gui_step env marshal wr (TransportSelected t) a = upd_bridge (\<lambda>r. r\<lparr>br_Transport := t\<rparr>) a"
| "gui_step env marshal wr (BridgeText t) a = upd_bridge (\<lambda>r. r\<lparr>br_Bridges := bridge_text t\<rparr>) a"
| "gui_step env marshal wr (ProxyTypeSelected t) a = proxy_type_selected t a"
| "gui_step env marshal wr (ProxyAddress s) a = upd_proxy (\<lambda>p. p\<lparr>px_Address := s\<rparr>) a"
| "gui_step env marshal wr (ProxyUsername s) a = upd_proxy (\<lambda>p. p\<lparr>px_Username := s\<rparr>) a"
| "gui_step env marshal wr (ProxyPassword s) a = upd_proxy (\<lambda>p. p\<lparr>px_Password := s\<rparr>) a"
| "gui_step env marshal wr (ExcludeAdd s) a = excludeAdd s a"
| "gui_step env marshal wr (ExitAdd s) a = exitAdd s a"
| "gui_step env marshal wr (ExcludeRemove i) a = excludeRemove i a"
| "gui_step env marshal wr (ExitRemove i) a = exitRemove i a"
| "gui_step env marshal wr (CountryExclude s) a = addToExclude s a"
| "gui_step env marshal wr (CountryExit s) a = addToExitExclude s a"
| "gui_step env marshal wr (BlockRelay fp) a = block_relay env fp a"
| "gui_step env marshal wr (BlockExit fp) a = block_exit env fp a"
| "gui_step env marshal wr (CircuitBlock fp) a = circuit_confirmed env fp a"
| "gui_step env marshal wr (GlobeTap fp) a = circuit_block env fp a"
| "gui_step env marshal wr (StrictNodes b) a = upd_relays (\<lambda>r. r\<lparr>rl_StrictNodes := b\<rparr>) a"
| "gui_step env marshal wr (MemSlider v) a = markDirty (upd_cfg (\<lambda>c. c\<lparr>VMMemoryMB := v\<rparr>) a)"
| "gui_step env marshal wr (CpuSlider v) a = markDirty (upd_cfg (\<lambda>c. c\<lparr>VMCPUs := v\<rparr>) a)"
| "gui_step env marshal wr (SocksText s) a = socks_changed s a"
| "gui_step env marshal wr (VerboseCheck b) a = markDirty (upd_cfg (\<lambda>c. c\<lparr>Verbose := b\<rparr>) a)"
| "gui_step env marshal wr SavePressed a = save_pressed marshal wr a"
| "gui_step env marshal wr ResetConfirmed a = reset_confirmed a"
| "gui_step env marshal wr NewIdentityPressed a = new_identity env a"

text \<open>
  The callback \<^verbatim>\<open>main\<close> gives to the configuration watcher: the new configuration is a fresh
  pointer.
\<close>

definition watcher_callback :: "('w, 's, 'c) env \<Rightarrow> Config \<Rightarrow> ('w, 's, 'c) App \<Rightarrow> ('w, 's, 'c) App" where
  "watcher_callback env newCfg a0 =
     (let p = length (ap_store a0); a = a0\<lparr>ap_store := ap_store a0 @ [newCfg]\<rparr>;
          diff = Diff (config (engine_of a)) newCfg in
      if \<not> HasChanges diff then a
      else if length (HotReloadable diff) > 0 then snd (reload_ptr env p a) else a)"

text \<open>A round of the engine's loop, which leaves its configuration alone.\<close>

definition engine_round ::
  "goos \<Rightarrow> ('w, 's, 'c) env \<Rightarrow> nat \<Rightarrow> ('w, 's, 'c) App \<Rightarrow> ('w, 's, 'c) App option" where
  "engine_round os env n a =
     (case iterate os env n (engine_of a) of
        Some (Continue s) \<Rightarrow> Some (a\<lparr>ap_engine := s\<rparr>)
      | Some (Return _ s) \<Rightarrow> Some (a\<lparr>ap_engine := s\<rparr>)
      | None \<Rightarrow> None)"

section \<open>Lemmas\<close>

lemma Diff_self [simp]: "HasChanges (Diff c c) = False"
  by (simp add: HasChanges_iff config_fields_def changed_def eq_on_def)

text \<open>The two pointers are the same and valid.\<close>

definition aliased :: "('w, 's, 'c) App \<Rightarrow> bool" where
  "aliased a \<longleftrightarrow> ap_cfg a = ap_engine_cfg a \<and> ap_cfg a < length (ap_store a)"

lemma reload_aliased: "aliased a \<Longrightarrow> reload_ptr env (ap_cfg a) a = (None, a\<lparr>ap_engine := engine_of a\<rparr>)"
  by (simp add: reload_ptr_def aliased_def engine_of_def ReloadConfig_def)

lemmas relay_defs =
  upd_relays_def add_exclude_def add_exit_def excludeAdd_def exitAdd_def excludeRemove_def exitRemove_def
  addToExclude_def addToExitExclude_def block_relay_def block_exit_def circuit_block_def circuit_confirmed_def Let_def

lemmas setting_defs =
  upd_bridge_def upd_proxy_def proxy_type_selected_def socks_changed_def saveConfig_def save_pressed_def
  reset_confirmed_def

lemma upd_cfg_sel [simp]:
  "ap_cfg (upd_cfg f a) = ap_cfg a" "ap_engine_cfg (upd_cfg f a) = ap_engine_cfg a"
  "ap_engine (upd_cfg f a) = ap_engine a" "length (ap_store (upd_cfg f a)) = length (ap_store a)"
  "aliased (upd_cfg f a) = aliased a"
  by (simp_all add: upd_cfg_def aliased_def)

text \<open>Whatever the user does: the pointers stay, and the engine is at most asked for a new identity.\<close>

definition only_newnym :: "('s, 'c) event list \<Rightarrow> ('s, 'c) event list \<Rightarrow> bool" where
  "only_newnym old new \<longleftrightarrow> (\<exists>evs. new = old @ evs \<and> (\<forall>ev\<in>set evs. \<exists>c r. ev = ESignal c ''NEWNYM'' r))"

lemma only_newnym_refl [simp]: "only_newnym old old"
  by (simp add: only_newnym_def)

definition harmless :: "('w, 's, 'c) App \<Rightarrow> ('w, 's, 'c) App \<Rightarrow> bool" where
  "harmless a a' \<longleftrightarrow> aliased a' \<and> only_newnym (calls (ap_engine a)) (calls (ap_engine a'))"

lemma harmless_simps [simp]:
  "aliased a \<Longrightarrow> harmless a (upd_cfg f a)" "aliased a \<Longrightarrow> harmless a a"
  "harmless a (show_dialog d b) = harmless a b" "harmless a (markDirty b) = harmless a b"
  "harmless a (b\<lparr>ap_orig := x\<rparr>) = harmless a b" "harmless a (b\<lparr>ap_files := fs\<rparr>) = harmless a b"
  by (simp_all add: harmless_def aliased_def show_dialog_def markDirty_def)

lemma harmless_hot: "aliased b \<Longrightarrow> harmless a b \<Longrightarrow> harmless a (hotReloadRelays env b)"
  by (simp add: hotReloadRelays_def reload_aliased) (simp add: harmless_def aliased_def engine_of_def)

lemma harmless_identity: "aliased a \<Longrightarrow> harmless a (new_identity env a)"
  by (auto simp: harmless_def new_identity_def NewIdentity_def ask_def engine_of_def aliased_def only_newnym_def
           split: option.splits prod.splits)

lemma gui_step_harmless: "aliased a \<Longrightarrow> harmless a (gui_step env marshal wr act a)"
proof (cases act)
  case NewIdentityPressed
  assume "aliased a" then show ?thesis using NewIdentityPressed by (simp add: harmless_identity)
qed (auto simp: relay_defs setting_defs harmless_hot split: option.splits sum.splits)

text \<open>What a round of the engine keeps.\<close>

lemma engine_round_aliased: "engine_round os env n a = Some a' \<Longrightarrow> aliased a' = aliased a"
  by (auto simp: engine_round_def aliased_def split: option.splits step.splits)

inductive gui_reach ::
  "goos \<Rightarrow> ('w, 's, 'c) env \<Rightarrow> nat \<Rightarrow> (Config \<Rightarrow> string res) \<Rightarrow> (string \<Rightarrow> goerr option) \<Rightarrow>
   ('w, 's, 'c) App \<Rightarrow> ('w, 's, 'c) App \<Rightarrow> bool"
  for os env n marshal wr b where
  start: "gui_reach os env n marshal wr b b"
| user: "gui_reach os env n marshal wr b a \<Longrightarrow>
    gui_reach os env n marshal wr b (gui_step env marshal wr act a)"
| engine: "gui_reach os env n marshal wr b a \<Longrightarrow> engine_round os env n a = Some a' \<Longrightarrow>
    gui_reach os env n marshal wr b a'"

lemma gui_reach_aliased:
  "gui_reach os env n marshal wr b a \<Longrightarrow> aliased b \<Longrightarrow> aliased a"
  by (induction rule: gui_reach.induct) (auto simp: engine_round_aliased dest: gui_step_harmless [unfolded harmless_def])

text \<open>The configuration behind the pointer of the application changes by the callbacks alone.\<close>

lemma app_config_simps [simp]:
  "aliased a \<Longrightarrow> app_config (upd_cfg f a) = f (app_config a)"
  "app_config (show_dialog d a) = app_config a" "app_config (markDirty a) = app_config a"
  "app_config (a\<lparr>ap_orig := x\<rparr>) = app_config a" "app_config (a\<lparr>ap_files := fs\<rparr>) = app_config a"
  "app_config (a\<lparr>ap_engine := s\<rparr>) = app_config a"
  by (simp_all add: app_config_def upd_cfg_def aliased_def show_dialog_def markDirty_def)

lemma app_config_hot [simp]: "app_config (hotReloadRelays env a) = app_config a"
  by (simp add: hotReloadRelays_def reload_ptr_def app_config_def Let_def split: prod.splits)

lemma app_config_identity [simp]: "app_config (new_identity env a) = app_config a"
  by (simp add: new_identity_def)

section \<open>Valid configurations\<close>

lemma hex_plain: "is_hex c \<Longrightarrow> \<not> is_control c"
  by (auto simp: is_hex_def is_digit_def is_control_def)

lemma dollar_plain: "\<not> is_control (CHR ''$'')"
  by (simp add: is_control_def)

lemma gui_entry_valid: "guiFingerprintRe e \<or> guiCountryCodeRe e \<Longrightarrow> validateRelayEntry e = None"
proof (erule disjE)
  assume f: "guiFingerprintRe e"
  then have "list_all (\<lambda>c. \<not> is_control c) e"
    by (cases e) (auto simp: guiFingerprintRe_def list_all_iff hex_plain dollar_plain)
  then show ?thesis using f by (simp add: validateRelayEntry_def sanitize_clean guiFingerprintRe_def fingerprintRe_def)
next
  assume c: "guiCountryCodeRe e"
  then obtain x y where e: "e = [CHR ''{'', x, y, CHR ''}'']" "is_alpha x" "is_alpha y"
    by (auto simp: guiCountryCodeRe_def length_Suc_conv numeral_eq_Suc)
  then have "list_all (\<lambda>c. \<not> is_control c) e" by (auto simp: is_control_def is_lower_def is_upper_def)
  then show ?thesis using c by (simp add: validateRelayEntry_def sanitize_clean guiCountryCodeRe_def countryCodeRe_def)
qed

lemma gui_validated: "validateGUIRelayEntry e = None \<Longrightarrow> validateRelayEntry e = None"
  by (rule gui_entry_valid) (simp add: validateGUIRelayEntry_def split: if_splits)

lemma country_valid: "sel \<in> set countryOptions \<Longrightarrow> validateRelayEntry (extractCC sel) = None"
proof -
  have "list_all (\<lambda>s. guiCountryCodeRe (extractCC s)) countryOptions" by code_simp
  then show "sel \<in> set countryOptions \<Longrightarrow> ?thesis" by (auto simp: list_all_iff intro: gui_entry_valid)
qed

lemma contains_iff [simp]: "containsEntry xs e \<longleftrightarrow> e \<in> set xs"
  by (induction xs) auto

definition entries_ok :: "slice \<Rightarrow> bool" where
  "entries_ok xs \<longleftrightarrow> (\<forall>e\<in>set (elems xs). validateRelayEntry e = None) \<and> distinct (elems xs)"

lemma entries_add: "entries_ok xs \<Longrightarrow> validateRelayEntry e = None \<Longrightarrow> entries_ok (add_entry e xs)"
  by (auto simp: entries_ok_def add_entry_def elems_def)

lemma entries_remove: "entries_ok xs \<Longrightarrow> entries_ok (remove_entry i xs)"
  using set_take_disj_set_drop_if_distinct [of "elems xs" i "Suc i"]
  by (auto simp: entries_ok_def remove_entry_def elems_def dest: in_set_dropD in_set_takeD)

text \<open>The choice of a proxy is the only setting that \<^verbatim>\<open>Validate\<close> and the interface see differently.\<close>

definition no_proxy :: "Config \<Rightarrow> Config" where
  "no_proxy c = c\<lparr>Proxy := (Proxy c)\<lparr>px_Type := []\<rparr>\<rparr>"

definition gui_valid :: "goos \<Rightarrow> Config \<Rightarrow> bool" where
  "gui_valid os c \<longleftrightarrow> Validate os (no_proxy c) = None
     \<and> px_Type (Proxy c) \<in> set [[], ''http'', ''https'', ''socks5'', ''HTTP'', ''HTTPS'', ''SOCKS5'']
     \<and> entries_ok (rl_ExcludeNodes (Relays c)) \<and> entries_ok (rl_ExcludeExitNodes (Relays c))"

lemma checks_None [simp]:
  "check_member n xs x = None \<longleftrightarrow> x \<in> set xs"
  "check_range n lo hi i = None \<longleftrightarrow> lo \<le> i \<and> i \<le> hi"
  by (auto simp: check_member_def check_range_def)

lemma ips_edits [simp]:
  "validate_ips (c\<lparr>Proxy := p\<rparr>) = validate_ips c" "validate_ips (c\<lparr>Bridge := br\<rparr>) = validate_ips c"
  "validate_ips (c\<lparr>Relays := r\<rparr>) = validate_ips c" "validate_ips (c\<lparr>Verbose := b\<rparr>) = validate_ips c"
  "validate_ips (c\<lparr>VMMemoryMB := i\<rparr>) = validate_ips c" "validate_ips (c\<lparr>VMCPUs := i\<rparr>) = validate_ips c"
  "validate_ips (c\<lparr>SOCKSPort := i\<rparr>) = validate_ips c"
  by (simp_all add: validate_ips_def)

lemma Validate_None:
  "Validate os c = None \<longleftrightarrow> validate_ips c = None \<and> validate_vm os c = None \<and> validate_entropy (Entropy c) = None
     \<and> validate_vector (Vector c) = None \<and> validate_fhe (FHE c) = None \<and> validate_browser (Browser c) = None"
  by (simp add: Validate_def)

lemma vm_proxy:
  "validate_vm os c = None \<longleftrightarrow>
     validate_vm os (no_proxy c) = None \<and> px_Type (Proxy c) \<in> set [[], ''http'', ''https'', ''socks5'']"
  by (simp only: validate_vm_def no_proxy_def and_then_None checks_None) (simp; argo)

lemma Validate_proxy:
  "Validate os c = None \<longleftrightarrow> Validate os (no_proxy c) = None \<and> px_Type (Proxy c) \<in> set [[], ''http'', ''https'', ''socks5'']"
  unfolding Validate_None by (subst vm_proxy) (auto simp: no_proxy_def)

lemmas vm_checks = Validate_None validate_vm_def

lemma Validate_edits:
  "Validate os (no_proxy (c\<lparr>Relays := r\<rparr>)) = Validate os (no_proxy c)"
  "Validate os (no_proxy (c\<lparr>Verbose := b\<rparr>)) = Validate os (no_proxy c)"
  "Validate os (no_proxy (c\<lparr>Proxy := p\<rparr>)) = Validate os (no_proxy c)"
  "br_Transport br = br_Transport (Bridge c) \<Longrightarrow> Validate os (no_proxy (c\<lparr>Bridge := br\<rparr>)) = Validate os (no_proxy c)"
  by (simp_all add: Validate_def validate_vm_def no_proxy_def)

lemma Validate_settings:
  assumes "Validate os (no_proxy c) = None"
  shows "br_Transport br \<in> set transportOptions \<Longrightarrow> Validate os (no_proxy (c\<lparr>Bridge := br\<rparr>)) = None"
    "64 \<le> m \<Longrightarrow> m \<le> 512 \<Longrightarrow> Validate os (no_proxy (c\<lparr>VMMemoryMB := m\<rparr>)) = None"
    "1 \<le> k \<Longrightarrow> k \<le> 8 \<Longrightarrow> Validate os (no_proxy (c\<lparr>VMCPUs := k\<rparr>)) = None"
    "1 \<le> p \<Longrightarrow> p \<le> 65535 \<Longrightarrow> Validate os (no_proxy (c\<lparr>SOCKSPort := p\<rparr>)) = None"
  using assms by (simp_all add: vm_checks no_proxy_def validatePort_def transportOptions_def)

text \<open>
  What the widgets can deliver: the options of the selections, the ranges of the sliders, and for a
  relay of a circuit a fingerprint with or without \<^verbatim>\<open>$\<close>, as Tor writes them.
\<close>

definition relay_id :: "string \<Rightarrow> bool" where
  "relay_id fp \<longleftrightarrow> guiFingerprintRe fp \<or> guiBareHexRe fp"

fun widget_ok :: "gui_action \<Rightarrow> bool" where
  "widget_ok (TransportSelected t) = (t \<in> set transportOptions)"
| "widget_ok (ProxyTypeSelected t) = (t \<in> set proxyOptions)"
| "widget_ok (CountryExclude s) = (s = [] \<or> s \<in> set countryOptions)"
| "widget_ok (CountryExit s) = (s = [] \<or> s \<in> set countryOptions)"
| "widget_ok (BlockRelay fp) = (fp = [] \<or> relay_id fp)"
| "widget_ok (BlockExit fp) = (fp = [] \<or> relay_id fp)"
| "widget_ok (CircuitBlock fp) = relay_id fp"
| "widget_ok (GlobeTap fp) = relay_id fp"
| "widget_ok (MemSlider v) = (64 \<le> v \<and> v \<le> 512)"
| "widget_ok (CpuSlider v) = (1 \<le> v \<and> v \<le> 8)"
| "widget_ok _ = True"

lemma relay_id_valid:
  assumes "relay_id fp"
  shows "validateRelayEntry (if \<not> has_prefix fp ''$'' then ''$'' @ fp else fp) = None" "fp \<noteq> []"
proof -
  have "fp \<noteq> [] \<and> guiFingerprintRe (if \<not> has_prefix fp ''$'' then ''$'' @ fp else fp)"
    using assms by (cases fp) (auto simp: relay_id_def guiFingerprintRe_def guiBareHexRe_def is_hex_def is_digit_def)
  then show "validateRelayEntry (if \<not> has_prefix fp ''$'' then ''$'' @ fp else fp) = None" "fp \<noteq> []"
    using gui_entry_valid by blast+
qed

lemma gui_valid_edit:
  assumes "gui_valid os c"
  shows "entries_ok (rl_ExcludeNodes r) \<Longrightarrow> entries_ok (rl_ExcludeExitNodes r) \<Longrightarrow> gui_valid os (c\<lparr>Relays := r\<rparr>)"
    "br_Transport br = br_Transport (Bridge c) \<or> br_Transport br \<in> set transportOptions \<Longrightarrow> gui_valid os (c\<lparr>Bridge := br\<rparr>)"
    "px_Type p = px_Type (Proxy c) \<or> px_Type p \<in> set [[], ''HTTP'', ''HTTPS'', ''SOCKS5''] \<Longrightarrow> gui_valid os (c\<lparr>Proxy := p\<rparr>)"
    "64 \<le> m \<Longrightarrow> m \<le> 512 \<Longrightarrow> gui_valid os (c\<lparr>VMMemoryMB := m\<rparr>)"
    "1 \<le> k \<Longrightarrow> k \<le> 8 \<Longrightarrow> gui_valid os (c\<lparr>VMCPUs := k\<rparr>)"
    "1 \<le> q \<Longrightarrow> q \<le> 65535 \<Longrightarrow> gui_valid os (c\<lparr>SOCKSPort := q\<rparr>)" "gui_valid os (c\<lparr>Verbose := b\<rparr>)"
  using assms by (auto simp: gui_valid_def Validate_edits Validate_settings)

lemma gui_valid_entries:
  "gui_valid os c \<Longrightarrow> entries_ok (rl_ExcludeNodes (Relays c)) \<and> entries_ok (rl_ExcludeExitNodes (Relays c))"
  by (simp add: gui_valid_def)

lemma gui_valid_add:
  assumes "gui_valid os (app_config a)" "aliased a" "validateRelayEntry e = None"
  shows "gui_valid os (app_config (add_exclude e a))" "gui_valid os (app_config (add_exit e a))"
  using assms gui_valid_entries [OF assms(1)]
  by (auto simp: add_exclude_def add_exit_def upd_relays_def intro!: gui_valid_edit(1) entries_add)

lemma gui_step_valid:
  assumes "gui_valid os (app_config a)" "aliased a" "widget_ok act"
  shows "gui_valid os (app_config (gui_step env marshal wr act a))"
proof (cases act)
  case (BlockRelay fp)
  then show ?thesis using assms relay_id_valid [of fp] gui_valid_add(1) by (auto simp: block_relay_def block_name_def Let_def)
next
  case (BlockExit fp)
  then show ?thesis using assms relay_id_valid [of fp] gui_valid_add(2) by (auto simp: block_exit_def block_name_def Let_def)
next
  case (CircuitBlock fp)
  then show ?thesis using assms relay_id_valid [of fp] gui_valid_add(1)
    by (auto simp: circuit_confirmed_def circuit_block_def Let_def split: if_splits)
next
  case (GlobeTap fp)
  then show ?thesis using assms relay_id_valid [of fp] gui_valid_add(1)
    by (auto simp: circuit_block_def Let_def split: if_splits)
next
  case (CountryExclude s)
  then show ?thesis using assms country_valid [of s] gui_valid_add(1) by (auto simp: addToExclude_def Let_def extractCC_def)
next
  case (CountryExit s)
  then show ?thesis using assms country_valid [of s] gui_valid_add(2) by (auto simp: addToExitExclude_def Let_def extractCC_def)
next
  case (ExcludeAdd s)
  then show ?thesis using assms gui_validated gui_valid_add(1) by (auto simp: excludeAdd_def Let_def split: option.splits)
next
  case (ExitAdd s)
  then show ?thesis using assms gui_validated gui_valid_add(2) by (auto simp: exitAdd_def Let_def split: option.splits)
next
  case (ExcludeRemove i)
  then show ?thesis using assms gui_valid_entries [OF assms(1)]
    by (auto simp: excludeRemove_def upd_relays_def intro!: gui_valid_edit(1) entries_remove)
next
  case (ExitRemove i)
  then show ?thesis using assms gui_valid_entries [OF assms(1)]
    by (auto simp: exitRemove_def upd_relays_def intro!: gui_valid_edit(1) entries_remove)
next
  case (StrictNodes b)
  then show ?thesis using assms gui_valid_entries [OF assms(1)] by (auto simp: upd_relays_def intro!: gui_valid_edit(1))
next
  case ResetConfirmed
  then show ?thesis using assms by (auto simp: reset_confirmed_def intro!: gui_valid_edit)
qed (use assms in \<open>auto simp: setting_defs proxyOptions_def Let_def split: option.splits sum.splits intro!: gui_valid_edit\<close>)

section \<open>Starting and stopping the engine\<close>

text \<open>
  \<^verbatim>\<open>startVM\<close> runs the engine in a goroutine, and a second goroutine waits for its result and then
  clears \<^verbatim>\<open>a.cancel\<close>. A run is given by whether its context was cancelled and by how far its
  two goroutines have come.
\<close>

datatype run_status = RunGoing | RunReturned "goerr option" | RunNoticed

record runner =
  rc_serviceMode :: bool
  rc_cancel :: "nat option"
  rc_runs :: "(bool \<times> run_status) list"
  rc_service :: "string list"
  rc_errors :: "goerr list"

definition new_runner :: "bool \<Rightarrow> runner" where
  "new_runner svc = \<lparr>rc_serviceMode = svc, rc_cancel = None, rc_runs = [], rc_service = [], rc_errors = []\<rparr>"

definition cancel_run :: "nat \<Rightarrow> runner \<Rightarrow> runner" where
  "cancel_run r a = a\<lparr>rc_runs := (rc_runs a)[r := (True, snd (rc_runs a ! r))]\<rparr>"

text \<open>\<open>svc\<close> is what \<^verbatim>\<open>launchd.Start\<close> and \<^verbatim>\<open>launchd.Stop\<close> answer.\<close>

definition service_call :: "string \<Rightarrow> goerr option \<Rightarrow> runner \<Rightarrow> runner" where
  "service_call what svc a =
     (let a1 = a\<lparr>rc_service := rc_service a @ [what]\<rparr> in
      case svc of None \<Rightarrow> a1 | Some e \<Rightarrow> a1\<lparr>rc_errors := rc_errors a1 @ [e]\<rparr>)"

definition startVM :: "goerr option \<Rightarrow> runner \<Rightarrow> runner" where
  "startVM svc a =
     (if rc_serviceMode a then service_call ''start'' svc a
      else if rc_cancel a \<noteq> None then a
      else a\<lparr>rc_cancel := Some (length (rc_runs a)), rc_runs := rc_runs a @ [(False, RunGoing)]\<rparr>)"

definition stopVM :: "goerr option \<Rightarrow> runner \<Rightarrow> runner" where
  "stopVM svc a =
     (if rc_serviceMode a then service_call ''stop'' svc a
      else case rc_cancel a of
        None \<Rightarrow> a
      | Some r \<Rightarrow> (cancel_run r a)\<lparr>rc_cancel := None\<rparr>)"

definition doQuit :: "runner \<Rightarrow> runner" where
  "doQuit a = (case rc_cancel a of None \<Rightarrow> a | Some r \<Rightarrow> cancel_run r a)"

text \<open>The goroutine of \<^verbatim>\<open>startVM\<close> that waits for the result of a run.\<close>

definition notice_end :: "nat \<Rightarrow> runner \<Rightarrow> runner option" where
  "notice_end r a =
     (if r < length (rc_runs a) then
        (case snd (rc_runs a ! r) of
           RunReturned err \<Rightarrow>
             Some (a\<lparr>rc_runs := (rc_runs a)[r := (fst (rc_runs a ! r), RunNoticed)], rc_cancel := None,
                     rc_errors := rc_errors a @ (case err of None \<Rightarrow> [] | Some e \<Rightarrow> [e])\<rparr>)
         | _ \<Rightarrow> None)
      else None)"

definition run_returns :: "nat \<Rightarrow> goerr option \<Rightarrow> runner \<Rightarrow> runner option" where
  "run_returns r err a =
     (if r < length (rc_runs a) \<and> snd (rc_runs a ! r) = RunGoing
      then Some (a\<lparr>rc_runs := (rc_runs a)[r := (fst (rc_runs a ! r), RunReturned err)]\<rparr>) else None)"

datatype tray_toggle = StopItem | BusyItem | StartItem

definition tray_toggle_item :: "State \<Rightarrow> runner \<Rightarrow> tray_toggle" where
  "tray_toggle_item st a =
     (if st = StateRunning then StopItem else if rc_cancel a \<noteq> None then BusyItem else StartItem)"

inductive run_reach :: "runner \<Rightarrow> runner \<Rightarrow> bool" for b where
  init: "run_reach b b"
| start: "run_reach b a \<Longrightarrow> run_reach b (startVM svc a)"
| stop: "run_reach b a \<Longrightarrow> run_reach b (stopVM svc a)"
| quit: "run_reach b a \<Longrightarrow> run_reach b (doQuit a)"
| returns: "run_reach b a \<Longrightarrow> run_returns r err a = Some a' \<Longrightarrow> run_reach b a'"
| notice: "run_reach b a \<Longrightarrow> notice_end r a = Some a' \<Longrightarrow> run_reach b a'"

lemmas runner_defs = startVM_def stopVM_def doQuit_def cancel_run_def notice_end_def run_returns_def new_runner_def

section \<open>Properties\<close>

text \<open>
  C11. Nothing the user does in the graphical interface reaches a running Tor. The application and
  the engine hold the same configuration, which the callbacks change in place, so when the
  interface asks for a hot reload the engine compares the configuration with itself, finds no
  change and sends nothing. After any sequence of user actions and engine rounds, a further
  action, in particular blocking a relay while Tor runs, makes the engine send at most NEWNYM
  signals, while the engine's configuration already reads as the edited one.
\<close>

theorem gui_edits_not_applied:
  assumes "gui_reach os env n marshal wr (NewApp cfg s path) a"
  shows "(\<exists>evs. calls (ap_engine (gui_step env marshal wr act a)) = calls (ap_engine a) @ evs
            \<and> (\<forall>ev\<in>set evs. \<exists>c r. ev = ESignal c ''NEWNYM'' r))
    \<and> config (engine_of (gui_step env marshal wr act a)) = app_config (gui_step env marshal wr act a)"
proof -
  have "aliased (NewApp cfg s path)" by (simp add: aliased_def NewApp_def)
  then have "harmless a (gui_step env marshal wr act a)"
    using gui_reach_aliased [OF assms] gui_step_harmless by blast
  then show ?thesis by (simp add: harmless_def only_newnym_def aliased_def engine_of_def app_config_def)
qed

theorem gui_edits_not_applied_witness:
  "let a = NewApp (DefaultConfig Linux) calm_connected ''c.json'';
       b = gui_step calm (\<lambda>_. Inr ''{}'') (\<lambda>_. None) (BlockRelay (replicate 40 (CHR ''A''))) a in
   gui_reach Linux calm 601 (\<lambda>_. Inr ''{}'') (\<lambda>_. None) a a \<and> state (ap_engine a) = StateRunning
   \<and> elems (rl_ExcludeNodes (Relays (app_config b))) = [CHR ''$'' # replicate 40 (CHR ''A'')]
   \<and> (\<exists>evs. calls (ap_engine b) = calls (ap_engine a) @ evs \<and> (\<forall>ev\<in>set evs. \<exists>c r. ev = ESignal c ''NEWNYM'' r))"
proof -
  let ?a = "NewApp (DefaultConfig Linux) calm_connected ''c.json''" and ?fp = "replicate 40 (CHR ''A'')"
  let ?b = "gui_step calm (\<lambda>_. Inr ''{}'') (\<lambda>_. None) (BlockRelay ?fp) ?a"
  have r: "gui_reach Linux calm 601 (\<lambda>_. Inr ''{}'') (\<lambda>_. None) ?a ?a" by (rule gui_reach.start)
  have al: "aliased ?a" by (simp add: aliased_def NewApp_def)
  have "has_prefix ?fp ''$'' = False" by code_simp
  then have "app_config ?b = (app_config ?a)\<lparr>Relays := (Relays (app_config ?a))
      \<lparr>rl_ExcludeNodes := add_entry (CHR ''$'' # ?fp) (rl_ExcludeNodes (Relays (app_config ?a)))\<rparr>\<rparr>"
    using al by (simp add: block_relay_def block_name_def Let_def add_exclude_def upd_relays_def)
  then have "elems (rl_ExcludeNodes (Relays (app_config ?b))) = [CHR ''$'' # ?fp]"
    by (simp add: app_config_def NewApp_def DefaultConfig_def add_entry_def elems_def)
  with r gui_edits_not_applied [OF r, of "BlockRelay ?fp"] show ?thesis
    unfolding Let_def by (simp add: NewApp_def calm_connected_def)
qed

fun gui_run ::
  "('w, 's, 'c) env \<Rightarrow> (Config \<Rightarrow> string res) \<Rightarrow> (string \<Rightarrow> goerr option) \<Rightarrow> gui_action list \<Rightarrow>
   ('w, 's, 'c) App \<Rightarrow> ('w, 's, 'c) App" where
  "gui_run env marshal wr [] a = a"
| "gui_run env marshal wr (act # acts) a = gui_run env marshal wr acts (gui_step env marshal wr act a)"

lemma gui_run_valid:
  "gui_valid os (app_config a) \<Longrightarrow> aliased a \<Longrightarrow> list_all widget_ok acts \<Longrightarrow>
   gui_valid os (app_config (gui_run env marshal wr acts a))"
  by (induction env marshal wr acts a rule: gui_run.induct)
     (auto simp: gui_step_valid dest: gui_step_harmless [unfolded harmless_def])

text \<open>
  C16. What the interface makes of a valid configuration. Starting from a configuration that
  passes \<^verbatim>\<open>Validate\<close> and whose exclusion lists are well-formed, any sequence of edits keeps the
  exclusion lists well-formed (every entry one that the overlay accepts, none twice), and keeps
  every check of \<^verbatim>\<open>Validate\<close> except the one of the proxy type: the interface writes the types as
  HTTP, HTTPS and SOCKS5 and \<^verbatim>\<open>Validate\<close> knows them in lower case only, so after choosing one the
  configuration that is saved is exactly one that \<^verbatim>\<open>Load\<close> refuses.
\<close>

theorem gui_edits_valid:
  assumes "Validate os cfg = None" "entries_ok (rl_ExcludeNodes (Relays cfg))" "entries_ok (rl_ExcludeExitNodes (Relays cfg))"
    and "list_all widget_ok acts" "c = app_config (gui_run env marshal wr acts (NewApp cfg s path))"
  shows "validateRelayConfig (Relays c) = None
    \<and> distinct (elems (rl_ExcludeNodes (Relays c))) \<and> distinct (elems (rl_ExcludeExitNodes (Relays c)))
    \<and> (Validate os c = None \<longleftrightarrow> px_Type (Proxy c) \<notin> {''HTTP'', ''HTTPS'', ''SOCKS5''})"
proof -
  have "aliased (NewApp cfg s path)" "app_config (NewApp cfg s path) = cfg"
    by (simp_all add: aliased_def NewApp_def app_config_def)
  moreover have "gui_valid os cfg" using assms(1-3) Validate_proxy [of os cfg] by (auto simp: gui_valid_def)
  ultimately have "gui_valid os c" using assms(4,5) gui_run_valid [of os "NewApp cfg s path"] by simp
  then show ?thesis
    by (auto simp: gui_valid_def entries_ok_def validateRelayConfig_iff Validate_proxy [of os c])
qed

theorem gui_edits_valid_witness:
  "let c = app_config (gui_run calm (\<lambda>_. Inr []) (\<lambda>_. None) [ProxyTypeSelected ''HTTP'', MemSlider 128]
             (NewApp (DefaultConfig Linux) calm_connected ''c.json'')) in
   Validate Linux (DefaultConfig Linux) = None \<and> px_Type (Proxy c) = ''HTTP'' \<and> Validate Linux c \<noteq> None"
proof -
  let ?c = "app_config (gui_run calm (\<lambda>_. Inr []) (\<lambda>_. None) [ProxyTypeSelected ''HTTP'', MemSlider 128]
             (NewApp (DefaultConfig Linux) calm_connected ''c.json''))"
  have ok: "entries_ok (rl_ExcludeNodes (Relays (DefaultConfig Linux)))"
    "entries_ok (rl_ExcludeExitNodes (Relays (DefaultConfig Linux)))"
    "list_all widget_ok [ProxyTypeSelected ''HTTP'', MemSlider 128]"
    by (simp_all add: DefaultConfig_def entries_ok_def elems_def proxyOptions_def)
  have "px_Type (Proxy ?c) = ''HTTP''"
    by (simp add: proxy_type_selected_def upd_proxy_def upd_cfg_def markDirty_def app_config_def NewApp_def)
  with gui_edits_valid [OF Validate_DefaultConfig ok refl, of calm "\<lambda>_. Inr []" "\<lambda>_. None" calm_connected "''c.json''"]
  show ?thesis unfolding Let_def by (simp add: Validate_DefaultConfig)
qed

text \<open>
  Runs of the engine can overlap and one can become unstoppable. \<^verbatim>\<open>stopVM\<close> forgets the cancel
  function without waiting for the run to end, so Start, Stop, Start leaves two runs of the same
  engine going; and the goroutine that notices the end of the first one clears \<^verbatim>\<open>a.cancel\<close>, which
  by then belongs to the second. From then on Stop and Quit do nothing while the second run goes
  on with its context not cancelled, and the tray offers to start another.
\<close>

theorem gui_runs_overlap:
  "\<exists>a1 a2. run_reach (new_runner False) a1 \<and> rc_runs a1 = [(True, RunGoing), (False, RunGoing)]
     \<and> run_reach a1 a2 \<and> rc_runs a2 = [(True, RunNoticed), (False, RunGoing)]
     \<and> (\<forall>svc. stopVM svc a2 = a2) \<and> doQuit a2 = a2
     \<and> (\<forall>st. tray_toggle_item st a2 = (if st = StateRunning then StopItem else StartItem))"
proof -
  let ?a1 = "startVM None (stopVM None (startVM None (new_runner False)))"
  let ?b = "?a1\<lparr>rc_runs := [(True, RunReturned None), (False, RunGoing)]\<rparr>"
  let ?a2 = "?b\<lparr>rc_runs := [(True, RunNoticed), (False, RunGoing)], rc_cancel := None\<rparr>"
  have 1: "run_reach (new_runner False) ?a1" by (intro run_reach.start run_reach.stop run_reach.init)
  have runs: "rc_runs ?a1 = [(True, RunGoing), (False, RunGoing)]" by (simp add: runner_defs)
  have "run_returns 0 None ?a1 = Some ?b" by (simp add: run_returns_def runs)
  moreover have "notice_end 0 ?b = Some ?a2" by (simp add: notice_end_def)
  ultimately have 2: "run_reach ?a1 ?a2"
    using run_reach.notice [OF run_reach.returns [OF run_reach.init]] by blast
  have "rc_serviceMode ?a2 = False" by (simp add: runner_defs)
  then have "(\<forall>svc. stopVM svc ?a2 = ?a2) \<and> doQuit ?a2 = ?a2 \<and> (\<forall>st. tray_toggle_item st ?a2 = (if st = StateRunning then StopItem else StartItem))"
    by (simp add: stopVM_def doQuit_def tray_toggle_item_def)
  with 1 2 runs show ?thesis by (intro exI [of _ ?a1] exI [of _ ?a2]) simp
qed

end
