(* ===== verification/Qemu_Args.thy ===== *)
theory Qemu_Args
  imports Config_Model
begin

text \<open>
  \<^verbatim>\<open>vm/qemu_args.go\<close>, \<^verbatim>\<open>vm/browser_args.go\<close> and \<^verbatim>\<open>security/entropy.go\<close>: the QEMU command
  lines of the two virtual machines. The random bytes are an argument: \<open>rnd n\<close> is the result
  of \<^verbatim>\<open>rand.Read\<close> on a buffer of \<open>n\<close> bytes.
\<close>

section \<open>Entropy\<close>

type_synonym randomness = "nat \<Rightarrow> string res"

text \<open>A negative length makes \<^verbatim>\<open>make\<close> panic.\<close>

definition EntropyHexString :: "randomness \<Rightarrow> int \<Rightarrow> string res outcome" where
  "EntropyHexString rnd n =
     (if n < 0 then Panic ''makeslice: len out of range''
      else Ret (case rnd (nat n) of Inl e \<Rightarrow> Inl (wrap ''entropy'' e) | Inr buf \<Rightarrow> Inr (hex_encode buf)))"

section \<open>The Tor VM\<close>

definition no_null :: "(string \<times> string) list \<Rightarrow> goerr option" where
  "no_null ps =
     first_err (\<lambda>(name, path). guard_err (contains_str path [NUL]) (ErrMsg (name @ '' contains null byte''))) ps"

definition accel_of :: "Config \<Rightarrow> string" where
  "accel_of cfg = (if Accel cfg = [] then ''tcg'' else Accel cfg)"

definition cpu_of :: "Config \<Rightarrow> string" where
  "cpu_of cfg =
     (if accel_of cfg = ''tcg'' then (if en_ExposeRDRAND (Entropy cfg) then ''qemu64,+rdrand'' else ''qemu64'')
      else ''host'')"

definition machineArgs :: "Config \<Rightarrow> string" where
  "machineArgs cfg =
     (if accel_of cfg = ''kvm'' then
        (if IOMMUEnabled cfg then ''q35,kernel-irqchip=split'' else ''q35,kernel-irqchip=on'')
      else ''q35'')"

definition drive_opts :: "string \<Rightarrow> string \<Rightarrow> string" where
  "drive_opts accel path =
     ''file='' @ path @
     (if accel = ''kvm'' then '',id=drive0,if=none,format=raw,cache=none,aio=native''
      else if accel = ''hvf'' \<or> accel = ''whpx'' then '',id=drive0,if=none,format=raw,cache=writeback,aio=threads''
      else '',id=drive0,if=none,format=raw,cache=writeback'')"

definition blockArgs :: "Config \<Rightarrow> string list" where
  "blockArgs cfg =
     [''-drive'', drive_opts (accel_of cfg) (StateDiskPath cfg), ''-device'', ''virtio-blk-pci,drive=drive0'']"

definition rng_backend :: "goos \<Rightarrow> string" where
  "rng_backend os =
     (if os = Windows then ''rng-builtin,id=rng0'' else ''rng-random,id=rng0,filename=/dev/urandom'')"

definition rngArgs :: "goos \<Rightarrow> Config \<Rightarrow> string list" where
  "rngArgs os cfg =
     (let e = Entropy cfg;
          maxBytes = (if en_VirtioRNGMaxBytes e = 0 then 1024 else en_VirtioRNGMaxBytes e);
          period = (if en_VirtioRNGPeriod e = 0 then 1000 else en_VirtioRNGPeriod e)
      in [''-object'', rng_backend os, ''-device'',
          ''virtio-rng-pci,rng=rng0,max-bytes='' @ itoa maxBytes @ '',period='' @ itoa period])"

definition serialEntropyArgs :: "Config \<Rightarrow> string list" where
  "serialEntropyArgs cfg =
     (let dev = en_SerialEntropyDevice (Entropy cfg) in
      if dev = [] then []
      else [''-chardev'', ''serial,id=entropy_serial,path='' @ dev, ''-device'', ''isa-serial,chardev=entropy_serial''])"

definition tapArgs :: "goos \<Rightarrow> Config \<Rightarrow> string list" where
  "tapArgs os cfg =
     (if os = Darwin then
        [''-netdev'', ''vmnet-shared,id=net0,start-address='' @ VMIP cfg @ '',end-address='' @ HostIP cfg
                      @ '',subnet-mask='' @ SubnetMask cfg,
         ''-device'', ''virtio-net-pci,netdev=net0'']
      else
        [''-netdev'', ''tap,id=net0,ifname='' @ TAPName cfg @ '',script=no,downscript=no''
                      @ (if VhostNet cfg \<and> os = Linux then '',vhost=on'' else []),
         ''-device'', ''virtio-net-pci,netdev=net0''])"

definition qmpArgs :: "goos \<Rightarrow> string \<Rightarrow> string list" where
  "qmpArgs os path =
     [''-qmp'', (if os = Windows then ''pipe:'' else ''unix:'') @ path @ '',server,nowait'']"

definition kernelAppend :: "Config \<Rightarrow> string \<Rightarrow> string" where
  "kernelAppend cfg entropy =
     ''quiet IP='' @ HostIP cfg @ '' MASK='' @ SubnetMask cfg @ '' GW='' @ VMIP cfg
     @ '' MTU=1500 PRIVIP='' @ VMIP cfg @ '' CTLSOCK='' @ VMIP cfg @ '':'' @ itoa (ControlPort cfg)
     @ '' ENTROPY='' @ entropy
     @ (if en_EnableHaveged (Entropy cfg) then '' HAVEGED=1'' else [])
     @ (if en_EnableRngd (Entropy cfg) then '' RNGD=1'' else [])
     @ (if en_SerialEntropyDevice (Entropy cfg) \<noteq> [] then '' SERIAL_ENTROPY=1'' else [])"

definition vm_args :: "goos \<Rightarrow> Config \<Rightarrow> string \<Rightarrow> string list" where
  "vm_args os cfg entropy =
     [''-name'', ''TorVM'', ''-machine'', machineArgs cfg, ''-cpu'', cpu_of cfg, ''-accel'', accel_of cfg,
      ''-smp'', itoa (VMCPUs cfg), ''-m'', itoa (VMMemoryMB cfg), ''-kernel'', KernelPath cfg,
      ''-initrd'', InitrdPath cfg, ''-append'', kernelAppend cfg entropy]
     @ blockArgs cfg
     @ (if IOMMUEnabled cfg \<and> accel_of cfg = ''kvm''
        then [''-device'', ''intel-iommu,intremap=on,caching-mode=on''] else [])
     @ rngArgs os cfg @ serialEntropyArgs cfg
     @ [''-device'', ''virtio-balloon-pci'', ''-nographic''] @ tapArgs os cfg @ qmpArgs os (QMPSocketPath cfg)"

definition BuildArgs :: "goos \<Rightarrow> randomness \<Rightarrow> Config \<Rightarrow> string list res outcome" where
  "BuildArgs os rnd cfg =
     (case no_null [(''KernelPath'', KernelPath cfg), (''InitrdPath'', InitrdPath cfg),
                    (''StateDiskPath'', StateDiskPath cfg), (''QMPSocketPath'', QMPSocketPath cfg)] of
        Some e \<Rightarrow> Ret (Inl e)
      | None \<Rightarrow>
          (let n = en_KernelEntropyBytes (Entropy cfg) in
           case EntropyHexString rnd (if n = 0 then 32 else n) of
             Panic m \<Rightarrow> Panic m
           | Ret (Inl e) \<Rightarrow> Ret (Inl (wrap ''generate entropy'' e))
           | Ret (Inr entropy) \<Rightarrow> Ret (Inr (vm_args os cfg entropy))))"

section \<open>The browser VM\<close>

definition SecwatchSocketPath :: "goos \<Rightarrow> string" where
  "SecwatchSocketPath os =
     (if os = Windows then pipe_path ''torvm-secwatch'' else ''/run/torvm/secwatch.sock'')"

definition browserSecwatchSocketPath :: "goos \<Rightarrow> BrowserConfig \<Rightarrow> string" where
  "browserSecwatchSocketPath os bcfg =
     (if os = Windows then pipe_path ''torvm-secwatch'' else ''/run/torvm/secwatch.sock'')"

definition browserBlockArgs :: "BrowserConfig \<Rightarrow> string \<Rightarrow> string list" where
  "browserBlockArgs bcfg accel =
     [''-drive'', drive_opts accel (bw_StateDiskPath bcfg), ''-device'', ''virtio-blk-pci,drive=drive0'']"

definition browserRngArgs :: "goos \<Rightarrow> string list" where
  "browserRngArgs os =
     [''-object'', rng_backend os, ''-device'', ''virtio-rng-pci,rng=rng0,max-bytes=1024,period=1000'']"

definition browserAppend :: "Config \<Rightarrow> string \<Rightarrow> string" where
  "browserAppend cfg entropy =
     ''quiet TORIP='' @ VMIP cfg @ '' SOCKSPORT='' @ itoa (SOCKSPort cfg) @ '' DNSPORT='' @ itoa (DNSPort cfg)
     @ '' ENTROPY='' @ entropy @ '' CANARY_INTERVAL='' @ itoa (bw_CanaryIntervalSec (Browser cfg))
     @ (if bw_HoneyTokens (Browser cfg) then '' HONEY_TOKENS=1'' else [])
     @ (if bw_AutoRemediate (Browser cfg) then '' AUTO_REMEDIATE=1'' else [])"

definition browser_args :: "goos \<Rightarrow> Config \<Rightarrow> string \<Rightarrow> string list" where
  "browser_args os cfg entropy =
     (let b = Browser cfg; accel = accel_of cfg in
      [''-name'', ''BrowserVM'', ''-nodefaults'',
       ''-machine'', (if accel = ''kvm'' then ''q35,kernel-irqchip=on'' else ''q35''),
       ''-cpu'', cpu_of cfg, ''-accel'', accel, ''-smp'', itoa (bw_VMCPUs b), ''-m'', itoa (bw_VMMemoryMB b),
       ''-kernel'', bw_KernelPath b, ''-initrd'', bw_InitrdPath b, ''-append'', browserAppend cfg entropy]
      @ browserBlockArgs b accel
      @ [''-netdev'', ''user,id=net0,restrict=on'', ''-device'', ''virtio-net-pci,netdev=net0'']
      @ browserRngArgs os
      @ [''-device'', ''virtio-balloon-pci'',
         ''-device'', ''virtio-serial-pci'',
         ''-chardev'', ''socket,id=secwatch,path='' @ browserSecwatchSocketPath os b @ '',server=on,wait=off'',
         ''-device'', ''virtserialport,chardev=secwatch,name=com.torvm.secwatch'']
      @ (if bw_VNCDisplay b > 0 then [''-vnc'', ''127.0.0.1:'' @ itoa (bw_VNCDisplay b)] else [''-nographic''])
      @ qmpArgs os (bw_QMPSocketPath b))"

definition BuildBrowserArgs :: "goos \<Rightarrow> randomness \<Rightarrow> Config \<Rightarrow> string list res outcome" where
  "BuildBrowserArgs os rnd cfg =
     (let b = Browser cfg in
      case no_null [(''Browser.KernelPath'', bw_KernelPath b), (''Browser.InitrdPath'', bw_InitrdPath b),
                    (''Browser.StateDiskPath'', bw_StateDiskPath b), (''Browser.QMPSocketPath'', bw_QMPSocketPath b)] of
        Some e \<Rightarrow> Ret (Inl e)
      | None \<Rightarrow>
          (case EntropyHexString rnd 64 of
             Panic m \<Rightarrow> Panic m
           | Ret (Inl e) \<Rightarrow> Ret (Inl (wrap ''generate entropy'' e))
           | Ret (Inr entropy) \<Rightarrow> Ret (Inr (browser_args os cfg entropy))))"

section \<open>Reading the command lines\<close>

text \<open>
  The specification side: how QEMU reads its command line. Each option takes the next argument
  as its value, except \<^verbatim>\<open>-nodefaults\<close> and \<^verbatim>\<open>-nographic\<close>, so that a path that starts with a
  dash is never an option. The kernel splits its parameters at blanks, QEMU the properties of a
  value at commas.
\<close>

fun qemu_options :: "string list \<Rightarrow> (string \<times> string) list" where
  "qemu_options [] = []"
| "qemu_options (a # r) =
     (if a = ''-nodefaults'' \<or> a = ''-nographic'' then (a, []) # qemu_options r
      else case r of [] \<Rightarrow> [(a, [])] | v # r' \<Rightarrow> (a, v) # qemu_options r')"

definition option_values :: "string \<Rightarrow> string list \<Rightarrow> string list" where
  "option_values opt args = map snd (filter (\<lambda>(o', _). o' = opt) (qemu_options args))"

definition kernel_words :: "Config \<Rightarrow> string \<Rightarrow> string list" where
  "kernel_words cfg entropy =
     [''quiet'', ''IP='' @ HostIP cfg, ''MASK='' @ SubnetMask cfg, ''GW='' @ VMIP cfg, ''MTU=1500'',
      ''PRIVIP='' @ VMIP cfg, ''CTLSOCK='' @ VMIP cfg @ '':'' @ itoa (ControlPort cfg), ''ENTROPY='' @ entropy]
     @ (if en_EnableHaveged (Entropy cfg) then [''HAVEGED=1''] else [])
     @ (if en_EnableRngd (Entropy cfg) then [''RNGD=1''] else [])
     @ (if en_SerialEntropyDevice (Entropy cfg) \<noteq> [] then [''SERIAL_ENTROPY=1''] else [])"

definition browser_words :: "Config \<Rightarrow> string \<Rightarrow> string list" where
  "browser_words cfg entropy =
     [''quiet'', ''TORIP='' @ VMIP cfg, ''SOCKSPORT='' @ itoa (SOCKSPort cfg), ''DNSPORT='' @ itoa (DNSPort cfg),
      ''ENTROPY='' @ entropy, ''CANARY_INTERVAL='' @ itoa (bw_CanaryIntervalSec (Browser cfg))]
     @ (if bw_HoneyTokens (Browser cfg) then [''HONEY_TOKENS=1''] else [])
     @ (if bw_AutoRemediate (Browser cfg) then [''AUTO_REMEDIATE=1''] else [])"

subsection \<open>Entropy and kernel parameters\<close>

lemma hex_char_hex: "d < 16 \<Longrightarrow> is_hex (hex_char d)"
  by (auto simp: hex_char_def is_hex_def is_digit_def)

lemma of_char_bound: "(of_char c :: nat) div 16 < 16"
  by (simp add: less_mult_imp_div_less)

lemma hex_encode_hex: "c \<in> set (hex_encode s) \<Longrightarrow> is_hex c"
  using of_char_bound by (fastforce simp: hex_encode_def intro!: hex_char_hex)

lemma hex_encode_length: "length (hex_encode s) = 2 * length s"
  by (induction s) (simp_all add: hex_encode_def)

lemma ip_char_graphic: "ip_char c \<Longrightarrow> graphic c"
  by (auto simp: ip_char_def is_hex_def is_digit_def graphic_def)

lemma hex_graphic: "is_hex c \<Longrightarrow> graphic c"
  by (auto simp: is_hex_def is_digit_def graphic_def)

lemmas graphic_Char = graphic_def [of "Char b0 b1 b2 b3 b4 b5 b6 b7" for b0 b1 b2 b3 b4 b5 b6 b7]

lemma Validate_ip_graphic:
  "Validate os c = None \<Longrightarrow> v \<in> {HostIP c, VMIP c, SubnetMask c, DNS1 c, DNS2 c} \<Longrightarrow> x \<in> set v \<Longrightarrow> graphic x"
  using Validate_ips [of os c v] parse_ip_chars [of v] ip_char_graphic by blast

lemma kernelAppend_fields:
  assumes "Validate os cfg = None" "\<forall>c \<in> set entropy. is_hex c"
  shows "str_fields (kernelAppend cfg entropy) = kernel_words cfg entropy"
proof -
  have "kernelAppend cfg entropy = join '' '' (kernel_words cfg entropy)"
    by (simp add: kernelAppend_def kernel_words_def)
  moreover have "\<forall>w \<in> set (kernel_words cfg entropy). w \<noteq> [] \<and> (\<forall>c \<in> set w. graphic c)"
    using assms Validate_ip_graphic [OF assms(1)]
    by (auto simp: kernel_words_def graphic_Char intro: hex_graphic itoa_graphic)
  ultimately show ?thesis by (simp add: str_fields_join)
qed

lemma browserAppend_fields:
  assumes "Validate os cfg = None" "\<forall>c \<in> set entropy. is_hex c"
  shows "str_fields (browserAppend cfg entropy) = browser_words cfg entropy"
proof -
  have "browserAppend cfg entropy = join '' '' (browser_words cfg entropy)"
    by (simp add: browserAppend_def browser_words_def)
  moreover have "\<forall>w \<in> set (browser_words cfg entropy). w \<noteq> [] \<and> (\<forall>c \<in> set w. graphic c)"
    using assms Validate_ip_graphic [OF assms(1)]
    by (auto simp: browser_words_def graphic_Char intro: hex_graphic itoa_graphic)
  ultimately show ?thesis by (simp add: str_fields_join)
qed

lemma EntropyHexString_ok:
  assumes "EntropyHexString rnd n = Ret (Inr e)" "\<And>k b. rnd k = Inr b \<Longrightarrow> length b = k"
  shows "length e = 2 * nat n \<and> (\<forall>c \<in> set e. is_hex c)"
  using assms hex_encode_hex
  by (auto simp: EntropyHexString_def hex_encode_length split: if_splits sum.splits)

lemma EntropyHexString_no_panic: "0 \<le> n \<Longrightarrow> EntropyHexString rnd n \<noteq> Panic m"
  by (simp add: EntropyHexString_def)

lemma BuildArgs_ok:
  assumes "BuildArgs os rnd cfg = Ret (Inr args)"
  obtains e where "args = vm_args os cfg e"
    "EntropyHexString rnd (if en_KernelEntropyBytes (Entropy cfg) = 0 then 32 else en_KernelEntropyBytes (Entropy cfg))
       = Ret (Inr e)"
  using assms by (auto simp: BuildArgs_def Let_def split: option.splits outcome.splits sum.splits)

lemma BuildBrowserArgs_ok:
  assumes "BuildBrowserArgs os rnd cfg = Ret (Inr args)"
  obtains e where "args = browser_args os cfg e" "EntropyHexString rnd 64 = Ret (Inr e)"
  using assms by (auto simp: BuildBrowserArgs_def Let_def split: option.splits outcome.splits sum.splits)

lemma vm_args_append: "option_values ''-append'' (vm_args os cfg e) = [kernelAppend cfg e]"
  by (simp add: option_values_def vm_args_def blockArgs_def rngArgs_def serialEntropyArgs_def
                tapArgs_def qmpArgs_def Let_def)

lemma vm_args_netdev: "option_values ''-netdev'' (vm_args os cfg e) = [tapArgs os cfg ! 1]"
  by (simp add: option_values_def vm_args_def blockArgs_def rngArgs_def serialEntropyArgs_def
                tapArgs_def qmpArgs_def Let_def)

lemma browser_args_values:
  "option_values ''-append'' (browser_args os cfg e) = [browserAppend cfg e]"
  "option_values ''-netdev'' (browser_args os cfg e) = [''user,id=net0,restrict=on'']"
  "option_values ''-nodefaults'' (browser_args os cfg e) = [[]]"
  "option_values ''-vnc'' (browser_args os cfg e) =
     (if bw_VNCDisplay (Browser cfg) > 0 then [''127.0.0.1:'' @ itoa (bw_VNCDisplay (Browser cfg))] else [])"
  by (simp_all add: option_values_def browser_args_def browserBlockArgs_def browserRngArgs_def qmpArgs_def Let_def)

lemma BuildArgs_no_panic:
  assumes "Validate os cfg = None"
  shows "BuildArgs os rnd cfg \<noteq> Panic m"
  using Validate_entropy(3) [OF assms] EntropyHexString_no_panic [of "en_KernelEntropyBytes (Entropy cfg)" rnd]
  by (auto simp: BuildArgs_def Let_def split: option.splits outcome.splits sum.splits)

text \<open>Commas, which separate the properties of a QEMU option, are in no checked address or TAP name.\<close>

lemma comma_no_ip: "\<not> ip_char (CHR '','')"
  by (simp add: ip_char_def is_hex_def is_digit_def)

lemma Validate_ip_no_comma:
  "Validate os c = None \<Longrightarrow> v \<in> {HostIP c, VMIP c, SubnetMask c, DNS1 c, DNS2 c} \<Longrightarrow> CHR '','' \<notin> set v"
  using Validate_ips [of os c v] parse_ip_chars [of v] comma_no_ip by blast

lemma alnum_no_comma: "\<not> is_alnum (CHR '','')"
  by (simp add: is_lower_def is_upper_def is_digit_def)

lemma Validate_tap_no_comma: "Validate os c = None \<Longrightarrow> CHR '','' \<notin> set (TAPName c)"
  using Validate_vm(7) [of os c] tap_name_unix [of os "TAPName c"] tap_name_windows [of "TAPName c"] alnum_no_comma
  by (cases "os = Windows") auto

text \<open>A source of zeros, for the examples.\<close>

definition zero_bytes :: randomness where
  "zero_bytes n = Inr (replicate n NUL)"

lemma default_vnc: "bw_VNCDisplay (Browser (DefaultConfig os)) = 1"
  by (simp add: DefaultConfig_def)

lemma itoa_1: "itoa 1 = ''1''"
  by code_simp

lemma default_args:
  "\<exists>args. BuildArgs Linux zero_bytes (DefaultConfig Linux) = Ret (Inr args)"
  "\<exists>args. BuildBrowserArgs Linux zero_bytes (DefaultConfig Linux) = Ret (Inr args)"
  by (simp_all add: BuildArgs_def BuildBrowserArgs_def DefaultConfig_def zero_bytes_def EntropyHexString_def no_null_def
       Let_def guard_err_def NUL_def filepath_join_def path_sep_def defaultQMPPath_def defaultBrowserQMPPath_def)

section \<open>Properties\<close>

text \<open>
  C24. The kernel command line of the Tor VM cannot be extended through the configuration: for a
  configuration that passes \<^verbatim>\<open>Validate\<close>, \<^verbatim>\<open>BuildArgs\<close> does not panic, and the command line it
  builds has exactly one \<^verbatim>\<open>-append\<close> option, which the kernel splits into the intended
  parameters in order. The entropy parameter is a hexadecimal number of the configured length.
  The hypothesis on \<open>rnd\<close> is what \<^verbatim>\<open>rand.Read\<close> documents: it fills the buffer or fails.
\<close>

theorem BuildArgs_kernel_parameters:
  assumes "Validate os cfg = None" "\<And>k b. rnd k = Inr b \<Longrightarrow> length b = k"
  shows "(\<exists>r. BuildArgs os rnd cfg = Ret r)
    \<and> (\<forall>args. BuildArgs os rnd cfg = Ret (Inr args) \<longrightarrow>
         (\<exists>line entropy. option_values ''-append'' args = [line]
            \<and> str_fields line = kernel_words cfg entropy
            \<and> int (length entropy) = 2 * en_KernelEntropyBytes (Entropy cfg)
            \<and> (\<forall>c \<in> set entropy. is_hex c)))"
proof -
  let ?n = "en_KernelEntropyBytes (Entropy cfg)"
  from Validate_entropy(3) [OF assms(1)] have n: "16 \<le> ?n" by simp
  have "\<exists>r. BuildArgs os rnd cfg = Ret r"
    using BuildArgs_no_panic [OF assms(1)] by (cases "BuildArgs os rnd cfg") auto
  moreover have "\<exists>line entropy. option_values ''-append'' args = [line]
            \<and> str_fields line = kernel_words cfg entropy
            \<and> int (length entropy) = 2 * ?n \<and> (\<forall>c \<in> set entropy. is_hex c)"
    if "BuildArgs os rnd cfg = Ret (Inr args)" for args
    using that
  proof (rule BuildArgs_ok)
    fix e assume e: "args = vm_args os cfg e" "EntropyHexString rnd (if ?n = 0 then 32 else ?n) = Ret (Inr e)"
    with n EntropyHexString_ok [of rnd ?n e, OF _ assms(2)] have "length e = 2 * nat ?n \<and> (\<forall>c \<in> set e. is_hex c)" by simp
    with e n kernelAppend_fields [OF assms(1), of e] show ?thesis by (auto simp: vm_args_append)
  qed
  ultimately show ?thesis by blast
qed

theorem BuildArgs_kernel_parameters_witness:
  "\<exists>args line entropy. BuildArgs Linux zero_bytes (DefaultConfig Linux) = Ret (Inr args)
     \<and> option_values ''-append'' args = [line] \<and> length entropy = 128
     \<and> str_fields line =
         [''quiet'', ''IP=10.10.10.2'', ''MASK=255.255.255.252'', ''GW=10.10.10.1'', ''MTU=1500'', ''PRIVIP=10.10.10.1'',
          ''CTLSOCK=10.10.10.1:'' @ itoa 9051, ''ENTROPY='' @ entropy, ''HAVEGED=1'', ''RNGD=1'']"
proof -
  obtain args where a: "BuildArgs Linux zero_bytes (DefaultConfig Linux) = Ret (Inr args)"
    using default_args by blast
  have "\<And>k b. zero_bytes k = Inr b \<Longrightarrow> length b = k" by (auto simp: zero_bytes_def)
  then obtain line entropy where "option_values ''-append'' args = [line]"
    "str_fields line = kernel_words (DefaultConfig Linux) entropy"
    "int (length entropy) = 2 * en_KernelEntropyBytes (Entropy (DefaultConfig Linux))"
    using BuildArgs_kernel_parameters [OF Validate_DefaultConfig [of Linux], of zero_bytes] a by blast
  then have "length entropy = 128" "option_values ''-append'' args = [line]"
    "str_fields line =
         [''quiet'', ''IP=10.10.10.2'', ''MASK=255.255.255.252'', ''GW=10.10.10.1'', ''MTU=1500'', ''PRIVIP=10.10.10.1'',
          ''CTLSOCK=10.10.10.1:'' @ itoa 9051, ''ENTROPY='' @ entropy, ''HAVEGED=1'', ''RNGD=1'']"
    by (simp_all add: kernel_words_def DefaultConfig_def)
  with a show ?thesis by blast
qed

text \<open>
  The network device of the Tor VM is the configured one: for a configuration that passes
  \<^verbatim>\<open>Validate\<close> the command line has one \<^verbatim>\<open>-netdev\<close> option, and QEMU, which splits its value
  at commas, finds the properties the code spells out and nothing a TAP name or an address
  could add; \<^verbatim>\<open>vhost=on\<close> appears on Linux only and only when it was detected.
\<close>

definition netdev_properties :: "goos \<Rightarrow> Config \<Rightarrow> string list" where
  "netdev_properties os cfg =
     (if os = Darwin then
        [''vmnet-shared'', ''id=net0'', ''start-address='' @ VMIP cfg, ''end-address='' @ HostIP cfg,
         ''subnet-mask='' @ SubnetMask cfg]
      else [''tap'', ''id=net0'', ''ifname='' @ TAPName cfg, ''script=no'', ''downscript=no'']
           @ (if VhostNet cfg \<and> os = Linux then [''vhost=on''] else []))"

theorem BuildArgs_netdev:
  assumes "Validate os cfg = None" "BuildArgs os rnd cfg = Ret (Inr args)"
  shows "map (split_on (CHR '','')) (option_values ''-netdev'' args) = [netdev_properties os cfg]"
proof -
  from assms(2) obtain e where "args = vm_args os cfg e" by (rule BuildArgs_ok)
  moreover have "tapArgs os cfg ! 1 = join '','' (netdev_properties os cfg)"
    by (simp add: tapArgs_def netdev_properties_def)
  moreover have "CHR '','' \<notin> set w" if "w \<in> set (netdev_properties os cfg)" for w
    using that Validate_ip_no_comma [OF assms(1), of "HostIP cfg"] Validate_ip_no_comma [OF assms(1), of "VMIP cfg"]
      Validate_ip_no_comma [OF assms(1), of "SubnetMask cfg"] Validate_tap_no_comma [OF assms(1)]
    by (auto simp: netdev_properties_def split: if_splits)
  ultimately show ?thesis
    by (simp add: vm_args_netdev split_on_join netdev_properties_def)
qed

theorem BuildArgs_netdev_witness:
  "\<exists>args. BuildArgs Linux zero_bytes (DefaultConfig Linux) = Ret (Inr args)
     \<and> map (split_on (CHR '','')) (option_values ''-netdev'' args)
       = [[''tap'', ''id=net0'', ''ifname=torvm0'', ''script=no'', ''downscript=no'']]"
proof -
  obtain args where a: "BuildArgs Linux zero_bytes (DefaultConfig Linux) = Ret (Inr args)"
    using default_args by blast
  from BuildArgs_netdev [OF Validate_DefaultConfig a] a show ?thesis
    by (simp add: netdev_properties_def DefaultConfig_def)
qed

text \<open>
  C25. The browser VM is isolated whatever the configuration says: the only network device of
  its command line is a user-mode one with \<^verbatim>\<open>restrict=on\<close>, QEMU's default devices are switched
  off, and a VNC display, if there is one, listens on the loopback address. With a configuration
  that passes \<^verbatim>\<open>Validate\<close> its kernel receives the intended parameters only.
\<close>

theorem browser_vm_isolated:
  assumes "BuildBrowserArgs os rnd cfg = Ret (Inr args)" "\<And>k b. rnd k = Inr b \<Longrightarrow> length b = k"
  shows "option_values ''-netdev'' args = [''user,id=net0,restrict=on'']
    \<and> option_values ''-nodefaults'' args = [[]]
    \<and> (\<forall>v \<in> set (option_values ''-vnc'' args). has_prefix v ''127.0.0.1:'')
    \<and> (Validate os cfg = None \<longrightarrow>
        (\<exists>line entropy. option_values ''-append'' args = [line] \<and> length entropy = 128
           \<and> str_fields line = browser_words cfg entropy))"
proof -
  from assms(1) obtain e where e: "args = browser_args os cfg e" "EntropyHexString rnd 64 = Ret (Inr e)"
    by (rule BuildBrowserArgs_ok)
  from EntropyHexString_ok [OF e(2) assms(2)] have "length e = 128" "\<forall>c \<in> set e. is_hex c" by simp_all
  moreover note browserAppend_fields [of os cfg e]
  ultimately show ?thesis using has_prefix_append [of "''127.0.0.1:''"]
    by (auto simp: e(1) browser_args_values simp del: has_prefix_append)
qed

theorem browser_vm_isolated_witness:
  "\<exists>args. BuildBrowserArgs Linux zero_bytes (DefaultConfig Linux) = Ret (Inr args)
     \<and> option_values ''-netdev'' args = [''user,id=net0,restrict=on'']
     \<and> option_values ''-vnc'' args = [''127.0.0.1:1'']"
proof -
  obtain args where a: "BuildBrowserArgs Linux zero_bytes (DefaultConfig Linux) = Ret (Inr args)"
    using default_args by blast
  moreover have "option_values ''-vnc'' args = [''127.0.0.1:1'']"
    using a by (rule BuildBrowserArgs_ok) (simp add: browser_args_values default_vnc itoa_1)
  ultimately show ?thesis using browser_vm_isolated [OF a] by (simp add: zero_bytes_def)
qed

end
