(* ===== verification/Vm_Host.thy ===== *)
theory Vm_Host
  imports Torrc Qemu_Args
begin

text \<open>
  What the VM code needs from the host before it can launch QEMU: the paths of package
  \<^verbatim>\<open>path/filepath\<close>, the resolution of the QEMU binary (\<^verbatim>\<open>vm/qemu.go\<close>), writing a file into the
  state disk with debugfs (\<^verbatim>\<open>vm/statedisk.go\<close>) and the QMP client (\<^verbatim>\<open>vm/monitor.go\<close>). The
  answers of the operating system are arguments, collected in a record per component.
\<close>

section \<open>Paths\<close>

text \<open>\<^verbatim>\<open>filepath.Clean\<close> and \<^verbatim>\<open>filepath.Dir\<close> with the separator \<^verbatim>\<open>/\<close>.\<close>

definition clean_step :: "bool \<Rightarrow> string list \<Rightarrow> string \<Rightarrow> string list" where
  "clean_step rooted out e =
     (if e = [] \<or> e = ''.'' then out
      else if e = ''..'' then
        (if out \<noteq> [] \<and> last out \<noteq> ''..'' then butlast out
         else if rooted then out else out @ [''..''])
      else out @ [e])"

definition path_clean :: "string \<Rightarrow> string" where
  "path_clean p =
     (if p = [] then ''.''
      else let rooted = has_prefix p ''/'';
               out = foldl (clean_step rooted) [] (split_on (CHR ''/'') p);
               r = (if rooted then ''/'' else []) @ join ''/'' out
           in if r = [] then ''.'' else r)"

definition path_dir :: "string \<Rightarrow> string" where
  "path_dir p = path_clean (rev (dropWhile (\<lambda>c. c \<noteq> CHR ''/'') (rev p)))"

section \<open>The QEMU binary\<close>

text \<open>\<^verbatim>\<open>strings.EqualFold\<close> with a second argument in ASCII, which only the long s and the Kelvin
  sign can match from beyond ASCII.\<close>

fun equal_fold :: "string \<Rightarrow> string \<Rightarrow> bool" where
  "equal_fold s [] = (s = [])"
| "equal_fold s (c # t) =
     (if s \<noteq> [] \<and> lower_char (hd s) = lower_char c then equal_fold (tl s) t
      else if has_prefix s [CHR 0xC5, CHR 0xBF] \<and> lower_char c = CHR ''s'' then equal_fold (drop 2 s) t
      else if has_prefix s [CHR 0xE2, CHR 0x84, CHR 0xAA] \<and> lower_char c = CHR ''k'' then equal_fold (drop 3 s) t
      else False)"

definition qemuAllowedDirs :: "goos \<Rightarrow> string list" where
  "qemuAllowedDirs os =
     (case os of
        Linux \<Rightarrow> [''/usr/bin'', ''/usr/local/bin'', ''/usr/sbin'', ''/usr/local/sbin'', ''/snap/bin'']
      | Darwin \<Rightarrow> [''/usr/bin'', ''/usr/local/bin'', ''/opt/homebrew/bin'', ''/opt/local/bin'']
      | Windows \<Rightarrow> [''C:'' @ [BSL] @ ''Program Files'', ''C:'' @ [BSL] @ ''Program Files (x86)'']
      | OtherOS _ \<Rightarrow> [])"

text \<open>The file system as path resolution sees it; \<open>pe_Dir\<close> is \<^verbatim>\<open>filepath.Dir\<close> on Windows.\<close>

record path_env =
  pe_LookPath :: "string \<Rightarrow> string res"
  pe_EvalSymlinks :: "string \<Rightarrow> string res"
  pe_Abs :: "string \<Rightarrow> string res"
  pe_Dir :: "string \<Rightarrow> string"

definition filepath_dir :: "goos \<Rightarrow> path_env \<Rightarrow> string \<Rightarrow> string" where
  "filepath_dir os pe p = (if os = Windows then pe_Dir pe p else path_dir p)"

definition under_dir :: "goos \<Rightarrow> string \<Rightarrow> string \<Rightarrow> bool" where
  "under_dir os d dir \<longleftrightarrow>
     (if os = Windows then equal_fold d dir \<or> has_prefix (to_lower d) (to_lower dir @ [path_sep os])
      else d = dir \<or> has_prefix d (dir @ [path_sep os]))"

definition resolveQEMUBinary :: "goos \<Rightarrow> path_env \<Rightarrow> string res" where
  "resolveQEMUBinary os pe =
     (case pe_LookPath pe ''qemu-system-x86_64'' of
        Inl e \<Rightarrow> Inl (wrap ''qemu-system-x86_64 not found in PATH'' e)
      | Inr path \<Rightarrow>
          (case pe_EvalSymlinks pe path of
             Inl e \<Rightarrow> Inl (wrap ''resolve qemu binary path'' e)
           | Inr target \<Rightarrow>
               (case pe_Abs pe target of
                  Inl e \<Rightarrow> Inl (wrap ''absolute qemu binary path'' e)
                | Inr resolved \<Rightarrow>
                    (let allowed = qemuAllowedDirs os in
                     if allowed = [] then Inr resolved
                     else if \<exists>dir \<in> set allowed. under_dir os (filepath_dir os pe resolved) dir then Inr resolved
                     else Inl (ErrMsg (''qemu binary '' @ quote resolved @ '' is not under an allowed directory [''
                                       @ join '' '' allowed @ '']''))))))"

section \<open>The state disk\<close>

definition safe_host_char :: "char \<Rightarrow> bool" where
  "safe_host_char c \<longleftrightarrow> is_alnum c \<or> c \<in> set ''/_.-''"

definition safeHostPathRe :: "string \<Rightarrow> bool" where
  "safeHostPathRe s \<longleftrightarrow> s \<noteq> [] \<and> list_all safe_host_char s"

definition guest_char :: "char \<Rightarrow> bool" where
  "guest_char c \<longleftrightarrow> is_alnum c \<or> c \<in> set ''._/-''"

fun guestPathRe :: "string \<Rightarrow> bool" where
  "guestPathRe [] = False"
| "guestPathRe (c # s) \<longleftrightarrow> is_alnum c \<and> list_all guest_char s"

definition validateGuestPath :: "string \<Rightarrow> goerr option" where
  "validateGuestPath p =
     and_then (guard_err (p = []) (ErrMsg ''guest path must not be empty''))
    (and_then (guard_err (length p > 255)
                 (ErrMsg (''guest path too long ('' @ itoa (int (length p)) @ '' chars, max 255)'')))
    (and_then (guard_err (contains_str p ''..'')
                 (ErrMsg (''guest path must not contain '' @ [CHR 0x27] @ ''..'' @ [CHR 0x27])))
              (guard_err (\<not> guestPathRe p)
                 (ErrMsg (''guest path contains invalid characters: '' @ quote p)))))"

text \<open>
  The calls of \<^verbatim>\<open>WriteStateDiskFile\<close>: \<open>sd_stat\<close> answers with whether the path is a regular
  file, \<open>sd_CreateTemp\<close> with the name of the new file, and \<open>sd_run\<close> is a command, given by its
  name and arguments, with its output and its error. The effects are recorded in order.
\<close>

record disk_env =
  sd_Abs :: "string \<Rightarrow> string res"
  sd_stat :: "string \<Rightarrow> bool res"
  sd_TempDir :: string
  sd_CreateTemp :: "string \<Rightarrow> string \<Rightarrow> string res"
  sd_WriteString :: "string \<Rightarrow> string \<Rightarrow> goerr option"
  sd_run :: "string \<Rightarrow> string list \<Rightarrow> string \<times> goerr option"
  sd_Dir :: "string \<Rightarrow> string"

datatype disk_effect = TempCreated string | TempWritten string string | TempRemoved string
  | Command string "string list"

definition debugfs_request :: "string \<Rightarrow> string \<Rightarrow> string" where
  "debugfs_request tmpName guestPath = ''write '' @ [DQ] @ tmpName @ [DQ] @ '' '' @ guestPath"

definition write_with_debugfs :: "disk_env \<Rightarrow> string \<Rightarrow> string \<Rightarrow> string \<Rightarrow> goerr option \<times> disk_effect list" where
  "write_with_debugfs de tmpName guestPath diskPath =
     (if \<not> safeHostPathRe tmpName
        then (Some (ErrMsg (''temp file path contains unsafe characters: '' @ quote tmpName)), [])
      else if \<not> safeHostPathRe diskPath
        then (Some (ErrMsg (''disk path contains unsafe characters: '' @ quote diskPath)), [])
      else let args = [''-w'', ''-R'', debugfs_request tmpName guestPath, diskPath] in
           ((case sd_run de ''debugfs'' args of
               (out, Some e) \<Rightarrow> Some (ErrMsg (''debugfs write: '' @ error_msg e @ '': '' @ out))
             | (_, None) \<Rightarrow> None),
            [Command ''debugfs'' args]))"

definition WriteStateDiskFile ::
  "disk_env \<Rightarrow> string \<Rightarrow> string \<Rightarrow> string \<Rightarrow> goerr option \<times> disk_effect list" where
  "WriteStateDiskFile de disk guestPath content =
     (case validateGuestPath guestPath of
        Some e \<Rightarrow> (Some (wrap ''invalid guest path'' e), [])
      | None \<Rightarrow>
     (case sd_Abs de disk of
        Inl e \<Rightarrow> (Some (wrap ''resolve disk path'' e), [])
      | Inr diskPath \<Rightarrow>
     (case sd_stat de diskPath of
        Inl e \<Rightarrow> (Some (wrap ''stat disk image'' e), [])
      | Inr regular \<Rightarrow>
          if \<not> regular then (Some (ErrMsg (''disk path is not a regular file: '' @ diskPath)), [])
          else let d = sd_Dir de diskPath;
                   tmpDir = (case sd_stat de d of Inl _ \<Rightarrow> sd_TempDir de | Inr _ \<Rightarrow> d) in
     (case sd_CreateTemp de tmpDir ''torvm-overlay-*'' of
        Inl e \<Rightarrow> (Some (wrap ''create temp file'' e), [])
      | Inr tmpName \<Rightarrow>
     (case sd_WriteString de tmpName content of
        Some e \<Rightarrow> (Some (wrap ''write temp file'' e), [TempCreated tmpName, TempRemoved tmpName])
      | None \<Rightarrow>
          (let (r, fx) = write_with_debugfs de tmpName guestPath diskPath in
           (r, [TempCreated tmpName, TempWritten tmpName content] @ fx @ [TempRemoved tmpName])))))))"

section \<open>The QMP client\<close>

text \<open>
  A connection as the client sees it: the commands written so far, the outcome of each write
  to come, and what each \<^verbatim>\<open>Decode\<close> to come gives. The decoder reads every JSON object of the
  stream, so an asynchronous event of QEMU arrives as a response without \<^verbatim>\<open>return\<close> and
  \<^verbatim>\<open>error\<close>. A failed write is an entry of \<open>qc_write_errs\<close>; a stream that has ended gives the
  error \<^verbatim>\<open>EOF\<close>.
\<close>

record qmpError =
  qe_Class :: string
  qe_Desc :: string

record qmpResponse =
  qr_Return :: string
  qr_Error :: "qmpError option"

record QMPClient =
  qc_sent :: "string list"
  qc_write_errs :: "goerr option list"
  qc_replies :: "qmpResponse res list"
  qc_closed :: bool

definition qmp_encode :: "string \<Rightarrow> QMPClient \<Rightarrow> goerr option \<times> QMPClient" where
  "qmp_encode command c =
     (case qc_write_errs c of
        Some e # r \<Rightarrow> (Some e, c\<lparr>qc_write_errs := r\<rparr>)
      | _ \<Rightarrow> (None, c\<lparr>qc_write_errs := tl (qc_write_errs c), qc_sent := qc_sent c @ [command]\<rparr>))"

definition qmp_decode :: "QMPClient \<Rightarrow> qmpResponse res \<times> QMPClient" where
  "qmp_decode c =
     (case qc_replies c of
        [] \<Rightarrow> (Inl (ErrMsg ''EOF''), c)
      | r # rs \<Rightarrow> (r, c\<lparr>qc_replies := rs\<rparr>))"

definition qmp_error :: "qmpError \<Rightarrow> goerr" where
  "qmp_error e = ErrMsg (''qmp: '' @ qe_Class e @ '': '' @ qe_Desc e)"

definition qmp_execute :: "string \<Rightarrow> QMPClient \<Rightarrow> goerr option \<times> QMPClient" where
  "qmp_execute command c =
     (case qmp_encode command c of
        (Some e, c') \<Rightarrow> (Some (wrap (''qmp: send '' @ command) e), c')
      | (None, c') \<Rightarrow>
          (case qmp_decode c' of
             (Inl e, c'') \<Rightarrow> (Some (wrap ''qmp: read response'' e), c'')
           | (Inr resp, c'') \<Rightarrow> (map_option qmp_error (qr_Error resp), c'')))"

definition qmp_Close :: "QMPClient \<Rightarrow> QMPClient" where
  "qmp_Close c = c\<lparr>qc_closed := True\<rparr>"

text \<open>
  \<^verbatim>\<open>dial\<close> answers \<^verbatim>\<open>net.DialTimeout\<close> with a fresh connection. The second component of the
  result is the connection as it is left behind when one was opened.
\<close>

definition NewQMPClient :: "(string \<Rightarrow> QMPClient res) \<Rightarrow> string \<Rightarrow> goerr option \<times> QMPClient option" where
  "NewQMPClient dial socketPath =
     (case dial socketPath of
        Inl e \<Rightarrow> (Some (wrap (''qmp: dial '' @ socketPath) e), None)
      | Inr c \<Rightarrow>
          (case qmp_decode c of
             (Inl e, c') \<Rightarrow> (Some (wrap ''qmp: read greeting'' e), Some (qmp_Close c'))
           | (Inr _, c') \<Rightarrow>
               (case qmp_execute ''qmp_capabilities'' c' of
                  (Some e, c'') \<Rightarrow> (Some (wrap ''qmp: negotiate capabilities'' e), Some (qmp_Close c''))
                | (None, c'') \<Rightarrow> (None, Some c''))))"

definition SystemPowerdown :: "QMPClient \<Rightarrow> goerr option \<times> QMPClient" where
  "SystemPowerdown c = qmp_execute ''system_powerdown'' c"

text \<open>\<^verbatim>\<open>QueryStatus\<close>; \<open>unmarshal\<close> is \<^verbatim>\<open>json.Unmarshal\<close> into the status and running fields.\<close>

definition QueryStatus ::
  "(string \<Rightarrow> (string \<times> bool) res) \<Rightarrow> QMPClient \<Rightarrow> (string \<times> bool) res \<times> QMPClient" where
  "QueryStatus unmarshal c =
     (case qmp_encode ''query-status'' c of
        (Some e, c') \<Rightarrow> (Inl (wrap ''qmp: send query-status'' e), c')
      | (None, c') \<Rightarrow>
          (case qmp_decode c' of
             (Inl e, c'') \<Rightarrow> (Inl (wrap ''qmp: read response'' e), c'')
           | (Inr resp, c'') \<Rightarrow>
               (case qr_Error resp of
                  Some e \<Rightarrow> (Inl (qmp_error e), c'')
                | None \<Rightarrow>
                    (case unmarshal (qr_Return resp) of
                       Inl e \<Rightarrow> (Inl (wrap ''qmp: parse status'' e), c'')
                     | Inr st \<Rightarrow> (Inr st, c'')))))"

section \<open>Lemmas\<close>

subsection \<open>Allowed directories\<close>

lemma resolveQEMUBinary_Inr:
  "resolveQEMUBinary os pe = Inr p \<Longrightarrow> qemuAllowedDirs os \<noteq> [] \<Longrightarrow>
   \<exists>dir \<in> set (qemuAllowedDirs os). under_dir os (filepath_dir os pe p) dir"
  by (auto simp: resolveQEMUBinary_def Let_def split: sum.splits if_splits)

text \<open>
  A clean absolute path is a rooted one whose elements are neither empty nor \<^verbatim>\<open>.\<close> nor \<^verbatim>\<open>..\<close>;
  \<^verbatim>\<open>filepath.Abs\<close> returns such paths.
\<close>

definition plain_elem :: "string \<Rightarrow> bool" where
  "plain_elem e \<longleftrightarrow> e \<noteq> [] \<and> e \<noteq> ''.'' \<and> e \<noteq> ''..'' \<and> CHR ''/'' \<notin> set e"

definition abs_path :: "string list \<Rightarrow> string" where
  "abs_path es = ''/'' @ join ''/'' es"

lemma clean_fold: "list_all plain_elem es \<Longrightarrow> foldl (clean_step b) out es = out @ es"
  by (induction es arbitrary: out) (simp_all add: clean_step_def plain_elem_def)

lemma join_snoc: "es \<noteq> [] \<Longrightarrow> join sep (es @ [b]) = join sep es @ sep @ b"
  by (induction es rule: list_nonempty_induct) (simp_all add: join_Cons)

lemma dropWhile_tail: "c \<notin> set b \<Longrightarrow> dropWhile (\<lambda>x. x \<noteq> c) (rev b @ c # r) = c # r"
  by (subst dropWhile_append2) auto

lemma path_dir_abs:
  assumes "list_all plain_elem (es @ [b])"
  shows "path_dir (abs_path (es @ [b])) = abs_path es"
proof -
  have b: "CHR ''/'' \<notin> set b" using assms by (simp add: plain_elem_def)
  have es: "\<forall>l \<in> set es. CHR ''/'' \<notin> set l" using assms by (auto simp: plain_elem_def list_all_iff)
  show ?thesis
  proof (cases "es = []")
    case True
    with b dropWhile_tail [OF b, of "[]"] show ?thesis
      by (simp add: path_dir_def abs_path_def path_clean_def Let_def clean_step_def)
  next
    case False
    have "rev (dropWhile (\<lambda>c. c \<noteq> CHR ''/'') (rev (abs_path (es @ [b])))) = ''/'' @ join ''/'' es @ ''/''"
      using False dropWhile_tail [OF b, of "rev (CHR ''/'' # join ''/'' es)"]
      by (simp add: abs_path_def join_snoc)
    moreover have "split_on (CHR ''/'') (''/'' @ join ''/'' es @ ''/'') = [[]] @ es @ [[]]"
    proof -
      have "''/'' @ join ''/'' es @ ''/'' = join [CHR ''/''] ([[]] @ es @ [[]])"
        using False by (simp add: join_Cons join_snoc)
      then show ?thesis using split_on_join [of "[[]] @ es @ [[]]" "CHR ''/''"] es by auto
    qed
    moreover have "foldl (clean_step True) [] ([[]] @ es @ [[]]) = es"
      using assms clean_fold [of es True "[]"] by (simp add: clean_step_def)
    ultimately show ?thesis by (simp add: path_dir_def path_clean_def abs_path_def Let_def)
  qed
qed

lemma abs_path_no_dotdot: "list_all plain_elem es \<Longrightarrow> ''..'' \<notin> set (split_on (CHR ''/'') (abs_path es))"
proof (cases "es = []")
  case False
  assume p: "list_all plain_elem es"
  have "abs_path es = join [CHR ''/''] ([] # es)" using False by (simp add: abs_path_def join_Cons)
  moreover have "\<forall>l \<in> set ([] # es). CHR ''/'' \<notin> set l" using p by (auto simp: plain_elem_def list_all_iff)
  ultimately have "split_on (CHR ''/'') (abs_path es) = [] # es" using split_on_join by fastforce
  with p show ?thesis by (auto simp: plain_elem_def list_all_iff)
qed (simp add: abs_path_def)

section \<open>Properties\<close>

text \<open>
  Where a list of directories is known for the system and paths are Unix paths, the QEMU
  binary that \<^verbatim>\<open>resolveQEMUBinary\<close> accepts lies inside one of these directories, with no
  \<^verbatim>\<open>..\<close> in its path. The hypothesis states what \<^verbatim>\<open>filepath.Abs\<close> documents: its result is
  absolute and clean.
\<close>

theorem resolveQEMUBinary_confined:
  assumes "resolveQEMUBinary os pe = Inr p" "os = Linux \<or> os = Darwin"
    "\<And>x q. pe_Abs pe x = Inr q \<Longrightarrow> \<exists>es. q = abs_path es \<and> list_all plain_elem es"
  shows "\<exists>dir \<in> set (qemuAllowedDirs os). has_prefix p (dir @ ''/'') \<and> ''..'' \<notin> set (split_on (CHR ''/'') p)"
proof -
  have u: "\<exists>dir \<in> set (qemuAllowedDirs os). under_dir os (path_dir p) dir"
    using resolveQEMUBinary_Inr [OF assms(1)] assms(2) by (auto simp: filepath_dir_def qemuAllowedDirs_def)
  obtain x where "pe_Abs pe x = Inr p"
    using assms(1) by (auto simp: resolveQEMUBinary_def Let_def split: sum.splits if_splits)
  then obtain es where es: "p = abs_path es" "list_all plain_elem es" using assms(3) by blast
  show ?thesis
  proof (cases "es = [] \<or> butlast es = []")
    case True
    have "path_dir p = ''/''"
    proof (cases "es = []")
      case True
      then show ?thesis by (simp add: es(1) abs_path_def path_dir_def path_clean_def clean_step_def)
    next
      case False
      with True have "es = [] @ [last es]" by (metis append_butlast_last_id)
      with es path_dir_abs [of "[]" "last es"] show ?thesis by (metis abs_path_def append_Nil2 join.simps(1))
    qed
    with u assms(2) show ?thesis by (auto simp: under_dir_def qemuAllowedDirs_def path_sep_def)
  next
    case False
    then have d: "path_dir p = abs_path (butlast es)" and p: "p = path_dir p @ ''/'' @ last es"
      using es path_dir_abs [of "butlast es" "last es"] join_snoc [of "butlast es" "''/''" "last es"]
      by (simp_all add: abs_path_def)
    from u obtain dir where "dir \<in> set (qemuAllowedDirs os)" "path_dir p = dir \<or> has_prefix (path_dir p) (dir @ ''/'')"
      using assms(2) by (auto simp: under_dir_def path_sep_def)
    then have "dir \<in> set (qemuAllowedDirs os)" "has_prefix p (dir @ ''/'')"
      using p by (auto simp: has_prefix_iff)
    with abs_path_no_dotdot [OF es(2)] es(1) show ?thesis by blast
  qed
qed

definition sample_paths :: path_env where
  "sample_paths = \<lparr>pe_LookPath = (\<lambda>f. Inr (''/usr/bin/'' @ f)), pe_EvalSymlinks = (\<lambda>p. Inr p),
     pe_Abs = (\<lambda>_. Inr (abs_path [''usr'', ''bin'', ''qemu-system-x86_64''])), pe_Dir = path_dir\<rparr>"

lemma sample_plain: "list_all plain_elem ([''usr'', ''bin''] @ [''qemu-system-x86_64''])"
  by (simp add: plain_elem_def)

lemma sample_resolves: "resolveQEMUBinary Linux sample_paths = Inr ''/usr/bin/qemu-system-x86_64''"
  using path_dir_abs [OF sample_plain]
  by (simp add: resolveQEMUBinary_def sample_paths_def Let_def filepath_dir_def qemuAllowedDirs_def under_dir_def abs_path_def)

theorem resolveQEMUBinary_confined_witness:
  "resolveQEMUBinary Linux sample_paths = Inr ''/usr/bin/qemu-system-x86_64''
   \<and> (\<exists>dir \<in> set (qemuAllowedDirs Linux). has_prefix ''/usr/bin/qemu-system-x86_64'' (dir @ ''/'')
        \<and> ''..'' \<notin> set (split_on (CHR ''/'') ''/usr/bin/qemu-system-x86_64''))"
proof -
  note r = sample_resolves
  have "\<exists>es. q = abs_path es \<and> list_all plain_elem es" if "pe_Abs sample_paths x = Inr q" for x q
    using that sample_plain by (auto simp: sample_paths_def)
  with resolveQEMUBinary_confined [OF r] r show ?thesis by blast
qed

subsection \<open>Debugfs requests\<close>

lemma alnum_graphic: "is_alnum c \<Longrightarrow> graphic c \<and> c \<noteq> DQ"
  by (auto simp: is_lower_def is_upper_def is_digit_def graphic_def DQ_def)

lemma safe_host_graphic: "safe_host_char c \<Longrightarrow> graphic c \<and> c \<noteq> DQ"
  using alnum_graphic [of c] by (auto simp: safe_host_char_def graphic_Char DQ_def)

lemma guest_graphic: "guest_char c \<Longrightarrow> graphic c \<and> c \<noteq> DQ"
  using alnum_graphic [of c] by (auto simp: guest_char_def graphic_Char DQ_def)

lemma graphic_clean: "\<forall>c \<in> set s. graphic c \<Longrightarrow> clean s"
  by (auto simp: clean_def graphic_def NL_def CR_def)

lemma validateGuestPath_ok:
  assumes "validateGuestPath p = None"
  shows "p \<noteq> []" "\<not> contains_str p ''..''" "\<forall>c \<in> set p. graphic c \<and> c \<noteq> DQ"
proof -
  from assms show n: "p \<noteq> []" "\<not> contains_str p ''..''" by (auto simp: validateGuestPath_def)
  from assms have "guestPathRe p" by (simp add: validateGuestPath_def)
  then show "\<forall>c \<in> set p. graphic c \<and> c \<noteq> DQ"
    using guest_graphic alnum_graphic by (cases p) (auto simp: list_all_iff)
qed

lemma debugfs_request_fields:
  assumes "validateGuestPath g = None" "safeHostPathRe tmp"
  shows "str_fields (debugfs_request tmp g) = [''write'', DQ # tmp @ [DQ], g]"
    "clean (debugfs_request tmp g)" "DQ \<notin> set tmp" "DQ \<notin> set g"
proof -
  have t: "\<forall>c \<in> set tmp. graphic c \<and> c \<noteq> DQ"
    using assms(2) safe_host_graphic by (auto simp: safeHostPathRe_def list_all_iff)
  note g = validateGuestPath_ok [OF assms(1)]
  have "debugfs_request tmp g = join '' '' [''write'', DQ # tmp @ [DQ], g]" by (simp add: debugfs_request_def)
  moreover have "\<forall>w \<in> set [''write'', DQ # tmp @ [DQ], g]. w \<noteq> [] \<and> (\<forall>c \<in> set w. graphic c)"
    using t g by (auto simp: graphic_Char DQ_def)
  ultimately show "str_fields (debugfs_request tmp g) = [''write'', DQ # tmp @ [DQ], g]"
    by (simp only: str_fields_join)
  show "clean (debugfs_request tmp g)"
    using t g graphic_clean [of tmp] graphic_clean [of g] by (auto simp: debugfs_request_def NL_def CR_def DQ_def)
  show "DQ \<notin> set tmp" "DQ \<notin> set g" using t g by auto
qed

lemma WriteStateDiskFile_cases:
  assumes "WriteStateDiskFile de disk g content = (r, fx)"
  obtains (early) e where "r = Some e" "fx = []"
  | (unwritten) e tmp where "r = Some e" "fx = [TempCreated tmp, TempRemoved tmp]"
  | (unsafe) e tmp where "r = Some e" "fx = [TempCreated tmp, TempWritten tmp content, TempRemoved tmp]"
  | (run) tmp d where "validateGuestPath g = None" "sd_Abs de disk = Inr d" "safeHostPathRe tmp" "safeHostPathRe d"
      "fx = [TempCreated tmp, TempWritten tmp content,
             Command ''debugfs'' [''-w'', ''-R'', debugfs_request tmp g, d], TempRemoved tmp]"
      "r = None \<longleftrightarrow> snd (sd_run de ''debugfs'' [''-w'', ''-R'', debugfs_request tmp g, d]) = None"
  using assms
  by (auto simp: WriteStateDiskFile_def write_with_debugfs_def Let_def
           split: option.splits sum.splits if_splits prod.splits)

text \<open>
  C23. \<^verbatim>\<open>WriteStateDiskFile\<close> runs at most one command, debugfs, and debugfs can only be asked
  to write the temporary file with the given content to the given path: the request is one line
  of exactly three words, the quoted name of that temporary file being the second and the guest
  path the third, no quote occurs inside either, and the guest path has no \<^verbatim>\<open>..\<close>. It returns
  \<^verbatim>\<open>nil\<close> only if the command ran and succeeded, and a temporary file it created is always
  removed at the end.
\<close>

theorem WriteStateDiskFile_confined:
  assumes "WriteStateDiskFile de disk g content = (r, fx)"
  shows "(\<forall>n args. Command n args \<in> set fx \<longrightarrow>
            (\<exists>tmp d req. n = ''debugfs'' \<and> args = [''-w'', ''-R'', req, d] \<and> sd_Abs de disk = Inr d
               \<and> str_fields req = [''write'', DQ # tmp @ [DQ], g] \<and> clean req \<and> DQ \<notin> set tmp \<and> DQ \<notin> set g
               \<and> \<not> contains_str g ''..''
               \<and> fx = [TempCreated tmp, TempWritten tmp content, Command n args, TempRemoved tmp]))
    \<and> (r = None \<longrightarrow> (\<exists>args. Command ''debugfs'' args \<in> set fx \<and> snd (sd_run de ''debugfs'' args) = None))
    \<and> (\<forall>tmp. TempCreated tmp \<in> set fx \<longrightarrow> last fx = TempRemoved tmp)"
  using assms
proof (cases rule: WriteStateDiskFile_cases)
  case (run tmp d)
  note q = debugfs_request_fields [OF run(1,3)]
  have "\<exists>tmp' d' req. n = ''debugfs'' \<and> args = [''-w'', ''-R'', req, d'] \<and> sd_Abs de disk = Inr d'
               \<and> str_fields req = [''write'', DQ # tmp' @ [DQ], g] \<and> clean req \<and> DQ \<notin> set tmp' \<and> DQ \<notin> set g
               \<and> \<not> contains_str g ''..''
               \<and> fx = [TempCreated tmp', TempWritten tmp' content, Command n args, TempRemoved tmp']"
    if "Command n args \<in> set fx" for n args
    using that q run(2,5) validateGuestPath_ok(2) [OF run(1)] by auto
  with run(5,6) show ?thesis by auto
qed auto

definition sample_disk :: disk_env where
  "sample_disk = \<lparr>sd_Abs = (\<lambda>p. Inr (''/srv/'' @ p)), sd_stat = (\<lambda>_. Inr True), sd_TempDir = ''/tmp'',
     sd_CreateTemp = (\<lambda>_ _. Inr ''/srv/torvm-overlay-1''), sd_WriteString = (\<lambda>_ _. None),
     sd_run = (\<lambda>_ _. ([], None)), sd_Dir = (\<lambda>_. ''/srv'')\<rparr>"

theorem WriteStateDiskFile_confined_witness:
  "WriteStateDiskFile sample_disk ''state.img'' ''torrc.override'' ''UseBridges 1'' =
     (None, [TempCreated ''/srv/torvm-overlay-1'', TempWritten ''/srv/torvm-overlay-1'' ''UseBridges 1'',
        Command ''debugfs'' [''-w'', ''-R'', debugfs_request ''/srv/torvm-overlay-1'' ''torrc.override'', ''/srv/state.img''],
        TempRemoved ''/srv/torvm-overlay-1''])
   \<and> str_fields (debugfs_request ''/srv/torvm-overlay-1'' ''torrc.override'')
     = [''write'', DQ # ''/srv/torvm-overlay-1'' @ [DQ], ''torrc.override'']"
proof -
  have w: "WriteStateDiskFile sample_disk ''state.img'' ''torrc.override'' ''UseBridges 1'' =
     (None, [TempCreated ''/srv/torvm-overlay-1'', TempWritten ''/srv/torvm-overlay-1'' ''UseBridges 1'',
        Command ''debugfs'' [''-w'', ''-R'', debugfs_request ''/srv/torvm-overlay-1'' ''torrc.override'', ''/srv/state.img''],
        TempRemoved ''/srv/torvm-overlay-1''])"
    by (simp add: WriteStateDiskFile_def sample_disk_def write_with_debugfs_def validateGuestPath_def safeHostPathRe_def
                  safe_host_char_def guest_char_def is_lower_def is_upper_def is_digit_def)
  from WriteStateDiskFile_confined [OF w] w show ?thesis by simp
qed

text \<open>
  A QMP session sends nothing before the greeting was read and negotiates first: after
  \<^verbatim>\<open>NewQMPClient\<close> the only command sent is \<^verbatim>\<open>qmp_capabilities\<close>, a failed negotiation closes
  the connection, and \<^verbatim>\<open>SystemPowerdown\<close> sends \<^verbatim>\<open>system_powerdown\<close> next. It reads exactly one
  message as the answer, whatever that message is: with an event of QEMU in front of the answer
  it reports success although the answer is an error that nobody reads.
\<close>

theorem qmp_session:
  assumes "dial p = Inr c" "qc_sent c = []" "\<not> qc_closed c"
  shows "(\<forall>e c'. NewQMPClient dial p = (Some e, Some c') \<longrightarrow> qc_closed c')
    \<and> (\<forall>c1. NewQMPClient dial p = (None, Some c1) \<longrightarrow>
         qc_sent c1 = [''qmp_capabilities''] \<and> \<not> qc_closed c1 \<and> qc_replies c1 = drop 2 (qc_replies c)
         \<and> (\<forall>c2. SystemPowerdown c1 = (None, c2) \<longrightarrow>
               qc_sent c2 = [''qmp_capabilities'', ''system_powerdown''] \<and> qc_replies c2 = drop 3 (qc_replies c))
         \<and> (\<forall>ev err rest. qc_replies c1 = Inr ev # Inr err # rest \<and> qr_Error ev = None \<and> qr_Error err \<noteq> None
              \<and> qc_write_errs c1 = [] \<longrightarrow> (\<exists>c2. SystemPowerdown c1 = (None, c2) \<and> qc_replies c2 = Inr err # rest)))"
  using assms
  by (auto simp: NewQMPClient_def SystemPowerdown_def qmp_execute_def qmp_encode_def qmp_decode_def qmp_Close_def
           split: prod.splits sum.splits option.splits list.splits)

definition sample_qmp :: QMPClient where
  "sample_qmp = \<lparr>qc_sent = [], qc_write_errs = [],
     qc_replies = [Inr \<lparr>qr_Return = '''', qr_Error = None\<rparr>, Inr \<lparr>qr_Return = ''{}'', qr_Error = None\<rparr>,
                   Inr \<lparr>qr_Return = '''', qr_Error = None\<rparr>,
                   Inr \<lparr>qr_Return = '''', qr_Error = Some \<lparr>qe_Class = ''GenericError'', qe_Desc = ''x''\<rparr>\<rparr>],
     qc_closed = False\<rparr>"

theorem qmp_session_witness:
  "\<exists>c1 c2. NewQMPClient (\<lambda>_. Inr sample_qmp) ''/run/qmp.sock'' = (None, Some c1)
     \<and> qc_sent c1 = [''qmp_capabilities''] \<and> SystemPowerdown c1 = (None, c2) \<and> length (qc_replies c2) = 1"
proof -
  obtain c1 where c1: "NewQMPClient (\<lambda>_. Inr sample_qmp) ''/run/qmp.sock'' = (None, Some c1)"
    by (simp add: NewQMPClient_def qmp_execute_def qmp_encode_def qmp_decode_def sample_qmp_def)
  then have r: "qc_write_errs c1 = []"
    by (auto simp: NewQMPClient_def qmp_execute_def qmp_encode_def qmp_decode_def sample_qmp_def)
  note s = qmp_session [of "\<lambda>_. Inr sample_qmp" "''/run/qmp.sock''" sample_qmp]
  from s c1 have "qc_sent c1 = [''qmp_capabilities'']" "qc_replies c1 = drop 2 (qc_replies sample_qmp)"
    by (simp_all add: sample_qmp_def)
  with s c1 r show ?thesis by (auto simp: sample_qmp_def)
qed

end
