(* ===== verification/Vm_Instance.thy ===== *)
theory Vm_Instance
  imports Vm_Host
begin

text \<open>
  \<^verbatim>\<open>vm/qemu.go\<close> and \<^verbatim>\<open>vm/browser.go\<close>: the two QEMU processes, with the goroutine that waits for
  each process and concurrent calls of \<^verbatim>\<open>Start\<close>, \<^verbatim>\<open>Stop\<close> and \<^verbatim>\<open>Wait\<close>.

  A step of the model is what the code does under one hold of the mutex, or one channel
  operation: \<^verbatim>\<open>Start\<close> holds the mutex throughout, so it is one step; \<^verbatim>\<open>Stop\<close> is a sequence of
  steps between which other calls run; the goroutine first learns of the exit, then clears
  \<^verbatim>\<open>running\<close>, then evaluates \<^verbatim>\<open>waitErr\<close>, then sends. The interface both instances offer
  is the locale \<open>vm_process\<close>, interpreted on both below.
\<close>

section \<open>State\<close>

datatype proc_status = Alive | Exited "goerr option"

text \<open>The goroutine started by \<^verbatim>\<open>Start\<close>: in \<^verbatim>\<open>Process.Wait\<close>, after it cleared \<^verbatim>\<open>running\<close>, at the
  send on the channel it evaluated, and returned.\<close>

datatype waiter = Waiting | Cleared "goerr option" | Sending nat "goerr option" | Finished

record qemu_proc =
  pr_path :: string
  pr_args :: "string list"
  pr_status :: proc_status
  pr_waiter :: waiter

text \<open>
  \<^verbatim>\<open>Instance\<close> and \<^verbatim>\<open>BrowserInstance\<close> have the same fields. Channels are numbered, \<open>in_waitErr\<close>
  is the number of the one in the field and \<open>in_chans\<close> the buffered values; the processes ever
  launched, the signals sent and the QMP sessions held are recorded with the instance.
\<close>

record Instance =
  in_QEMUPath :: string
  in_running :: bool
  in_process :: "nat option"
  in_waitErr :: nat
  in_chans :: "nat \<Rightarrow> goerr option list"
  in_procs :: "qemu_proc list"
  in_kills :: "nat list"
  in_qmp :: "QMPClient list"

record vm_env =
  ve_paths :: path_env
  ve_disk :: disk_env
  ve_stat :: "string \<Rightarrow> goerr option"
  ve_MkdirAll :: "string \<Rightarrow> nat \<Rightarrow> goerr option"
  ve_rnd :: randomness
  ve_spawn :: "string \<Rightarrow> string list \<Rightarrow> goerr option"

definition blank_instance :: Instance where
  "blank_instance = \<lparr>in_QEMUPath = [], in_running = False, in_process = None, in_waitErr = 0,
     in_chans = (\<lambda>_. []), in_procs = [], in_kills = [], in_qmp = []\<rparr>"

definition NewInstance :: "goos \<Rightarrow> path_env \<Rightarrow> Instance" where
  "NewInstance os pe =
     (case resolveQEMUBinary os pe of
        Inl _ \<Rightarrow> blank_instance
      | Inr qemuPath \<Rightarrow> blank_instance\<lparr>in_QEMUPath := qemuPath\<rparr>)"

definition NewBrowserInstance :: Instance where
  "NewBrowserInstance = blank_instance"

section \<open>Start\<close>

definition launch :: "string \<Rightarrow> string list \<Rightarrow> Instance \<Rightarrow> Instance" where
  "launch path args inst =
     inst\<lparr>in_running := True, in_process := Some (length (in_procs inst)),
          in_procs := in_procs inst @ [\<lparr>pr_path = path, pr_args = args, pr_status = Alive, pr_waiter = Waiting\<rparr>]\<rparr>"

text \<open>The non-blocking receive that drains \<^verbatim>\<open>waitErr\<close>.\<close>

definition drain :: "Instance \<Rightarrow> Instance" where
  "drain inst = inst\<lparr>in_chans := (in_chans inst)(in_waitErr inst := tl (in_chans inst (in_waitErr inst)))\<rparr>"

definition write_overlay :: "vm_env \<Rightarrow> Config \<Rightarrow> goerr option" where
  "write_overlay env cfg =
     (case TorrcOverlay cfg of
        Inl e \<Rightarrow> Some (wrap ''vm: torrc overlay'' e)
      | Inr overlay \<Rightarrow>
          (if overlay = [] then None
           else map_option (wrap ''vm: write torrc overlay'')
                  (fst (WriteStateDiskFile (ve_disk env) (StateDiskPath cfg) ''torrc.override'' overlay))))"

definition check_images :: "vm_env \<Rightarrow> string \<Rightarrow> string \<Rightarrow> (string \<times> string) list \<Rightarrow> goerr option" where
  "check_images env pre post ps =
     first_err (\<lambda>(name, path). map_option (wrap (pre @ name @ post)) (ve_stat env path)) ps"

definition Instance_Start :: "goos \<Rightarrow> Config \<Rightarrow> vm_env \<Rightarrow> Instance \<Rightarrow> (goerr option \<times> Instance) outcome" where
  "Instance_Start os cfg env inst =
     (if in_running inst then Ret (Some (ErrMsg ''vm: already running''), inst)
      else let inst = drain inst in
      case and_then (write_overlay env cfg)
          (and_then (check_images env ''vm: '' '' file not found''
                       [(''kernel'', KernelPath cfg), (''initrd'', InitrdPath cfg), (''state disk'', StateDiskPath cfg)])
             (if os \<noteq> Windows
              then map_option (wrap ''vm: create QMP socket dir'')
                     (ve_MkdirAll env (filepath_dir os (ve_paths env) (QMPSocketPath cfg)) 448)
              else None)) of
        Some e \<Rightarrow> Ret (Some e, inst)
      | None \<Rightarrow>
          (case BuildArgs os (ve_rnd env) cfg of
             Panic m \<Rightarrow> Panic m
           | Ret (Inl e) \<Rightarrow> Ret (Some (wrap ''vm: build args'' e), inst)
           | Ret (Inr args) \<Rightarrow>
               (if in_QEMUPath inst = [] then Ret (Some (ErrMsg ''vm: QEMU binary not resolved; cannot start''), inst)
                else case ve_spawn env (in_QEMUPath inst) args of
                  Some e \<Rightarrow> Ret (Some (wrap ''vm: start qemu'' e), inst)
                | None \<Rightarrow> Ret (None, launch (in_QEMUPath inst) args inst))))"

text \<open>The browser's \<^verbatim>\<open>Start\<close> resolves the binary each time and makes a new channel.\<close>

definition fresh_channel :: "Instance \<Rightarrow> Instance" where
  "fresh_channel b = b\<lparr>in_waitErr := Suc (in_waitErr b), in_chans := (in_chans b)(Suc (in_waitErr b) := [])\<rparr>"

definition Browser_Start :: "goos \<Rightarrow> Config \<Rightarrow> vm_env \<Rightarrow> Instance \<Rightarrow> (goerr option \<times> Instance) outcome" where
  "Browser_Start os cfg env b =
     (if in_running b then Ret (Some (ErrMsg ''browser VM already running''), b)
      else let bcfg = Browser cfg in
      case check_images env '''' '' not found''
             [(''BrowserKernel'', bw_KernelPath bcfg), (''BrowserInitrd'', bw_InitrdPath bcfg),
              (''BrowserStateDisk'', bw_StateDiskPath bcfg)] of
        Some e \<Rightarrow> Ret (Some e, b)
      | None \<Rightarrow>
          (case resolveQEMUBinary os (ve_paths env) of
             Inl e \<Rightarrow> Ret (Some e, b)
           | Inr qemuPath \<Rightarrow>
               (let b = b\<lparr>in_QEMUPath := qemuPath\<rparr> in
                case BuildBrowserArgs os (ve_rnd env) cfg of
                  Panic m \<Rightarrow> Panic m
                | Ret (Inl e) \<Rightarrow> Ret (Some (wrap ''build browser QEMU args'' e), b)
                | Ret (Inr args) \<Rightarrow>
                    (case ve_MkdirAll env (filepath_dir os (ve_paths env) (bw_QMPSocketPath bcfg)) 448 of
                       Some e \<Rightarrow> Ret (Some (wrap ''create QMP socket dir'' e), b)
                     | None \<Rightarrow>
                         (case ve_spawn env qemuPath args of
                            Some e \<Rightarrow> Ret (Some (wrap ''start browser QEMU'' e), b)
                          | None \<Rightarrow> Ret (None, fresh_channel (launch qemuPath args b)))))))"

section \<open>Stop, Wait and the waiting goroutine\<close>

text \<open>A call of \<^verbatim>\<open>Stop\<close>, by the place it has reached, with the process it captured and the channel
  its \<^verbatim>\<open>select\<close> evaluated; and what decides its next step.\<close>

datatype stop_pc = SCheck | SQmp "nat option" | SSelect "nat option" nat | SKill "nat option" | SDone "goerr option"
datatype stop_choice = Go | Dial "QMPClient res" | CtxDone goerr | Recv | Killed "goerr option"

text \<open>A QMP session that asks for a power down; \<open>None\<close> when no client could be made.\<close>

definition qmp_powerdown :: "QMPClient res \<Rightarrow> string \<Rightarrow> QMPClient option" where
  "qmp_powerdown conn path =
     (case NewQMPClient (\<lambda>_. conn) path of
        (None, Some c) \<Rightarrow> Some (qmp_Close (snd (SystemPowerdown c)))
      | _ \<Rightarrow> None)"

definition recv :: "nat \<Rightarrow> Instance \<Rightarrow> (goerr option \<times> Instance) option" where
  "recv ch inst =
     (case in_chans inst ch of
        [] \<Rightarrow> None
      | e # r \<Rightarrow> Some (e, inst\<lparr>in_chans := (in_chans inst)(ch := r)\<rparr>))"

fun Instance_Stop :: "Config \<Rightarrow> Instance \<Rightarrow> stop_pc \<Rightarrow> stop_choice \<Rightarrow> (Instance \<times> stop_pc) option" where
  "Instance_Stop cfg inst SCheck Go =
     Some (inst, if \<not> in_running inst then SDone None else SQmp (in_process inst))"
| "Instance_Stop cfg inst (SQmp proc) (Dial conn) =
     (case qmp_powerdown conn (QMPSocketPath cfg) of
        Some c \<Rightarrow> Some (inst\<lparr>in_qmp := in_qmp inst @ [c]\<rparr>, SSelect proc (in_waitErr inst))
      | None \<Rightarrow> Some (inst, SKill proc))"
| "Instance_Stop cfg inst (SSelect proc ch) (CtxDone _) = Some (inst, SKill proc)"
| "Instance_Stop cfg inst (SSelect proc ch) Recv = map_option (\<lambda>(e, inst'). (inst', SDone e)) (recv ch inst)"
| "Instance_Stop cfg inst (SKill proc) (Killed r) =
     (case proc of
        Some p \<Rightarrow> if in_running inst then Some (inst\<lparr>in_kills := in_kills inst @ [p]\<rparr>, SDone r)
                  else Some (inst, SDone None)
      | None \<Rightarrow> Some (inst, SDone None))"
| "Instance_Stop cfg inst pc ch = None"

fun Browser_Stop :: "Config \<Rightarrow> Instance \<Rightarrow> stop_pc \<Rightarrow> stop_choice \<Rightarrow> (Instance \<times> stop_pc) option" where
  "Browser_Stop cfg b SCheck Go = Some (b, if \<not> in_running b then SDone None else SQmp None)"
| "Browser_Stop cfg b (SQmp _) (Dial conn) =
     (let b' = (case qmp_powerdown conn (bw_QMPSocketPath (Browser cfg)) of
                  Some c \<Rightarrow> b\<lparr>in_qmp := in_qmp b @ [c]\<rparr>
                | None \<Rightarrow> b)
      in Some (b', SSelect None (in_waitErr b)))"
| "Browser_Stop cfg b (SSelect _ ch) Recv = map_option (\<lambda>(e, b'). (b', SDone None)) (recv ch b)"
| "Browser_Stop cfg b (SSelect _ ch) (CtxDone e) =
     Some (case in_process b of
             Some p \<Rightarrow> b\<lparr>in_kills := in_kills b @ [p]\<rparr>
           | None \<Rightarrow> b, SDone (Some e))"
| "Browser_Stop cfg b pc ch = None"

definition IsRunning :: "Instance \<Rightarrow> bool" where
  "IsRunning inst = in_running inst"

text \<open>\<^verbatim>\<open>Wait\<close>: what the \<^verbatim>\<open>select\<close> can give, with \<open>done\<close> the error of a context that has ended. The
  choice is \<^verbatim>\<open>select\<close>'s when both are ready.\<close>

definition Wait :: "goerr option \<Rightarrow> bool \<Rightarrow> Instance \<Rightarrow> (goerr option \<times> Instance) option" where
  "Wait done prefer inst =
     (case (recv (in_waitErr inst) inst, done) of
        (None, None) \<Rightarrow> None
      | (Some r, None) \<Rightarrow> Some r
      | (None, Some e) \<Rightarrow> Some (Some e, inst)
      | (Some r, Some e) \<Rightarrow> Some (if prefer then r else (Some e, inst)))"

definition set_proc :: "nat \<Rightarrow> (qemu_proc \<Rightarrow> qemu_proc) \<Rightarrow> Instance \<Rightarrow> Instance" where
  "set_proc k f inst = inst\<lparr>in_procs := (in_procs inst)[k := f (in_procs inst ! k)]\<rparr>"

text \<open>One step of the goroutine that waits for process \<open>k\<close>; \<open>None\<close> while it is blocked.\<close>

definition waiter_step :: "nat \<Rightarrow> Instance \<Rightarrow> Instance option" where
  "waiter_step k inst =
     (if k \<ge> length (in_procs inst) then None
      else let p = in_procs inst ! k in
        case pr_waiter p of
          Waiting \<Rightarrow>
            (case pr_status p of
               Alive \<Rightarrow> None
             | Exited e \<Rightarrow> Some (set_proc k (\<lambda>p. p\<lparr>pr_waiter := Cleared e\<rparr>) (inst\<lparr>in_running := False\<rparr>)))
        | Cleared e \<Rightarrow> Some (set_proc k (\<lambda>p. p\<lparr>pr_waiter := Sending (in_waitErr inst) e\<rparr>) inst)
        | Sending ch e \<Rightarrow>
            (if length (in_chans inst ch) < 1
             then Some (set_proc k (\<lambda>p. p\<lparr>pr_waiter := Finished\<rparr>)
                         (inst\<lparr>in_chans := (in_chans inst)(ch := in_chans inst ch @ [e])\<rparr>))
             else None)
        | Finished \<Rightarrow> None)"

section \<open>Interleavings\<close>

type_synonym start_fun = "vm_env \<Rightarrow> Instance \<Rightarrow> (goerr option \<times> Instance) outcome"
type_synonym stop_fun = "Instance \<Rightarrow> stop_pc \<Rightarrow> stop_choice \<Rightarrow> (Instance \<times> stop_pc) option"

text \<open>
  The steps of an instance in use: calls of \<^verbatim>\<open>Start\<close> that return (the failing ones too), new and
  advancing calls of \<^verbatim>\<open>Stop\<close>, returning calls of \<^verbatim>\<open>Wait\<close>, the exit of a process, and the
  goroutines. The state is the instance and the calls of \<^verbatim>\<open>Stop\<close> made so far.
\<close>

inductive vm_step :: "start_fun \<Rightarrow> stop_fun \<Rightarrow> Instance \<times> stop_pc list \<Rightarrow> Instance \<times> stop_pc list \<Rightarrow> bool"
  for start :: start_fun and stop :: stop_fun where
  call_start: "start env i = Ret (r, i') \<Longrightarrow> vm_step start stop (i, ss) (i', ss)"
| call_stop: "vm_step start stop (i, ss) (i, ss @ [SCheck])"
| in_stop: "k < length ss \<Longrightarrow> stop i (ss ! k) ch = Some (i', pc) \<Longrightarrow> vm_step start stop (i, ss) (i', ss[k := pc])"
| call_wait: "Wait done prefer i = Some (r, i') \<Longrightarrow> vm_step start stop (i, ss) (i', ss)"
| exits: "k < length (in_procs i) \<Longrightarrow> pr_status (in_procs i ! k) = Alive \<Longrightarrow>
    vm_step start stop (i, ss) (set_proc k (\<lambda>p. p\<lparr>pr_status := Exited e\<rparr>) i, ss)"
| waits: "waiter_step k i = Some i' \<Longrightarrow> vm_step start stop (i, ss) (i', ss)"

inductive vm_reach :: "start_fun \<Rightarrow> stop_fun \<Rightarrow> Instance \<Rightarrow> Instance \<times> stop_pc list \<Rightarrow> bool"
  for start :: start_fun and stop :: stop_fun and i0 :: Instance where
  init: "vm_reach start stop i0 (i0, [])"
| step: "vm_reach start stop i0 w \<Longrightarrow> vm_step start stop w w' \<Longrightarrow> vm_reach start stop i0 w'"

section \<open>The interface and its consequences\<close>

text \<open>
  The invariant: a process that is waited for is the latest one, and there is one exactly while
  \<^verbatim>\<open>running\<close> is set; a process that is no longer waited for has exited; the field points to the
  latest process; no channel holds more than one value; only launched processes are signalled.
\<close>

definition settled :: "qemu_proc \<Rightarrow> bool" where
  "settled p \<longleftrightarrow> pr_waiter p \<noteq> Waiting \<and> pr_status p \<noteq> Alive"

definition procs_inv :: "bool \<Rightarrow> qemu_proc list \<Rightarrow> bool" where
  "procs_inv running ps \<longleftrightarrow>
     (if running then ps \<noteq> [] \<and> list_all settled (butlast ps) \<and> pr_waiter (last ps) = Waiting
      else list_all settled ps)"

definition vm_inv :: "Instance \<Rightarrow> bool" where
  "vm_inv i \<longleftrightarrow> procs_inv (in_running i) (in_procs i)
     \<and> in_process i = (if in_procs i = [] then None else Some (length (in_procs i) - 1))
     \<and> (\<forall>ch. length (in_chans i ch) \<le> 1)"

text \<open>What an operation that is not \<^verbatim>\<open>Start\<close> leaves alone.\<close>

definition same_procs :: "Instance \<Rightarrow> Instance \<Rightarrow> bool" where
  "same_procs i i' \<longleftrightarrow> in_procs i' = in_procs i \<and> in_running i' = in_running i \<and> in_process i' = in_process i
     \<and> (\<forall>ch. length (in_chans i' ch) \<le> length (in_chans i ch))"

definition launched :: "Instance \<Rightarrow> Instance \<Rightarrow> bool" where
  "launched i i' \<longleftrightarrow> in_running i' \<and> in_process i' = Some (length (in_procs i))
     \<and> (\<exists>p. in_procs i' = in_procs i @ [p] \<and> pr_status p = Alive \<and> pr_waiter p = Waiting)
     \<and> (\<forall>ch. length (in_chans i' ch) \<le> length (in_chans i ch))
     \<and> in_chans i' (in_waitErr i') = []"

lemma procs_inv_snoc: "procs_inv False ps \<Longrightarrow> pr_waiter p = Waiting \<Longrightarrow> procs_inv True (ps @ [p])"
  by (simp add: procs_inv_def)

lemma settled_update: "list_all settled ps \<Longrightarrow> settled p \<Longrightarrow> list_all settled (ps[k := p])"
  by (auto simp: list_all_iff dest: set_update_subset_insert [THEN subsetD])

text \<open>A change of one process: a settled one stays settled, the latest one may become settled.\<close>

lemma procs_inv_True: "procs_inv True ps \<longleftrightarrow> (\<exists>qs q. ps = qs @ [q] \<and> list_all settled qs \<and> pr_waiter q = Waiting)"
  by (cases ps rule: rev_cases) (auto simp: procs_inv_def)

lemma procs_inv_nth:
  assumes "procs_inv r ps" "k < length ps"
  shows "settled (ps ! k) \<or> r \<and> Suc k = length ps \<and> pr_waiter (ps ! k) = Waiting"
proof (cases r)
  case True
  with assms obtain qs q where "ps = qs @ [q]" "list_all settled qs" "pr_waiter q = Waiting"
    by (auto simp: procs_inv_True)
  with True assms(2) show ?thesis by (cases "k = length qs") (auto simp: nth_append list_all_length)
next
  case False
  with assms show ?thesis by (simp add: procs_inv_def list_all_length)
qed

lemma procs_inv_settled:
  assumes "procs_inv r ps" "k < length ps" "settled (ps ! k)" "settled p"
  shows "procs_inv r (ps[k := p])"
proof (cases r)
  case True
  with assms obtain qs q where qs: "ps = qs @ [q]" "list_all settled qs" "pr_waiter q = Waiting"
    by (auto simp: procs_inv_True)
  with assms have "k < length qs" by (cases "k = length qs") (auto simp: settled_def)
  with qs True settled_update [OF qs(2) assms(4)] show ?thesis by (simp add: procs_inv_True list_update_append)
next
  case False
  with assms show ?thesis by (simp add: procs_inv_def settled_update)
qed

lemma procs_inv_last:
  assumes "procs_inv True ps" "Suc k = length ps"
  shows "pr_waiter p = Waiting \<Longrightarrow> procs_inv True (ps[k := p])" "settled p \<Longrightarrow> procs_inv False (ps[k := p])"
  using assms by (auto simp: procs_inv_True procs_inv_def [of False])

lemma procs_inv_exit:
  assumes "procs_inv r ps" "k < length ps"
  shows "procs_inv r (ps[k := (ps ! k)\<lparr>pr_status := Exited e\<rparr>])"
  using procs_inv_nth [OF assms]
proof
  assume "settled (ps ! k)"
  then show ?thesis by (intro procs_inv_settled [OF assms]) (simp_all add: settled_def)
next
  assume "r \<and> Suc k = length ps \<and> pr_waiter (ps ! k) = Waiting"
  with assms(1) procs_inv_last(1) [of ps k "(ps ! k)\<lparr>pr_status := Exited e\<rparr>"] show ?thesis by simp
qed

lemma procs_inv_waiter:
  assumes "procs_inv r ps" "k < length ps" "w \<noteq> Waiting" "pr_status (ps ! k) \<noteq> Alive \<or> pr_waiter (ps ! k) \<noteq> Waiting"
  shows "procs_inv (if pr_waiter (ps ! k) = Waiting then False else r) (ps[k := (ps ! k)\<lparr>pr_waiter := w\<rparr>])"
  using procs_inv_nth [OF assms(1,2)]
proof
  assume s: "settled (ps ! k)"
  then have "procs_inv r (ps[k := (ps ! k)\<lparr>pr_waiter := w\<rparr>])"
    by (intro procs_inv_settled [OF assms(1,2)]) (simp_all add: settled_def assms(3))
  with s show ?thesis by (simp add: settled_def)
next
  assume "r \<and> Suc k = length ps \<and> pr_waiter (ps ! k) = Waiting"
  with assms procs_inv_last(2) [of ps k "(ps ! k)\<lparr>pr_waiter := w\<rparr>"] show ?thesis by (simp add: settled_def)
qed

lemma set_proc_sel [simp]:
  "in_running (set_proc k f i) = in_running i" "in_process (set_proc k f i) = in_process i"
  "in_chans (set_proc k f i) = in_chans i" "in_kills (set_proc k f i) = in_kills i"
  "in_procs (set_proc k f i) = (in_procs i)[k := f (in_procs i ! k)]" "in_waitErr (set_proc k f i) = in_waitErr i"
  by (simp_all add: set_proc_def)

lemma vm_inv_exits: "vm_inv i \<Longrightarrow> k < length (in_procs i) \<Longrightarrow> vm_inv (set_proc k (\<lambda>p. p\<lparr>pr_status := Exited e\<rparr>) i)"
  by (auto simp: vm_inv_def procs_inv_exit)

lemma vm_inv_waiter:
  assumes "vm_inv i" "waiter_step k i = Some i'"
  shows "vm_inv i'"
proof -
  let ?p = "in_procs i ! k"
  have k: "k < length (in_procs i)" using assms(2) by (auto simp: waiter_step_def split: if_splits)
  note ok = assms(1) [unfolded vm_inv_def]
  have upd: "procs_inv (if pr_waiter ?p = Waiting then False else in_running i)
               ((in_procs i)[k := ?p\<lparr>pr_waiter := w\<rparr>])"
    if "w \<noteq> Waiting" "pr_status ?p \<noteq> Alive \<or> pr_waiter ?p \<noteq> Waiting" for w
    using procs_inv_waiter [of "in_running i" "in_procs i" k w] ok k that by auto
  show ?thesis
  proof (cases "pr_waiter ?p")
    case Waiting
    with assms(2) k obtain e where "pr_status ?p = Exited e"
      "i' = set_proc k (\<lambda>p. p\<lparr>pr_waiter := Cleared e\<rparr>) (i\<lparr>in_running := False\<rparr>)"
      by (auto simp: waiter_step_def Let_def split: proc_status.splits)
    with ok upd [of "Cleared e"] Waiting show ?thesis by (auto simp: vm_inv_def)
  next
    case (Cleared e)
    with assms(2) k ok upd show ?thesis by (auto simp: vm_inv_def waiter_step_def Let_def)
  next
    case (Sending ch e)
    with assms(2) k have "in_chans i ch = []"
      "i' = set_proc k (\<lambda>p. p\<lparr>pr_waiter := Finished\<rparr>) (i\<lparr>in_chans := (in_chans i)(ch := [e])\<rparr>)"
      by (auto simp: waiter_step_def Let_def split: if_splits)
    with ok upd [of Finished] Sending show ?thesis by (auto simp: vm_inv_def)
  next
    case Finished
    with assms(2) k show ?thesis by (simp add: waiter_step_def Let_def)
  qed
qed

lemma vm_inv_same: "vm_inv i \<Longrightarrow> same_procs i i' \<Longrightarrow> vm_inv i'"
  using order_trans by (fastforce simp: vm_inv_def same_procs_def)

lemma vm_inv_launched:
  assumes "vm_inv i" "\<not> in_running i" "launched i i'"
  shows "vm_inv i'"
proof -
  from assms(3) obtain p where p: "in_procs i' = in_procs i @ [p]" "pr_waiter p = Waiting"
    by (auto simp: launched_def)
  have "procs_inv True (in_procs i')" using assms p by (simp add: vm_inv_def procs_inv_snoc)
  moreover have "length (in_chans i' ch) \<le> 1" for ch
    using assms by (auto simp: vm_inv_def launched_def intro: order_trans)
  ultimately show ?thesis using assms(3) p by (auto simp: vm_inv_def launched_def)
qed

lemma recv_same: "recv ch i = Some (e, i') \<Longrightarrow> same_procs i i'"
  by (auto simp: recv_def same_procs_def split: list.splits)

lemma Wait_same: "Wait d pf i = Some (r, i') \<Longrightarrow> same_procs i i'"
  by (auto simp: Wait_def same_procs_def dest: recv_same split: option.splits if_splits)

definition alive :: "Instance \<Rightarrow> nat \<Rightarrow> bool" where
  "alive i k \<longleftrightarrow> k < length (in_procs i) \<and> pr_status (in_procs i ! k) = Alive"

lemma vm_inv_alive:
  assumes "vm_inv i" "alive i k"
  shows "in_running i \<and> Suc k = length (in_procs i) \<and> in_process i = Some k"
  using assms procs_inv_nth [of "in_running i" "in_procs i" k]
  by (auto simp: vm_inv_def alive_def settled_def)

text \<open>The promise to callers: in every reachable state at most one process is alive, \<^verbatim>\<open>IsRunning\<close> and
  the field tell of it, and \<^verbatim>\<open>Start\<close> only returns \<^verbatim>\<open>nil\<close> when none was, and then one is.\<close>

definition one_process :: "start_fun \<Rightarrow> stop_fun \<Rightarrow> Instance \<Rightarrow> bool" where
  "one_process start stop i0 \<longleftrightarrow>
     (\<forall>i ss. vm_reach start stop i0 (i, ss) \<longrightarrow>
        (\<forall>k l. alive i k \<and> alive i l \<longrightarrow> k = l)
        \<and> (\<forall>k. alive i k \<longrightarrow> IsRunning i \<and> in_process i = Some k)
        \<and> (\<forall>env i'. start env i = Ret (None, i') \<longrightarrow>
              (\<forall>k. \<not> alive i k) \<and> alive i' (length (in_procs i)) \<and> in_chans i' (in_waitErr i') = []))"

text \<open>
  What the engine and the browser manager rely on when they start and stop a VM, as laws of the
  operations: \<^verbatim>\<open>Start\<close> refuses while running, changes no process when it fails, and launches one
  process when it returns \<^verbatim>\<open>nil\<close>; \<^verbatim>\<open>Stop\<close> changes no process itself and returns \<^verbatim>\<open>nil\<close> at
  once when nothing runs.
\<close>

locale vm_process =
  fixes start :: start_fun and stop :: stop_fun and i0 :: Instance
  assumes start_refused: "in_running i \<Longrightarrow> \<exists>e. start env i = Ret (Some e, i)"
    and start_failed: "start env i = Ret (Some e, i') \<Longrightarrow> same_procs i i'"
    and start_launched: "vm_inv i \<Longrightarrow> start env i = Ret (None, i') \<Longrightarrow> launched i i'"
    and stop_same: "stop i pc ch = Some (i', pc') \<Longrightarrow> same_procs i i'"
    and stop_idle: "\<not> in_running i \<Longrightarrow> stop i SCheck Go = Some (i, SDone None)"
    and initial: "vm_inv i0"
begin

lemma start_not_running: "start env i = Ret (None, i') \<Longrightarrow> \<not> in_running i"
  using start_refused [of i env] by auto

lemma step_inv: "vm_step start stop w w' \<Longrightarrow> vm_inv (fst w) \<Longrightarrow> vm_inv (fst w')"
proof (induction rule: vm_step.induct)
  case (call_start env i r i' ss)
  then show ?case
    using start_failed [of env i _ i'] start_launched [of i env i'] start_not_running [of env i i']
    by (cases r) (auto intro: vm_inv_same vm_inv_launched)
next
  case (in_stop k ss i ch i' pc)
  then show ?case using stop_same [of i "ss ! k" ch i' pc] by (auto intro: vm_inv_same)
next
  case (call_wait d pf i r i' ss)
  then show ?case using Wait_same [of d pf i r i'] by (auto intro: vm_inv_same)
qed (auto intro: vm_inv_exits vm_inv_waiter)

lemma reach_inv: "vm_reach start stop i0 w \<Longrightarrow> vm_inv (fst w)"
  by (induction rule: vm_reach.induct) (auto simp: initial dest: step_inv)

lemma alive_unique:
  "vm_reach start stop i0 (i, ss) \<Longrightarrow> alive i k \<Longrightarrow> alive i l \<Longrightarrow> k = l"
  using reach_inv [of "(i, ss)"] vm_inv_alive [of i k] vm_inv_alive [of i l] by simp

lemma alive_running:
  "vm_reach start stop i0 (i, ss) \<Longrightarrow> alive i k \<Longrightarrow> in_running i \<and> in_process i = Some k"
  using reach_inv [of "(i, ss)"] vm_inv_alive [of i k] by simp

lemma start_alone:
  assumes "vm_reach start stop i0 (i, ss)" "start env i = Ret (None, i')"
  shows "\<not> alive i k" "alive i' (length (in_procs i))"
proof -
  show "\<not> alive i k" using alive_running [OF assms(1), of k] start_not_running [OF assms(2)] by blast
  show "alive i' (length (in_procs i))"
    using start_launched [OF _ assms(2)] reach_inv [OF assms(1)] by (auto simp: launched_def alive_def)
qed

lemma start_empty: "vm_reach start stop i0 (i, ss) \<Longrightarrow> start env i = Ret (None, i') \<Longrightarrow> in_chans i' (in_waitErr i') = []"
  using start_launched [of i env i'] reach_inv [of "(i, ss)"] by (simp add: launched_def)

lemma keeps_one_process: "one_process start stop i0"
  unfolding one_process_def IsRunning_def
  by (intro allI impI conjI) (use alive_unique alive_running start_alone start_empty in \<open>blast\<close>)+

end

section \<open>The two instances\<close>

lemma drain_same: "same_procs i (drain i)"
  by (simp add: same_procs_def drain_def)

lemma vm_inv_blank: "vm_inv blank_instance"
  by (simp add: vm_inv_def blank_instance_def procs_inv_def)

lemma vm_inv_path: "vm_inv (i\<lparr>in_QEMUPath := p\<rparr>) = vm_inv i"
  by (simp add: vm_inv_def)

lemma launched_launch:
  "in_chans i (in_waitErr i) = [] \<Longrightarrow> launched i (launch p a i)"
  "launched i (fresh_channel (launch p a i))"
  by (auto simp: launched_def launch_def fresh_channel_def)

lemma tl_short: "length xs \<le> 1 \<Longrightarrow> tl xs = []"
  by (cases xs) auto

lemma launched_drain: "vm_inv i \<Longrightarrow> launched i (launch p a (drain i))"
  by (auto simp: launched_def launch_def drain_def vm_inv_def tl_short)

lemma drain_path [simp]: "in_QEMUPath (drain i) = in_QEMUPath i"
  by (simp add: drain_def)

lemma check_images_None: "check_images env a b ps = None \<longleftrightarrow> (\<forall>(n, p) \<in> set ps. ve_stat env p = None)"
  by (auto simp: check_images_def first_err_None)

lemma Instance_Start_running:
  "in_running i \<Longrightarrow> Instance_Start os cfg env i = Ret (Some (ErrMsg ''vm: already running''), i)"
  by (simp add: Instance_Start_def)

lemma Instance_Start_failed:
  "Instance_Start os cfg env i = Ret (Some e, i') \<Longrightarrow> \<not> in_running i \<Longrightarrow> i' = drain i"
  unfolding Instance_Start_def Let_def
  by (simp split: option.splits outcome.splits sum.splits if_splits)

lemma Instance_Start_ok:
  assumes "Instance_Start os cfg env i = Ret (None, i')"
  shows "\<not> in_running i" "write_overlay env cfg = None" "in_QEMUPath i \<noteq> []"
    "\<forall>f \<in> {KernelPath cfg, InitrdPath cfg, StateDiskPath cfg}. ve_stat env f = None"
    "\<exists>args. BuildArgs os (ve_rnd env) cfg = Ret (Inr args) \<and> ve_spawn env (in_QEMUPath i) args = None
       \<and> i' = launch (in_QEMUPath i) args (drain i)"
proof -
  show r: "\<not> in_running i" using assms by (auto simp: Instance_Start_running)
  note ok = assms [unfolded Instance_Start_def Let_def if_not_P [OF r]]
  from ok show "write_overlay env cfg = None"
    "\<forall>f \<in> {KernelPath cfg, InitrdPath cfg, StateDiskPath cfg}. ve_stat env f = None"
    by (simp_all add: check_images_None split: option.splits)
  from ok show "in_QEMUPath i \<noteq> []"
    "\<exists>args. BuildArgs os (ve_rnd env) cfg = Ret (Inr args) \<and> ve_spawn env (in_QEMUPath i) args = None
       \<and> i' = launch (in_QEMUPath i) args (drain i)"
    by (simp_all split: option.splits outcome.splits sum.splits if_splits)
qed

lemma Browser_Start_running:
  "in_running i \<Longrightarrow> Browser_Start os cfg env i = Ret (Some (ErrMsg ''browser VM already running''), i)"
  by (simp add: Browser_Start_def)

lemma Browser_Start_failed:
  "Browser_Start os cfg env i = Ret (Some e, i') \<Longrightarrow> \<not> in_running i \<Longrightarrow> i' = i \<or> (\<exists>p. i' = i\<lparr>in_QEMUPath := p\<rparr>)"
  unfolding Browser_Start_def Let_def
  by (auto split: option.splits outcome.splits sum.splits if_splits)

lemma Browser_Start_ok:
  assumes "Browser_Start os cfg env i = Ret (None, i')"
  shows "\<not> in_running i"
    "\<forall>f \<in> {bw_KernelPath (Browser cfg), bw_InitrdPath (Browser cfg), bw_StateDiskPath (Browser cfg)}. ve_stat env f = None"
    "\<exists>p args. resolveQEMUBinary os (ve_paths env) = Inr p \<and> BuildBrowserArgs os (ve_rnd env) cfg = Ret (Inr args)
       \<and> ve_spawn env p args = None \<and> i' = fresh_channel (launch p args (i\<lparr>in_QEMUPath := p\<rparr>))"
proof -
  show r: "\<not> in_running i" using assms by (auto simp: Browser_Start_running)
  note ok = assms [unfolded Browser_Start_def Let_def if_not_P [OF r]]
  from ok show "\<forall>f \<in> {bw_KernelPath (Browser cfg), bw_InitrdPath (Browser cfg), bw_StateDiskPath (Browser cfg)}. ve_stat env f = None"
    by (simp add: check_images_None split: option.splits)
  from ok show "\<exists>p args. resolveQEMUBinary os (ve_paths env) = Inr p \<and> BuildBrowserArgs os (ve_rnd env) cfg = Ret (Inr args)
       \<and> ve_spawn env p args = None \<and> i' = fresh_channel (launch p args (i\<lparr>in_QEMUPath := p\<rparr>))"
    by (simp split: option.splits outcome.splits sum.splits if_splits)
qed

lemma Instance_Stop_same: "Instance_Stop cfg i pc ch = Some (i', pc') \<Longrightarrow> same_procs i i'"
  by (induction cfg i pc ch rule: Instance_Stop.induct)
     (auto simp: same_procs_def dest: recv_same split: option.splits if_splits)

lemma Browser_Stop_same: "Browser_Stop cfg i pc ch = Some (i', pc') \<Longrightarrow> same_procs i i'"
  by (induction cfg i pc ch rule: Browser_Stop.induct)
     (auto simp: same_procs_def Let_def dest: recv_same split: option.splits if_splits)

lemma vm_inv_NewInstance: "vm_inv (NewInstance os pe)"
  by (simp add: NewInstance_def vm_inv_blank vm_inv_path split: sum.splits)

interpretation tor_vm: vm_process "Instance_Start os cfg" "Instance_Stop cfg" "NewInstance os pe"
proof
  show "same_procs i i'" if "Instance_Start os cfg env i = Ret (Some e, i')" for env i e i'
    using that Instance_Start_failed [OF that] drain_same [of i]
    by (cases "in_running i") (auto simp: Instance_Start_running same_procs_def)
  show "launched i i'" if "vm_inv i" "Instance_Start os cfg env i = Ret (None, i')" for i env i'
    using Instance_Start_ok(5) [OF that(2)] launched_drain [OF that(1)] by auto
qed (auto simp: Instance_Start_running vm_inv_NewInstance dest: Instance_Stop_same)

interpretation browser_vm: vm_process "Browser_Start os cfg" "Browser_Stop cfg" NewBrowserInstance
proof
  show "same_procs i i'" if "Browser_Start os cfg env i = Ret (Some e, i')" for env i e i'
    using that Browser_Start_failed [OF that]
    by (cases "in_running i") (auto simp: Browser_Start_running same_procs_def)
  show "launched i i'" if "vm_inv i" "Browser_Start os cfg env i = Ret (None, i')" for i env i'
    using Browser_Start_ok(3) [OF that(2)] launched_launch(2) by (fastforce simp: launched_def)
qed (auto simp: Browser_Start_running NewBrowserInstance_def vm_inv_blank dest: Browser_Stop_same)

section \<open>Properties\<close>

text \<open>
  C22. At most one QEMU process of an instance is alive, whatever calls of \<^verbatim>\<open>Start\<close>, \<^verbatim>\<open>Stop\<close> and
  \<^verbatim>\<open>Wait\<close> run concurrently and whenever processes exit; while one is alive \<^verbatim>\<open>IsRunning\<close> is true
  and the \<^verbatim>\<open>Process\<close> field is that process. \<^verbatim>\<open>Start\<close> returns \<^verbatim>\<open>nil\<close> only when none is alive, and
  then its process is, with nothing in \<^verbatim>\<open>waitErr\<close>. The same holds of the Tor VM and of the browser VM.
\<close>

theorem one_qemu_process:
  "one_process (Instance_Start os cfg) (Instance_Stop cfg) (NewInstance os pe)
   \<and> one_process (Browser_Start os cfg) (Browser_Stop cfg) NewBrowserInstance"
  by (simp add: tor_vm.keeps_one_process browser_vm.keeps_one_process)

text \<open>A host on which \<^verbatim>\<open>Start\<close> succeeds, and a run with a restart right after an exit.\<close>

definition sample_env :: vm_env where
  "sample_env = \<lparr>ve_paths = sample_paths, ve_disk = sample_disk, ve_stat = (\<lambda>_. None), ve_MkdirAll = (\<lambda>_ _. None),
     ve_rnd = zero_bytes, ve_spawn = (\<lambda>_ _. None)\<rparr>"

lemma TorrcOverlay_default: "TorrcOverlay (DefaultConfig Linux) = Inr []"
  by (simp add: TorrcOverlay_def overlay_lines_def bridge_part_def proxy_part_def relay_part_def fhe_part_def
                DefaultConfig_def validateRelayConfig_def elems_def)

lemma sample_start:
  assumes "\<not> in_running i" "in_QEMUPath i \<noteq> []"
  shows "\<exists>args. Instance_Start Linux (DefaultConfig Linux) sample_env i = Ret (None, launch (in_QEMUPath i) args (drain i))"
proof -
  obtain args where "BuildArgs Linux zero_bytes (DefaultConfig Linux) = Ret (Inr args)" using default_args by blast
  then show ?thesis
    using assms by (auto simp: Instance_Start_def write_overlay_def TorrcOverlay_default check_images_def sample_env_def)
qed

text \<open>
  A \<^verbatim>\<open>Wait\<close> of the Tor VM can report the exit of an earlier process while the present one
  runs: the goroutine clears \<^verbatim>\<open>running\<close> before it sends, so a \<^verbatim>\<open>Start\<close> in between drains an
  empty channel and launches, and the old exit status \<open>e\<close> arrives after it. This happens on a
  host on which every call succeeds.
\<close>

theorem stale_exit_reported:
  "\<exists>i i'. vm_reach (Instance_Start Linux (DefaultConfig Linux)) (Instance_Stop (DefaultConfig Linux))
            (NewInstance Linux sample_paths) (i, [])
     \<and> alive i 1 \<and> IsRunning i \<and> pr_status (in_procs i ! 0) = Exited e \<and> Wait None prefer i = Some (e, i')"
proof -
  let ?start = "Instance_Start Linux (DefaultConfig Linux)" and ?stop = "Instance_Stop (DefaultConfig Linux)"
  let ?i0 = "NewInstance Linux sample_paths"
  let ?R = "\<lambda>i. vm_reach ?start ?stop ?i0 (i, [])"
  have path: "in_QEMUPath ?i0 \<noteq> []" and i0: "in_procs ?i0 = []" "\<not> in_running ?i0" "in_chans ?i0 = (\<lambda>_. [])" "in_waitErr ?i0 = 0"
    by (simp_all add: NewInstance_def sample_resolves blank_instance_def)
  obtain a1 where a1: "?start sample_env ?i0 = Ret (None, launch (in_QEMUPath ?i0) a1 (drain ?i0))"
    using sample_start i0 path by blast
  define i1 where "i1 = launch (in_QEMUPath ?i0) a1 (drain ?i0)"
  define i2 where "i2 = set_proc 0 (\<lambda>p. p\<lparr>pr_status := Exited e\<rparr>) i1"
  define i3 where "i3 = set_proc 0 (\<lambda>p. p\<lparr>pr_waiter := Cleared e\<rparr>) (i2\<lparr>in_running := False\<rparr>)"
  note defs = i1_def i2_def i3_def launch_def drain_def set_proc_def i0
  have "?R i1" unfolding i1_def by (rule vm_reach.step [OF vm_reach.init]) (rule vm_step.call_start [where start = ?start, OF a1])
  then have "?R i2" unfolding i2_def
    by (rule vm_reach.step) (rule vm_step.exits, simp_all add: defs)
  moreover have "waiter_step 0 i2 = Some i3" by (simp add: waiter_step_def defs)
  ultimately have r3: "?R i3" by (blast intro: vm_reach.step vm_step.waits)
  have "\<not> in_running i3" "in_QEMUPath i3 \<noteq> []" using path by (simp_all add: defs)
  then obtain a2 where a2: "?start sample_env i3 = Ret (None, launch (in_QEMUPath i3) a2 (drain i3))"
    using sample_start by blast
  define i4 where "i4 = launch (in_QEMUPath i3) a2 (drain i3)"
  define i5 where "i5 = set_proc 0 (\<lambda>p. p\<lparr>pr_waiter := Sending 0 e\<rparr>) i4"
  define i6 where "i6 = set_proc 0 (\<lambda>p. p\<lparr>pr_waiter := Finished\<rparr>) (i5\<lparr>in_chans := (in_chans i5)(0 := [e])\<rparr>)"
  note defs = defs i4_def i5_def i6_def
  have "?R i4" unfolding i4_def by (rule vm_reach.step [OF r3]) (rule vm_step.call_start [where start = ?start, OF a2])
  moreover have "waiter_step 0 i4 = Some i5" "waiter_step 0 i5 = Some i6"
    by (simp_all add: waiter_step_def defs)
  ultimately have "?R i6" by (blast intro: vm_reach.step vm_step.waits)
  moreover have "alive i6 1" "IsRunning i6" "pr_status (in_procs i6 ! 0) = Exited e"
    by (simp_all add: alive_def IsRunning_def defs)
  moreover have "\<exists>i'. Wait None prefer i6 = Some (e, i')" by (simp add: Wait_def recv_def defs)
  ultimately show ?thesis by blast
qed

text \<open>
  When \<^verbatim>\<open>Start\<close> of the Tor VM returns \<^verbatim>\<open>nil\<close>, a non-empty torrc overlay has been written to
  the state disk, the kernel, the initrd and the disk exist, and the one process launched runs the
  QEMU binary found at construction with the arguments of \<^verbatim>\<open>BuildArgs\<close>. When it returns an error
  no process was launched. It returns in every case if the configuration passes \<^verbatim>\<open>Validate\<close>.
\<close>

theorem Instance_Start_launches:
  assumes "Validate os cfg = None"
  shows "\<exists>r i'. Instance_Start os cfg env i = Ret (r, i')
    \<and> (r \<noteq> None \<longrightarrow> in_procs i' = in_procs i \<and> in_running i' = in_running i)
    \<and> (r = None \<longrightarrow>
        (\<exists>overlay. TorrcOverlay cfg = Inr overlay \<and>
           (overlay \<noteq> [] \<longrightarrow> fst (WriteStateDiskFile (ve_disk env) (StateDiskPath cfg) ''torrc.override'' overlay) = None))
        \<and> (\<forall>f \<in> {KernelPath cfg, InitrdPath cfg, StateDiskPath cfg}. ve_stat env f = None)
        \<and> (\<exists>args. BuildArgs os (ve_rnd env) cfg = Ret (Inr args) \<and> in_QEMUPath i \<noteq> []
             \<and> in_procs i' = in_procs i @ [\<lparr>pr_path = in_QEMUPath i, pr_args = args, pr_status = Alive, pr_waiter = Waiting\<rparr>]))"
proof -
  obtain b where "BuildArgs os (ve_rnd env) cfg = Ret b"
    using BuildArgs_no_panic [OF assms] by (cases "BuildArgs os (ve_rnd env) cfg") auto
  then have "Instance_Start os cfg env i \<noteq> Panic m" for m
    by (cases b) (auto simp: Instance_Start_def Let_def split: option.split)
  then obtain r i' where s: "Instance_Start os cfg env i = Ret (r, i')"
    by (cases "Instance_Start os cfg env i") auto
  show ?thesis
  proof (cases r)
    case None
    note ok = Instance_Start_ok [OF s [unfolded None]]
    have "\<exists>overlay. TorrcOverlay cfg = Inr overlay \<and>
           (overlay \<noteq> [] \<longrightarrow> fst (WriteStateDiskFile (ve_disk env) (StateDiskPath cfg) ''torrc.override'' overlay) = None)"
      using ok(2) by (auto simp: write_overlay_def split: sum.splits if_splits)
    with s None ok(3-5) show ?thesis by (auto simp: launch_def drain_def)
  next
    case (Some e)
    then have "same_procs i i'" using tor_vm.start_failed s by blast
    with s Some show ?thesis by (simp add: same_procs_def)
  qed
qed

theorem Instance_Start_launches_witness:
  "\<exists>i' args. Instance_Start Linux (DefaultConfig Linux) sample_env (NewInstance Linux sample_paths) = Ret (None, i')
     \<and> in_procs i' = [\<lparr>pr_path = ''/usr/bin/qemu-system-x86_64'', pr_args = args, pr_status = Alive, pr_waiter = Waiting\<rparr>]"
proof -
  let ?i = "NewInstance Linux sample_paths"
  have i: "in_QEMUPath ?i = ''/usr/bin/qemu-system-x86_64''" "\<not> in_running ?i" "in_procs ?i = []"
    by (simp_all add: NewInstance_def sample_resolves blank_instance_def)
  obtain i' where "Instance_Start Linux (DefaultConfig Linux) sample_env ?i = Ret (None, i')"
    using sample_start [of ?i] i by auto
  with Instance_Start_launches [OF Validate_DefaultConfig [of Linux], of sample_env ?i] i show ?thesis by auto
qed

end
