(* ===== verification/Browser_Engine.thy ===== *)
theory Browser_Engine
  imports Vm_Instance
begin

text \<open>
  The lifecycle of the browser VM (\<^verbatim>\<open>lifecycle/browser.go\<close>) and the monitor of its security events
  (\<^verbatim>\<open>secwatch\<close>). Both run as goroutines that share the engine, the VM and the monitor: every call
  of \<^verbatim>\<open>Start\<close> makes a goroutine that executes \<^verbatim>\<open>run\<close>, every \<^verbatim>\<open>SecMonitor.Start\<close> one that
  executes \<^verbatim>\<open>readLoop\<close>, and a critical event makes the latter call \<^verbatim>\<open>handleCompromise\<close>. A step of
  the model is what one of them does between two points at which another can run; goroutines are
  given by the place they have reached. Log messages are left out.
\<close>

section \<open>Data\<close>

datatype BrowserState =
  BrowserIdle | BrowserWaitingForTor | BrowserStarting | BrowserRunning | BrowserCompromised | BrowserStopping

fun browser_state_string :: "BrowserState \<Rightarrow> string" where
  "browser_state_string BrowserIdle = ''Idle''"
| "browser_state_string BrowserWaitingForTor = ''WaitingForTor''"
| "browser_state_string BrowserStarting = ''Starting''"
| "browser_state_string BrowserRunning = ''Running''"
| "browser_state_string BrowserCompromised = ''Compromised''"
| "browser_state_string BrowserStopping = ''Stopping''"

record SecurityEvent =
  ev_Type :: string
  ev_Severity :: string
  ev_Detail :: string
  ev_PID :: int
  ev_Remediation :: string
  ev_Timestamp :: int

definition IsCritical :: "SecurityEvent \<Rightarrow> bool" where
  "IsCritical e \<longleftrightarrow> ev_Severity e = ''critical''"

text \<open>\<^verbatim>\<open>handleCompromise\<close>, by its place.\<close>

datatype compromise_pc =
  HEnter | HCheck | HStop stop_pc | HAuto | HSleep | HTor | HStarting | HStart | HFail | HMonitor | HRunning | HEnd

text \<open>
  \<^verbatim>\<open>readLoop\<close>, by its place: at the top of the loop and in the wait after a failed connection, both
  with the back-off in seconds; in \<^verbatim>\<open>processConnection\<close> before the next line, with a line that
  passed the test of \<^verbatim>\<open>done\<close>, and calling the observers, of which an observer is given by the
  run whose context its closure has.
\<close>

datatype loop_pc =
  LTop nat | LSleep nat | LScan | LLine string | LCall "nat list" SecurityEvent
| LHandle nat compromise_pc "nat list" SecurityEvent | LExit

text \<open>The monitor; \<open>mo_delivered\<close> records every event that was ever accepted.\<close>

record Monitor =
  mo_observers :: "nat list"
  mo_done :: bool
  mo_events :: "SecurityEvent list"
  mo_delivered :: "SecurityEvent list"
  mo_loops :: "loop_pc list"

text \<open>\<^verbatim>\<open>run\<close>, by its place; in the wait for the VM it has the channel that the \<^verbatim>\<open>select\<close> evaluated,
  and later the error that it is going to return.\<close>

datatype run_pc =
  REnter | RTor | RPoll | RSelect | RStarting | RStart | RFail goerr | RObserve | RMonitor | RRunning | RWait nat
| RStopMonitor "goerr option" | RStopping "goerr option" | RCheck "goerr option" | RStop "goerr option" stop_pc
| RIdle "goerr option" | RReturned "goerr option"

text \<open>The engine; \<open>en_ctxs\<close> tells which contexts have ended, \<open>en_cancel\<close> is the run whose cancel
  function the field holds, \<open>en_log\<close> the state changes so far.\<close>

record BrowserEngine =
  en_state :: BrowserState
  en_log :: "(BrowserState \<times> BrowserState) list"
  en_vm :: Instance
  en_mon :: Monitor
  en_cancel :: "nat option"
  en_ctxs :: "bool list"
  en_runs :: "run_pc list"

definition maxEventHistory :: nat where "maxEventHistory = 100"

definition NewMonitor :: Monitor where
  "NewMonitor = \<lparr>mo_observers = [], mo_done = False, mo_events = [], mo_delivered = [], mo_loops = []\<rparr>"

definition NewBrowserEngine :: BrowserEngine where
  "NewBrowserEngine = \<lparr>en_state = BrowserIdle, en_log = [], en_vm = NewBrowserInstance, en_mon = NewMonitor,
     en_cancel = None, en_ctxs = [], en_runs = []\<rparr>"

section \<open>The monitor\<close>

definition OnEvent :: "nat \<Rightarrow> Monitor \<Rightarrow> Monitor" where
  "OnEvent r m = m\<lparr>mo_observers := mo_observers m @ [r]\<rparr>"

definition monitor_Start :: "Monitor \<Rightarrow> Monitor" where
  "monitor_Start m = m\<lparr>mo_loops := mo_loops m @ [LTop 1]\<rparr>"

text \<open>Closing the connection as well only makes the scanner end, which may happen at any time.\<close>

definition monitor_Stop :: "Monitor \<Rightarrow> Monitor" where
  "monitor_Stop m = (if mo_done m then m else m\<lparr>mo_done := True\<rparr>)"

definition add_event :: "SecurityEvent \<Rightarrow> Monitor \<Rightarrow> Monitor" where
  "add_event ev m =
     (let evs = mo_events m @ [ev] in
      m\<lparr>mo_events := (if length evs > maxEventHistory then drop (length evs - maxEventHistory) evs else evs),
        mo_delivered := mo_delivered m @ [ev]\<rparr>)"

definition next_wait :: "nat \<Rightarrow> nat" where
  "next_wait backoff = (let b = backoff * 2 in if b > 10 then 10 else b)"

section \<open>The engine\<close>

definition browser_transition :: "BrowserState \<Rightarrow> BrowserEngine \<Rightarrow> BrowserEngine" where
  "browser_transition nxt e = e\<lparr>en_state := nxt, en_log := en_log e @ [(en_state e, nxt)]\<rparr>"

definition cancel_ctx :: "nat \<Rightarrow> BrowserEngine \<Rightarrow> BrowserEngine" where
  "cancel_ctx r e = e\<lparr>en_ctxs := (en_ctxs e)[r := True]\<rparr>"

definition browser_Start :: "BrowserEngine \<Rightarrow> BrowserEngine" where
  "browser_Start e = e\<lparr>en_runs := en_runs e @ [REnter], en_ctxs := en_ctxs e @ [False]\<rparr>"

definition browser_Stop :: "BrowserEngine \<Rightarrow> BrowserEngine" where
  "browser_Stop e = (case en_cancel e of None \<Rightarrow> e | Some r \<Rightarrow> cancel_ctx r e)"

text \<open>What decides the next step of a goroutine: what it finds out about the Tor engine, a timer or
  the end of a context, what the host answers to \<^verbatim>\<open>VM.Start\<close>, what happens in \<^verbatim>\<open>VM.Stop\<close>,
  the connection of the monitor and what it reads from it.\<close>

datatype choice =
  Tau | TorRunning bool | Timer | Done | Host vm_env | InStop stop_choice | Receive | Dialled bool | Line string | Closed

definition set_vm :: "Instance \<Rightarrow> BrowserEngine \<Rightarrow> BrowserEngine" where
  "set_vm i e = e\<lparr>en_vm := i\<rparr>"

definition upd_mon :: "(Monitor \<Rightarrow> Monitor) \<Rightarrow> BrowserEngine \<Rightarrow> BrowserEngine" where
  "upd_mon f e = e\<lparr>en_mon := f (en_mon e)\<rparr>"

text \<open>A call of the VM's \<^verbatim>\<open>Start\<close>, with the places to go on from.\<close>

definition start_vm ::
  "goos \<Rightarrow> Config \<Rightarrow> vm_env \<Rightarrow> (goerr \<Rightarrow> 'pc) \<Rightarrow> 'pc \<Rightarrow> BrowserEngine \<Rightarrow> ('pc \<times> BrowserEngine) option" where
  "start_vm os cfg env failed ok e =
     (case Browser_Start os cfg env (en_vm e) of
        Panic m \<Rightarrow> None
      | Ret (Some err, i) \<Rightarrow> Some (failed err, set_vm i e)
      | Ret (None, i) \<Rightarrow> Some (ok, set_vm i e))"

definition stop_vm ::
  "Config \<Rightarrow> stop_pc \<Rightarrow> stop_choice \<Rightarrow> (stop_pc \<Rightarrow> 'pc) \<Rightarrow> 'pc \<Rightarrow> BrowserEngine \<Rightarrow> ('pc \<times> BrowserEngine) option" where
  "stop_vm cfg spc ch stay ok e =
     (case Browser_Stop cfg (en_vm e) spc ch of
        None \<Rightarrow> None
      | Some (i, SDone _) \<Rightarrow> Some (ok, set_vm i e)
      | Some (i, spc') \<Rightarrow> Some (stay spc', set_vm i e))"

definition on_tau :: "choice \<Rightarrow> 'a \<Rightarrow> 'a option" where
  "on_tau ch x = (case ch of Tau \<Rightarrow> Some x | _ \<Rightarrow> None)"

definition on_tor :: "choice \<Rightarrow> (bool \<Rightarrow> 'a) \<Rightarrow> 'a option" where
  "on_tor ch f = (case ch of TorRunning b \<Rightarrow> Some (f b) | _ \<Rightarrow> None)"

definition run_next :: "goos \<Rightarrow> Config \<Rightarrow> nat \<Rightarrow> run_pc \<Rightarrow> choice \<Rightarrow> BrowserEngine \<Rightarrow> (run_pc \<times> BrowserEngine) option" where
  "run_next os cfg r pc ch e =
     (case pc of
        REnter \<Rightarrow> on_tau ch (RTor, e\<lparr>en_cancel := Some r\<rparr>)
      | RTor \<Rightarrow> on_tor ch (\<lambda>b. if b then (RStarting, e) else (RPoll, browser_transition BrowserWaitingForTor e))
      | RPoll \<Rightarrow> on_tor ch (\<lambda>b. (if b then RStarting else RSelect, e))
      | RSelect \<Rightarrow>
          (case ch of
             Timer \<Rightarrow> Some (RPoll, e)
           | Done \<Rightarrow> if en_ctxs e ! r then Some (RReturned (Some ErrCanceled), cancel_ctx r e) else None
           | _ \<Rightarrow> None)
      | RStarting \<Rightarrow> on_tau ch (RStart, browser_transition BrowserStarting e)
      | RStart \<Rightarrow> (case ch of Host env \<Rightarrow> start_vm os cfg env RFail RObserve e | _ \<Rightarrow> None)
      | RFail err \<Rightarrow>
          on_tau ch (RReturned (Some (wrap ''browser VM start'' err)), cancel_ctx r (browser_transition BrowserIdle e))
      | RObserve \<Rightarrow> on_tau ch (RMonitor, upd_mon (OnEvent r) e)
      | RMonitor \<Rightarrow> on_tau ch (RRunning, upd_mon monitor_Start e)
      | RRunning \<Rightarrow> on_tau ch (RWait (in_waitErr (en_vm e)), browser_transition BrowserRunning e)
      | RWait c \<Rightarrow>
          (case ch of
             Receive \<Rightarrow> (case recv c (en_vm e) of None \<Rightarrow> None | Some (err, i) \<Rightarrow> Some (RStopMonitor err, set_vm i e))
           | Done \<Rightarrow> if en_ctxs e ! r then Some (RStopMonitor (Some ErrCanceled), e) else None
           | _ \<Rightarrow> None)
      | RStopMonitor err \<Rightarrow> on_tau ch (RStopping err, upd_mon monitor_Stop e)
      | RStopping err \<Rightarrow> on_tau ch (RCheck err, browser_transition BrowserStopping e)
      | RCheck err \<Rightarrow> on_tau ch (if IsRunning (en_vm e) then RStop err SCheck else RIdle err, e)
      | RStop err spc \<Rightarrow> (case ch of InStop sc \<Rightarrow> stop_vm cfg spc sc (RStop err) (RIdle err) e | _ \<Rightarrow> None)
      | RIdle err \<Rightarrow> on_tau ch (RReturned err, cancel_ctx r (browser_transition BrowserIdle e))
      | RReturned err \<Rightarrow> None)"

definition compromise_next ::
  "goos \<Rightarrow> Config \<Rightarrow> nat \<Rightarrow> compromise_pc \<Rightarrow> choice \<Rightarrow> BrowserEngine \<Rightarrow> (compromise_pc \<times> BrowserEngine) option" where
  "compromise_next os cfg r pc ch e =
     (case pc of
        HEnter \<Rightarrow> on_tau ch (HCheck, browser_transition BrowserCompromised e)
      | HCheck \<Rightarrow> on_tau ch (if IsRunning (en_vm e) then HStop SCheck else HAuto, e)
      | HStop spc \<Rightarrow> (case ch of InStop sc \<Rightarrow> stop_vm cfg spc sc HStop HAuto e | _ \<Rightarrow> None)
      | HAuto \<Rightarrow> on_tau ch (if bw_AutoRemediate (Browser cfg) then HSleep else HEnd, e)
      | HSleep \<Rightarrow>
          (case ch of
             Timer \<Rightarrow> Some (HTor, e)
           | Done \<Rightarrow> if en_ctxs e ! r then Some (HEnd, e) else None
           | _ \<Rightarrow> None)
      | HTor \<Rightarrow> on_tor ch (\<lambda>b. (if b then HStarting else HEnd, e))
      | HStarting \<Rightarrow> on_tau ch (HStart, browser_transition BrowserStarting e)
      | HStart \<Rightarrow> (case ch of Host env \<Rightarrow> start_vm os cfg env (\<lambda>_. HFail) HMonitor e | _ \<Rightarrow> None)
      | HFail \<Rightarrow> on_tau ch (HEnd, browser_transition BrowserIdle e)
      | HMonitor \<Rightarrow> on_tau ch (HRunning, upd_mon monitor_Start e)
      | HRunning \<Rightarrow> on_tau ch (HEnd, browser_transition BrowserRunning e)
      | HEnd \<Rightarrow> None)"

text \<open>\<open>json\<close> is the decoding of an event.\<close>

definition loop_next ::
  "goos \<Rightarrow> Config \<Rightarrow> (string \<Rightarrow> SecurityEvent res) \<Rightarrow> loop_pc \<Rightarrow> choice \<Rightarrow> BrowserEngine \<Rightarrow> (loop_pc \<times> BrowserEngine) option" where
  "loop_next os cfg json pc ch e =
     (case pc of
        LTop b \<Rightarrow>
          (case ch of
             Dialled ok \<Rightarrow> if mo_done (en_mon e) then Some (LExit, e) else Some (if ok then LScan else LSleep b, e)
           | _ \<Rightarrow> None)
      | LSleep b \<Rightarrow>
          (case ch of
             Timer \<Rightarrow> Some (LTop (next_wait b), e)
           | Done \<Rightarrow> if mo_done (en_mon e) then Some (LExit, e) else None
           | _ \<Rightarrow> None)
      | LScan \<Rightarrow>
          (case ch of
             Closed \<Rightarrow> Some (LTop 1, e)
           | Line s \<Rightarrow> Some (if mo_done (en_mon e) then LTop 1 else LLine s, e)
           | _ \<Rightarrow> None)
      | LLine s \<Rightarrow>
          on_tau ch
            (case json s of
               Inl _ \<Rightarrow> (LScan, e)
             | Inr ev \<Rightarrow> (LCall (mo_observers (en_mon e)) ev, upd_mon (add_event ev) e))
      | LCall obs ev \<Rightarrow>
          on_tau ch
            (case obs of
               [] \<Rightarrow> (LScan, e)
             | r # rs \<Rightarrow> (if IsCritical ev then LHandle r HEnter rs ev else LCall rs ev, e))
      | LHandle r hpc rs ev \<Rightarrow>
          (if hpc = HEnd then on_tau ch (LCall rs ev, e)
           else map_option (\<lambda>(hpc', e'). (LHandle r hpc' rs ev, e')) (compromise_next os cfg r hpc ch e))
      | LExit \<Rightarrow> None)"

definition set_run :: "nat \<Rightarrow> run_pc \<Rightarrow> BrowserEngine \<Rightarrow> BrowserEngine" where
  "set_run r pc e = e\<lparr>en_runs := (en_runs e)[r := pc]\<rparr>"

definition set_loop :: "nat \<Rightarrow> loop_pc \<Rightarrow> BrowserEngine \<Rightarrow> BrowserEngine" where
  "set_loop l pc e = upd_mon (\<lambda>m. m\<lparr>mo_loops := (mo_loops m)[l := pc]\<rparr>) e"

text \<open>The steps: calls from outside, the end of a parent context, the goroutines, the exit of a QEMU
  process and the goroutine that waits for it.\<close>

datatype action =
  CallStart | CallStop | Cancelled nat | RunStep nat choice | LoopStep nat choice | ProcExit nat "goerr option" | Waiter nat

definition act ::
  "goos \<Rightarrow> Config \<Rightarrow> (string \<Rightarrow> SecurityEvent res) \<Rightarrow> action \<Rightarrow> BrowserEngine \<Rightarrow> BrowserEngine option" where
  "act os cfg json a e =
     (case a of
        CallStart \<Rightarrow> Some (browser_Start e)
      | CallStop \<Rightarrow> Some (browser_Stop e)
      | Cancelled r \<Rightarrow> Some (cancel_ctx r e)
      | RunStep r ch \<Rightarrow>
          (if r < length (en_runs e)
           then map_option (\<lambda>(pc, e'). set_run r pc e') (run_next os cfg r (en_runs e ! r) ch e) else None)
      | LoopStep l ch \<Rightarrow>
          (if l < length (mo_loops (en_mon e))
           then map_option (\<lambda>(pc, e'). set_loop l pc e') (loop_next os cfg json (mo_loops (en_mon e) ! l) ch e) else None)
      | ProcExit k x \<Rightarrow>
          (if alive (en_vm e) k then Some (set_vm (set_proc k (\<lambda>p. p\<lparr>pr_status := Exited x\<rparr>) (en_vm e)) e) else None)
      | Waiter k \<Rightarrow> map_option (\<lambda>i. set_vm i e) (waiter_step k (en_vm e)))"

fun acts ::
  "goos \<Rightarrow> Config \<Rightarrow> (string \<Rightarrow> SecurityEvent res) \<Rightarrow> action list \<Rightarrow> BrowserEngine \<Rightarrow> BrowserEngine option" where
  "acts os cfg json [] e = Some e"
| "acts os cfg json (a # as) e = (case act os cfg json a e of None \<Rightarrow> None | Some e' \<Rightarrow> acts os cfg json as e')"

inductive be_reach :: "goos \<Rightarrow> Config \<Rightarrow> (string \<Rightarrow> SecurityEvent res) \<Rightarrow> BrowserEngine \<Rightarrow> BrowserEngine \<Rightarrow> bool"
  for os cfg json e0 where
  refl: "be_reach os cfg json e0 e0"
| step: "be_reach os cfg json e0 e \<Longrightarrow> act os cfg json a e = Some e' \<Longrightarrow> be_reach os cfg json e0 e'"

lemma reach_acts: "acts os cfg json as e = Some e' \<Longrightarrow> be_reach os cfg json e0 e \<Longrightarrow> be_reach os cfg json e0 e'"
  by (induction os cfg json as e rule: acts.induct) (auto split: option.splits intro: be_reach.step)

section \<open>What every step keeps\<close>

fun linked :: "BrowserState \<Rightarrow> (BrowserState \<times> BrowserState) list \<Rightarrow> BrowserState \<Rightarrow> bool" where
  "linked a [] b = (a = b)"
| "linked a ((x, y) # l) b = (x = a \<and> linked y l b)"

lemma linked_snoc: "linked a (l @ [(x, y)]) b \<longleftrightarrow> linked a l x \<and> y = b"
  by (induction a l x rule: linked.induct) auto

definition last_n :: "nat \<Rightarrow> 'a list \<Rightarrow> 'a list" where
  "last_n n xs = drop (length xs - n) xs"

definition engine_inv :: "BrowserEngine \<Rightarrow> bool" where
  "engine_inv e \<longleftrightarrow> vm_inv (en_vm e) \<and> linked BrowserIdle (en_log e) (en_state e)
   \<and> mo_events (en_mon e) = last_n maxEventHistory (mo_delivered (en_mon e))"

lemma on_tau_Some [simp]: "on_tau ch x = Some y \<longleftrightarrow> ch = Tau \<and> x = y"
  by (auto simp: on_tau_def split: choice.splits)

lemma on_tor_Some [simp]: "on_tor ch f = Some y \<longleftrightarrow> (\<exists>b. ch = TorRunning b \<and> f b = y)"
  by (auto simp: on_tor_def split: choice.splits)

lemma last_n_snoc:
  "last_n n (xs @ [x]) = (let ys = last_n n xs @ [x] in if length ys > n then drop (length ys - n) ys else ys)"
proof (cases "length xs < n")
  case True
  then show ?thesis by (simp add: last_n_def)
next
  case False
  then have "length (last_n n xs) = n" by (simp add: last_n_def)
  then show ?thesis using False by (simp add: last_n_def Let_def Suc_diff_le drop_Suc tl_drop)
qed

lemma engine_inv_transition: "engine_inv e \<Longrightarrow> engine_inv (browser_transition s e)"
  by (simp add: engine_inv_def browser_transition_def linked_snoc)

lemma inv_other [simp]:
  "engine_inv (cancel_ctx r e) = engine_inv e" "engine_inv (set_run r pc e) = engine_inv e"
  "engine_inv (e\<lparr>en_cancel := c\<rparr>) = engine_inv e" "engine_inv (browser_Start e) = engine_inv e"
  "engine_inv (browser_Stop e) = engine_inv e"
  "engine_inv (upd_mon (OnEvent r) e) = engine_inv e" "engine_inv (upd_mon monitor_Start e) = engine_inv e"
  "engine_inv (upd_mon monitor_Stop e) = engine_inv e" "engine_inv (set_loop l lpc e) = engine_inv e"
  by (auto simp: engine_inv_def cancel_ctx_def set_run_def browser_Start_def browser_Stop_def upd_mon_def
      OnEvent_def monitor_Start_def monitor_Stop_def set_loop_def split: option.splits)

lemma inv_event: "engine_inv e \<Longrightarrow> engine_inv (upd_mon (add_event ev) e)"
  by (simp add: engine_inv_def upd_mon_def add_event_def last_n_snoc Let_def)

lemma inv_vm: "engine_inv e \<Longrightarrow> vm_inv i \<Longrightarrow> engine_inv (set_vm i e)"
  by (simp add: engine_inv_def set_vm_def)

lemma inv_vm_same: "engine_inv e \<Longrightarrow> same_procs (en_vm e) i \<Longrightarrow> engine_inv (set_vm i e)"
  by (rule inv_vm) (auto simp: engine_inv_def intro: vm_inv_same)

lemma start_vm_inv:
  assumes "start_vm os cfg env f ok e = Some (pc, e')" "engine_inv e"
  shows "engine_inv e'"
proof -
  obtain r i where s: "Browser_Start os cfg env (en_vm e) = Ret (r, i)" "e' = set_vm i e"
    using assms(1) by (auto simp: start_vm_def split: outcome.splits option.splits)
  have v: "vm_inv (en_vm e)" using assms(2) by (simp add: engine_inv_def)
  show ?thesis
  proof (cases r)
    case None
    then show ?thesis
      using s assms(2) v browser_vm.start_launched [OF v, of os cfg env i] browser_vm.start_not_running [of os cfg env "en_vm e" i]
      by (auto intro: inv_vm vm_inv_launched)
  next
    case (Some x)
    then show ?thesis
      using s assms(2) browser_vm.start_failed [of os cfg env "en_vm e" x i] by (auto intro: inv_vm_same)
  qed
qed

lemma stop_vm_inv: "stop_vm cfg spc ch stay ok e = Some (pc, e') \<Longrightarrow> engine_inv e \<Longrightarrow> engine_inv e'"
  by (auto simp: stop_vm_def split: option.splits stop_pc.splits dest!: Browser_Stop_same intro: inv_vm_same)

lemma run_next_inv: "run_next os cfg r pc ch e = Some (pc', e') \<Longrightarrow> engine_inv e \<Longrightarrow> engine_inv e'"
  by (cases pc; cases ch)
     (auto simp: run_next_def on_tau_def on_tor_def engine_inv_transition start_vm_inv stop_vm_inv
           split: if_splits option.splits dest: recv_same intro: inv_vm_same)

lemma compromise_next_inv: "compromise_next os cfg r pc ch e = Some (pc', e') \<Longrightarrow> engine_inv e \<Longrightarrow> engine_inv e'"
  by (cases pc; cases ch)
     (auto simp: compromise_next_def on_tau_def on_tor_def engine_inv_transition start_vm_inv stop_vm_inv split: if_splits)

lemma loop_next_inv: "loop_next os cfg json pc ch e = Some (pc', e') \<Longrightarrow> engine_inv e \<Longrightarrow> engine_inv e'"
  by (cases pc)
     (auto simp: loop_next_def inv_event split: choice.splits if_splits sum.splits list.splits dest: compromise_next_inv)

lemma act_inv: "act os cfg json a e = Some e' \<Longrightarrow> engine_inv e \<Longrightarrow> engine_inv e'"
  by (cases a)
     (auto simp: act_def engine_inv_def [of e] alive_def dest: run_next_inv loop_next_inv split: if_splits
           intro!: inv_vm intro: vm_inv_exits vm_inv_waiter)

lemma engine_reach_inv: "be_reach os cfg json NewBrowserEngine e \<Longrightarrow> engine_inv e"
  by (induction rule: be_reach.induct)
     (auto simp: engine_inv_def NewBrowserEngine_def NewMonitor_def NewBrowserInstance_def vm_inv_blank last_n_def dest: act_inv)

section \<open>A monitor that was stopped\<close>

definition at_line :: "loop_pc \<Rightarrow> bool" where
  "at_line pc \<longleftrightarrow> (case pc of LLine _ \<Rightarrow> True | _ \<Rightarrow> False)"

definition pending :: "BrowserEngine \<Rightarrow> nat" where
  "pending e = length (filter at_line (mo_loops (en_mon e)))"

text \<open>Events accepted so far and those that can still be.\<close>

definition deliveries :: "BrowserEngine \<Rightarrow> nat" where
  "deliveries e = length (mo_delivered (en_mon e)) + pending e"

lemma filter_update:
  "l < length xs \<Longrightarrow> length (filter P (xs[l := y])) + (if P (xs ! l) then 1 else 0) = length (filter P xs) + (if P y then 1 else 0)"
proof (induction xs arbitrary: l)
  case (Cons x xs)
  show ?case
  proof (cases l)
    case (Suc n)
    then show ?thesis using Cons.IH [of n] Cons.prems by auto
  qed simp
qed simp

text \<open>What a step can do to the monitor other than through the loop that makes it.\<close>

definition mon_same :: "BrowserEngine \<Rightarrow> BrowserEngine \<Rightarrow> bool" where
  "mon_same e e' \<longleftrightarrow> mo_delivered (en_mon e') = mo_delivered (en_mon e)
     \<and> (mo_done (en_mon e) \<longrightarrow> mo_done (en_mon e'))
     \<and> (\<exists>k. mo_loops (en_mon e') = mo_loops (en_mon e) @ replicate k (LTop 1))"

lemma mon_same_unchanged:
  "en_mon e' = en_mon e \<Longrightarrow> mon_same e e'"
  by (auto simp: mon_same_def intro: exI [of _ 0])

lemma mon_same_start: "mon_same e (upd_mon monitor_Start e)"
  by (auto simp: mon_same_def upd_mon_def monitor_Start_def intro: exI [of _ 1])

lemma mon_same_other: "mon_same e (upd_mon monitor_Stop e)" "mon_same e (upd_mon (OnEvent r) e)"
  by (auto simp: mon_same_def upd_mon_def monitor_Stop_def OnEvent_def intro: exI [of _ 0])

lemma mon_fields [simp]:
  "en_mon (browser_transition st e) = en_mon e" "en_mon (set_vm i e) = en_mon e" "en_mon (cancel_ctx r e) = en_mon e"
  "en_mon (browser_Start e) = en_mon e" "en_mon (browser_Stop e) = en_mon e" "en_mon (set_run r pc e) = en_mon e"
  by (auto simp: browser_transition_def set_vm_def cancel_ctx_def browser_Start_def browser_Stop_def set_run_def
      split: option.splits)

lemma vm_calls_mon:
  "start_vm os cfg env f ok e = Some (pc, e') \<Longrightarrow> en_mon e' = en_mon e"
  "stop_vm cfg spc ch stay ok2 e = Some (pc2, e') \<Longrightarrow> en_mon e' = en_mon e"
  by (auto simp: start_vm_def stop_vm_def split: outcome.splits option.splits stop_pc.splits)

lemma run_next_mon: "run_next os cfg r pc ch e = Some (pc', e') \<Longrightarrow> mon_same e e'"
  by (cases pc; cases ch)
     (auto simp: run_next_def on_tau_def on_tor_def mon_same_start mon_same_other
           split: if_splits option.splits dest: vm_calls_mon intro: mon_same_unchanged)

lemma compromise_next_mon: "compromise_next os cfg r pc ch e = Some (pc', e') \<Longrightarrow> mon_same e e'"
  by (cases pc; cases ch)
     (auto simp: compromise_next_def on_tau_def on_tor_def mon_same_start
           split: if_splits dest: vm_calls_mon intro: mon_same_unchanged)

text \<open>One step of a loop of a stopped monitor: at most the line it already has is accepted.\<close>

lemma loop_next_mon:
  assumes "loop_next os cfg json pc ch e = Some (pc', e')" "mo_done (en_mon e)"
  shows "mo_done (en_mon e') \<and> (\<exists>k. mo_loops (en_mon e') = mo_loops (en_mon e) @ replicate k (LTop 1))
    \<and> length (mo_delivered (en_mon e')) + (if at_line pc' then 1 else 0)
      \<le> length (mo_delivered (en_mon e)) + (if at_line pc then 1 else 0)"
proof -
  have add: "mo_done (en_mon (upd_mon (add_event ev) e)) = mo_done (en_mon e)"
    "mo_loops (en_mon (upd_mon (add_event ev) e)) = mo_loops (en_mon e)"
    "length (mo_delivered (en_mon (upd_mon (add_event ev) e))) = Suc (length (mo_delivered (en_mon e)))" for ev
    by (auto simp: upd_mon_def add_event_def Let_def)
  have none: "\<exists>k. mo_loops (en_mon e) = mo_loops (en_mon e) @ replicate k (LTop 1)" by (intro exI [of _ 0]) simp
  show ?thesis
    using assms none
    by (cases pc)
       (auto simp: loop_next_def at_line_def add mon_same_def
             split: choice.splits if_splits sum.splits list.splits dest!: compromise_next_mon)
qed

lemma deliveries_same: "mon_same e e' \<Longrightarrow> deliveries e' = deliveries e"
  by (auto simp: mon_same_def deliveries_def pending_def filter_replicate at_line_def)

lemma act_quiet:
  assumes "act os cfg json a e = Some e'" "mo_done (en_mon e)"
  shows "mo_done (en_mon e') \<and> deliveries e' \<le> deliveries e"
proof (cases "\<exists>l ch. a = LoopStep l ch")
  case True
  then obtain l ch pc e1 where l: "l < length (mo_loops (en_mon e))" "e' = set_loop l pc e1"
    "loop_next os cfg json (mo_loops (en_mon e) ! l) ch e = Some (pc, e1)"
    using assms(1) by (auto simp: act_def split: if_splits)
  note n = loop_next_mon [OF l(3) assms(2)]
  obtain k where k: "mo_loops (en_mon e1) = mo_loops (en_mon e) @ replicate k (LTop 1)" using n by blast
  have "length (filter at_line ((mo_loops (en_mon e1))[l := pc])) + (if at_line (mo_loops (en_mon e) ! l) then 1 else 0) =
      length (filter at_line (mo_loops (en_mon e))) + (if at_line pc then 1 else 0)"
    using filter_update [of l "mo_loops (en_mon e1)" at_line pc] l(1)
    by (simp add: k nth_append filter_replicate at_line_def)
  then show ?thesis
    using n l(2) by (auto simp: deliveries_def pending_def set_loop_def upd_mon_def split: if_splits)
next
  case False
  then have "mon_same e e'"
    using assms(1)
    by (cases a) (auto simp: act_def split: if_splits intro: mon_same_unchanged dest!: run_next_mon simp: mon_same_def)
  with deliveries_same [OF this] show ?thesis using assms(2) by (simp add: mon_same_def)
qed

section \<open>Properties\<close>

text \<open>
  C36. Under every interleaving of calls of \<^verbatim>\<open>Start\<close> and \<^verbatim>\<open>Stop\<close>, runs, monitor loops and
  compromise handlers, at most one browser QEMU process is alive and the engine's instance knows of
  it; the state changes follow one another without gaps from the idle state to the present one;
  and \<^verbatim>\<open>Events\<close> holds the last 100 of the events received, in order.
\<close>

theorem browser_engine_invariant:
  assumes "be_reach os cfg json NewBrowserEngine e"
  shows "(\<forall>k l. alive (en_vm e) k \<and> alive (en_vm e) l \<longrightarrow> k = l)
    \<and> (\<forall>k. alive (en_vm e) k \<longrightarrow> IsRunning (en_vm e) \<and> in_process (en_vm e) = Some k)
    \<and> linked BrowserIdle (en_log e) (en_state e)
    \<and> mo_events (en_mon e) = last_n maxEventHistory (mo_delivered (en_mon e))"
proof -
  have inv: "engine_inv e" using engine_reach_inv [OF assms] .
  then have v: "vm_inv (en_vm e)" by (simp add: engine_inv_def)
  have "alive (en_vm e) k \<Longrightarrow> IsRunning (en_vm e) \<and> Suc k = length (in_procs (en_vm e)) \<and> in_process (en_vm e) = Some k" for k
    using vm_inv_alive [OF v] by (simp add: IsRunning_def)
  then show ?thesis using inv unfolding engine_inv_def by (metis Suc_inject)
qed

theorem browser_engine_invariant_witness:
  "be_reach Linux (DefaultConfig Linux) (\<lambda>_. Inl ErrCanceled) NewBrowserEngine (browser_Start NewBrowserEngine)
   \<and> linked BrowserIdle (en_log (browser_Start NewBrowserEngine)) BrowserIdle"
proof -
  have r: "be_reach Linux (DefaultConfig Linux) (\<lambda>_. Inl ErrCanceled) NewBrowserEngine (browser_Start NewBrowserEngine)"
    by (rule be_reach.step [OF be_reach.refl, where a = CallStart]) (simp add: act_def)
  from browser_engine_invariant [OF r] r show ?thesis by (simp add: browser_Start_def NewBrowserEngine_def)
qed

text \<open>
  The security monitor cannot be used again after it was stopped, and every run stops it when
  it ends: from then on, whatever further runs are started, at most the lines that a loop has
  already taken past its test are accepted, so once these are through the engine never hears of
  another security event, and a later browser VM runs without its monitor.
\<close>

theorem stopped_monitor_silent:
  assumes "be_reach os cfg json e e'" "mo_done (en_mon e)"
  shows "mo_done (en_mon e') \<and> length (mo_delivered (en_mon e')) \<le> length (mo_delivered (en_mon e)) + pending e"
proof -
  have "mo_done (en_mon e') \<and> deliveries e' \<le> deliveries e"
    using assms(1) by induction (use assms(2) act_quiet in \<open>fastforce+\<close>)
  then show ?thesis by (simp add: deliveries_def)
qed

theorem stopped_monitor_silent_witness:
  "be_reach Linux (DefaultConfig Linux) (\<lambda>_. Inl ErrCanceled) (upd_mon monitor_Stop NewBrowserEngine)
     (browser_Start (upd_mon monitor_Stop NewBrowserEngine))
   \<and> mo_done (en_mon (upd_mon monitor_Stop NewBrowserEngine))
   \<and> mo_delivered (en_mon (browser_Start (upd_mon monitor_Stop NewBrowserEngine))) = []"
proof -
  let ?e = "upd_mon monitor_Stop NewBrowserEngine"
  have r: "be_reach Linux (DefaultConfig Linux) (\<lambda>_. Inl ErrCanceled) ?e (browser_Start ?e)"
    by (rule be_reach.step [OF be_reach.refl, where a = CallStart]) (simp add: act_def)
  have d: "mo_done (en_mon ?e)" by (simp add: upd_mon_def monitor_Stop_def NewBrowserEngine_def NewMonitor_def)
  from stopped_monitor_silent [OF r d] r d show ?thesis
    by (simp add: upd_mon_def monitor_Stop_def NewBrowserEngine_def NewMonitor_def pending_def)
qed

text \<open>An event that the browser VM reports, and a host on which it starts.\<close>

definition alarm :: SecurityEvent where
  "alarm = \<lparr>ev_Type = ''canary_violation'', ev_Severity = ''critical'', ev_Detail = ''heap'', ev_PID = 7,
     ev_Remediation = ''none'', ev_Timestamp = 0\<rparr>"

lemma sample_browser_start:
  "\<exists>q args. \<forall>i. \<not> in_running i \<longrightarrow> Browser_Start Linux (DefaultConfig Linux) sample_env i =
     Ret (None, fresh_channel (launch q args (i\<lparr>in_QEMUPath := q\<rparr>)))"
proof -
  obtain args where "BuildBrowserArgs Linux zero_bytes (DefaultConfig Linux) = Ret (Inr args)" using default_args by blast
  then show ?thesis
    using sample_resolves by (auto simp: Browser_Start_def check_images_def sample_env_def Let_def)
qed

definition exit_of :: "nat \<Rightarrow> action list" where
  "exit_of k = [ProcExit k None, Waiter k, Waiter k, Waiter k]"

text \<open>The browser starts; the monitor reports a critical event; the handler stops the VM, whose
  exit status its \<^verbatim>\<open>Stop\<close> receives, and restarts it; then the second VM exits.\<close>

definition launch_actions :: "action list" where
  "launch_actions = [CallStart, RunStep 0 Tau, RunStep 0 (TorRunning True), RunStep 0 Tau, RunStep 0 (Host sample_env),
     RunStep 0 Tau, RunStep 0 Tau, RunStep 0 Tau]"

definition alarm_actions :: "action list" where
  "alarm_actions = LoopStep 0 (Dialled True) # LoopStep 0 (Line []) # replicate 4 (LoopStep 0 Tau)
     @ [LoopStep 0 (InStop Go), LoopStep 0 (InStop (Dial (Inl ErrCanceled)))]"

definition restart_actions :: "action list" where
  "restart_actions = [LoopStep 0 (InStop Recv), LoopStep 0 Tau, LoopStep 0 Timer, LoopStep 0 (TorRunning True), LoopStep 0 Tau,
     LoopStep 0 (Host sample_env), LoopStep 0 Tau, LoopStep 0 Tau]"

lemma acts_append: "acts os cfg json (as @ bs) e = (case acts os cfg json as e of None \<Rightarrow> None | Some e' \<Rightarrow> acts os cfg json bs e')"
  by (induction os cfg json as e rule: acts.induct) (auto split: option.splits)

lemmas step_defs = act_def run_next_def loop_next_def compromise_next_def on_tau_def on_tor_def start_vm_def stop_vm_def
  set_run_def set_loop_def set_vm_def upd_mon_def browser_transition_def browser_Start_def monitor_Start_def OnEvent_def
  add_event_def maxEventHistory_def IsCritical_def IsRunning_def launch_def fresh_channel_def

lemma launch_run:
  assumes "\<forall>i. \<not> in_running i \<longrightarrow> Browser_Start Linux (DefaultConfig Linux) sample_env i =
     Ret (None, fresh_channel (launch q args (i\<lparr>in_QEMUPath := q\<rparr>)))"
  shows "\<exists>e. acts Linux (DefaultConfig Linux) json launch_actions NewBrowserEngine = Some e
    \<and> en_runs e = [RWait 1] \<and> en_ctxs e = [False] \<and> mo_loops (en_mon e) = [LTop 1] \<and> mo_observers (en_mon e) = [0]
    \<and> \<not> mo_done (en_mon e) \<and> in_running (en_vm e) \<and> in_waitErr (en_vm e) = 1 \<and> in_chans (en_vm e) = (\<lambda>_. [])
    \<and> in_procs (en_vm e) = [\<lparr>pr_path = q, pr_args = args, pr_status = Alive, pr_waiter = Waiting\<rparr>]"
  using assms
  by (simp add: launch_actions_def NewBrowserEngine_def NewMonitor_def NewBrowserInstance_def blank_instance_def step_defs
      fun_upd_idem)

text \<open>The instance with one process, at the place its goroutine has reached.\<close>

lemma alarm_run:
  assumes "en_runs e = [RWait 1]" "en_ctxs e = [False]" "mo_loops (en_mon e) = [LTop 1]" "mo_observers (en_mon e) = [0]"
    "\<not> mo_done (en_mon e)" "in_running (en_vm e)" "in_waitErr (en_vm e) = 1" "in_chans (en_vm e) = (\<lambda>_. [])"
    "in_procs (en_vm e) = [\<lparr>pr_path = q, pr_args = args, pr_status = Alive, pr_waiter = Waiting\<rparr>]"
  shows "\<exists>e'. acts Linux (DefaultConfig Linux) (\<lambda>_. Inr alarm) (alarm_actions @ exit_of 0) e = Some e'
    \<and> en_runs e' = [RWait 1] \<and> en_ctxs e' = [False] \<and> \<not> in_running (en_vm e') \<and> in_waitErr (en_vm e') = 1
    \<and> mo_loops (en_mon e') = [LHandle 0 (HStop (SSelect None 1)) [] alarm]
    \<and> in_chans (en_vm e') = (\<lambda>_. [])(1 := [None])
    \<and> in_procs (en_vm e') = [\<lparr>pr_path = q, pr_args = args, pr_status = Exited None, pr_waiter = Finished\<rparr>]"
  using assms
  by (simp add: alarm_actions_def exit_of_def numeral_eq_Suc step_defs alarm_def qmp_powerdown_def NewQMPClient_def
      alive_def set_proc_def waiter_step_def Let_def)

lemma restart_run:
  assumes "\<forall>i. \<not> in_running i \<longrightarrow> Browser_Start Linux (DefaultConfig Linux) sample_env i =
     Ret (None, fresh_channel (launch q args (i\<lparr>in_QEMUPath := q\<rparr>)))"
    "en_runs e = [RWait 1]" "en_ctxs e = [False]" "\<not> in_running (en_vm e)" "in_waitErr (en_vm e) = 1"
    "mo_loops (en_mon e) = [LHandle 0 (HStop (SSelect None 1)) [] alarm]" "in_chans (en_vm e) = (\<lambda>_. [])(1 := [None])"
    "in_procs (en_vm e) = [\<lparr>pr_path = q, pr_args = args, pr_status = Exited None, pr_waiter = Finished\<rparr>]"
  shows "\<exists>e'. acts Linux (DefaultConfig Linux) json (restart_actions @ exit_of 1) e = Some e'
    \<and> en_runs e' = [RWait 1] \<and> en_ctxs e' = [False] \<and> en_state e' = BrowserRunning \<and> \<not> IsRunning (en_vm e')
    \<and> in_chans (en_vm e') 1 = []
    \<and> in_procs (en_vm e') = replicate 2 \<lparr>pr_path = q, pr_args = args, pr_status = Exited None, pr_waiter = Finished\<rparr>"
  using assms
  by (simp add: restart_actions_def exit_of_def numeral_eq_Suc step_defs recv_def DefaultConfig_def
      alive_def set_proc_def waiter_step_def Let_def)

text \<open>
  The exit status of the browser VM can be lost to the engine. There is one channel for it, and
  the \<^verbatim>\<open>Stop\<close> of the compromise handler receives from it as well as the \<^verbatim>\<open>Wait\<close> of the run; the
  restarted VM then has a new channel, while the run still waits at the old one. So after a
  remediation on a host on which every call succeeds, the second VM can exit with the state still
  Running, both processes gone, and the run blocked: it has no step until its context is
  cancelled.
\<close>

theorem browser_exit_unnoticed:
  "\<exists>e. be_reach Linux (DefaultConfig Linux) (\<lambda>_. Inr alarm) NewBrowserEngine e
     \<and> en_state e = BrowserRunning \<and> en_runs e = [RWait 1] \<and> length (in_procs (en_vm e)) = 2
     \<and> \<not> IsRunning (en_vm e) \<and> (\<forall>k. \<not> alive (en_vm e) k) \<and> \<not> en_ctxs e ! 0
     \<and> (\<forall>ch. run_next Linux (DefaultConfig Linux) 0 (en_runs e ! 0) ch e = None)"
proof -
  let ?cfg = "DefaultConfig Linux" and ?json = "\<lambda>_. Inr alarm"
  obtain q args where start: "\<forall>i. \<not> in_running i \<longrightarrow> Browser_Start Linux ?cfg sample_env i =
     Ret (None, fresh_channel (launch q args (i\<lparr>in_QEMUPath := q\<rparr>)))"
    using sample_browser_start by blast
  obtain e1 where e1: "acts Linux ?cfg ?json launch_actions NewBrowserEngine = Some e1"
    "en_runs e1 = [RWait 1]" "en_ctxs e1 = [False]" "mo_loops (en_mon e1) = [LTop 1]" "mo_observers (en_mon e1) = [0]"
    "\<not> mo_done (en_mon e1)" "in_running (en_vm e1)" "in_waitErr (en_vm e1) = 1" "in_chans (en_vm e1) = (\<lambda>_. [])"
    "in_procs (en_vm e1) = [\<lparr>pr_path = q, pr_args = args, pr_status = Alive, pr_waiter = Waiting\<rparr>]"
    using launch_run [OF start, of ?json] by blast
  obtain e2 where e2: "acts Linux ?cfg ?json (alarm_actions @ exit_of 0) e1 = Some e2"
    "en_runs e2 = [RWait 1]" "en_ctxs e2 = [False]" "\<not> in_running (en_vm e2)" "in_waitErr (en_vm e2) = 1"
    "mo_loops (en_mon e2) = [LHandle 0 (HStop (SSelect None 1)) [] alarm]" "in_chans (en_vm e2) = (\<lambda>_. [])(1 := [None])"
    "in_procs (en_vm e2) = [\<lparr>pr_path = q, pr_args = args, pr_status = Exited None, pr_waiter = Finished\<rparr>]"
    using alarm_run [OF e1(2-10)] by blast
  obtain e3 where e3: "acts Linux ?cfg ?json (restart_actions @ exit_of 1) e2 = Some e3"
    "en_runs e3 = [RWait 1]" "en_ctxs e3 = [False]" "en_state e3 = BrowserRunning" "\<not> IsRunning (en_vm e3)"
    "in_chans (en_vm e3) 1 = []"
    "in_procs (en_vm e3) = replicate 2 \<lparr>pr_path = q, pr_args = args, pr_status = Exited None, pr_waiter = Finished\<rparr>"
    using restart_run [OF start e2(2-8), of ?json] by blast
  have "be_reach Linux ?cfg ?json NewBrowserEngine e3"
    by (rule reach_acts [OF e3(1) reach_acts [OF e2(1) reach_acts [OF e1(1) be_reach.refl]]])
  moreover have "run_next Linux ?cfg 0 (RWait 1) ch e3 = None" for ch
    using e3(3,6) by (simp add: run_next_def recv_def split: choice.splits)
  ultimately show ?thesis using e3 by (intro exI [of _ e3]) (auto simp: alive_def nth_append)
qed

end
