(* ===== verification/Config_Watcher.thy ===== *)
theory Config_Watcher
  imports Config_Model
begin

text \<open>
  The configuration watcher (\<^verbatim>\<open>config/watcher.go\<close>). Its goroutine waits on four channels: the
  events and the errors of \<^verbatim>\<open>fsnotify\<close>, the debounce timer and \<^verbatim>\<open>done\<close>. A step is one pass
  through its \<^verbatim>\<open>select\<close>, or the passing of time, or a call of \<^verbatim>\<open>Close\<close>; several channels may be
  ready, so the step says which one is taken. Times are in milliseconds.
\<close>

section \<open>Definitions\<close>

text \<open>The operations an event of \<^verbatim>\<open>fsnotify\<close> can have.\<close>

datatype fs_op = FsCreate | FsWrite | FsRemove | FsRename | FsChmod

text \<open>
  \<open>cw_timer\<close> is the time at which the timer behind \<^verbatim>\<open>timerC\<close> fires, \<open>None\<close> when it is nil. The
  last four fields record the clock, the configurations \<^verbatim>\<open>onChange\<close> was called with, the times of
  the reloads and the number of events since the last of them.
\<close>

record ConfigWatcher =
  cw_path :: string
  cw_timer :: "int option"
  cw_done :: bool
  cw_returned :: bool
  cw_now :: int
  cw_onChange :: "Config list"
  cw_reloads :: "int list"
  cw_unseen :: nat

definition debounce :: int where "debounce = 300"

text \<open>\<open>add\<close> is what \<^verbatim>\<open>fsnotify.NewWatcher\<close> and \<^verbatim>\<open>Add\<close> answer.\<close>

definition NewConfigWatcher :: "goerr option \<Rightarrow> goerr option \<Rightarrow> string \<Rightarrow> int \<Rightarrow> ConfigWatcher res" where
  "NewConfigWatcher made add path now =
     (case made of
        Some err \<Rightarrow> Inl err
      | None \<Rightarrow>
          (case add of
             Some err \<Rightarrow> Inl err
           | None \<Rightarrow> Inr \<lparr>cw_path = path, cw_timer = None, cw_done = False, cw_returned = False, cw_now = now,
                          cw_onChange = [], cw_reloads = [], cw_unseen = 0\<rparr>))"

text \<open>The file system at the time of a reload: what \<^verbatim>\<open>os.Stat\<close> and \<^verbatim>\<open>os.ReadFile\<close> answer.\<close>

type_synonym files = "(string \<Rightarrow> nat file_res) \<times> (string \<Rightarrow> string file_res)"

definition reload :: "goos \<Rightarrow> jsonlib \<Rightarrow> files \<Rightarrow> ConfigWatcher \<Rightarrow> ConfigWatcher outcome" where
  "reload os js fs w =
     (case Load os js (fst fs) (snd fs) (cw_path w) of
        Panic m \<Rightarrow> Panic m
      | Ret (Inl _) \<Rightarrow> Ret w
      | Ret (Inr cfg) \<Rightarrow> Ret (w\<lparr>cw_onChange := cw_onChange w @ [cfg]\<rparr>))"

definition relevant :: "fs_op set \<Rightarrow> bool" where
  "relevant ops \<longleftrightarrow> FsWrite \<in> ops \<or> FsCreate \<in> ops \<or> FsChmod \<in> ops"

datatype watch_step =
  Elapse nat | FsEvent "fs_op set" | EventsClosed | TimerFires files | ErrorReceived | ErrorsClosed | DoneReceived | CallClose

definition loop_step ::
  "goos \<Rightarrow> jsonlib \<Rightarrow> ConfigWatcher \<Rightarrow> watch_step \<Rightarrow> ConfigWatcher outcome option" where
  "loop_step os js w st =
     (case st of
        Elapse d \<Rightarrow> Some (Ret (w\<lparr>cw_now := cw_now w + int d\<rparr>))
      | CallClose \<Rightarrow> Some (Ret (w\<lparr>cw_done := True\<rparr>))
      | _ \<Rightarrow>
          (if cw_returned w then None
           else case st of
             FsEvent ops \<Rightarrow>
               Some (Ret (if relevant ops
                          then w\<lparr>cw_timer := Some (cw_now w + debounce), cw_unseen := cw_unseen w + 1\<rparr> else w))
           | EventsClosed \<Rightarrow> Some (Ret (w\<lparr>cw_returned := True\<rparr>))
           | TimerFires fs \<Rightarrow>
               (case cw_timer w of
                  None \<Rightarrow> None
                | Some t \<Rightarrow>
                    (if cw_now w < t then None
                     else Some (reload os js fs
                       (w\<lparr>cw_timer := None, cw_reloads := cw_reloads w @ [cw_now w], cw_unseen := 0\<rparr>))))
           | ErrorReceived \<Rightarrow> Some (Ret w)
           | ErrorsClosed \<Rightarrow> Some (Ret (w\<lparr>cw_returned := True\<rparr>))
           | DoneReceived \<Rightarrow> (if cw_done w then Some (Ret (w\<lparr>cw_returned := True\<rparr>)) else None)
           | _ \<Rightarrow> None))"

inductive watch_reach :: "goos \<Rightarrow> jsonlib \<Rightarrow> ConfigWatcher \<Rightarrow> ConfigWatcher \<Rightarrow> bool" for os js b where
  init: "watch_reach os js b b"
| step: "watch_reach os js b w \<Longrightarrow> loop_step os js w st = Some (Ret w') \<Longrightarrow> watch_reach os js b w'"

text \<open>
  What a call of \<^verbatim>\<open>Close\<close> returns, in a later state: nothing as long as it waits for the goroutine,
  nil at once when the watcher was closed before, and else the answer \<open>err\<close> of \<^verbatim>\<open>fsnotify\<close>.
\<close>

definition watcher_Close :: "goerr option \<Rightarrow> bool \<Rightarrow> ConfigWatcher \<Rightarrow> goerr option option" where
  "watcher_Close err was_closed w = (if was_closed then Some None else if cw_returned w then Some err else None)"

section \<open>Lemmas\<close>

text \<open>A call of \<^verbatim>\<open>Close\<close> can always return, and then nothing is reloaded any more.\<close>

lemma close_can_return:
  "cw_done w \<Longrightarrow> \<not> cw_returned w \<Longrightarrow>
   \<exists>w'. loop_step os js w DoneReceived = Some (Ret w') \<and> watcher_Close err False w' = Some err"
  by (simp add: loop_step_def watcher_Close_def)

lemma closed_stays_quiet:
  "watch_reach os js b w \<Longrightarrow> watcher_Close err False b \<noteq> None \<Longrightarrow> cw_onChange w = cw_onChange b \<and> cw_returned w"
  by (induction rule: watch_reach.induct) (auto simp: watcher_Close_def loop_step_def split: if_splits watch_step.splits)

text \<open>Consecutive elements are at least \<open>d\<close> apart.\<close>

fun spaced :: "int \<Rightarrow> int list \<Rightarrow> bool" where
  "spaced d (x # y # zs) = (x + d \<le> y \<and> spaced d (y # zs))"
| "spaced d _ = True"

lemma spaced_snoc: "spaced d (xs @ [y]) \<longleftrightarrow> spaced d xs \<and> (xs = [] \<or> last xs + d \<le> y)"
  by (induction d xs rule: spaced.induct) auto

definition watch_inv :: "goos \<Rightarrow> ConfigWatcher \<Rightarrow> bool" where
  "watch_inv os w \<longleftrightarrow>
     spaced debounce (cw_reloads w) \<and> (cw_reloads w = [] \<or> last (cw_reloads w) \<le> cw_now w)
   \<and> (\<forall>t. cw_timer w = Some t \<longrightarrow> (cw_reloads w = [] \<or> last (cw_reloads w) + debounce \<le> t) \<and> t \<le> cw_now w + debounce)
   \<and> (cw_unseen w = 0 \<longleftrightarrow> cw_timer w = None)
   \<and> length (cw_onChange w) \<le> length (cw_reloads w) \<and> list_all (\<lambda>c. Validate os c = None) (cw_onChange w)"

lemma Load_valid: "Load os js stat rd path = Ret (Inr c) \<Longrightarrow> Validate os c = None"
  by (auto simp: Load_def Let_def validated_ok split: if_splits option.splits file_res.splits outcome.splits sum.splits)

lemma reload_cases:
  "reload os js fs w = Ret w' \<Longrightarrow> w' = w \<or> (\<exists>c. Validate os c = None \<and> w' = w\<lparr>cw_onChange := cw_onChange w @ [c]\<rparr>)"
  by (auto simp: reload_def split: outcome.splits sum.splits dest: Load_valid)

lemma loop_step_inv: "watch_inv os w \<Longrightarrow> loop_step os js w st = Some (Ret w') \<Longrightarrow> watch_inv os w'"
proof (cases st)
  case (TimerFires fs)
  assume inv: "watch_inv os w" and s: "loop_step os js w st = Some (Ret w')"
  let ?w = "w\<lparr>cw_timer := None, cw_reloads := cw_reloads w @ [cw_now w], cw_unseen := 0\<rparr>"
  have r: "reload os js fs ?w = Ret w'" and t: "\<exists>t. cw_timer w = Some t \<and> t \<le> cw_now w"
    using s TimerFires by (auto simp: loop_step_def split: if_splits option.splits)
  have "watch_inv os ?w" using inv t by (auto simp: watch_inv_def spaced_snoc)
  then show ?thesis using reload_cases [OF r] inv by (auto simp: watch_inv_def)
qed (auto simp: loop_step_def watch_inv_def debounce_def split: if_splits)

lemma watch_reach_inv: "watch_reach os js b w \<Longrightarrow> watch_inv os b \<Longrightarrow> watch_inv os w"
  by (induction rule: watch_reach.induct) (auto intro: loop_step_inv)

lemma new_watcher_inv: "NewConfigWatcher made add path now = Inr b \<Longrightarrow> watch_inv os b"
  by (auto simp: NewConfigWatcher_def watch_inv_def split: option.splits)

text \<open>A write and the timer, as an example.\<close>

lemma sample_watch:
  "\<exists>b w. NewConfigWatcher None None ''c.json'' 0 = Inr b \<and> watch_reach Linux sample_json b w
     \<and> cw_onChange w = [(DefaultConfig Linux)\<lparr>SOCKSPort := 9150, Version := 1\<rparr>]
     \<and> cw_reloads w = [300] \<and> cw_unseen w = 0 \<and> \<not> cw_returned w \<and> cw_timer w = None \<and> cw_now w = 300"
proof -
  obtain b where b: "NewConfigWatcher None None ''c.json'' 0 = Inr b" by (simp add: NewConfigWatcher_def)
  let ?c = "(DefaultConfig Linux)\<lparr>SOCKSPort := 9150, Version := 1\<rparr>"
  let ?fs = "(\<lambda>_. Present 420, \<lambda>_. Present ''{}'')"
  have load: "Load Linux sample_json (fst ?fs) (snd ?fs) ''c.json'' = Ret (Inr ?c)"
    by (simp add: Load_def Let_def check_perm_def migrateJSON_def migrate_loop.simps sample_json_def
                  ConfigVersion_def validated_def Validate_sample)
  let ?w1 = "b\<lparr>cw_timer := Some 300, cw_unseen := 1\<rparr>" let ?w2 = "?w1\<lparr>cw_now := 300\<rparr>"
  let ?w3 = "?w2\<lparr>cw_timer := None, cw_reloads := [300], cw_unseen := 0, cw_onChange := [?c]\<rparr>"
  have s: "loop_step Linux sample_json b (FsEvent {FsWrite}) = Some (Ret ?w1)"
    "loop_step Linux sample_json ?w1 (Elapse 300) = Some (Ret ?w2)"
    "loop_step Linux sample_json ?w2 (TimerFires ?fs) = Some (Ret ?w3)"
    using b load by (auto simp: NewConfigWatcher_def loop_step_def relevant_def debounce_def reload_def)
  then have "watch_reach Linux sample_json b ?w3" by (meson watch_reach.intros)
  then show ?thesis using b by (intro exI [of _ b] exI [of _ ?w3]) (auto simp: NewConfigWatcher_def)
qed

section \<open>Properties\<close>

text \<open>
  C18. Hot reload is debounced and loses nothing. Whatever events arrive and in whatever order the
  goroutine takes its channels, two reloads are at least 300 milliseconds apart, \<^verbatim>\<open>onChange\<close> is
  called at most once per reload and only with configurations that pass \<^verbatim>\<open>Validate\<close>; and as long
  as the goroutine has not returned, an event after the last reload has a timer pending that fires
  within 300 milliseconds, at which point the step that reloads is possible.
\<close>

theorem watcher_debounces:
  assumes "NewConfigWatcher made add path now = Inr b" "watch_reach os js b w"
  shows "spaced debounce (cw_reloads w) \<and> length (cw_onChange w) \<le> length (cw_reloads w)
    \<and> list_all (\<lambda>c. Validate os c = None) (cw_onChange w)
    \<and> (cw_unseen w > 0 \<and> \<not> cw_returned w \<longrightarrow>
        (\<exists>d. int d \<le> debounce \<and> (\<exists>w1. loop_step os js w (Elapse d) = Some (Ret w1)
           \<and> (\<forall>fs. \<exists>out. loop_step os js w1 (TimerFires fs) = Some out))))"
proof -
  have inv: "watch_inv os w" using assms new_watcher_inv watch_reach_inv by blast
  moreover have "\<exists>d. int d \<le> debounce \<and> (\<exists>w1. loop_step os js w (Elapse d) = Some (Ret w1)
           \<and> (\<forall>fs. \<exists>out. loop_step os js w1 (TimerFires fs) = Some out))"
    if "cw_unseen w > 0" "\<not> cw_returned w"
  proof -
    obtain t where "cw_timer w = Some t" "t \<le> cw_now w + debounce"
      using inv \<open>cw_unseen w > 0\<close> by (auto simp: watch_inv_def)
    then show ?thesis using that(2)
      by (intro exI [of _ "nat (t - cw_now w)"]) (auto simp: loop_step_def debounce_def)
  qed
  ultimately show ?thesis by (auto simp: watch_inv_def)
qed

text \<open>A write, the timer, and a second write.\<close>

theorem watcher_debounces_witness:
  "\<exists>b w. NewConfigWatcher None None ''c.json'' 0 = Inr b \<and> watch_reach Linux sample_json b w
     \<and> cw_reloads w = [300] \<and> length (cw_onChange w) = 1 \<and> cw_unseen w = 1 \<and> \<not> cw_returned w
     \<and> (\<exists>d w1. loop_step Linux sample_json w (Elapse d) = Some (Ret w1) \<and> d \<le> 300)"
proof -
  obtain b w where b: "NewConfigWatcher None None ''c.json'' 0 = Inr b" and w: "watch_reach Linux sample_json b w"
    "length (cw_onChange w) = 1" "cw_reloads w = [300]" "cw_unseen w = 0" "\<not> cw_returned w"
    using sample_watch by fastforce
  let ?w = "w\<lparr>cw_timer := Some (cw_now w + debounce), cw_unseen := 1\<rparr>"
  have "loop_step Linux sample_json w (FsEvent {FsWrite}) = Some (Ret ?w)"
    using w by (simp add: loop_step_def relevant_def)
  then have r: "watch_reach Linux sample_json b ?w" by (rule watch_reach.step [OF w(1)])
  with watcher_debounces [OF b r] b w show ?thesis
    by (intro exI [of _ b] exI [of _ ?w]) (auto simp: debounce_def)
qed

end
