(* ===== verification/Main_Program.thy ===== *)
theory Main_Program
  imports Gui_App Browser_Engine Config_Watcher
begin

text \<open>
  The start of the program (\<^verbatim>\<open>cmd/torvm/main.go\<close>) and the detection of the platform
  (\<^verbatim>\<open>internal/platform\<close>): from the flags and the configuration file to the mode in which the
  controller runs, the observers that \<^verbatim>\<open>main\<close> hangs on the engine, and the queries of a running
  instance. What the operating system answers is an argument; log messages are left out.
\<close>

section \<open>Platform\<close>

record Info =
  pi_Accel :: string
  pi_VhostNet :: bool
  pi_IOMMUSupport :: bool

text \<open>What the probes answer: opening \<^verbatim>\<open>/dev/kvm\<close>, \<^verbatim>\<open>stat\<close> of \<^verbatim>\<open>/dev/vhost-net\<close>, the entries of the
  IOMMU groups, and the output of \<^verbatim>\<open>sysctl\<close> and \<^verbatim>\<open>systeminfo\<close>.\<close>

record probes =
  pb_kvm :: "goerr option"
  pb_vhost :: "goerr option"
  pb_iommu :: "string list res"
  pb_sysctl :: "string res"
  pb_systeminfo :: "string res"

definition detect_linux :: "probes \<Rightarrow> Info" where
  "detect_linux p =
     \<lparr>pi_Accel = (if pb_kvm p = None then ''kvm'' else ''tcg''), pi_VhostNet = (pb_vhost p = None),
      pi_IOMMUSupport = (case pb_iommu p of Inl _ \<Rightarrow> False | Inr entries \<Rightarrow> length entries > 0)\<rparr>"

definition detect_darwin :: "probes \<Rightarrow> Info" where
  "detect_darwin p =
     \<lparr>pi_Accel = (case pb_sysctl p of Inl _ \<Rightarrow> ''tcg'' | Inr out \<Rightarrow> if trim_space out = ''1'' then ''hvf'' else ''tcg''),
      pi_VhostNet = False, pi_IOMMUSupport = False\<rparr>"

definition detect_windows :: "probes \<Rightarrow> Info" where
  "detect_windows p =
     \<lparr>pi_Accel = (case pb_systeminfo p of
                    Inl _ \<Rightarrow> ''tcg''
                  | Inr out \<Rightarrow> if contains_str (to_lower out) ''hypervisor has been detected'' then ''whpx'' else ''tcg''),
      pi_VhostNet = False, pi_IOMMUSupport = False\<rparr>"

text \<open>There is no other system: package \<^verbatim>\<open>platform\<close> has no \<^verbatim>\<open>detect\<close> for it and does not build.\<close>

definition Detect :: "goos \<Rightarrow> probes \<Rightarrow> Info" where
  "Detect os p =
     (case os of Linux \<Rightarrow> detect_linux p | Darwin \<Rightarrow> detect_darwin p | Windows \<Rightarrow> detect_windows p
      | OtherOS _ \<Rightarrow> \<lparr>pi_Accel = ''tcg'', pi_VhostNet = False, pi_IOMMUSupport = False\<rparr>)"

definition ParseAccel :: "string \<Rightarrow> string res" where
  "ParseAccel s =
     (if s \<in> set [''kvm'', ''hvf'', ''whpx'', ''tcg''] then Inr s
      else Inl (ErrMsg (''unknown accelerator: '' @ quote s)))"

section \<open>Start\<close>

record flags =
  fg_accel :: string
  fg_verbose :: bool
  fg_headless :: bool
  fg_config :: string
  fg_clean :: bool
  fg_replace :: bool
  fg_serviceInstall :: bool
  fg_serviceUninstall :: bool
  fg_serviceRun :: bool
  fg_metricsAddr :: string
  fg_logFormat :: string
  fg_logFile :: string
  fg_timeout :: int
  fg_status :: bool
  fg_version :: bool

text \<open>What the calls of \<^verbatim>\<open>main\<close> answer: installing and removing the service, loading the
  configuration, dialling the control port for \<^verbatim>\<open>--status\<close>, the logger and the metrics server.\<close>

record outside =
  ot_install :: "goerr option"
  ot_uninstall :: "goerr option"
  ot_load :: "Config res outcome"
  ot_dial :: "string \<Rightarrow> goerr option"
  ot_bootstrap :: "(int \<times> string) res"
  ot_probes :: probes
  ot_logger :: "goerr option"
  ot_metrics :: "goerr option"

datatype mode = ServiceMode | HeadlessMode | GuiMode

text \<open>\<^verbatim>\<open>main\<close> ends with an exit code and what it printed, goes on in a mode with a configuration,
  having removed files, or panics while it loads the configuration.\<close>

datatype startup = Exits nat "string list" | Starts mode Config "string list" | Panics string

text \<open>\<open>boot\<close> is the status that the control connection of a running instance reports.\<close>

definition queryStatus :: "(string \<Rightarrow> goerr option) \<Rightarrow> (int \<times> string) res \<Rightarrow> Config \<Rightarrow> nat \<times> string list" where
  "queryStatus dial boot cfg =
     (let addr = VMIP cfg @ '':'' @ itoa (ControlPort cfg) in
      case dial addr of
        Some _ \<Rightarrow> (1, [''TorVM Status: Stopped'', ''  (could not reach '' @ addr @ '')''])
      | None \<Rightarrow>
          (0, [''TorVM Status: Running'', ''  SOCKS Port: '' @ itoa (SOCKSPort cfg)]
              @ (case boot of
                   Inl _ \<Rightarrow> []
                 | Inr (progress, summary) \<Rightarrow> [''  Bootstrap: '' @ itoa progress @ ''% - '' @ summary])))"

definition service_command :: "goos \<Rightarrow> string \<Rightarrow> goerr option \<Rightarrow> startup" where
  "service_command os what result =
     (case os of
        OtherOS name \<Rightarrow> Exits 1 [''error: service '' @ what @ '' not supported on '' @ name]
      | _ \<Rightarrow>
          (case result of
             Some err \<Rightarrow> Exits 1 [''error: service '' @ what @ '': '' @ error_msg err]
           | None \<Rightarrow> Exits 0 [''TorVM service '' @ what @ ''ed.'']))"

text \<open>The configuration with the flags and the detected capabilities; the flag \<^verbatim>\<open>--verbose\<close>
  replaces the setting of the file.\<close>

definition apply_flags :: "flags \<Rightarrow> Info \<Rightarrow> Config \<Rightarrow> Config res" where
  "apply_flags fg info cfg =
     bind_res (if fg_accel fg \<noteq> [] then ParseAccel (fg_accel fg) else Inr (pi_Accel info))
       (\<lambda>accel. Inr (cfg\<lparr>Verbose := fg_verbose fg, Accel := accel,
                         VhostNet := pi_VhostNet info, IOMMUEnabled := pi_IOMMUSupport info\<rparr>))"

definition main :: "goos \<Rightarrow> flags \<Rightarrow> outside \<Rightarrow> startup" where
  "main os fg ot =
     (if fg_version fg then Exits 0 [''torvm version 0.1.0'']
      else if fg_serviceInstall fg then service_command os ''install'' (ot_install ot)
      else if fg_serviceUninstall fg then service_command os ''uninstall'' (ot_uninstall ot)
      else case ot_load ot of
        Panic m \<Rightarrow> Panics m
      | Ret (Inl err) \<Rightarrow> Exits 1 [''error: load config: '' @ error_msg err]
      | Ret (Inr cfg0) \<Rightarrow>
          (if fg_status fg
           then (case queryStatus (ot_dial ot) (ot_bootstrap ot) cfg0 of (code, out) \<Rightarrow> Exits code out)
           else case apply_flags fg (Detect os (ot_probes ot)) cfg0 of
             Inl err \<Rightarrow> Exits 1 [''error: '' @ error_msg err]
           | Inr cfg \<Rightarrow>
               (case ot_logger ot of
                  Some err \<Rightarrow> Exits 1 [''error: create logger: '' @ error_msg err]
                | None \<Rightarrow>
                    (if fg_serviceRun fg then Starts ServiceMode cfg []
                     else if fg_metricsAddr fg \<noteq> [] \<and> ot_metrics ot \<noteq> None
                       then Exits 1 [''error: metrics server: '' @ error_msg (the (ot_metrics ot))]
                     else Starts (if fg_headless fg then HeadlessMode else GuiMode) cfg
                            (if fg_clean fg \<or> fg_replace fg then [StateDiskPath cfg] else [])))))"

text \<open>The answer of the health endpoint, before and after the engine exists; \<open>uptime\<close> in seconds.\<close>

record HealthStatus =
  hs_State :: string
  hs_Bootstrap :: int
  hs_Failsafe :: bool
  hs_UptimeSeconds :: int
  hs_BootstrapPercent :: int
  hs_VMPID :: int
  hs_LastError :: string
  hs_Version :: string

definition healthFn :: "('w, 's, 'c) sys option \<Rightarrow> int \<Rightarrow> string \<Rightarrow> HealthStatus" where
  "healthFn engine uptime lastError =
     (case engine of
        None \<Rightarrow> \<lparr>hs_State = ''Init'', hs_Bootstrap = 0, hs_Failsafe = False, hs_UptimeSeconds = 0,
                 hs_BootstrapPercent = 0, hs_VMPID = 0, hs_LastError = [], hs_Version = ''0.1.0''\<rparr>
      | Some e \<Rightarrow>
          (let bootstrap = (if state e = StateRunning then 100 else 0) in
           \<lparr>hs_State = state_string (state e), hs_Bootstrap = bootstrap, hs_Failsafe = active e,
            hs_UptimeSeconds = uptime, hs_BootstrapPercent = bootstrap, hs_VMPID = 0,
            hs_LastError = lastError,
            hs_Version = ''0.1.0''\<rparr>))"

section \<open>Observers\<close>

text \<open>
  The observer for systemd. \<open>sd_closed\<close> tells whether \<^verbatim>\<open>watchdogStop\<close> is closed, \<open>sd_watchdogs\<close> counts
  the watchdog goroutines, \<open>sd_sent\<close> lists the notifications. Closing a closed channel panics, and
  since observers are called by \<^verbatim>\<open>transition\<close>, the panic ends the program.
\<close>

record systemd_obs =
  sd_closed :: bool
  sd_watchdogs :: nat
  sd_sent :: "string list"

definition new_obs :: systemd_obs where
  "new_obs = \<lparr>sd_closed = False, sd_watchdogs = 0, sd_sent = []\<rparr>"

definition sd_status :: "string \<Rightarrow> systemd_obs \<Rightarrow> systemd_obs" where
  "sd_status st ob = ob\<lparr>sd_sent := sd_sent ob @ [''STATUS='' @ st]\<rparr>"

definition systemd_observer :: "State \<Rightarrow> systemd_obs \<Rightarrow> systemd_obs outcome" where
  "systemd_observer to ob =
     (case to of
        StateRunning \<Rightarrow>
          Ret ((sd_status ''running - Tor connected'' (ob\<lparr>sd_sent := sd_sent ob @ [''READY=1'']\<rparr>))
                 \<lparr>sd_watchdogs := sd_watchdogs ob + 1\<rparr>)
      | StateShutdown \<Rightarrow>
          (if sd_closed ob then Panic ''close of closed channel''
           else Ret (sd_status ''shutting down'' (ob\<lparr>sd_closed := True\<rparr>)))
      | StateWaitBootstrap \<Rightarrow> Ret (sd_status ''waiting for Tor bootstrap'' ob)
      | StateLaunchVM \<Rightarrow> Ret (sd_status ''launching VM'' ob)
      | StateCreateTAP \<Rightarrow> Ret (sd_status ''creating TAP adapter'' ob)
      | _ \<Rightarrow> Ret ob)"

text \<open>The observer on the transitions of an engine, in order.\<close>

fun observe_all :: "(State \<times> State) list \<Rightarrow> systemd_obs \<Rightarrow> systemd_obs outcome" where
  "observe_all [] ob = Ret ob"
| "observe_all ((frm, to) # ts) ob =
     (case systemd_observer to ob of Panic m \<Rightarrow> Panic m | Ret ob' \<Rightarrow> observe_all ts ob')"

text \<open>The observer that starts and stops the browser VM with the Tor VM.\<close>

definition browser_observer :: "State \<Rightarrow> BrowserEngine \<Rightarrow> BrowserEngine" where
  "browser_observer to e =
     (let e1 = (if to = StateRunning then browser_Start e else e) in
      if to = StateShutdown then browser_Stop e1 else e1)"

section \<open>Lemmas\<close>

definition accels :: "string list" where
  "accels = ['''', ''kvm'', ''hvf'', ''whpx'', ''tcg'']"

lemma vm_accel:
  "validate_vm os c = None \<Longrightarrow> a \<in> set accels \<Longrightarrow>
   validate_vm os (c\<lparr>Verbose := v, Accel := a, VhostNet := vh, IOMMUEnabled := im\<rparr>) = None"
  unfolding validate_vm_def accels_def [symmetric] and_then_None checks_None by simp

lemma Validate_accel:
  assumes "Validate os c = None" "a \<in> set accels"
  shows "Validate os (c\<lparr>Verbose := v, Accel := a, VhostNet := vh, IOMMUEnabled := im\<rparr>) = None"
  using assms vm_accel [of os c a] by (simp add: Validate_None validate_ips_def)

lemma detected_accel: "pi_Accel (Detect os p) \<in> set accels"
  by (auto simp: accels_def Detect_def detect_linux_def detect_darwin_def detect_windows_def split: goos.splits sum.splits)

lemma parsed_accel: "ParseAccel s = Inr a \<Longrightarrow> a \<in> set accels"
  by (auto simp: ParseAccel_def accels_def split: if_splits)

lemma apply_flags_valid:
  "apply_flags fg (Detect os p) c = Inr c' \<Longrightarrow> Validate os c = None \<Longrightarrow> Validate os c' = None"
  by (auto simp: apply_flags_def bind_res_Inr intro!: Validate_accel detected_accel dest: parsed_accel split: if_splits)

lemma observe_shutdowns:
  "observe_all ts ob = Ret ob' \<Longrightarrow> length (filter (\<lambda>t. snd t = StateShutdown) ts) + (if sd_closed ob then 1 else 0) \<le> 1"
  by (induction ts ob arbitrary: ob' rule: observe_all.induct)
     (fastforce simp: systemd_observer_def sd_status_def split: outcome.splits State.splits if_splits)+

lemma observe_panic: "observe_all ts ob = Panic m \<Longrightarrow> m = ''close of closed channel''"
  by (induction ts ob rule: observe_all.induct)
     (auto simp: systemd_observer_def split: outcome.splits State.splits if_splits)

lemma observed_shutdown:
  "Observe a StateShutdown \<in> set es \<Longrightarrow> 1 \<le> length (filter (\<lambda>t. snd t = StateShutdown) (observed es))"
  by (induction es rule: observed.induct) auto

section \<open>Properties\<close>

text \<open>
  C14. What \<^verbatim>\<open>main\<close> starts with. Whatever the flags say, what the probes of the platform find and
  which service manager answers what: when the configuration came from \<^verbatim>\<open>Load\<close> and \<^verbatim>\<open>main\<close>
  goes on in some mode, the configuration it uses still passes \<^verbatim>\<open>Validate\<close>, and the only file
  it has removed is the state disk, and that only on request; otherwise the exit code is 0 only
  for the commands that only answer (version, a service command that succeeded, the status of
  an instance that is reachable).
\<close>

theorem main_starts_valid:
  assumes "ot_load ot = Load os js stat rd (fg_config fg)"
  shows "case main os fg ot of
      Starts m cfg removed \<Rightarrow> Validate os cfg = None \<and> set removed \<subseteq> {StateDiskPath cfg}
        \<and> (removed \<noteq> [] \<longrightarrow> fg_clean fg \<or> fg_replace fg)
    | Exits code out \<Rightarrow>
        (code = 0 \<longrightarrow> fg_version fg \<or> (fg_serviceInstall fg \<and> ot_install ot = None)
           \<or> (fg_serviceUninstall fg \<and> ot_uninstall ot = None)
           \<or> (fg_status fg \<and> (\<exists>addr. ot_dial ot addr = None)))
    | Panics m \<Rightarrow> Load os js stat rd (fg_config fg) = Panic m"
proof (cases "fg_version fg \<or> fg_serviceInstall fg \<or> fg_serviceUninstall fg")
  case True
  then show ?thesis by (auto simp: main_def service_command_def split: goos.splits option.splits)
next
  case False
  then have early: "\<not> fg_version fg" "\<not> fg_serviceInstall fg" "\<not> fg_serviceUninstall fg" by auto
  show ?thesis
  proof (cases "ot_load ot")
    case (Panic m)
    then show ?thesis using early assms by (simp add: main_def)
  next
    case (Ret r)
    show ?thesis
    proof (cases r)
      case (Inl e)
      then show ?thesis using early Ret by (simp add: main_def)
    next
      case (Inr cfg0)
      then have v: "Validate os cfg0 = None" using Ret assms Load_valid by metis
      show ?thesis
      proof (cases "fg_status fg")
        case True
        then show ?thesis using early Ret Inr by (auto simp: main_def queryStatus_def Let_def split: option.splits)
      next
        case False
        then show ?thesis using early Ret Inr apply_flags_valid [OF _ v]
          by (cases "apply_flags fg (Detect os (ot_probes ot)) cfg0") (simp_all add: main_def split: option.splits)
      qed
    qed
  qed
qed

definition sample_flags :: flags where
  "sample_flags = \<lparr>fg_accel = [], fg_verbose = True, fg_headless = True, fg_config = ''c.json'', fg_clean = True,
     fg_replace = False, fg_serviceInstall = False, fg_serviceUninstall = False, fg_serviceRun = False,
     fg_metricsAddr = [], fg_logFormat = [], fg_logFile = [], fg_timeout = 0,
     fg_status = False, fg_version = False\<rparr>"

definition sample_outside :: outside where
  "sample_outside = \<lparr>ot_install = None, ot_uninstall = None,
     ot_load = Load Linux sample_json (\<lambda>_. Present 420) (\<lambda>_. Present ''{}'') ''c.json'',
     ot_dial = (\<lambda>_. None), ot_bootstrap = Inr (100, ''Done''),
     ot_probes = \<lparr>pb_kvm = None, pb_vhost = None, pb_iommu = Inr [], pb_sysctl = Inr [], pb_systeminfo = Inr []\<rparr>,
     ot_logger = None, ot_metrics = None\<rparr>"

theorem main_starts_valid_witness:
  "\<exists>cfg. main Linux sample_flags sample_outside = Starts HeadlessMode cfg [StateDiskPath cfg]
     \<and> Accel cfg = ''kvm'' \<and> Validate Linux cfg = None"
proof -
  have load: "ot_load sample_outside = Load Linux sample_json (\<lambda>_. Present 420) (\<lambda>_. Present ''{}'') (fg_config sample_flags)"
    by (simp add: sample_outside_def sample_flags_def)
  have "Load Linux sample_json (\<lambda>_. Present 420) (\<lambda>_. Present ''{}'') ''c.json''
      = Ret (Inr ((DefaultConfig Linux)\<lparr>SOCKSPort := 9150, Version := 1\<rparr>))"
    by (simp add: Load_def Let_def check_perm_def migrateJSON_def migrate_loop.simps sample_json_def
                  ConfigVersion_def validated_def Validate_sample)
  then obtain cfg where "main Linux sample_flags sample_outside = Starts HeadlessMode cfg [StateDiskPath cfg]" "Accel cfg = ''kvm''"
    by (simp add: main_def sample_flags_def sample_outside_def apply_flags_def Detect_def detect_linux_def bind_res_def)
  with main_starts_valid [OF load] show ?thesis by (intro exI [of _ cfg]) simp
qed

text \<open>
  Under systemd a cancelled run ends in a panic. Once the context is cancelled (by SIGTERM, or
  when the maximal run time is over) every round of \<^verbatim>\<open>Run\<close> moves to the shutdown state, and the
  observer for systemd closes the same channel each time: within two rounds it closes a closed
  channel. The program then ends without having torn the routing down, restored the saved network
  configuration or destroyed the TAP device since the cancellation.
\<close>

lemma systemd_cancel_panics:
  assumes "stays_cancelled env C" "C (world s)"
  shows "\<exists>s' new. after_rounds os env n 2 s = Some s' \<and> calls s' = calls s @ new
    \<and> observe_all (observed (calls s')) new_obs = Panic ''close of closed channel''
    \<and> (\<forall>e\<in>set new. shutdown_event e)"
proof -
  obtain s1 new1 a1 where s1: "iterate os env n s = Some (Continue s1)" "C (world s1)" "calls s1 = calls s @ new1"
    "\<forall>e\<in>set new1. shutdown_event e" "Observe a1 StateShutdown \<in> set new1"
    using cancelled_round [OF assms] by blast
  obtain s2 new2 a2 where s2: "iterate os env n s1 = Some (Continue s2)" "calls s2 = calls s1 @ new2"
    "\<forall>e\<in>set new2. shutdown_event e" "Observe a2 StateShutdown \<in> set new2"
    using cancelled_round [OF assms(1) s1(2)] by blast
  have after: "after_rounds os env n 2 s = Some s2" using s1(1) s2(1) by (simp add: numeral_2_eq_2)
  have "2 \<le> length (filter (\<lambda>t. snd t = StateShutdown) (observed (calls s2)))"
    using observed_shutdown [OF s1(5)] observed_shutdown [OF s2(4)] by (simp add: s1(3) s2(2))
  then have "observe_all (observed (calls s2)) new_obs \<noteq> Ret ob" for ob
    using observe_shutdowns [of "observed (calls s2)" new_obs ob] by (auto simp: new_obs_def)
  then have "observe_all (observed (calls s2)) new_obs = Panic ''close of closed channel''"
    using observe_panic by (cases "observe_all (observed (calls s2)) new_obs") auto
  then show ?thesis using after s1 s2 by auto
qed

text \<open>
  A hot reload can strand the TAP device. \<^verbatim>\<open>ReloadConfig\<close> makes the new configuration the
  engine's even when it reports that part of it needs a restart. So when a reload brings a new
  TAP name together with a hot-reloadable change, the next \<^verbatim>\<open>doRestoreNetwork\<close> destroys a device
  of the new name only, and the device of the old name, which carries the addresses, stays.
\<close>

theorem hot_reload_strands_tap:
  assumes "ReloadConfig env newCfg s = (None, s1)" "HasChanges (Diff (config s) newCfg)" "config t = config s1"
  shows "\<exists>new. calls (snd (doRestoreNetwork env t)) = calls t @ new
    \<and> (\<exists>r. EDestroyTAP (TAPName newCfg) r \<in> set new)
    \<and> (\<forall>name r. EDestroyTAP name r \<in> set new \<longrightarrow> name = TAPName newCfg)"
proof -
  have "config t = newCfg" using assms by (auto simp: ReloadConfig_def Let_def split: prod.splits option.splits)
  then show ?thesis
    by (auto simp: doRestoreNetwork_def Let_def Activate_def transition_def ask_def split: prod.splits option.splits)
qed

definition renamed_tap :: Config where
  "renamed_tap = (DefaultConfig Linux)\<lparr>TAPName := ''tap9''\<rparr>"

theorem hot_reload_strands_tap_witness:
  "\<exists>s1 new. ReloadConfig calm renamed_tap calm_connected = (None, s1) \<and> TAPName (config calm_connected) = ''torvm0''
     \<and> calls (snd (doRestoreNetwork calm s1)) = calls s1 @ new
     \<and> (\<forall>r. EDestroyTAP ''torvm0'' r \<notin> set new) \<and> (\<exists>r. EDestroyTAP ''tap9'' r \<in> set new)"
proof -
  have d: "HasChanges (Diff two_bridges renamed_tap)" "length (HotReloadable (Diff two_bridges renamed_tap)) > 0"
    "TorrcOverlay renamed_tap = Inr []" "TAPName two_bridges = ''torvm0''" "TAPName renamed_tap = ''tap9''"
    by code_simp+
  have c: "config calm_connected = two_bridges" by (simp add: calm_connected_def NewEngine_def)
  obtain s1 where s1: "ReloadConfig calm renamed_tap calm_connected = (None, s1)"
    using d(1-3) by (simp add: ReloadConfig_def c) (simp add: calm_connected_def Let_def push_config_def)
  have h: "HasChanges (Diff (config calm_connected) renamed_tap)" using d(1) by (simp only: c)
  obtain new where n: "calls (snd (doRestoreNetwork calm s1)) = calls s1 @ new" "\<exists>r. EDestroyTAP ''tap9'' r \<in> set new"
      "\<forall>name r. EDestroyTAP name r \<in> set new \<longrightarrow> name = ''tap9''"
    using hot_reload_strands_tap [OF s1 h HOL.refl] unfolding d(5) by blast
  have "TAPName (config calm_connected) = ''torvm0''" using d(4) by (simp only: c)
  moreover have "\<forall>r. EDestroyTAP ''torvm0'' r \<notin> set new" using n(3) by force
  ultimately show ?thesis using s1 n(1,2) by blast
qed

end
