(* ===== verification/Go_Scan.thy ===== *)
theory Go_Scan
  imports Go_Prelude
begin

text \<open>
  \<^verbatim>\<open>fmt.Sscanf(s, "%d", &x)\<close> of Go, as the update checker and the launchd status use it: white
  space is skipped, a line feed ends the scan with an error, then an optional sign and the longest
  run of digits are read; what follows is ignored. \<open>None\<close> means that the variable keeps its value.
\<close>

function scan_skip :: "string \<Rightarrow> string option" where
  "scan_skip s =
     (case s of
        [] \<Rightarrow> Some []
      | c # _ \<Rightarrow> (if c = NL then None else if space_len s = 0 then Some s else scan_skip (drop (space_len s) s)))"
  by pat_completeness auto
termination
  by (relation "measure length") auto

declare scan_skip.simps [simp del]

definition sscanf_d :: "string \<Rightarrow> int option" where
  "sscanf_d s =
     (case scan_skip s of
        None \<Rightarrow> None
      | Some r \<Rightarrow>
          (let (neg, t) = sign_digits r; ds = takeWhile is_digit t;
               v = (if neg then - int (digits_val ds) else int (digits_val ds))
           in if ds = [] then None else if - (2 ^ 63) \<le> v \<and> v < 2 ^ 63 then Some v else None))"

lemma scan_skip_graphic: "graphic c \<Longrightarrow> scan_skip (c # r) = Some (c # r)"
  by (subst scan_skip.simps) (auto simp: space_len_graphic NL_def graphic_def)

text \<open>A number followed by something that is not a digit is read back.\<close>

lemma sscanf_d_digits:
  assumes "list_all is_digit ds" "ds \<noteq> []" "digits_val ds < 2 ^ 63" "r = [] \<or> \<not> is_digit (hd r)"
  shows "sscanf_d (ds @ r) = Some (int (digits_val ds))"
proof -
  obtain c cs where ds: "ds = c # cs" using assms(2) by (cases ds) auto
  then have c: "is_digit c" using assms(1) by simp
  then have skip: "scan_skip (ds @ r) = Some (ds @ r)" using ds scan_skip_graphic [OF digit_graphic] by simp
  have sd: "sign_digits (ds @ r) = (False, ds @ r)" using c by (auto simp: ds sign_digits_def is_digit_def)
  have tk: "takeWhile is_digit (ds @ r) = ds"
    using assms(1,4) by (cases r) (auto simp: takeWhile_append list_all_iff)
  have "int (digits_val ds) < 2 ^ 63" using assms(3) by (metis of_nat_less_iff of_nat_numeral of_nat_power)
  then show ?thesis using assms(2) by (simp add: sscanf_d_def skip sd tk)
qed

lemma sscanf_d_number: "n < 2 ^ 63 \<Longrightarrow> r = [] \<or> \<not> is_digit (hd r) \<Longrightarrow> sscanf_d (digits_of n @ r) = Some (int n)"
  using sscanf_d_digits [of "digits_of n" r] digits_of_digits digits_of_nonempty by simp

end
