(* ===== verification/Service_Units.thy ===== *)
theory Service_Units
  imports Go_Scan
begin

text \<open>
  The integration with the service managers: launchd on macOS (\<^verbatim>\<open>internal/launchd\<close>), systemd and its
  journal on Linux (\<^verbatim>\<open>internal/systemd\<close>), and the service control manager of Windows
  (\<^verbatim>\<open>internal/winsvc\<close>). What the operating system and the commands answer is an argument; the
  functions return what they did as a list of effects. Log messages are left out.
\<close>

section \<open>Effects\<close>

datatype effect =
    Exec string "string list"
  | CreateTemp string string
  | WriteFile string string
  | RemoveFile string

text \<open>The answer of a command: its output and its error.\<close>

type_synonym exec = "string \<Rightarrow> string list \<Rightarrow> string \<times> goerr option"

section \<open>launchd\<close>

definition safeValueRe :: "string \<Rightarrow> bool" where
  "safeValueRe s \<longleftrightarrow> s \<noteq> [] \<and> list_all (\<lambda>c. is_alnum c \<or> c \<in> set ''/._- '') s"

definition serviceLabel :: string where "serviceLabel = ''org.torproject.torvm''"
definition plistPath :: string where "plistPath = ''/Library/LaunchDaemons/org.torproject.torvm.plist''"
definition logDir :: string where "logDir = ''/var/log/torvm''"
definition logPath :: string where "logPath = ''/var/log/torvm/torvm.log''"
definition binaryPath :: string where "binaryPath = ''/usr/local/bin/torvm''"

text \<open>\<^verbatim>\<open>strings.ReplaceAll\<close> of one character.\<close>

definition replace_char :: "char \<Rightarrow> string \<Rightarrow> string \<Rightarrow> string" where
  "replace_char c r s = concat (map (\<lambda>x. if x = c then r else [x]) s)"

definition escapeAppleScript :: "string \<Rightarrow> string" where
  "escapeAppleScript s = replace_char DQ [BSL, DQ] (replace_char BSL [BSL, BSL] s)"

definition validateShellValue :: "string \<Rightarrow> string \<Rightarrow> goerr option" where
  "validateShellValue name value =
     guard_err (\<not> safeValueRe value) (ErrMsg (name @ '' contains unsafe characters: '' @ quote value))"

definition runPrivileged :: "exec \<Rightarrow> string \<Rightarrow> goerr option \<times> effect list" where
  "runPrivileged run command =
     (let script = ''do shell script '' @ [DQ] @ escapeAppleScript command @ [DQ] @ '' with administrator privileges'' in
      case run ''osascript'' [''-e'', script] of
        (out, err) \<Rightarrow>
          ((case err of
              None \<Rightarrow> None
            | Some e \<Rightarrow> Some (ErrMsg (''privileged command failed: '' @ error_msg e @ '': '' @ trim_space out))),
           [Exec ''osascript'' [''-e'', script]]))"

definition plist_lines :: "bool \<Rightarrow> string list" where
  "plist_lines runAtLoad =
     [''<?xml version='' @ [DQ] @ ''1.0'' @ [DQ] @ '' encoding='' @ [DQ] @ ''UTF-8'' @ [DQ] @ ''?>'',
      ''<!DOCTYPE plist PUBLIC '' @ [DQ] @ ''-//Apple//DTD PLIST 1.0//EN'' @ [DQ] @ '' '' @ [DQ]
        @ ''http://www.apple.com/DTDs/PropertyList-1.0.dtd'' @ [DQ] @ ''>'',
      ''<plist version='' @ [DQ] @ ''1.0'' @ [DQ] @ ''>'',
      ''<dict>'',
      TAB # ''<key>Label</key>'',
      TAB # ''<string>'' @ serviceLabel @ ''</string>'',
      TAB # ''<key>ProgramArguments</key>'',
      TAB # ''<array>'',
      TAB # TAB # ''<string>'' @ binaryPath @ ''</string>'',
      TAB # TAB # ''<string>--headless</string>'',
      TAB # ''</array>'',
      TAB # ''<key>RunAtLoad</key>'',
      TAB # ''<'' @ (if runAtLoad then ''true'' else ''false'') @ ''/>'',
      TAB # ''<key>KeepAlive</key>'',
      TAB # ''<dict>'',
      TAB # TAB # ''<key>SuccessfulExit</key>'',
      TAB # TAB # ''<false/>'',
      TAB # ''</dict>'',
      TAB # ''<key>StandardOutPath</key>'',
      TAB # ''<string>'' @ logPath @ ''</string>'',
      TAB # ''<key>StandardErrorPath</key>'',
      TAB # ''<string>'' @ logPath @ ''</string>'',
      ''</dict>'',
      ''</plist>'', '''']"

definition generatePlist :: "bool \<Rightarrow> string" where
  "generatePlist runAtLoad = join [NL] (plist_lines runAtLoad)"

definition sq :: "string \<Rightarrow> string" where
  "sq s = CHR 0x27 # s @ [CHR 0x27]"

definition install_command :: "string \<Rightarrow> string" where
  "install_command tmpPath =
     ''mkdir -p '' @ sq logDir @ '' && cp '' @ sq tmpPath @ '' '' @ sq plistPath @ '' && chmod 644 '' @ sq plistPath
     @ '' && launchctl load '' @ sq plistPath"

text \<open>\<open>temp\<close> is what \<^verbatim>\<open>os.CreateTemp\<close> answers and \<open>wr\<close> what writing the file answers; the file is
  removed in any case.\<close>

definition launchd_Install ::
  "exec \<Rightarrow> string res \<Rightarrow> goerr option \<Rightarrow> bool \<Rightarrow> goerr option \<times> effect list" where
  "launchd_Install run temp wr runAtLoad =
     (case temp of
        Inl err \<Rightarrow> (Some (wrap ''create temp file'' err), [])
      | Inr tmpPath \<Rightarrow>
          (case wr of
             Some err \<Rightarrow> (Some (wrap ''write temp plist'' err), [RemoveFile tmpPath])
           | None \<Rightarrow>
               (case first_err (\<lambda>(name, val). validateShellValue name val)
                       [(''logDir'', logDir), (''tmpPath'', tmpPath), (''plistPath'', plistPath)] of
                  Some err \<Rightarrow> (Some err, [CreateTemp tmpPath (generatePlist runAtLoad), RemoveFile tmpPath])
                | None \<Rightarrow>
                    (case runPrivileged run (install_command tmpPath) of
                       (err, effs) \<Rightarrow>
                         (err, [CreateTemp tmpPath (generatePlist runAtLoad)] @ effs @ [RemoveFile tmpPath])))))"

definition launchd_Uninstall :: "exec \<Rightarrow> goerr option \<times> effect list" where
  "launchd_Uninstall run =
     runPrivileged run (''launchctl unload '' @ sq plistPath @ '' 2>/dev/null; rm -f '' @ sq plistPath)"

definition launchd_Start :: "exec \<Rightarrow> goerr option \<times> effect list" where
  "launchd_Start run = runPrivileged run (''launchctl kickstart -k system/'' @ serviceLabel)"

definition launchd_Stop :: "exec \<Rightarrow> goerr option \<times> effect list" where
  "launchd_Stop run = runPrivileged run (''launchctl kill SIGTERM system/'' @ serviceLabel)"

definition SetRunAtLoad :: "exec \<Rightarrow> bool \<Rightarrow> goerr option \<times> effect list" where
  "SetRunAtLoad run enabled =
     runPrivileged run (''/usr/libexec/PlistBuddy -c '' @ [DQ] @ ''Set :RunAtLoad ''
       @ (if enabled then ''true'' else ''false'') @ [DQ] @ '' '' @ sq plistPath)"

definition ReadLog :: "exec \<Rightarrow> int \<Rightarrow> string res" where
  "ReadLog run lines =
     (case run ''tail'' [''-n'', itoa lines, logPath] of
        (out, Some err) \<Rightarrow> Inl (wrap ''read log'' err)
      | (out, None) \<Rightarrow> Inr out)"

record launchd_status =
  ls_Installed :: bool
  ls_Running :: bool
  ls_RunAtLoad :: bool
  ls_PID :: int
  ls_LastExit :: int

definition status_line :: "string list \<Rightarrow> launchd_status \<Rightarrow> launchd_status" where
  "status_line fs st =
     (if length fs \<ge> 3 then
        (let st1 = (if fs ! 0 \<noteq> ''-''
                    then (let pid = (case sscanf_d (fs ! 0) of None \<Rightarrow> ls_PID st | Some v \<Rightarrow> v) in
                          st\<lparr>ls_PID := pid, ls_Running := pid > 0\<rparr>)
                    else st) in
         case sscanf_d (fs ! 1) of None \<Rightarrow> st1 | Some v \<Rightarrow> st1\<lparr>ls_LastExit := v\<rparr>)
      else st)"

text \<open>\<open>plist\<close> is what reading the plist answers.\<close>

definition launchd_QueryStatus :: "exec \<Rightarrow> string res \<Rightarrow> launchd_status" where
  "launchd_QueryStatus run plist =
     (let st = \<lparr>ls_Installed = False, ls_Running = False, ls_RunAtLoad = False, ls_PID = 0, ls_LastExit = 0\<rparr> in
      case plist of
        Inl _ \<Rightarrow> st
      | Inr data \<Rightarrow>
          (let st1 = st\<lparr>ls_Installed := True,
                        ls_RunAtLoad := contains_str data (''<key>RunAtLoad</key>'' @ [NL, TAB] @ ''<true/>'')\<rparr> in
           case run ''launchctl'' [''list''] of
             (out, Some _) \<Rightarrow> st1
           | (out, None) \<Rightarrow>
               (case find (\<lambda>line. contains_str line serviceLabel) (split_on NL out) of
                  None \<Rightarrow> st1
                | Some line \<Rightarrow> status_line (str_fields line) st1)))"

section \<open>systemd\<close>

definition unitName :: string where "unitName = ''torvm.service''"
definition unitPath :: string where "unitPath = ''/etc/systemd/system/'' @ unitName"
definition bundledUnit :: string where "bundledUnit = ''/usr/local/share/torvm/torvm.service''"

definition IsRunningUnderSystemd :: "string \<Rightarrow> bool" where
  "IsRunningUnderSystemd sock \<longleftrightarrow> sock \<noteq> []"

text \<open>A notification: the socket it is sent to and its text. \<open>dial\<close> and \<open>wr\<close> are the answers of the
  socket.\<close>

definition notify :: "string \<Rightarrow> goerr option \<Rightarrow> goerr option \<Rightarrow> string \<Rightarrow> goerr option \<times> (string \<times> string) list" where
  "notify sock dial wr st =
     (if sock = [] then (Some (ErrMsg ''systemd: NOTIFY_SOCKET not set''), [])
      else
        (let addr = (if sock ! 0 = CHR ''@'' then NUL # drop 1 sock else sock) in
         case dial of
           Some err \<Rightarrow> (Some (wrap ''systemd: dial notify socket'' err), [])
         | None \<Rightarrow>
             (case wr of
                Some err \<Rightarrow> (Some (wrap ''systemd: write notify socket'' err), [])
              | None \<Rightarrow> (None, [(addr, st)]))))"

definition systemctl :: "exec \<Rightarrow> string list \<Rightarrow> goerr option" where
  "systemctl run args = snd (run ''systemctl'' args)"

definition systemctlOutput :: "exec \<Rightarrow> string list \<Rightarrow> string \<times> goerr option" where
  "systemctlOutput run args = (case run ''systemctl'' args of (out, err) \<Rightarrow> (trim_space out, err))"

text \<open>\<open>unit\<close> is what reading the bundled unit answers, \<open>wr\<close> what writing the installed one answers.\<close>

definition systemd_Install :: "exec \<Rightarrow> string res \<Rightarrow> goerr option \<Rightarrow> goerr option \<times> effect list" where
  "systemd_Install run unit wr =
     (case unit of
        Inl err \<Rightarrow> (Some (wrap (''systemd: read unit file '' @ bundledUnit) err), [])
      | Inr data \<Rightarrow>
          (case wr of
             Some err \<Rightarrow> (Some (wrap ''systemd: write unit file'' err), [])
           | None \<Rightarrow>
               (case systemctl run [''daemon-reload''] of
                  Some err \<Rightarrow> (Some (wrap ''systemd: daemon-reload'' err), [WriteFile unitPath data, Exec ''systemctl'' [''daemon-reload'']])
                | None \<Rightarrow>
                    ((case systemctl run [''enable'', unitName] of
                        Some err \<Rightarrow> Some (wrap ''systemd: enable'' err) | None \<Rightarrow> None),
                     [WriteFile unitPath data, Exec ''systemctl'' [''daemon-reload''], Exec ''systemctl'' [''enable'', unitName]]))))"

definition systemd_Uninstall :: "effect list" where
  "systemd_Uninstall =
     [Exec ''systemctl'' [''stop'', unitName], Exec ''systemctl'' [''disable'', unitName], RemoveFile unitPath,
      Exec ''systemctl'' [''daemon-reload'']]"

record ServiceStatus =
  ss_Installed :: bool
  ss_Active :: bool
  ss_Enabled :: bool
  ss_PID :: string
  ss_Status :: string

definition show_line :: "ServiceStatus \<Rightarrow> string \<Rightarrow> ServiceStatus" where
  "show_line st line =
     (let st1 = (if has_prefix line ''MainPID=''
                 then (let pid = trim_prefix line ''MainPID='' in if pid \<noteq> ''0'' then st\<lparr>ss_PID := pid\<rparr> else st)
                 else st) in
      if has_prefix line ''StatusText='' then st1\<lparr>ss_Status := trim_prefix line ''StatusText=''\<rparr> else st1)"

definition systemd_QueryStatus :: "exec \<Rightarrow> goerr option \<Rightarrow> ServiceStatus" where
  "systemd_QueryStatus run stat =
     (let st = \<lparr>ss_Installed = False, ss_Active = False, ss_Enabled = False, ss_PID = [], ss_Status = []\<rparr> in
      if stat \<noteq> None then st
      else
        (let st1 = st\<lparr>ss_Installed := True, ss_Active := systemctl run [''is-active'', ''--quiet'', unitName] = None,
                      ss_Enabled := systemctl run [''is-enabled'', ''--quiet'', unitName] = None\<rparr> in
         case systemctlOutput run [''show'', unitName, ''--property=MainPID,StatusText'', ''--no-pager''] of
           (out, Some _) \<Rightarrow> st1
         | (out, None) \<Rightarrow> foldl show_line st1 (split_on NL out)))"

definition ReadJournalLogs :: "exec \<Rightarrow> int \<Rightarrow> string res" where
  "ReadJournalLogs run n =
     (case systemctlOutput run [''--no-pager'', ''-n'', itoa n, ''-u'', unitName] of
        (out, None) \<Rightarrow> Inr out
      | (out, Some _) \<Rightarrow>
          (case run ''journalctl'' [''--no-pager'', ''-n'', itoa n, ''-u'', unitName] of
             (b, Some err) \<Rightarrow> Inl (wrap ''systemd: read journal'' err)
           | (b, None) \<Rightarrow> Inr b))"

text \<open>One write to the journal: the datagram, and the number of bytes it reports.\<close>

definition journal_entry :: "string \<Rightarrow> string" where
  "journal_entry p = ''PRIORITY=6'' @ [NL] @ ''MESSAGE='' @ trim_right_set [NL] p @ [NL]"

definition journal_Write :: "goerr option \<Rightarrow> string \<Rightarrow> nat res \<times> string list" where
  "journal_Write wr p =
     (case wr of
        Some err \<Rightarrow> (Inl (wrap ''systemd: write journal'' err), [])
      | None \<Rightarrow> (Inr (length p), [journal_entry p]))"

section \<open>Windows service\<close>

datatype svc_state = StartPending | SvcRunning | StopPending

record svc_status =
  sv_State :: svc_state
  sv_Accepts :: bool

datatype svc_cmd = Interrogate | SvcStop | SvcShutdown | OtherCmd nat

text \<open>What the handler receives: the end of the engine, a request with the status that the manager
  has, and the timer that runs after a stop request.\<close>

datatype scm_event = EngineEnds "goerr option" | Request svc_cmd svc_status | Timer30s

text \<open>Waiting for the engine after a stop request; requests are not received any more.\<close>

fun await_engine :: "scm_event list \<Rightarrow> nat option" where
  "await_engine [] = None"
| "await_engine (EngineEnds err # es) = Some 0"
| "await_engine (Timer30s # es) = Some 0"
| "await_engine (Request cmd cur # es) = await_engine es"

text \<open>The loop: the statuses it reports, whether it cancels the engine, and the exit code when it
  returns.\<close>

fun execute_loop :: "scm_event list \<Rightarrow> svc_status list \<times> bool \<times> nat option" where
  "execute_loop [] = ([], False, None)"
| "execute_loop (EngineEnds err # es) =
     ([\<lparr>sv_State = StopPending, sv_Accepts = False\<rparr>], False, Some (if err \<noteq> None then 1 else 0))"
| "execute_loop (Timer30s # es) = execute_loop es"
| "execute_loop (Request cmd cur # es) =
     (case cmd of
        Interrogate \<Rightarrow> (case execute_loop es of (sts, c, r) \<Rightarrow> (cur # sts, c, r))
      | SvcStop \<Rightarrow> ([\<lparr>sv_State = StopPending, sv_Accepts = False\<rparr>], True, await_engine es)
      | SvcShutdown \<Rightarrow> ([\<lparr>sv_State = StopPending, sv_Accepts = False\<rparr>], True, await_engine es)
      | OtherCmd _ \<Rightarrow> execute_loop es)"

definition Execute :: "scm_event list \<Rightarrow> svc_status list \<times> bool \<times> nat option" where
  "Execute es =
     (case execute_loop es of
        (sts, c, r) \<Rightarrow>
          (\<lparr>sv_State = StartPending, sv_Accepts = False\<rparr> # \<lparr>sv_State = SvcRunning, sv_Accepts = True\<rparr> # sts, c, r))"

datatype scm_call =
  Connect | OpenService | CreateService string "string list" | InstallEventSource | RemoveEventSource
| DeleteService | CloseService | Disconnect

text \<open>The answers: the path of the executable, connecting, opening, creating, the event log source.\<close>

definition InstallService ::
  "string res \<Rightarrow> goerr option \<Rightarrow> goerr option \<Rightarrow> goerr option \<Rightarrow> goerr option \<Rightarrow> goerr option \<times> scm_call list" where
  "InstallService exe connect opened create source =
     (case exe of
        Inl err \<Rightarrow> (Some (wrap ''winsvc: get executable path'' err), [])
      | Inr exePath \<Rightarrow>
          (case connect of
             Some err \<Rightarrow> (Some (wrap ''winsvc: connect to service manager'' err), [Connect])
           | None \<Rightarrow>
               (if opened = None
                then (Some (ErrMsg (''winsvc: service '' @ quote ''TorVM'' @ '' already exists'')),
                      [Connect, OpenService, CloseService, Disconnect])
                else
                  (let create_call = CreateService exePath [''--service-run'', ''--headless''] in
                   case create of
                     Some err \<Rightarrow> (Some (wrap ''winsvc: create service'' err), [Connect, OpenService, create_call, Disconnect])
                   | None \<Rightarrow>
                       (case source of
                          Some err \<Rightarrow>
                            (Some (wrap ''winsvc: install event log source'' err),
                             [Connect, OpenService, create_call, InstallEventSource, DeleteService, CloseService, Disconnect])
                        | None \<Rightarrow>
                            (None, [Connect, OpenService, create_call, InstallEventSource, CloseService, Disconnect]))))))"

definition RemoveService ::
  "goerr option \<Rightarrow> goerr option \<Rightarrow> goerr option \<Rightarrow> goerr option \<Rightarrow> goerr option \<times> scm_call list" where
  "RemoveService connect opened delete source =
     (case connect of
        Some err \<Rightarrow> (Some (wrap ''winsvc: connect to service manager'' err), [Connect])
      | None \<Rightarrow>
          (case opened of
             Some err \<Rightarrow> (Some (wrap ''winsvc: open service'' err), [Connect, OpenService, Disconnect])
           | None \<Rightarrow>
               (case delete of
                  Some err \<Rightarrow>
                    (Some (wrap ''winsvc: delete service'' err), [Connect, OpenService, DeleteService, CloseService, Disconnect])
                | None \<Rightarrow>
                    (map_option (wrap ''winsvc: remove event log source'') source,
                     [Connect, OpenService, DeleteService, RemoveEventSource, CloseService, Disconnect]))))"

text \<open>One write to the event log.\<close>

definition eventlog_Write :: "goerr option \<Rightarrow> string \<Rightarrow> nat res \<times> string list" where
  "eventlog_Write wr p =
     (let msg = trim_right_set [NL] p in
      case wr of
        Some err \<Rightarrow> (Inl (wrap ''winsvc: write event log'' err), [msg])
      | None \<Rightarrow> (Inr (length p), [msg]))"

section \<open>What the commands mean\<close>

text \<open>An AppleScript string literal, read up to its closing quote: the text and the rest.\<close>

fun as_read :: "string \<Rightarrow> (string \<times> string) option" where
  "as_read [] = None"
| "as_read (c # s) =
     (if c = DQ then Some ([], s)
      else if c = BSL then
        (case s of
           d # r \<Rightarrow> (if d = BSL \<or> d = DQ then map_option (\<lambda>(t, rest). (d # t, rest)) (as_read r) else None)
         | [] \<Rightarrow> None)
      else map_option (\<lambda>(t, rest). (c # t, rest)) (as_read s))"

text \<open>
  Words of a shell command without expansions: single quotes take everything literally, blanks
  separate words, \<^verbatim>\<open>&&\<close> separates commands, and of the other characters only those that mean
  themselves are accepted.
\<close>

datatype sh_token = Word string | AndIf

definition flush :: "string option \<Rightarrow> sh_token list" where
  "flush w = (case w of None \<Rightarrow> [] | Some s \<Rightarrow> [Word s])"

definition sh_plain :: "char \<Rightarrow> bool" where
  "sh_plain c \<longleftrightarrow> is_alnum c \<or> c \<in> set ''/._-''"

function sh_lex :: "string option \<Rightarrow> string \<Rightarrow> sh_token list option" where
  "sh_lex w [] = Some (flush w)"
| "sh_lex w (c # s) =
     (if c = CHR 0x27 then
        (case index_byte s (CHR 0x27) of
           None \<Rightarrow> None
         | Some i \<Rightarrow> sh_lex (Some ((case w of None \<Rightarrow> [] | Some t \<Rightarrow> t) @ take i s)) (drop (Suc i) s))
      else if c = CHR '' '' then map_option (\<lambda>ts. flush w @ ts) (sh_lex None s)
      else if c = CHR ''&'' then
        (case s of
           [] \<Rightarrow> None
         | d # r \<Rightarrow> (if d = CHR ''&'' then map_option (\<lambda>ts. flush w @ AndIf # ts) (sh_lex None r) else None))
      else if sh_plain c then sh_lex (Some ((case w of None \<Rightarrow> [] | Some t \<Rightarrow> t) @ [c])) s
      else None)"
  by pat_completeness auto
termination
  by (relation "measure (\<lambda>(w, s). length s)") auto

lemma as_read_escape: "as_read (escapeAppleScript s @ DQ # rest) = Some (s, rest)"
  by (induction s) (auto simp: escapeAppleScript_def replace_char_def DQ_def BSL_def)

lemma sh_lex_quoted:
  assumes "CHR 0x27 \<notin> set s"
  shows "sh_lex None (sq s @ r) = sh_lex (Some s) r"
  using assms index_byte_append [of "CHR 0x27" s r] by (simp add: sq_def)

lemma sh_lex_word:
  assumes "list_all sh_plain u"
  shows "sh_lex (Some w) (u @ r) = sh_lex (Some (w @ u)) r"
  using assms by (induction u arbitrary: w) (auto simp: sh_plain_def is_lower_def is_upper_def is_digit_def)

lemma safe_no_quote: "safeValueRe s \<Longrightarrow> CHR 0x27 \<notin> set s"
  by (auto simp: safeValueRe_def list_all_iff is_lower_def is_upper_def is_digit_def)

lemma constants_safe [simp]: "CHR 0x27 \<notin> set logDir" "CHR 0x27 \<notin> set plistPath"
  by (simp_all add: logDir_def plistPath_def)

lemma install_words:
  assumes "CHR 0x27 \<notin> set tmp"
  shows "sh_lex None (install_command tmp) =
    Some [Word ''mkdir'', Word ''-p'', Word logDir, AndIf, Word ''cp'', Word tmp, Word plistPath, AndIf,
          Word ''chmod'', Word ''644'', Word plistPath, AndIf, Word ''launchctl'', Word ''load'', Word plistPath]"
proof -
  have "sh_lex None (sq plistPath) = Some [Word plistPath]"
    using sh_lex_quoted [of plistPath "[]"] by (simp add: flush_def)
  then show ?thesis
    using assms
    by (simp add: install_command_def sh_lex_quoted flush_def sh_plain_def is_lower_def is_upper_def is_digit_def)
qed

text \<open>The script of a privileged command, as AppleScript reads it.\<close>

definition as_command :: "string \<Rightarrow> string option" where
  "as_command script =
     (let p = ''do shell script '' @ [DQ] in
      if has_prefix script p
      then (case as_read (drop (length p) script) of
              Some (cmd, rest) \<Rightarrow> (if rest = '' with administrator privileges'' then Some cmd else None)
            | None \<Rightarrow> None)
      else None)"

lemma as_command_privileged:
  "as_command (''do shell script '' @ [DQ] @ escapeAppleScript cmd @ [DQ] @ '' with administrator privileges'') = Some cmd"
  using as_read_escape [of cmd "'' with administrator privileges''"] by (simp add: as_command_def has_prefix_iff)

lemma execute_loop_result:
  "execute_loop es = (sts, c, r) \<Longrightarrow>
   (r \<noteq> None \<or> c \<longrightarrow> sts \<noteq> [] \<and> sv_State (last sts) = StopPending) \<and> (r = Some 1 \<longrightarrow> \<not> c)
   \<and> (r = None \<or> r = Some 0 \<or> r = Some 1)"
proof (induction es arbitrary: sts c r rule: execute_loop.induct)
  case (4 cmd cur es)
  have "await_engine es = None \<or> await_engine es = Some 0" by (induction es rule: await_engine.induct) auto
  then show ?case using 4 by (cases cmd) (auto split: prod.splits)
qed (auto split: if_splits)

section \<open>Properties\<close>

text \<open>
  C15. The privileged command of an installation on macOS. Whatever name the temporary file has
  and whatever the commands answer, \<^verbatim>\<open>Install\<close> runs at most one command, \<^verbatim>\<open>osascript\<close>; the script
  reads back as one shell command, and the shell splits that into exactly the intended words: it
  creates the log directory, copies the temporary file to the plist, sets its mode and loads it.
  The temporary file is removed last, and holds the generated plist when the command runs.
\<close>

theorem launchd_install_confined:
  assumes "launchd_Install run temp wr atLoad = (err, effs)" "Exec prog args \<in> set effs"
  shows "\<exists>tmp script. temp = Inr tmp \<and> prog = ''osascript'' \<and> args = [''-e'', script]
    \<and> effs = [CreateTemp tmp (generatePlist atLoad), Exec ''osascript'' [''-e'', script], RemoveFile tmp]
    \<and> (\<exists>cmd. as_command script = Some cmd \<and> sh_lex None cmd =
        Some [Word ''mkdir'', Word ''-p'', Word logDir, AndIf, Word ''cp'', Word tmp, Word plistPath, AndIf,
              Word ''chmod'', Word ''644'', Word plistPath, AndIf, Word ''launchctl'', Word ''load'', Word plistPath])"
proof -
  obtain tmp where t: "temp = Inr tmp" "wr = None" "validateShellValue ''tmpPath'' tmp = None"
    using assms by (auto simp: launchd_Install_def split: sum.splits option.splits)
  then have q: "CHR 0x27 \<notin> set tmp" using safe_no_quote by (simp add: validateShellValue_def)
  have "validateShellValue ''logDir'' logDir = None" "validateShellValue ''plistPath'' plistPath = None" by code_simp+
  then show ?thesis using assms t install_words [OF q] as_command_privileged [of "install_command tmp"]
    by (auto simp: launchd_Install_def runPrivileged_def Let_def split: prod.splits)
qed

theorem launchd_install_confined_witness:
  "\<exists>effs script. launchd_Install (\<lambda>_ _. ([], None)) (Inr ''/tmp/my plist'') None True = (None, effs)
     \<and> effs = [CreateTemp ''/tmp/my plist'' (generatePlist True), Exec ''osascript'' [''-e'', script], RemoveFile ''/tmp/my plist'']"
proof -
  have v: "validateShellValue ''logDir'' logDir = None" "validateShellValue ''plistPath'' plistPath = None"
    "validateShellValue ''tmpPath'' ''/tmp/my plist'' = None" by code_simp+
  then obtain effs args where i: "launchd_Install (\<lambda>_ _. ([], None)) (Inr ''/tmp/my plist'') None True = (None, effs)"
    "Exec ''osascript'' args \<in> set effs" by (simp add: launchd_Install_def runPrivileged_def Let_def)
  from launchd_install_confined [OF i] i(1) show ?thesis by auto
qed

text \<open>
  What a log message becomes in the journal. The entry has the priority and the first line of
  the message as its fields, and every further line of the message as a field of its own: only a
  message without an inner line feed gives exactly the two intended fields, and a line such as
  PRIORITY=0 in a message is taken for a priority.
\<close>

theorem journal_entry_fields:
  "split_on NL (journal_entry p) =
     ''PRIORITY=6'' # (''MESSAGE='' @ hd (split_on NL (trim_right_set [NL] p))) # tl (split_on NL (trim_right_set [NL] p)) @ ['''']"
proof -
  let ?m = "trim_right_set [NL] p"
  have app: "split_on NL (a @ NL # b) = split_on NL a @ split_on NL b" for a b
    by (induction a) (auto split: list.splits)
  have "journal_entry p = ''PRIORITY=6'' @ NL # ((''MESSAGE='' @ ?m) @ NL # [])" by (simp add: journal_entry_def)
  then have "split_on NL (journal_entry p) = split_on NL ''PRIORITY=6'' @ split_on NL (''MESSAGE='' @ ?m) @ ['''']"
    by (simp only: app split_on.simps)
  moreover have "split_on NL ''PRIORITY=6'' = [''PRIORITY=6'']" by code_simp
  moreover have "split_on NL (''MESSAGE='' @ ?m) = (''MESSAGE='' @ hd (split_on NL ?m)) # tl (split_on NL ?m)"
    by (cases "split_on NL ?m") (simp_all add: NL_def)
  ultimately show ?thesis by simp
qed

text \<open>
  What the service control manager of Windows is told. The handler first reports that the
  service starts and then that it runs and accepts stop requests; when it returns or has
  cancelled the engine, the last status it reported is that the service stops; and the exit code
  is 0 or 1, and 1 only when the engine failed by itself, without a stop request.
\<close>

theorem Execute_reports:
  assumes "Execute es = (sts, cancelled, code)"
  shows "map sv_State (take 2 sts) = [StartPending, SvcRunning]
    \<and> (code \<noteq> None \<or> cancelled \<longrightarrow> sv_State (last sts) = StopPending)
    \<and> (code = None \<or> code = Some 0 \<or> code = Some 1) \<and> (code = Some 1 \<longrightarrow> \<not> cancelled)"
proof -
  obtain sts' where e: "execute_loop es = (sts', cancelled, code)"
    "sts = \<lparr>sv_State = StartPending, sv_Accepts = False\<rparr> # \<lparr>sv_State = SvcRunning, sv_Accepts = True\<rparr> # sts'"
    using assms by (auto simp: Execute_def split: prod.splits)
  then show ?thesis using execute_loop_result [OF e(1)] by auto
qed

theorem Execute_reports_witness:
  "\<exists>sts. Execute [Request Interrogate \<lparr>sv_State = SvcRunning, sv_Accepts = True\<rparr>, Request SvcStop \<lparr>sv_State = SvcRunning, sv_Accepts = True\<rparr>, Timer30s]
     = (sts, True, Some 0) \<and> sv_State (last sts) = StopPending"
proof -
  obtain sts where "Execute [Request Interrogate \<lparr>sv_State = SvcRunning, sv_Accepts = True\<rparr>,
      Request SvcStop \<lparr>sv_State = SvcRunning, sv_Accepts = True\<rparr>, Timer30s] = (sts, True, Some 0)"
    by (simp add: Execute_def)
  from Execute_reports [OF this] this show ?thesis by auto
qed

end
