(* ===== verification/Gui_Service.thy ===== *)
theory Gui_Service
  imports Gui_App Service_Units
begin

text \<open>
  The status and service tabs of the graphical interface (\<^verbatim>\<open>gui/widgets.go\<close>, \<^verbatim>\<open>gui/status_tab.go\<close>,
  \<^verbatim>\<open>gui/service_tab*.go\<close>) and the TAP adapter of Windows (\<^verbatim>\<open>internal/winsvc/tap_windows.go\<close>), with
  the buttons and the polling of the service manager. The tabs share the mode of the application
  with Start and Stop (theory \<open>Gui_App\<close>). What commands answer is an argument, and so is the
  toolkit where it decides whether a callback runs.
\<close>

section \<open>Status light\<close>

definition Description :: "State \<Rightarrow> string" where
  "Description st =
     (case st of
        StateRunning \<Rightarrow> ''Status: TorVM is running and connected to Tor''
      | StateFailed \<Rightarrow> ''Status: TorVM encountered an error''
      | StateInit \<Rightarrow> ''Status: TorVM is stopped''
      | StateCleanup \<Rightarrow> ''Status: TorVM is stopped''
      | StateShutdown \<Rightarrow> ''Status: TorVM is stopped''
      | StateRestoreNetwork \<Rightarrow> ''Status: TorVM is stopped''
      | StateWaitBootstrap \<Rightarrow> ''Status: Waiting for Tor to connect''
      | StateLaunchVM \<Rightarrow> ''Status: Launching virtual machine''
      | StateCreateTAP \<Rightarrow> ''Status: Creating network adapter''
      | _ \<Rightarrow> ''Status: TorVM is starting up'')"

text \<open>Red, green, blue and alpha of the light.\<close>

definition colorForState :: "State \<Rightarrow> nat \<times> nat \<times> nat \<times> nat" where
  "colorForState st =
     (if st = StateRunning then (0, 179, 0, 255)
      else if st = StateFailed then (230, 0, 0, 255)
      else if st \<in> {StateInit, StateCleanup, StateShutdown, StateRestoreNetwork} then (140, 140, 140, 255)
      else (190, 120, 0, 255))"

section \<open>State of the tabs\<close>

datatype svc_button = InstallBtn | UninstallBtn | StartBtn | StopBtn | RestartBtn | BootCheck | LogsBtn | InstallTAPBtn | RemoveTAPBtn

datatype svc_dialog = SvcError goerr | SvcInfo string | SvcLogs string

record svc_gui =
  sg_runner :: runner
  sg_light :: State
  sg_stateLabel :: string
  sg_modeLabel :: string
  sg_statusLabel :: string
  sg_tapLabel :: string
  sg_enabled :: "svc_button \<Rightarrow> bool"
  sg_checked :: bool
  sg_dialogs :: "svc_dialog list"
  sg_effects :: "effect list"

text \<open>The tabs as they are built; buttons are enabled until the first update.\<close>

definition new_svc_gui :: "runner \<Rightarrow> svc_gui" where
  "new_svc_gui a =
     \<lparr>sg_runner = a, sg_light = StateInit, sg_stateLabel = ''Stopped'',
      sg_modeLabel = (if rc_serviceMode a then ''Mode: Service'' else ''Mode: Direct''),
      sg_statusLabel = ''Checking...'', sg_tapLabel = ''TAP: Checking...'', sg_enabled = (\<lambda>_. True), sg_checked = False,
      sg_dialogs = [], sg_effects = []\<rparr>"

definition set_mode :: "bool \<Rightarrow> svc_gui \<Rightarrow> svc_gui" where
  "set_mode b g = g\<lparr>sg_runner := (sg_runner g)\<lparr>rc_serviceMode := b\<rparr>\<rparr>"

definition updateStatus :: "State \<Rightarrow> svc_gui \<Rightarrow> svc_gui" where
  "updateStatus to g = g\<lparr>sg_light := to, sg_stateLabel := Description to\<rparr>"

definition pollServiceStatus :: "launchd_status \<Rightarrow> svc_gui \<Rightarrow> svc_gui" where
  "pollServiceStatus st g =
     (if ls_Running st then g\<lparr>sg_light := StateRunning, sg_stateLabel := ''Running (Service)''\<rparr>
      else if ls_Installed st then g\<lparr>sg_light := StateInit, sg_stateLabel := ''Stopped (Service)''\<rparr>
      else (set_mode False g)\<lparr>sg_modeLabel := ''Mode: Direct'', sg_light := StateInit, sg_stateLabel := ''Stopped''\<rparr>)"

section \<open>Calls of the service manager\<close>

definition show_svc :: "svc_dialog \<Rightarrow> svc_gui \<Rightarrow> svc_gui" where
  "show_svc d g = g\<lparr>sg_dialogs := sg_dialogs g @ [d]\<rparr>"

definition done_effects :: "effect list \<Rightarrow> svc_gui \<Rightarrow> svc_gui" where
  "done_effects effs g = g\<lparr>sg_effects := sg_effects g @ effs\<rparr>"

text \<open>A call whose error is shown, and otherwise a continuation.\<close>

definition report :: "goerr option \<times> effect list \<Rightarrow> (svc_gui \<Rightarrow> svc_gui) \<Rightarrow> svc_gui \<Rightarrow> svc_gui" where
  "report r k g =
     (let g1 = done_effects (snd r) g in
      case fst r of Some err \<Rightarrow> show_svc (SvcError err) g1 | None \<Rightarrow> k g1)"

definition show_logs :: "string res \<Rightarrow> svc_gui \<Rightarrow> svc_gui" where
  "show_logs logs g =
     (case logs of
        Inl err \<Rightarrow> show_svc (SvcError err) g
      | Inr text \<Rightarrow> show_svc (SvcLogs (if text = [] then ''(no log output)'' else text)) g)"

definition set_buttons :: "(svc_button \<Rightarrow> bool) \<Rightarrow> svc_button list \<Rightarrow> svc_gui \<Rightarrow> svc_gui" where
  "set_buttons e bs g = g\<lparr>sg_enabled := (\<lambda>b. if b \<in> set bs then e b else sg_enabled g b)\<rparr>"

text \<open>
  \<^verbatim>\<open>Check.SetChecked\<close> of the toolkit: \<open>notifies old new\<close> tells whether it calls \<^verbatim>\<open>OnChanged\<close>. The
  toolkit documents that it does exactly when the value changes.
\<close>

definition set_checked :: "(bool \<Rightarrow> bool \<Rightarrow> bool) \<Rightarrow> (bool \<Rightarrow> svc_gui \<Rightarrow> svc_gui) \<Rightarrow> bool \<Rightarrow> svc_gui \<Rightarrow> svc_gui" where
  "set_checked notifies on_changed v g =
     (let g1 = g\<lparr>sg_checked := v\<rparr> in if notifies (sg_checked g) v then on_changed v g1 else g1)"

definition notifies_on_change :: "(bool \<Rightarrow> bool \<Rightarrow> bool) \<Rightarrow> bool" where
  "notifies_on_change notifies \<longleftrightarrow> (\<forall>old new. notifies old new = (old \<noteq> new))"

section \<open>macOS\<close>

definition darwin_install :: "exec \<Rightarrow> string res \<Rightarrow> goerr option \<Rightarrow> svc_gui \<Rightarrow> svc_gui" where
  "darwin_install run temp wr = report (launchd_Install run temp wr False) (show_svc (SvcInfo ''Service installed successfully.''))"

definition darwin_uninstall :: "exec \<Rightarrow> svc_gui \<Rightarrow> svc_gui" where
  "darwin_uninstall run = report (launchd_Uninstall run) (\<lambda>g. show_svc (SvcInfo ''Service uninstalled.'') (set_mode False g))"

definition darwin_start :: "exec \<Rightarrow> svc_gui \<Rightarrow> svc_gui" where
  "darwin_start run = report (launchd_Start run) id"

definition darwin_stop :: "exec \<Rightarrow> svc_gui \<Rightarrow> svc_gui" where
  "darwin_stop run = report (launchd_Stop run) id"

definition darwin_boot_changed :: "exec \<Rightarrow> bool \<Rightarrow> svc_gui \<Rightarrow> svc_gui" where
  "darwin_boot_changed run on = report (SetRunAtLoad run on) id"

definition darwin_logs :: "exec \<Rightarrow> svc_gui \<Rightarrow> svc_gui" where
  "darwin_logs run = show_logs (ReadLog run 100)"

text \<open>The number in the label; \<^verbatim>\<open>v = -v\<close> wraps around for the least 64-bit integer.\<close>

function digit_loop :: "int \<Rightarrow> string \<Rightarrow> string" where
  "digit_loop v s = (if v > 0 then digit_loop (v div 10) (digit_char (nat (v mod 10)) # s) else s)"
  by pat_completeness auto
termination by (relation "measure (\<lambda>(v, s). nat v)") auto

declare digit_loop.simps [simp del]

definition intToStr :: "int \<Rightarrow> string" where
  "intToStr n =
     (if n = 0 then ''0''
      else let v = (if n < 0 then if n = - (2 ^ 63) then n else - n else n);
               s = digit_loop v [] in
           if n < 0 then ''-'' @ s else s)"

definition darwin_updateUI ::
  "(bool \<Rightarrow> bool \<Rightarrow> bool) \<Rightarrow> exec \<Rightarrow> string res \<Rightarrow> svc_gui \<Rightarrow> svc_gui" where
  "darwin_updateUI notifies run plist g =
     (let st = launchd_QueryStatus run plist;
          check = set_checked notifies (darwin_boot_changed run);
          bs = [StartBtn, StopBtn, UninstallBtn, InstallBtn, BootCheck, LogsBtn] in
      if \<not> ls_Installed st then
        check False (set_buttons (\<lambda>b. b = InstallBtn) bs (g\<lparr>sg_statusLabel := ''Status: Not Installed''\<rparr>))
      else if ls_Running st then
        set_mode True (check (ls_RunAtLoad st)
          (set_buttons (\<lambda>b. b \<in> {StopBtn, BootCheck, LogsBtn}) bs
             (g\<lparr>sg_statusLabel := ''Status: Running (PID '' @ intToStr (ls_PID st) @ '')''\<rparr>)))
      else
        set_mode True (check (ls_RunAtLoad st)
          (set_buttons (\<lambda>b. b \<in> {StartBtn, UninstallBtn, BootCheck, LogsBtn}) bs (g\<lparr>sg_statusLabel := ''Status: Stopped''\<rparr>))))"

section \<open>Linux\<close>

definition linux_install :: "exec \<Rightarrow> string res \<Rightarrow> goerr option \<Rightarrow> svc_gui \<Rightarrow> svc_gui" where
  "linux_install run unit wr = report (systemd_Install run unit wr) (show_svc (SvcInfo ''TorVM service installed successfully.''))"

text \<open>The callback of the question whether to uninstall; \<^verbatim>\<open>Uninstall\<close> always returns nil.\<close>

definition linux_uninstall :: "bool \<Rightarrow> svc_gui \<Rightarrow> svc_gui" where
  "linux_uninstall ok g =
     (if \<not> ok then g
      else report (None, systemd_Uninstall) (\<lambda>g. show_svc (SvcInfo ''TorVM service uninstalled.'') (set_mode False g)) g)"

definition linux_unit :: "exec \<Rightarrow> string \<Rightarrow> svc_gui \<Rightarrow> svc_gui" where
  "linux_unit run verb = report (systemctl run [verb, unitName], [Exec ''systemctl'' [verb, unitName]]) id"

definition linux_boot_changed :: "exec \<Rightarrow> bool \<Rightarrow> svc_gui \<Rightarrow> svc_gui" where
  "linux_boot_changed run on = linux_unit run (if on then ''enable'' else ''disable'')"

definition linux_logs :: "exec \<Rightarrow> svc_gui \<Rightarrow> svc_gui" where
  "linux_logs run = show_logs (ReadJournalLogs run 100)"

definition linux_updateUI ::
  "(bool \<Rightarrow> bool \<Rightarrow> bool) \<Rightarrow> exec \<Rightarrow> goerr option \<Rightarrow> svc_gui \<Rightarrow> svc_gui" where
  "linux_updateUI notifies run stat g =
     (let st = systemd_QueryStatus run stat;
          check = set_checked notifies (linux_boot_changed run);
          bs = [StartBtn, StopBtn, RestartBtn, UninstallBtn, InstallBtn, BootCheck, LogsBtn] in
      if \<not> ss_Installed st then
        check False (set_buttons (\<lambda>b. b = InstallBtn) bs (g\<lparr>sg_statusLabel := ''Status: Not Installed''\<rparr>))
      else if ss_Active st then
        set_mode True (check (ss_Enabled st)
          (set_buttons (\<lambda>b. b \<in> {StopBtn, RestartBtn, BootCheck, LogsBtn}) bs
             (g\<lparr>sg_statusLabel := ''Status: Running'' @ (if ss_PID st \<noteq> [] then '' (PID '' @ ss_PID st @ '')'' else [])\<rparr>)))
      else
        set_mode True (check (ss_Enabled st)
          (set_buttons (\<lambda>b. b \<in> {StartBtn, UninstallBtn, BootCheck, LogsBtn}) bs (g\<lparr>sg_statusLabel := ''Status: Stopped''\<rparr>))))"

section \<open>Windows\<close>

record TAPStatus =
  tp_Installed :: bool
  tp_AdapterName :: string
  tp_DriverPath :: string

text \<open>
  \<open>jn\<close> is \<^verbatim>\<open>filepath.Join\<close>, \<open>getenv\<close> the environment and \<open>stat\<close> the answer of \<^verbatim>\<open>os.Stat\<close>.
\<close>

definition QueryTAPStatus ::
  "exec \<Rightarrow> (string list \<Rightarrow> string) \<Rightarrow> (string \<Rightarrow> string) \<Rightarrow> (string \<Rightarrow> goerr option) \<Rightarrow> TAPStatus" where
  "QueryTAPStatus run jn getenv stat =
     (let st = \<lparr>tp_Installed = False, tp_AdapterName = [], tp_DriverPath = []\<rparr> in
      case run ''netsh'' [''interface'', ''show'', ''interface''] of
        (out, Some _) \<Rightarrow> st
      | (out, None) \<Rightarrow>
          (let st1 = (case find (\<lambda>line. contains_str (to_lower line) ''tap'') (split_on NL out) of
                        None \<Rightarrow> st
                      | Some line \<Rightarrow>
                          (let fs = str_fields line in
                           if length fs \<ge> 4 then st\<lparr>tp_Installed := True, tp_AdapterName := last fs\<rparr> else st));
               programFiles = (if getenv ''ProgramFiles'' = [] then ''C:'' @ [BSL] @ ''Program Files'' else getenv ''ProgramFiles'');
               tapDir = jn [programFiles, ''TAP-Windows'', ''bin''] in
           if stat tapDir = None then st1\<lparr>tp_DriverPath := tapDir\<rparr> else st1))"

definition tap_candidates :: "(string list \<Rightarrow> string) \<Rightarrow> (string \<Rightarrow> string) \<Rightarrow> string \<Rightarrow> string list" where
  "tap_candidates jn getenv name =
     map (\<lambda>dir. jn [dir, ''TAP-Windows'', ''bin'', name])
       [getenv ''ProgramFiles'', getenv ''ProgramFiles(x86)'',
        ''C:'' @ [BSL] @ ''Program Files'', ''C:'' @ [BSL] @ ''Program Files (x86)'']"

definition findTAPBat ::
  "(string list \<Rightarrow> string) \<Rightarrow> (string \<Rightarrow> string) \<Rightarrow> (string \<Rightarrow> goerr option) \<Rightarrow> string \<Rightarrow> string" where
  "findTAPBat jn getenv stat name =
     (case find (\<lambda>p. p \<noteq> [] \<and> stat p = None) (tap_candidates jn getenv name) of Some p \<Rightarrow> p | None \<Rightarrow> [])"

text \<open>A batch file of the driver, run in its own directory.\<close>

definition run_tap_bat :: "exec \<Rightarrow> string \<Rightarrow> string \<Rightarrow> string \<Rightarrow> goerr option \<times> effect list" where
  "run_tap_bat run what missing batPath =
     (if batPath = [] then (Some (ErrMsg missing), [])
      else (case run batPath [] of
              (out, err) \<Rightarrow>
                (map_option (\<lambda>e. ErrMsg (''winsvc: '' @ what @ '' failed: '' @ error_msg e @ '': '' @ trim_space out)) err,
                 [Exec batPath []])))"

definition InstallTAPAdapter ::
  "exec \<Rightarrow> (string list \<Rightarrow> string) \<Rightarrow> (string \<Rightarrow> string) \<Rightarrow> (string \<Rightarrow> goerr option) \<Rightarrow> goerr option \<times> effect list" where
  "InstallTAPAdapter run jn getenv stat =
     run_tap_bat run ''addtap'' ''winsvc: addtap.bat not found; install TAP-Windows6 driver first''
       (findTAPBat jn getenv stat ''addtap.bat'')"

definition RemoveTAPAdapter ::
  "exec \<Rightarrow> (string list \<Rightarrow> string) \<Rightarrow> (string \<Rightarrow> string) \<Rightarrow> (string \<Rightarrow> goerr option) \<Rightarrow> goerr option \<times> effect list" where
  "RemoveTAPAdapter run jn getenv stat =
     run_tap_bat run ''deltapall'' ''winsvc: deltapall.bat not found; TAP-Windows6 driver may not be installed''
       (findTAPBat jn getenv stat ''deltapall.bat'')"

text \<open>Installing and removing the service: the calls of the service control manager are those of
  theory \<open>Service_Units\<close>, of which the tab sees the error.\<close>

definition windows_install :: "goerr option \<Rightarrow> svc_gui \<Rightarrow> svc_gui" where
  "windows_install err = report (err, []) (show_svc (SvcInfo ''TorVM service installed successfully.''))"

definition windows_uninstall :: "goerr option \<Rightarrow> svc_gui \<Rightarrow> svc_gui" where
  "windows_uninstall err = report (err, []) (\<lambda>g. show_svc (SvcInfo ''TorVM service uninstalled.'') (set_mode False g))"

definition windows_install_tap :: "goerr option \<times> effect list \<Rightarrow> svc_gui \<Rightarrow> svc_gui" where
  "windows_install_tap r = report r (show_svc (SvcInfo ''TAP adapter installed successfully.''))"

definition windows_remove_tap :: "bool \<Rightarrow> goerr option \<times> effect list \<Rightarrow> svc_gui \<Rightarrow> svc_gui" where
  "windows_remove_tap ok r g = (if \<not> ok then g else report r (show_svc (SvcInfo ''TAP adapters removed.'')) g)"

definition windows_updateUI :: "TAPStatus \<Rightarrow> svc_gui \<Rightarrow> svc_gui" where
  "windows_updateUI tap g =
     (let g1 = (if tp_Installed tap
                then set_buttons (\<lambda>b. b = RemoveTAPBtn) [InstallTAPBtn, RemoveTAPBtn]
                       (g\<lparr>sg_tapLabel := ''TAP: Installed ('' @ tp_AdapterName tap @ '')''\<rparr>)
                else set_buttons (\<lambda>b. b = InstallTAPBtn) [InstallTAPBtn, RemoveTAPBtn] (g\<lparr>sg_tapLabel := ''TAP: Not Installed''\<rparr>))
      in set_buttons (\<lambda>_. True) [InstallBtn, UninstallBtn] (g1\<lparr>sg_statusLabel := ''Status: Ready''\<rparr>))"

section \<open>Start and Stop in service mode\<close>

fun goos_name :: "goos \<Rightarrow> string" where
  "goos_name Linux = ''linux''"
| "goos_name Darwin = ''darwin''"
| "goos_name Windows = ''windows''"
| "goos_name (OtherOS n) = n"

text \<open>Package \<^verbatim>\<open>launchd\<close> on other systems than macOS.\<close>

definition errUnsupported :: "goos \<Rightarrow> goerr" where
  "errUnsupported os = ErrMsg (''launchd: not supported on '' @ goos_name os)"

definition launchd_call :: "goos \<Rightarrow> goerr option \<times> effect list \<Rightarrow> goerr option \<times> effect list" where
  "launchd_call os r = (if os = Darwin then r else (Some (errUnsupported os), []))"

definition gui_start :: "goos \<Rightarrow> exec \<Rightarrow> svc_gui \<Rightarrow> svc_gui" where
  "gui_start os run g =
     (if rc_serviceMode (sg_runner g)
      then (case launchd_call os (launchd_Start run) of
              (err, effs) \<Rightarrow> done_effects effs (g\<lparr>sg_runner := startVM err (sg_runner g)\<rparr>))
      else g\<lparr>sg_runner := startVM None (sg_runner g)\<rparr>)"

definition gui_stop :: "goos \<Rightarrow> exec \<Rightarrow> svc_gui \<Rightarrow> svc_gui" where
  "gui_stop os run g =
     (if rc_serviceMode (sg_runner g)
      then (case launchd_call os (launchd_Stop run) of
              (err, effs) \<Rightarrow> done_effects effs (g\<lparr>sg_runner := stopVM err (sg_runner g)\<rparr>))
      else g\<lparr>sg_runner := stopVM None (sg_runner g)\<rparr>)"

text \<open>What happens on Linux to the buttons and the service tab, uninstalling through the tab apart.\<close>

datatype linux_op = PressStart | PressStop | PollTab exec "goerr option" | BootToggled exec bool | PressUnit exec string

fun linux_step :: "(bool \<Rightarrow> bool \<Rightarrow> bool) \<Rightarrow> exec \<Rightarrow> linux_op \<Rightarrow> svc_gui \<Rightarrow> svc_gui" where
  "linux_step notifies run PressStart g = gui_start Linux run g"
| "linux_step notifies run PressStop g = gui_stop Linux run g"
| "linux_step notifies run (PollTab answers stat) g = linux_updateUI notifies answers stat g"
| "linux_step notifies run (BootToggled answers on) g = linux_boot_changed answers on g"
| "linux_step notifies run (PressUnit answers verb) g = linux_unit answers verb g"

section \<open>Lemmas\<close>

named_theorems svc_simps

lemmas svc_defs [svc_simps] = report_def show_svc_def done_effects_def show_logs_def set_buttons_def set_checked_def
  set_mode_def linux_unit_def linux_boot_changed_def darwin_boot_changed_def Let_def

lemma report_runner [simp]: "(\<And>g. sg_runner (k g) = sg_runner g) \<Longrightarrow> sg_runner (report r k g) = sg_runner g"
  by (auto simp: svc_simps split: option.splits)

lemma check_runner: "(\<And>v g. sg_runner (f v g) = sg_runner g) \<Longrightarrow> sg_runner (set_checked n f v g) = sg_runner g"
  by (simp add: set_checked_def Let_def)

lemma boot_runner [simp]:
  "sg_runner (linux_boot_changed run on g) = sg_runner g" "sg_runner (darwin_boot_changed run on g) = sg_runner g"
  "sg_runner (linux_unit run verb g) = sg_runner g"
  by (simp_all add: linux_boot_changed_def linux_unit_def darwin_boot_changed_def)

lemma linux_updateUI_runner:
  "sg_runner (linux_updateUI notifies run stat g) =
     (if stat = None then (sg_runner g)\<lparr>rc_serviceMode := True\<rparr> else sg_runner g)"
proof -
  have "ss_Installed (foldl show_line st ls) = ss_Installed st" for st ls
    by (induction ls arbitrary: st) (auto simp: show_line_def Let_def)
  then have "ss_Installed (systemd_QueryStatus run stat) \<longleftrightarrow> stat = None"
    by (auto simp: systemd_QueryStatus_def Let_def split: prod.splits option.splits)
  then show ?thesis
    by (auto simp: linux_updateUI_def set_mode_def set_buttons_def check_runner Let_def)
qed

lemma darwin_updateUI_runner:
  "sg_runner (darwin_updateUI notifies run plist g) =
     (if ls_Installed (launchd_QueryStatus run plist) then (sg_runner g)\<lparr>rc_serviceMode := True\<rparr> else sg_runner g)"
  by (auto simp: darwin_updateUI_def set_mode_def set_buttons_def check_runner Let_def)

lemma windows_updateUI_runner: "sg_runner (windows_updateUI tap g) = sg_runner g"
  by (simp add: windows_updateUI_def set_buttons_def Let_def)

text \<open>What the service tabs of the three systems have in common: polling only looks, as far as the
  runs of the engine go, and never leaves the service mode.\<close>

locale polled_tab =
  fixes update :: "'p \<Rightarrow> svc_gui \<Rightarrow> svc_gui"
  assumes keeps_runs: "rc_runs (sg_runner (update x g)) = rc_runs (sg_runner g)"
    and keeps_cancel: "rc_cancel (sg_runner (update x g)) = rc_cancel (sg_runner g)"
    and keeps_mode: "rc_serviceMode (sg_runner g) \<Longrightarrow> rc_serviceMode (sg_runner (update x g))"
begin

lemma polls_keep:
  "rc_runs (sg_runner (fold update xs g)) = rc_runs (sg_runner g)
   \<and> rc_cancel (sg_runner (fold update xs g)) = rc_cancel (sg_runner g)
   \<and> (rc_serviceMode (sg_runner g) \<longrightarrow> rc_serviceMode (sg_runner (fold update xs g)))"
  by (induction xs arbitrary: g) (simp_all add: keeps_runs keeps_cancel keeps_mode)

end

interpretation darwin_tab: polled_tab "\<lambda>(run, plist). darwin_updateUI notifies run plist" for notifies
  by unfold_locales (auto simp: darwin_updateUI_runner split: prod.splits)

interpretation linux_tab: polled_tab "\<lambda>(run, stat). linux_updateUI notifies run stat" for notifies
  by unfold_locales (auto simp: linux_updateUI_runner split: prod.splits)

interpretation windows_tab: polled_tab windows_updateUI
  by unfold_locales (simp_all add: windows_updateUI_runner)

definition press :: "linux_op \<Rightarrow> bool" where
  "press a \<longleftrightarrow> a = PressStart \<or> a = PressStop"

text \<open>In service mode on Linux, whatever is pressed ends in the error of the stub.\<close>

lemma linux_step_blocked:
  assumes "rc_serviceMode (sg_runner g)" "g' = linux_step notifies run a g"
  shows "rc_serviceMode (sg_runner g')" "rc_runs (sg_runner g') = rc_runs (sg_runner g)"
    "rc_cancel (sg_runner g') = rc_cancel (sg_runner g)"
    "rc_errors (sg_runner g') = rc_errors (sg_runner g) @ (if press a then [errUnsupported Linux] else [])"
  using assms linux_tab.keeps_mode linux_tab.keeps_runs linux_tab.keeps_cancel
  by (cases a; auto simp: gui_start_def gui_stop_def launchd_call_def startVM_def stopVM_def service_call_def
        done_effects_def linux_updateUI_runner press_def Let_def)+

lemma linux_steps_blocked:
  assumes "rc_serviceMode (sg_runner g)" "g' = fold (linux_step notifies run) as g"
  shows "rc_runs (sg_runner g') = rc_runs (sg_runner g) \<and> rc_cancel (sg_runner g') = rc_cancel (sg_runner g)
    \<and> rc_errors (sg_runner g') = rc_errors (sg_runner g) @ replicate (length (filter press as)) (errUnsupported Linux)"
  using assms
proof (induction "as" arbitrary: g)
  case (Cons a "as")
  note s = linux_step_blocked [OF Cons.prems(1) HOL.refl, of notifies run a]
  show ?case using Cons.IH [OF s(1)] Cons.prems(2) s(2-4) by auto
qed simp

lemma digit_loop_digits: "v > 0 \<Longrightarrow> digit_loop v s = digits_of (nat v) @ s"
proof (induction v s rule: digit_loop.induct)
  case (1 v s)
  have m: "nat (v mod 10) = nat v mod 10" "nat (v div 10) = nat v div 10" using 1 by (simp_all add: nat_mod_distrib nat_div_distrib)
  show ?case
  proof (cases "v < 10")
    case True
    then have "v div 10 = 0" "v mod 10 = v" using 1 by simp_all
    then show ?thesis using True 1 by (simp add: digit_loop.simps [of v] digit_loop.simps [of 0] digits_of.simps [of "nat v"])
  next
    case False
    then have "v div 10 > 0" "\<not> nat v < 10" by (simp_all add: pos_imp_zdiv_pos_iff nat_less_iff)
    then show ?thesis using 1 False m by (simp add: digit_loop.simps [of v] digits_of.simps [of "nat v"])
  qed
qed

lemma intToStr_itoa: "- (2 ^ 63) < n \<Longrightarrow> intToStr n = itoa n"
proof -
  have "digits_of 0 = ''0''" by code_simp
  then show "- (2 ^ 63) < n \<Longrightarrow> intToStr n = itoa n" by (auto simp: intToStr_def itoa_def digit_loop_digits Let_def)
qed

lemma darwin_updateUI_effects:
  assumes "notifies_on_change notifies" "st = launchd_QueryStatus run plist" "v = (ls_Installed st \<and> ls_RunAtLoad st)"
  shows "sg_checked (darwin_updateUI notifies run plist g) = v"
    "sg_effects (darwin_updateUI notifies run plist g) =
       sg_effects g @ (if sg_checked g = v then [] else snd (SetRunAtLoad run v))"
  using assms by (auto simp: darwin_updateUI_def notifies_on_change_def svc_simps split: option.splits)

section \<open>Properties\<close>

text \<open>
  On Linux the service tab disables Start and Stop. As soon as the tab has found the systemd unit
  installed, which it looks for when the window is built and every five seconds, the application is
  in service mode, and its Start and Stop buttons call launchd, which exists on macOS only. From then
  on, whatever is pressed and whatever later polls find, no run of the engine is started and none
  that goes on is cancelled: every press ends with the error of the stub. Only uninstalling the
  unit in the same tab ends the mode; that the unit is gone does not.
\<close>

theorem linux_service_mode_blocks:
  assumes "g1 = linux_updateUI notifies answers None g" "g2 = fold (linux_step notifies run) acts g1"
  shows "rc_serviceMode (sg_runner g1) \<and> rc_runs (sg_runner g2) = rc_runs (sg_runner g)
    \<and> rc_cancel (sg_runner g2) = rc_cancel (sg_runner g)
    \<and> rc_errors (sg_runner g2) = rc_errors (sg_runner g) @
        replicate (length (filter press acts)) (ErrMsg ''launchd: not supported on linux'')"
proof -
  have "sg_runner g1 = (sg_runner g)\<lparr>rc_serviceMode := True\<rparr>" using assms(1) linux_updateUI_runner by simp
  then show ?thesis using linux_steps_blocked [OF _ assms(2)] by (simp add: errUnsupported_def)
qed

theorem linux_service_mode_blocks_witness:
  "let g1 = linux_updateUI (\<lambda>old new. old \<noteq> new) (\<lambda>_ _. ([], None)) None (new_svc_gui (startVM None (new_runner False)));
       g2 = fold (linux_step (\<lambda>old new. old \<noteq> new) (\<lambda>_ _. ([], None))) [PressStop, PressStart] g1 in
   rc_runs (sg_runner g2) = [(False, RunGoing)]
   \<and> rc_errors (sg_runner g2) = [ErrMsg ''launchd: not supported on linux'', ErrMsg ''launchd: not supported on linux'']"
  using linux_service_mode_blocks [OF HOL.refl HOL.refl, where notifies = "\<lambda>old new. old \<noteq> new" and run = "\<lambda>_ _. ([], None)"
      and answers = "\<lambda>_ _. ([], None)" and acts = "[PressStop, PressStart]" and g = "new_svc_gui (startVM None (new_runner False))"]
  by (simp add: new_svc_gui_def startVM_def new_runner_def press_def numeral_2_eq_2)

text \<open>
  Looking at the service can change it. On macOS every poll sets the box Start on Boot to what
  the plist says; the toolkit calls the callback of the box when its value changes, and the
  callback runs the command that writes the plist with administrator privileges. So a poll runs it
  exactly when the box differs from the plist, in particular when the window opens while the
  service starts on boot, without the user having touched anything.
\<close>

theorem poll_runs_privileged:
  assumes "notifies_on_change notifies" "st = launchd_QueryStatus run plist" "v = (ls_Installed st \<and> ls_RunAtLoad st)"
  shows "sg_checked (darwin_updateUI notifies run plist g) = v
    \<and> sg_effects (darwin_updateUI notifies run plist g) =
        sg_effects g @ (if sg_checked g = v then [] else snd (SetRunAtLoad run v))"
  using darwin_updateUI_effects [OF assms] by simp

theorem poll_runs_privileged_witness:
  "\<exists>script. sg_effects (darwin_updateUI (\<lambda>old new. old \<noteq> new) (\<lambda>_ _. ([], None)) (Inr (generatePlist True)) (new_svc_gui (new_runner True)))
     = [Exec ''osascript'' [''-e'', script]]"
proof -
  have n: "notifies_on_change (\<lambda>old new. old \<noteq> new)" by (simp add: notifies_on_change_def)
  have c: "contains_str (generatePlist True) (''<key>RunAtLoad</key>'' @ [NL, TAB] @ ''<true/>'')" by code_simp
  have l: "find (\<lambda>line. contains_str line serviceLabel) (split_on NL []) = None" by code_simp
  have st: "launchd_QueryStatus (\<lambda>_ _. ([], None)) (Inr (generatePlist True)) =
      \<lparr>ls_Installed = True, ls_Running = False, ls_RunAtLoad = True, ls_PID = 0, ls_LastExit = 0\<rparr>"
    using c l by (simp add: launchd_QueryStatus_def Let_def)
  from poll_runs_privileged [OF n HOL.refl HOL.refl, of "\<lambda>_ _. ([], None)" "Inr (generatePlist True)" "new_svc_gui (new_runner True)"]
  show ?thesis by (simp add: st new_svc_gui_def SetRunAtLoad_def runPrivileged_def Let_def)
qed

end
