(* ===== verification/Service_Os.thy ===== *)
theory Service_Os
  imports Gui_Service
begin

text \<open>
  The service packages by operating system: each of \<^verbatim>\<open>internal/systemd\<close>, \<^verbatim>\<open>internal/winsvc\<close> and
  \<^verbatim>\<open>internal/launchd\<close> has a file for its own system and a stub for the others. The writers that
  the logger gets for the journal and the event log, the notifications to systemd, the run under
  the service control manager, and the commands \<^verbatim>\<open>--service-install\<close> and \<^verbatim>\<open>--service-uninstall\<close>
  of \<^verbatim>\<open>main\<close>.
\<close>

section \<open>winsvc\<close>

definition winsvc_unsupported :: "goos \<Rightarrow> goerr" where
  "winsvc_unsupported os = ErrMsg (''winsvc: not supported on '' @ goos_name os)"

text \<open>\<^verbatim>\<open>InstallService\<close> and \<^verbatim>\<open>RemoveService\<close>, and the calls for the TAP adapter.\<close>

definition winsvc_call :: "goos \<Rightarrow> goerr option \<times> 'a list \<Rightarrow> goerr option \<times> 'a list" where
  "winsvc_call os r = (if os = Windows then r else (Some (winsvc_unsupported os), []))"

definition winsvc_tap_status :: "goos \<Rightarrow> TAPStatus \<Rightarrow> TAPStatus" where
  "winsvc_tap_status os st = (if os = Windows then st else \<lparr>tp_Installed = False, tp_AdapterName = [], tp_DriverPath = []\<rparr>)"

definition NewEventLogWriter :: "goos \<Rightarrow> goerr option \<Rightarrow> goerr option" where
  "NewEventLogWriter os opened =
     (if os = Windows then map_option (wrap ''winsvc: open event log'') opened else Some (winsvc_unsupported os))"

definition eventlog_write_on :: "goos \<Rightarrow> goerr option \<Rightarrow> string \<Rightarrow> nat res \<times> string list" where
  "eventlog_write_on os wr p = (if os = Windows then eventlog_Write wr p else (Inl (winsvc_unsupported os), []))"

definition eventlog_Close :: "goos \<Rightarrow> goerr option \<Rightarrow> goerr option" where
  "eventlog_Close os err = (if os = Windows then err else None)"

text \<open>\<open>opened\<close> is the answer of the event log and \<open>served\<close> that of \<^verbatim>\<open>svc.Run\<close>, which calls \<open>Execute\<close>.\<close>

datatype svc_action = LogError string | AttachEventLog | SvcRun string | CloseEventLog

definition RunService :: "goos \<Rightarrow> goerr option \<Rightarrow> goerr option \<Rightarrow> goerr option \<times> svc_action list" where
  "RunService os opened served =
     (if os \<noteq> Windows then (Some (winsvc_unsupported os), [])
      else
        (let attach = NewEventLogWriter os opened in
         (map_option (wrap ''winsvc: service run failed'') served,
          (case attach of Some err \<Rightarrow> [LogError (''failed to open event log: '' @ error_msg err)] | None \<Rightarrow> [AttachEventLog])
          @ [SvcRun ''TorVM''] @ (if attach = None then [CloseEventLog] else []))))"

section \<open>systemd\<close>

text \<open>A notification goes through \<open>notify\<close> with the socket of the process and its answers.\<close>

definition sd_notify :: "goos \<Rightarrow> string \<Rightarrow> goerr option \<Rightarrow> goerr option \<Rightarrow> string \<Rightarrow> goerr option \<times> (string \<times> string) list" where
  "sd_notify os sock dial wr st = (if os = Linux then notify sock dial wr st else (None, []))"

definition Ready :: string where "Ready = ''READY=1''"
definition Stopping :: string where "Stopping = ''STOPPING=1''"
definition Watchdog :: string where "Watchdog = ''WATCHDOG=1''"
definition Status :: "string \<Rightarrow> string" where "Status st = ''STATUS='' @ st"
definition MainPID :: "int \<Rightarrow> string" where "MainPID pid = ''MAINPID='' @ itoa pid"

definition underSystemd :: "goos \<Rightarrow> string \<Rightarrow> bool" where
  "underSystemd os sock \<longleftrightarrow> os = Linux \<and> IsRunningUnderSystemd sock"

definition systemd_verb :: "exec \<Rightarrow> string \<Rightarrow> goerr option \<times> effect list" where
  "systemd_verb run verb = (systemctl run [verb, unitName], [Exec ''systemctl'' [verb, unitName]])"

text \<open>On other systems every operation succeeds and does nothing.\<close>

definition systemd_call :: "goos \<Rightarrow> goerr option \<times> effect list \<Rightarrow> goerr option \<times> effect list" where
  "systemd_call os r = (if os = Linux then r else (None, []))"

definition systemd_status_on :: "goos \<Rightarrow> exec \<Rightarrow> goerr option \<Rightarrow> ServiceStatus" where
  "systemd_status_on os run stat =
     (if os = Linux then systemd_QueryStatus run stat
      else \<lparr>ss_Installed = False, ss_Active = False, ss_Enabled = False, ss_PID = [], ss_Status = []\<rparr>)"

definition journal_logs_on :: "goos \<Rightarrow> exec \<Rightarrow> int \<Rightarrow> string res" where
  "journal_logs_on os run n = (if os = Linux then ReadJournalLogs run n else Inr [])"

definition journalSocket :: string where "journalSocket = ''/run/systemd/journal/socket''"

definition journal_unavailable :: goerr where
  "journal_unavailable = ErrMsg ''systemd: journal not available on this platform''"

text \<open>\<open>dial\<close> answers for the address of the socket.\<close>

definition NewJournalWriter :: "goos \<Rightarrow> (string \<Rightarrow> goerr option) \<Rightarrow> goerr option" where
  "NewJournalWriter os dial =
     (if os = Linux then map_option (wrap ''systemd: dial journal socket'') (dial journalSocket)
      else Some journal_unavailable)"

definition journal_write_on :: "goos \<Rightarrow> goerr option \<Rightarrow> string \<Rightarrow> nat res \<times> string list" where
  "journal_write_on os wr p = (if os = Linux then journal_Write wr p else (Inl journal_unavailable, []))"

definition journal_Close :: "goos \<Rightarrow> goerr option \<Rightarrow> goerr option" where
  "journal_Close os err = (if os = Linux then err else None)"

section \<open>Service commands\<close>

text \<open>The answers of the system that the two commands depend on.\<close>

record service_world =
  sw_run :: exec
  sw_temp :: "string res"
  sw_tempWrite :: "goerr option"
  sw_unit :: "string res"
  sw_unitWrite :: "goerr option"
  sw_exe :: "string res"
  sw_connect :: "goerr option"
  sw_open :: "goerr option"
  sw_create :: "goerr option"
  sw_source :: "goerr option"
  sw_delete :: "goerr option"

definition install_error :: "goos \<Rightarrow> service_world \<Rightarrow> goerr option" where
  "install_error os w =
     (case os of
        Darwin \<Rightarrow> fst (launchd_Install (sw_run w) (sw_temp w) (sw_tempWrite w) False)
      | Linux \<Rightarrow> fst (systemd_Install (sw_run w) (sw_unit w) (sw_unitWrite w))
      | Windows \<Rightarrow> fst (InstallService (sw_exe w) (sw_connect w) (sw_open w) (sw_create w) (sw_source w))
      | OtherOS _ \<Rightarrow> None)"

definition uninstall_error :: "goos \<Rightarrow> service_world \<Rightarrow> goerr option" where
  "uninstall_error os w =
     (case os of
        Darwin \<Rightarrow> fst (launchd_Uninstall (sw_run w))
      | Linux \<Rightarrow> None
      | Windows \<Rightarrow> fst (RemoveService (sw_connect w) (sw_open w) (sw_delete w) (sw_source w))
      | OtherOS _ \<Rightarrow> None)"

text \<open>The tab for the service; other systems have none.\<close>

definition has_service_tab :: "goos \<Rightarrow> bool" where
  "has_service_tab os \<longleftrightarrow> os \<in> {Darwin, Linux, Windows}"

section \<open>Installing and removing the unit\<close>

text \<open>The files of a system under the effects of the service functions, whose commands leave
  other files alone.\<close>

fun file_effect :: "effect \<Rightarrow> (string \<rightharpoonup> string) \<Rightarrow> (string \<rightharpoonup> string)" where
  "file_effect (Exec p args) fs = fs"
| "file_effect (CreateTemp p d) fs = fs(p \<mapsto> d)"
| "file_effect (WriteFile p d) fs = fs(p \<mapsto> d)"
| "file_effect (RemoveFile p) fs = fs(p := None)"

definition file_effects :: "effect list \<Rightarrow> (string \<rightharpoonup> string) \<Rightarrow> (string \<rightharpoonup> string)" where
  "file_effects es fs = fold file_effect es fs"

lemma file_effects_append [simp]: "file_effects (es @ es') fs = file_effects es' (file_effects es fs)"
  by (simp add: file_effects_def)

text \<open>Whatever the install does, and whether it fails half way, removing the service afterwards
  leaves the files as they were without a unit.\<close>

lemma systemd_install_uninstall:
  "file_effects (snd (systemd_Install run unit wr) @ systemd_Uninstall) fs = fs(unitPath := None)"
  by (auto simp: systemd_Install_def systemd_Uninstall_def file_effects_def split: sum.splits option.splits)

lemma systemd_install_writes:
  "fst (systemd_Install run (Inr data) wr) = None \<Longrightarrow> file_effects (snd (systemd_Install run (Inr data) wr)) fs = fs(unitPath \<mapsto> data)"
  by (auto simp: systemd_Install_def file_effects_def split: option.splits)

lemma launchd_install_keeps_files:
  assumes "fs tmp = None"
  shows "file_effects (snd (launchd_Install run (Inr tmp) wr b)) fs = fs"
proof -
  have "fs(tmp := None) = fs" using assms by auto
  then show ?thesis
    by (auto simp: launchd_Install_def runPrivileged_def file_effects_def Let_def split: option.splits prod.splits)
qed

end
