(* ===== verification/Main_Modes.thy ===== *)
theory Main_Modes
  imports Main_Program Service_Os
begin

text \<open>
  The rest of \<^verbatim>\<open>main\<close> (\<^verbatim>\<open>cmd/torvm/main.go\<close>): what the program sets up in the mode it starts in, how
  it runs the engine there, how it is stopped by a signal, by the maximal run time, by the
  service control manager or by the user, and how it ends. What is deferred is released in
  the reverse order when \<^verbatim>\<open>main\<close> returns, and not at all by \<^verbatim>\<open>os.Exit\<close>.
\<close>

section \<open>Set up\<close>

datatype resource = RecorderRes | MetricsRes | ContextRes | JournalRes | WatcherRes

datatype main_event =
    JsonLog
  | ContextMade "int option"
  | JournalAttached
  | RingAttached nat
  | Notified string
  | SignalsHandled
  | EngineMade Config
  | WatcherStarted string
  | SystemdObserver
  | BrowserEngineMade
  | BrowserObserver
  | Released resource
  | Logged string

text \<open>The answers of the system: the address of systemd's socket, the journal, and the watch on
  the configuration file.\<close>

record main_world =
  mw_sock :: string
  mw_journal :: "string \<Rightarrow> goerr option"
  mw_watch :: "string \<Rightarrow> goerr option"

definition common_setup :: "flags \<Rightarrow> main_event list \<times> resource list" where
  "common_setup fg =
     (if fg_logFormat fg = ''json'' then [JsonLog] else [],
      RecorderRes # (if fg_metricsAddr fg \<noteq> [] then [MetricsRes] else []))"

definition watch_setup :: "flags \<Rightarrow> main_world \<Rightarrow> main_event list \<times> resource list" where
  "watch_setup fg mw =
     (if fg_config fg = [] then ([], [])
      else case mw_watch mw (fg_config fg) of
        Some err \<Rightarrow> ([Logged (''config watcher: '' @ error_msg err)], [])
      | None \<Rightarrow> ([WatcherStarted (fg_config fg)], [WatcherRes]))"

definition journal_setup :: "goos \<Rightarrow> main_world \<Rightarrow> main_event list \<times> resource list" where
  "journal_setup os mw =
     (if \<not> underSystemd os (mw_sock mw) then ([], [])
      else case NewJournalWriter os (mw_journal mw) of
        Some err \<Rightarrow> ([Logged (''failed to open journal writer: '' @ error_msg err), Notified (Status ''starting'')], [])
      | None \<Rightarrow> ([JournalAttached, Notified (Status ''starting'')], [JournalRes]))"

definition headless_setup :: "goos \<Rightarrow> flags \<Rightarrow> main_world \<Rightarrow> Config \<Rightarrow> main_event list \<times> resource list" where
  "headless_setup os fg mw cfg =
     (fst (common_setup fg) @ [ContextMade (if fg_timeout fg > 0 then Some (fg_timeout fg) else None)]
        @ fst (journal_setup os mw) @ [SignalsHandled, EngineMade cfg] @ fst (watch_setup fg mw)
        @ (if underSystemd os (mw_sock mw) then [SystemdObserver] else []),
      snd (common_setup fg) @ [ContextRes] @ snd (journal_setup os mw) @ snd (watch_setup fg mw))"

definition gui_setup :: "flags \<Rightarrow> main_world \<Rightarrow> Config \<Rightarrow> main_event list \<times> resource list" where
  "gui_setup fg mw cfg =
     (fst (common_setup fg) @ [RingAttached 1000, EngineMade cfg] @ fst (watch_setup fg mw)
        @ (if bw_Enabled (Browser cfg)
           then BrowserEngineMade # (if bw_AutoStart (Browser cfg) then [BrowserObserver] else []) else [])
        @ [SignalsHandled],
      snd (common_setup fg) @ snd (watch_setup fg mw))"

definition release :: "resource list \<Rightarrow> main_event list" where
  "release rs = map Released (rev rs)"

section \<open>Running and stopping\<close>

text \<open>
  The context of the headless mode: cancelled by a signal, or by the deadline of the flag
  \<^verbatim>\<open>--timeout\<close>. \<open>time\<close> reads the clock of the world and \<open>sig\<close> tells whether a signal has arrived.
\<close>

definition deadline_of :: "flags \<Rightarrow> int \<Rightarrow> int option" where
  "deadline_of fg start = (if fg_timeout fg > 0 then Some (start + fg_timeout fg) else None)"

definition with_context :: "int option \<Rightarrow> ('w \<Rightarrow> int) \<Rightarrow> ('w \<Rightarrow> bool) \<Rightarrow> ('w, 's, 'c) env \<Rightarrow> ('w, 's, 'c) env" where
  "with_context dl time sig env =
     env\<lparr>ctx_err := (\<lambda>w.
       (if sig w then Some ErrCanceled
        else case dl of Some d \<Rightarrow> (if d \<le> time w then Some ErrDeadline else None) | None \<Rightarrow> None, w))\<rparr>"

definition signal_events :: "bool \<Rightarrow> main_event list" where
  "signal_events sd = (if sd then [Notified Stopping] else [])"

datatype progress = Ended nat | Crashed string | Going

text \<open>The panic of an observer ends the program when the transition that causes it happens.\<close>

definition observer_panic :: "bool \<Rightarrow> ('s, 'c) event list \<Rightarrow> string option" where
  "observer_panic sd cs =
     (if \<not> sd then None
      else case observe_all (observed cs) new_obs of Panic m \<Rightarrow> Some m | Ret _ \<Rightarrow> None)"

definition headless_end :: "goerr option \<Rightarrow> resource list \<Rightarrow> progress \<times> main_event list" where
  "headless_end err rs =
     (case err of
        Some e \<Rightarrow> (Ended 1, [Logged (''lifecycle error: '' @ error_msg e)])
      | None \<Rightarrow> (Ended 0, Logged ''TorVM controller exiting'' # release rs))"

text \<open>The program in headless mode while its engine makes at most \<open>k\<close> rounds.\<close>

definition headless ::
  "goos \<Rightarrow> flags \<Rightarrow> main_world \<Rightarrow> ('w \<Rightarrow> int) \<Rightarrow> ('w \<Rightarrow> bool) \<Rightarrow> ('w, 's, 'c) env \<Rightarrow> nat \<Rightarrow> nat \<Rightarrow> Config \<Rightarrow> 'w \<Rightarrow>
   progress \<times> main_event list \<times> ('w, 's, 'c) sys option" where
  "headless os fg mw time sig env n k cfg w =
     (case headless_setup os fg mw cfg of (evs, rs) \<Rightarrow>
      let sd = underSystemd os (mw_sock mw);
          env' = with_context (deadline_of fg (time w)) time sig env in
      case Run os env' n k (NewEngine cfg w) of
        Some (err, s) \<Rightarrow>
          (case observer_panic sd (calls s) of
             Some m \<Rightarrow> (Crashed m, evs, Some s)
           | None \<Rightarrow> (case headless_end err rs of (p, evs') \<Rightarrow> (p, evs @ evs', Some s)))
      | None \<Rightarrow>
          (case after_rounds os env' n k (NewEngine cfg w) of
             Some s \<Rightarrow> (case observer_panic sd (calls s) of Some m \<Rightarrow> (Crashed m, evs, Some s) | None \<Rightarrow> (Going, evs, Some s))
           | None \<Rightarrow> (Going, evs, None)))"

text \<open>
  The Windows service after a stop request, which cancels the context: it waits for the engine,
  which gets \<open>k\<close> rounds in the 30 seconds of the timer. The exit code, and the engine at the end.
\<close>

definition service_stop ::
  "goos \<Rightarrow> ('w, 's, 'c) env \<Rightarrow> nat \<Rightarrow> nat \<Rightarrow> ('w, 's, 'c) sys \<Rightarrow> nat option \<times> ('w, 's, 'c) sys option" where
  "service_stop os env n k s =
     (case Run os env n k s of
        Some (err, s') \<Rightarrow> (await_engine [EngineEnds err], Some s')
      | None \<Rightarrow> (await_engine [Timer30s], after_rounds os env n k s))"

text \<open>
  Quitting the graphical interface cancels the run, leaves the event loop and returns from
  \<^verbatim>\<open>main\<close>, while the goroutine of the engine makes some \<open>k\<close> rounds until the process ends.
\<close>

definition gui_quit ::
  "goos \<Rightarrow> flags \<Rightarrow> main_world \<Rightarrow> Config \<Rightarrow> runner \<Rightarrow> ('w, 's, 'c) env \<Rightarrow> nat \<Rightarrow> nat \<Rightarrow> ('w, 's, 'c) sys \<Rightarrow>
   runner \<times> progress \<times> main_event list \<times> ('w, 's, 'c) sys option" where
  "gui_quit os fg mw cfg a env n k s =
     (doQuit a, Ended 0, release (snd (gui_setup fg mw cfg)), after_rounds os env n k s)"

end
