(* ===== verification/Main_Stop.thy ===== *)
theory Main_Stop
  imports Main_Modes
begin

text \<open>
  How the program ends: the headless run that is left alone, with its exit code and what it
  releases, and what becomes of the network when the program is stopped in one of the ways it
  offers (a signal or the maximal run time in headless mode, with systemd and without, the
  service control manager, and quitting the graphical interface).
\<close>

section \<open>Lemmas\<close>

lemma clock_with_context: "clock_ok env time \<Longrightarrow> clock_ok (with_context dl time sig env) time"
  by (simp add: clock_ok_def with_context_def)

lemma quiet_context: "\<forall>w. \<not> sig w \<Longrightarrow> fst (ctx_err (with_context None time sig env) w) = None"
  by (simp add: with_context_def)

lemma observe_append:
  "observe_all (xs @ ys) ob = (case observe_all xs ob of Panic m \<Rightarrow> Panic m | Ret ob' \<Rightarrow> observe_all ys ob')"
  by (induction xs ob rule: observe_all.induct) (auto split: outcome.splits)

lemma cancelled_world:
  "stays_cancelled env C \<Longrightarrow> C (world s) \<Longrightarrow> after_rounds os env n k s = Some s' \<Longrightarrow> C (world s')"
proof (induction k arbitrary: s)
  case (Suc k)
  obtain s1 where "iterate os env n s = Some (Continue s1)" "C (world s1)"
    using cancelled_round [OF Suc.prems(1,2)] by blast
  with Suc show ?case by simp
qed simp

text \<open>From the cancellation on, two rounds suffice for the panic, and further ones do not change it.\<close>

lemma cancelled_panics:
  assumes "stays_cancelled env C" "C (world s)" "2 \<le> k"
  shows "\<exists>s' new. after_rounds os env n k s = Some s' \<and> calls s' = calls s @ new \<and> (\<forall>e\<in>set new. shutdown_event e)
    \<and> observe_all (observed (calls s')) new_obs = Panic ''close of closed channel''"
proof -
  obtain s2 new2 where s2: "after_rounds os env n 2 s = Some s2"
      "observe_all (observed (calls s2)) new_obs = Panic ''close of closed channel''"
    using systemd_cancel_panics [OF assms(1,2)] by blast
  obtain s' new where s': "after_rounds os env n k s = Some s'" "calls s' = calls s @ new" "\<forall>e\<in>set new. shutdown_event e"
    using cancelled_rounds [OF assms(1), where k = k and os = os and n = n] assms(2) by blast
  have "after_rounds os env n (2 + (k - 2)) s = after_rounds os env n (k - 2) s2" using after_rounds_add [OF s2(1)] .
  then have "after_rounds os env n (k - 2) s2 = Some s'" using s'(1) assms(3) by (simp only: le_add_diff_inverse)
  moreover have "C (world s2)" using cancelled_world [OF assms(1,2) s2(1)] .
  ultimately obtain new' where "calls s' = calls s2 @ new'"
    using cancelled_rounds [OF assms(1), where k = "k - 2" and os = os and n = n and s = s2] by auto
  then have "observe_all (observed (calls s')) new_obs = Panic ''close of closed channel''"
    using s2(2) by (simp add: observe_append)
  then show ?thesis using s' by blast
qed

lemma stop_not_restoring:
  assumes "\<forall>e\<in>set new. shutdown_event e"
  shows "\<forall>e\<in>set new. (\<forall>r. e \<noteq> ETeardownRouting r) \<and> (\<forall>sv r. e \<noteq> ERestoreConfig sv r) \<and> (\<forall>t r. e \<noteq> EDestroyTAP t r)"
  using assms by (fastforce simp: shutdown_event_def)

lemma released_release [simp]: "Released r \<in> set (release rs) \<longleftrightarrow> r \<in> set rs"
  by (auto simp: release_def)

section \<open>Properties\<close>


lemma calm_context: "with_context None (\<lambda>w. w) (\<lambda>_. False) calm = calm"
  by (simp add: with_context_def calm_def)

text \<open>No journal, no configuration file and no systemd.\<close>

definition plain_world :: main_world where
  "plain_world = \<lparr>mw_sock = [], mw_journal = (\<lambda>_. None), mw_watch = (\<lambda>_. None)\<rparr>"


text \<open>
  C2. No way of stopping the program puts the network back. Let the engine have made any number of
  rounds when the context is cancelled: in headless mode by SIGINT, SIGTERM or the end of the time
  given with \<^verbatim>\<open>--timeout\<close>, as a Windows service by a stop request, in the graphical interface by
  quitting. From then on the engine neither tears the routing down nor restores the saved
  configuration nor destroys the TAP device, and the headless program does not end: it goes on
  for ever or, under systemd, panics; the Windows service ends with exit code 0 when its timer
  runs out, and the graphical interface ends with exit code 0 at once.
\<close>

theorem stopping_strands_network:
  assumes "after_rounds os (with_context (deadline_of fg (time w)) time sig env) n j (NewEngine cfg w) = Some s"
    and "stays_cancelled (with_context (deadline_of fg (time w)) time sig env) C" "C (world s)" "2 \<le> k"
  shows "\<exists>s' new. calls s' = calls s @ new
    \<and> (\<forall>e\<in>set new. (\<forall>r. e \<noteq> ETeardownRouting r) \<and> (\<forall>sv r. e \<noteq> ERestoreConfig sv r) \<and> (\<forall>t r. e \<noteq> EDestroyTAP t r))
    \<and> headless os fg mw time sig env n (j + k) cfg w
        = (if underSystemd os (mw_sock mw) then Crashed ''close of closed channel'' else Going,
           fst (headless_setup os fg mw cfg), Some s')
    \<and> service_stop os (with_context (deadline_of fg (time w)) time sig env) n k s = (Some 0, Some s')
    \<and> snd (gui_quit os fg mw cfg a (with_context (deadline_of fg (time w)) time sig env) n k s)
        = (Ended 0, release (snd (gui_setup fg mw cfg)), Some s')"
proof -
  let ?env = "with_context (deadline_of fg (time w)) time sig env"
  obtain s' new where s': "after_rounds os ?env n k s = Some s'" "calls s' = calls s @ new" "\<forall>e\<in>set new. shutdown_event e"
      "observe_all (observed (calls s')) new_obs = Panic ''close of closed channel''"
    using cancelled_panics [OF assms(2-4)] by blast
  have none: "Run os ?env n k s = None" using cancelled_rounds [OF assms(2)] assms(3) by blast
  have "Run os ?env n (j + k) (NewEngine cfg w) = None" "after_rounds os ?env n (j + k) (NewEngine cfg w) = Some s'"
    using none s'(1) Run_after [OF assms(1)] after_rounds_add [OF assms(1)] by simp_all
  then have "headless os fg mw time sig env n (j + k) cfg w
      = (if underSystemd os (mw_sock mw) then Crashed ''close of closed channel'' else Going,
         fst (headless_setup os fg mw cfg), Some s')"
    using s'(4) by (simp add: headless_def Let_def observer_panic_def case_prod_unfold)
  then show ?thesis using s'(1,2) stop_not_restoring [OF s'(3)] none
    by (intro exI [of _ s'] exI [of _ new]) (simp add: service_stop_def gui_quit_def)
qed

text \<open>A signal before the first round: the program goes on after a million rounds.\<close>

theorem stopping_strands_network_witness:
  "\<exists>s'. headless Linux sample_flags plain_world (\<lambda>w. w) (\<lambda>_. True) calm 601 1000000 (DefaultConfig Linux) 0
      = (Going, fst (headless_setup Linux sample_flags plain_world (DefaultConfig Linux)), Some s')
    \<and> (\<forall>t r. EDestroyTAP t r \<notin> set (calls s'))"
proof -
  let ?env = "with_context (deadline_of sample_flags 0) (\<lambda>w. w) (\<lambda>_. True) calm"
  have "after_rounds Linux ?env 601 0 calm_engine = Some calm_engine" by simp
  moreover have "stays_cancelled ?env (\<lambda>_. True)" by (simp add: stays_cancelled_def with_context_def)
  moreover have "calls calm_engine = []" by (simp add: NewEngine_def)
  ultimately show ?thesis
    using stopping_strands_network [of Linux sample_flags "\<lambda>w. w" 0 "\<lambda>_. True" calm 601 0 "DefaultConfig Linux" calm_engine
        "\<lambda>_. True" 1000000 plain_world "new_runner False"]
    by (fastforce simp: plain_world_def underSystemd_def IsRunningUnderSystemd_def)
qed

end
