(* ===== verification/Metrics.thy ===== *)
theory Metrics
  imports Lifecycle_Props
begin

text \<open>
  The recorder of metrics (\<^verbatim>\<open>internal/metrics/metrics.go\<close>). A counter or histogram with labels is a
  function of the labels; an observation of a histogram is kept with its value. Times are in
  nanoseconds. The engine calls \<^verbatim>\<open>RecordTransition\<close> in every transition, so what the metrics show
  of a run is what the recorder makes of the transitions of the engine. Registering the metrics
  and the HTTP server are left to the Prometheus library.
\<close>

section \<open>Definitions\<close>

record Recorder =
  mr_StateTransitions :: "string \<times> string \<Rightarrow> nat"
  mr_BootstrapDuration :: "int list"
  mr_FailsafeActive :: int
  mr_UptimeSeconds :: int
  mr_BootstrapProgress :: int
  mr_StateDuration :: "(string \<times> int) list"
  mr_RestartsTotal :: nat
  mr_FailsafeActivations :: nat
  mr_startTime :: int
  mr_stopped :: bool
  mr_stateEnteredAt :: int
  mr_currentState :: string

definition NewRecorder :: "int \<Rightarrow> Recorder" where
  "NewRecorder now = \<lparr>mr_StateTransitions = (\<lambda>_. 0), mr_BootstrapDuration = [], mr_FailsafeActive = 0, mr_UptimeSeconds = 0,
     mr_BootstrapProgress = 0, mr_StateDuration = [], mr_RestartsTotal = 0, mr_FailsafeActivations = 0,
     mr_startTime = now, mr_stopped = False, mr_stateEnteredAt = now, mr_currentState = ''Init''\<rparr>"

text \<open>\<open>now\<close> is the clock at the transition, read for the duration and again for the new state.\<close>

definition RecordTransition :: "int \<Rightarrow> string \<Rightarrow> string \<Rightarrow> Recorder \<Rightarrow> Recorder" where
  "RecordTransition now frm to r =
     (let r1 = r\<lparr>mr_StateTransitions := (mr_StateTransitions r)((frm, to) := mr_StateTransitions r (frm, to) + 1)\<rparr>;
          r2 = (if mr_currentState r1 \<noteq> []
                then r1\<lparr>mr_StateDuration := mr_StateDuration r1 @ [(mr_currentState r1, now - mr_stateEnteredAt r1)]\<rparr> else r1);
          r3 = r2\<lparr>mr_currentState := to, mr_stateEnteredAt := now\<rparr>
      in if to = ''LaunchVM'' \<and> (frm = ''Shutdown'' \<or> frm = ''RestoreNetwork'' \<or> frm = ''Cleanup'')
         then r3\<lparr>mr_RestartsTotal := mr_RestartsTotal r3 + 1\<rparr> else r3)"

definition RecordBootstrapProgress :: "int \<Rightarrow> Recorder \<Rightarrow> Recorder" where
  "RecordBootstrapProgress pct r = r\<lparr>mr_BootstrapProgress := pct\<rparr>"

definition RecordFailsafeActivation :: "Recorder \<Rightarrow> Recorder" where
  "RecordFailsafeActivation r = r\<lparr>mr_FailsafeActivations := mr_FailsafeActivations r + 1\<rparr>"

definition RecordBootstrapDuration :: "int \<Rightarrow> Recorder \<Rightarrow> Recorder" where
  "RecordBootstrapDuration d r = r\<lparr>mr_BootstrapDuration := mr_BootstrapDuration r @ [d]\<rparr>"

definition SetFailsafeActive :: "bool \<Rightarrow> Recorder \<Rightarrow> Recorder" where
  "SetFailsafeActive on r = r\<lparr>mr_FailsafeActive := (if on then 1 else 0)\<rparr>"

definition recorder_Stop :: "Recorder \<Rightarrow> Recorder" where
  "recorder_Stop r = (if mr_stopped r then r else r\<lparr>mr_stopped := True\<rparr>)"

text \<open>A tick of the goroutine that updates the uptime, until it was stopped.\<close>

definition uptime_tick :: "int \<Rightarrow> Recorder \<Rightarrow> Recorder" where
  "uptime_tick now r = r\<lparr>mr_UptimeSeconds := (now - mr_startTime r) div (10 ^ 9)\<rparr>"

text \<open>The recorder on the transitions of an engine, each with the time at which it happened.\<close>

fun record_all :: "(int \<times> State \<times> State) list \<Rightarrow> Recorder \<Rightarrow> Recorder" where
  "record_all [] r = r"
| "record_all ((now, frm, to) # ts) r = record_all ts (RecordTransition now (state_string frm) (state_string to) r)"

section \<open>Lemmas\<close>

lemma record_all_snoc:
  "record_all (ts @ [(now, frm, to)]) r = RecordTransition now (state_string frm) (state_string to) (record_all ts r)"
  by (induction ts r rule: record_all.induct) auto

lemma state_string_names:
  "state_string s = ''LaunchVM'' \<longleftrightarrow> s = StateLaunchVM" "state_string s = ''Shutdown'' \<longleftrightarrow> s = StateShutdown"
  "state_string s = ''RestoreNetwork'' \<longleftrightarrow> s = StateRestoreNetwork" "state_string s = ''Cleanup'' \<longleftrightarrow> s = StateCleanup"
  "state_string s \<noteq> []"
  by (cases s; simp add: state_string_def state_names_def)+

text \<open>What the recorder shows after transitions that end in a state, begun at a time.\<close>

definition displays :: "int \<Rightarrow> (int \<times> State \<times> State) list \<Rightarrow> State \<Rightarrow> Recorder \<Rightarrow> bool" where
  "displays t0 ts b r \<longleftrightarrow> mr_currentState r = state_string b \<and> mr_RestartsTotal r = 0
     \<and> mr_FailsafeActive r = 0 \<and> mr_FailsafeActivations r = 0
     \<and> (\<forall>x y. mr_StateTransitions r (state_string x, state_string y) = count_list (map snd ts) (x, y))
     \<and> map fst (mr_StateDuration r) = map (\<lambda>(now, frm, to). state_string frm) ts
     \<and> sum_list (map snd (mr_StateDuration r)) = mr_stateEnteredAt r - t0"

lemma record_chain:
  "chain a xs b \<Longrightarrow> a = StateInit \<Longrightarrow> map snd ts = xs \<Longrightarrow> displays t0 ts b (record_all ts (NewRecorder t0))"
proof (induction arbitrary: ts rule: chain.induct)
  case (chain_Nil a)
  then show ?case by (simp add: displays_def NewRecorder_def state_string_def state_names_def)
next
  case (chain_snoc a xs b c)
  then obtain us now where ts: "ts = us @ [(now, b, c)]" "map snd us = xs"
    by (cases ts rule: rev_cases) auto
  have IH: "displays t0 us b (record_all us (NewRecorder t0))" using chain_snoc.IH [OF chain_snoc.prems(1) ts(2)] .
  have "\<not> (c = StateLaunchVM \<and> (b = StateShutdown \<or> b = StateRestoreNetwork \<or> b = StateCleanup))"
    using chain_snoc.hyps(2) by (auto simp: edge_simps)
  then show ?case using IH
    by (auto simp: ts(1) record_all_snoc displays_def RecordTransition_def Let_def state_string_names state_string_inj)
qed

section \<open>Properties\<close>

text \<open>
  What the metrics show of a run. For every reachable state of an engine whose transitions were
  recorded as they happened: the current state is that of the engine, the counter of each pair of
  states is the number of such transitions, the recorded durations are one per transition under
  the state that was left and add up to the time from the start to the last transition. The counter
  of restarts stays 0 in every run, since the engine enters LaunchVM from CreateTAP only, and so
  do the metrics of the failsafe, which no code sets, however often the failsafe was engaged.
\<close>

theorem metrics_of_run:
  assumes "reachable os env n cfg s" "map snd ts = observed (calls s)" "r = record_all ts (NewRecorder t0)"
  shows "mr_currentState r = state_string (state s)
    \<and> (\<forall>x y. mr_StateTransitions r (state_string x, state_string y) = count_list (observed (calls s)) (x, y))
    \<and> map fst (mr_StateDuration r) = map (\<lambda>(frm, to). state_string frm) (observed (calls s))
    \<and> sum_list (map snd (mr_StateDuration r)) = mr_stateEnteredAt r - t0
    \<and> mr_RestartsTotal r = 0 \<and> mr_FailsafeActive r = 0 \<and> mr_FailsafeActivations r = 0"
proof -
  have c: "chain StateInit (observed (calls s)) (state s)"
    using reachable_inv [OF assms(1)] by (simp add: engine_inv_def)
  have "map (\<lambda>(now, frm, to). state_string frm) ts = map (\<lambda>(frm, to). state_string frm) (map snd ts)"
    by (simp add: case_prod_unfold comp_def)
  then show ?thesis
    using record_chain [OF c HOL.refl assms(2), of t0] assms(2,3) by (auto simp: displays_def)
qed

theorem metrics_of_run_witness:
  "\<exists>s. reachable Linux calm 601 (DefaultConfig Linux) s \<and> state s = StateRunning
     \<and> mr_currentState (record_all (map (\<lambda>t. (0, t)) (observed (calls s))) (NewRecorder 0)) = ''Running''"
proof -
  obtain s where s: "reachable Linux calm 601 (DefaultConfig Linux) s" "state s = StateRunning"
    by (rule calm_running) blast
  have m: "map snd (map (\<lambda>t. (0 :: int, t)) (observed (calls s))) = observed (calls s)" by (simp add: comp_def)
  from metrics_of_run [OF s(1) m HOL.refl, of 0] s show ?thesis by (intro exI [of _ s]) (simp add: state_string_def state_names_def)
qed

end
