(* ===== verification/Go_Json.thy ===== *)
theory Go_Json
  imports Go_Prelude
begin

text \<open>
  The runes of a string, and the part of package \<^verbatim>\<open>encoding/json\<close> that the program uses to write flat
  objects: strings with their escapes, integers and booleans, with a reader for such texts and
  the round trip through both.
\<close>

section \<open>Runes\<close>

text \<open>
  The encodings of the runes of a string, as \<^verbatim>\<open>range\<close> delivers them: a byte that starts no valid
  UTF-8 sequence is a rune of its own.
\<close>

definition byte_in :: "string \<Rightarrow> nat \<Rightarrow> nat \<Rightarrow> nat \<Rightarrow> bool" where
  "byte_in s i lo hi \<longleftrightarrow> i < length s \<and> lo \<le> (of_char (s ! i) :: nat) \<and> (of_char (s ! i) :: nat) \<le> hi"

definition rune_len :: "string \<Rightarrow> nat" where
  "rune_len s =
     (if byte_in s 0 0xC2 0xDF \<and> byte_in s 1 0x80 0xBF then 2
      else if (byte_in s 0 0xE0 0xE0 \<and> byte_in s 1 0xA0 0xBF
               \<or> (byte_in s 0 0xE1 0xEC \<or> byte_in s 0 0xEE 0xEF) \<and> byte_in s 1 0x80 0xBF
               \<or> byte_in s 0 0xED 0xED \<and> byte_in s 1 0x80 0x9F) \<and> byte_in s 2 0x80 0xBF then 3
      else if (byte_in s 0 0xF0 0xF0 \<and> byte_in s 1 0x90 0xBF
               \<or> byte_in s 0 0xF1 0xF3 \<and> byte_in s 1 0x80 0xBF
               \<or> byte_in s 0 0xF4 0xF4 \<and> byte_in s 1 0x80 0x8F) \<and> byte_in s 2 0x80 0xBF \<and> byte_in s 3 0x80 0xBF then 4
      else 1)"

lemma rune_len_pos: "0 < rune_len s"
  by (simp add: rune_len_def)

function runes :: "string \<Rightarrow> string list" where
  "runes s = (if s = [] then [] else take (rune_len s) s # runes (drop (rune_len s) s))"
  by pat_completeness auto
termination
  by (relation "measure length") (auto simp: rune_len_pos)

declare runes.simps [simp del]

lemma concat_runes [simp]: "concat (runes s) = s"
  by (induction s rule: runes.induct) (subst runes.simps, simp)

text \<open>A rune is one byte, or its bytes are all above the ASCII range.\<close>

definition high :: "char \<Rightarrow> bool" where
  "high c \<longleftrightarrow> 0x80 \<le> (of_char c :: nat)"

lemma byte_in_high: "byte_in s i lo hi \<Longrightarrow> 0x80 \<le> lo \<Longrightarrow> high (s ! i)"
  by (simp add: byte_in_def high_def)

lemma rune_bytes:
  "rune_len s = 1 \<or> (rune_len s = 2 \<and> high (s ! 0) \<and> high (s ! 1))
   \<or> (rune_len s = 3 \<and> high (s ! 0) \<and> high (s ! 1) \<and> high (s ! 2))
   \<or> (rune_len s = 4 \<and> high (s ! 0) \<and> high (s ! 1) \<and> high (s ! 2) \<and> high (s ! 3))"
proof -
  have two: "byte_in s 0 0xC2 0xDF \<and> byte_in s 1 0x80 0xBF \<Longrightarrow> high (s ! 0) \<and> high (s ! 1)"
    by (simp add: byte_in_def high_def)
  have three: "(byte_in s 0 0xE0 0xE0 \<and> byte_in s 1 0xA0 0xBF
               \<or> (byte_in s 0 0xE1 0xEC \<or> byte_in s 0 0xEE 0xEF) \<and> byte_in s 1 0x80 0xBF
               \<or> byte_in s 0 0xED 0xED \<and> byte_in s 1 0x80 0x9F) \<and> byte_in s 2 0x80 0xBF
     \<Longrightarrow> high (s ! 0) \<and> high (s ! 1) \<and> high (s ! 2)"
    by (elim conjE disjE) (simp_all add: byte_in_def high_def)
  have four: "(byte_in s 0 0xF0 0xF0 \<and> byte_in s 1 0x90 0xBF
               \<or> byte_in s 0 0xF1 0xF3 \<and> byte_in s 1 0x80 0xBF
               \<or> byte_in s 0 0xF4 0xF4 \<and> byte_in s 1 0x80 0x8F) \<and> byte_in s 2 0x80 0xBF \<and> byte_in s 3 0x80 0xBF
     \<Longrightarrow> high (s ! 0) \<and> high (s ! 1) \<and> high (s ! 2) \<and> high (s ! 3)"
    by (elim conjE disjE) (simp_all add: byte_in_def high_def)
  show ?thesis
    using two three four unfolding rune_len_def by argo
qed

lemma rune_high:
  assumes "rune_len s \<noteq> 1"
  shows "list_all high (take (rune_len s) s)"
proof -
  have "\<forall>i < rune_len s. high (s ! i)"
    using rune_bytes [of s] assms by (auto simp: less_Suc_eq numeral_2_eq_2 numeral_3_eq_3 eval_nat_numeral)
  then show ?thesis by (simp add: list_all_length)
qed

lemma runes_shape: "r \<in> set (runes s) \<Longrightarrow> (\<exists>c. r = [c]) \<or> list_all high r"
proof (induction s rule: runes.induct)
  case (1 s)
  show ?case
  proof (cases "s = []")
    case False
    then have "r = take (rune_len s) s \<or> r \<in> set (runes (drop (rune_len s) s))"
      using "1.prems" by (subst (asm) runes.simps) auto
    moreover have "\<exists>c. take 1 s = [c]" using False by (cases s) auto
    ultimately show ?thesis using "1.IH" False rune_high [of s] by (cases "rune_len s = 1") auto
  qed (use "1.prems" in \<open>simp add: runes.simps\<close>)
qed

section \<open>Writing\<close>

definition hex4 :: "nat \<Rightarrow> string" where
  "hex4 n = [hex_char (n div 4096 mod 16), hex_char (n div 256 mod 16), hex_char (n div 16 mod 16), hex_char (n mod 16)]"

definition json_u :: "nat \<Rightarrow> string" where
  "json_u n = BSL # CHR ''u'' # hex4 n"

text \<open>The bytes below 128; the encoder escapes the characters of HTML.\<close>

definition json_ascii :: "char \<Rightarrow> string" where
  "json_ascii c =
     (let n = (of_char c :: nat) in
      if c = DQ \<or> c = BSL then [BSL, c]
      else if n = 8 then BSL # ''b'' else if n = 12 then BSL # ''f'' else if n = 10 then BSL # ''n''
      else if n = 13 then BSL # ''r'' else if n = 9 then BSL # ''t''
      else if n < 32 \<or> c \<in> set ''<>&'' then json_u n else [c])"

definition json_rune :: "string \<Rightarrow> string" where
  "json_rune r =
     (case r of
        [c] \<Rightarrow> (if high c then json_u 0xFFFD else json_ascii c)
      | _ \<Rightarrow> (if r = [CHR 0xE2, CHR 0x80, CHR 0xA8] then json_u 0x2028
              else if r = [CHR 0xE2, CHR 0x80, CHR 0xA9] then json_u 0x2029 else r))"

definition json_string :: "string \<Rightarrow> string" where
  "json_string s = DQ # concat (map json_rune (runes s)) @ [DQ]"

datatype jvalue = JStr string | JInt int | JBool bool

primrec json_value :: "jvalue \<Rightarrow> string" where
  "json_value (JStr s) = json_string s"
| "json_value (JInt i) = itoa i"
| "json_value (JBool b) = (if b then ''true'' else ''false'')"

definition json_member :: "string \<times> jvalue \<Rightarrow> string" where
  "json_member kv = json_string (fst kv) @ '':'' @ json_value (snd kv)"

definition json_object :: "(string \<times> jvalue) list \<Rightarrow> string" where
  "json_object kvs = ''{'' @ join '','' (map json_member kvs) @ ''}''"

text \<open>What the reader gets back: each invalid byte has become the replacement character.\<close>

definition valid_rune :: "string \<Rightarrow> string" where
  "valid_rune r = (case r of [c] \<Rightarrow> (if high c then [CHR 0xEF, CHR 0xBF, CHR 0xBD] else r) | _ \<Rightarrow> r)"

definition to_valid :: "string \<Rightarrow> string" where
  "to_valid s = concat (map valid_rune (runes s))"

primrec valid_value :: "jvalue \<Rightarrow> jvalue" where
  "valid_value (JStr s) = JStr (to_valid s)"
| "valid_value (JInt i) = JInt i"
| "valid_value (JBool b) = JBool b"

section \<open>Reading\<close>

definition hex_nibble :: "char \<Rightarrow> nat option" where
  "hex_nibble c =
     (let n = (of_char c :: nat) in
      if is_digit c then Some (n - 48) else if 97 \<le> n \<and> n \<le> 102 then Some (n - 87)
      else if 65 \<le> n \<and> n \<le> 70 then Some (n - 55) else None)"

text \<open>The encoding of a code point of the basic plane; surrogates are refused.\<close>

definition utf8_bmp :: "nat \<Rightarrow> string option" where
  "utf8_bmp n =
     (if n < 0x80 then Some [char_of n]
      else if n < 0x800 then Some [char_of (0xC0 + n div 64), char_of (0x80 + n mod 64)]
      else if 0xD800 \<le> n \<and> n < 0xE000 then None
      else Some [char_of (0xE0 + n div 4096), char_of (0x80 + n div 64 mod 64), char_of (0x80 + n mod 64)])"

definition read_u :: "char \<Rightarrow> char \<Rightarrow> char \<Rightarrow> char \<Rightarrow> string option" where
  "read_u a b c d =
     (case (hex_nibble a, hex_nibble b, hex_nibble c, hex_nibble d) of
        (Some w, Some x, Some y, Some z) \<Rightarrow> utf8_bmp (((w * 16 + x) * 16 + y) * 16 + z)
      | _ \<Rightarrow> None)"

definition read_escape :: "char \<Rightarrow> char option" where
  "read_escape c =
     (if c = DQ \<or> c = BSL \<or> c = CHR ''/'' then Some c
      else map_of [(CHR ''b'', CHR 0x08), (CHR ''f'', CHR 0x0C), (CHR ''n'', NL), (CHR ''r'', CR), (CHR ''t'', CHR 0x09)] c)"

definition prepend :: "string \<Rightarrow> (string \<times> 'a) option \<Rightarrow> (string \<times> 'a) option" where
  "prepend p r = map_option (\<lambda>(s, rest). (p @ s, rest)) r"

text \<open>The text of a string up to its closing quote, and what follows.\<close>

fun read_string :: "string \<Rightarrow> (string \<times> string) option" where
  "read_string [] = None"
| "read_string (x # t) =
     (if x = DQ then Some ([], t)
      else if x = BSL then
        (case t of
           [] \<Rightarrow> None
         | e # t1 \<Rightarrow>
             (if e = CHR ''u'' then
                (case t1 of
                   a # b # c # d # t2 \<Rightarrow>
                     (case read_u a b c d of None \<Rightarrow> None | Some p \<Rightarrow> prepend p (read_string t2))
                 | _ \<Rightarrow> None)
              else case read_escape e of None \<Rightarrow> None | Some p \<Rightarrow> prepend [p] (read_string t1)))
      else if (of_char x :: nat) < 32 then None
      else prepend [x] (read_string t))"

definition read_value :: "string \<Rightarrow> (jvalue \<times> string) option" where
  "read_value s =
     (if has_prefix s [DQ] then map_option (\<lambda>(t, rest). (JStr t, rest)) (read_string (drop 1 s))
      else if has_prefix s ''true'' then Some (JBool True, drop 4 s)
      else if has_prefix s ''false'' then Some (JBool False, drop 5 s)
      else let p = (\<lambda>c. is_digit c \<or> c = CHR ''-'') in
        map_option (\<lambda>i. (JInt i, dropWhile p s)) (parse_int64 (takeWhile p s)))"

text \<open>The members of an object, with fuel for their number.\<close>

fun read_members :: "nat \<Rightarrow> string \<Rightarrow> (string \<times> jvalue) list option" where
  "read_members 0 s = None"
| "read_members (Suc n) s =
     (if \<not> has_prefix s [DQ] then None
      else case read_string (drop 1 s) of
        None \<Rightarrow> None
      | Some (k, t) \<Rightarrow>
          (if \<not> has_prefix t '':'' then None
           else case read_value (drop 1 t) of
             None \<Rightarrow> None
           | Some (v, rest) \<Rightarrow>
               (if rest = ''}'' then Some [(k, v)]
                else if has_prefix rest '','' then map_option (Cons (k, v)) (read_members n (drop 1 rest))
                else None)))"

definition read_object :: "string \<Rightarrow> (string \<times> jvalue) list option" where
  "read_object s =
     (if s = ''{}'' then Some []
      else if has_prefix s ''{'' then read_members (length s) (drop 1 s) else None)"

section \<open>Round trip\<close>

lemma prepend_simps [simp]:
  "prepend p (Some (s, r)) = Some (p @ s, r)" "prepend p (prepend q x) = prepend (p @ q) x" "prepend [] x = x"
  by (cases x; auto simp: prepend_def)+

lemma nibbles: "n < 16 \<Longrightarrow> hex_nibble (hex_char n) = Some n"
  by (simp add: hex_nibble_def hex_char_def is_digit_def)

lemma hex_digits:
  assumes "n < 65536"
  shows "((n div 4096 mod 16 * 16 + n div 256 mod 16) * 16 + n div 16 mod 16) * 16 + n mod 16 = (n :: nat)"
proof -
  define q r t where "q = n div 16" and "r = q div 16" and "t = r div 16"
  then have d: "n div 16 = q" "n div 256 = r" "n div 4096 = t" by (simp_all add: div_mult2_eq [symmetric])
  have "t < 16" using assms d by simp
  moreover have "16 * q + n mod 16 = n" "16 * r + q mod 16 = q" "16 * t + r mod 16 = r"
    by (simp_all add: q_def r_def t_def)
  ultimately show ?thesis unfolding d by simp
qed

lemma read_u_hex4: "n < 65536 \<Longrightarrow> hex4 n = [a, b, c, d] \<Longrightarrow> read_u a b c d = utf8_bmp n"
  unfolding hex4_def read_u_def using hex_digits [of n] by (clarsimp simp del: mod_less simp: nibbles)

lemma read_json_u:
  assumes "n < 65536" "utf8_bmp n = Some p"
  shows "read_string (json_u n @ t) = prepend p (read_string t)"
proof -
  obtain a b c d where h: "hex4 n = [a, b, c, d]" by (simp add: hex4_def)
  then have "read_u a b c d = Some p" using read_u_hex4 [OF assms(1) h] assms(2) by simp
  then show ?thesis using h by (simp add: json_u_def BSL_def DQ_def)
qed

lemma escaped_chars:
  "char_of (8 :: nat) = CHR 0x08" "char_of (12 :: nat) = CHR 0x0C" "char_of (10 :: nat) = NL"
  "char_of (13 :: nat) = CR" "char_of (9 :: nat) = CHR 0x09"
  by code_simp+

lemma of_char_cases: "(of_char c :: nat) = n \<Longrightarrow> c = char_of n"
  by auto

lemma read_json_ascii:
  assumes "\<not> high c"
  shows "read_string (json_ascii c @ t) = prepend [c] (read_string t)"
proof -
  have u: "utf8_bmp (of_char c) = Some [c]" "(of_char c :: nat) < 65536" using assms by (auto simp: utf8_bmp_def high_def)
  show ?thesis
    using read_json_u [OF u(2,1)]
    by (auto simp: json_ascii_def Let_def BSL_def DQ_def NL_def CR_def read_escape_def escaped_chars dest!: of_char_cases)
qed

lemma read_high: "list_all high p \<Longrightarrow> read_string (p @ t) = prepend p (read_string t)"
proof (induction p)
  case (Cons c p)
  then have "c \<noteq> DQ" "c \<noteq> BSL" "\<not> (of_char c :: nat) < 32" by (auto simp: high_def DQ_def BSL_def)
  with Cons show ?case by simp
qed simp

lemma read_json_rune:
  assumes "(\<exists>c. r = [c]) \<or> list_all high r"
  shows "read_string (json_rune r @ t) = prepend (valid_rune r) (read_string t)"
proof (cases "\<exists>c. r = [c]")
  case True
  have "utf8_bmp 0xFFFD = Some [CHR 0xEF, CHR 0xBF, CHR 0xBD]"
    using char_of_char [of "CHR 0xEF"] char_of_char [of "CHR 0xBF"] char_of_char [of "CHR 0xBD"]
    by (simp add: utf8_bmp_def)
  then have u: "read_string (json_u 0xFFFD @ t) = prepend [CHR 0xEF, CHR 0xBF, CHR 0xBD] (read_string t)"
    by (intro read_json_u) simp_all
  obtain c where c: "r = [c]" using True by blast
  show ?thesis
  proof (cases "high c")
    case True
    with u c show ?thesis by (simp add: json_rune_def valid_rune_def)
  next
    case False
    with read_json_ascii c show ?thesis by (simp add: json_rune_def valid_rune_def)
  qed
next
  case False
  then have v: "valid_rune r = r" "list_all high r" using assms by (auto simp: valid_rune_def split: list.splits)
  have sep: "utf8_bmp 0x2028 = Some [CHR 0xE2, CHR 0x80, CHR 0xA8]" "utf8_bmp 0x2029 = Some [CHR 0xE2, CHR 0x80, CHR 0xA9]"
    using char_of_char [of "CHR 0xE2"] char_of_char [of "CHR 0x80"] char_of_char [of "CHR 0xA8"]
      char_of_char [of "CHR 0xA9"] by (simp_all add: utf8_bmp_def)
  have "json_rune r = (if r = [CHR 0xE2, CHR 0x80, CHR 0xA8] then json_u 0x2028
      else if r = [CHR 0xE2, CHR 0x80, CHR 0xA9] then json_u 0x2029 else r)"
    using False by (auto simp: json_rune_def split: list.splits)
  then show ?thesis using read_json_u [OF _ sep(1)] read_json_u [OF _ sep(2)] v read_high by (auto simp: v(1))
qed

lemma read_json_runes:
  "\<forall>r \<in> set rs. (\<exists>c. r = [c]) \<or> list_all high r \<Longrightarrow>
   read_string (concat (map json_rune rs) @ DQ # t) = Some (concat (map valid_rune rs), t)"
  by (induction rs) (simp_all add: read_json_rune)

text \<open>A string that was written is read back up to invalid bytes, and exactly when it is valid UTF-8.\<close>

lemma read_json_string: "has_prefix (json_string s @ t) [DQ]" "read_string (drop 1 (json_string s @ t)) = Some (to_valid s, t)"
  using read_json_runes [of "runes s" t] runes_shape by (simp_all add: json_string_def to_valid_def)

lemma to_valid_id: "\<forall>c. [c] \<in> set (runes s) \<longrightarrow> \<not> high c \<Longrightarrow> to_valid s = s"
proof -
  assume "\<forall>c. [c] \<in> set (runes s) \<longrightarrow> \<not> high c"
  then have "map valid_rune (runes s) = runes s" by (intro map_idI) (auto simp: valid_rune_def split: list.splits)
  then show ?thesis by (simp add: to_valid_def)
qed

lemma runes_ascii: "list_all (\<lambda>c. \<not> high c) s \<Longrightarrow> runes s = map (\<lambda>c. [c]) s"
proof (induction s)
  case (Cons c s)
  then have "rune_len (c # s) = 1" by (auto simp: rune_len_def byte_in_def high_def)
  with Cons show ?case by (subst runes.simps) simp
qed (simp add: runes.simps)

lemma to_valid_ascii: "list_all (\<lambda>c. \<not> high c) s \<Longrightarrow> to_valid s = s"
  by (rule to_valid_id) (auto simp: runes_ascii list_all_iff)

fun int_ok :: "jvalue \<Rightarrow> bool" where
  "int_ok (JInt i) \<longleftrightarrow> - (2 ^ 63) \<le> i \<and> i < 2 ^ 63"
| "int_ok v \<longleftrightarrow> True"

lemma itoa_chars: "c \<in> set (itoa i) \<Longrightarrow> is_digit c \<or> c = CHR ''-''"
  by (auto simp: itoa_def dest: digits_of_set split: if_splits)

lemma itoa_start: "\<exists>c r. itoa i = c # r \<and> (is_digit c \<or> c = CHR ''-'')"
  using itoa_chars [of _ i] by (cases "itoa i") auto

lemma read_json_value:
  assumes "int_ok v" "d \<in> {CHR '','', CHR ''}''}"
  shows "read_value (json_value v @ d # t) = Some (valid_value v, d # t)"
proof (cases v)
  case (JStr s)
  then show ?thesis using read_json_string [of s "d # t"] by (simp add: read_value_def)
next
  case (JBool b)
  then show ?thesis by (simp add: read_value_def DQ_def)
next
  case (JInt i)
  let ?p = "\<lambda>c. is_digit c \<or> c = CHR ''-''"
  have d: "\<not> ?p d" using assms(2) by (auto simp: is_digit_def)
  obtain c r where c: "itoa i = c # r" "?p c" using itoa_start by blast
  then have "c \<noteq> DQ" "c \<noteq> CHR ''t''" "c \<noteq> CHR ''f''" by (auto simp: is_digit_def DQ_def)
  then have no: "\<not> has_prefix (itoa i @ d # t) [DQ]" "\<not> has_prefix (itoa i @ d # t) ''true''"
    "\<not> has_prefix (itoa i @ d # t) ''false''" using c by simp_all
  have "takeWhile ?p (itoa i @ d # t) = itoa i" "dropWhile ?p (itoa i @ d # t) = d # t"
    using d itoa_chars by (simp_all add: takeWhile_append2 dropWhile_append2)
  then show ?thesis using JInt no assms(1) by (simp add: read_value_def parse_int64_itoa)
qed

lemma json_member_nonempty: "json_member kv \<noteq> []"
  by (simp add: json_member_def json_string_def)

lemma read_json_member:
  assumes "int_ok (snd kv)" "d \<in> {CHR '','', CHR ''}''}"
  shows "read_members (Suc n) (json_member kv @ d # t) =
    (if d = CHR ''}'' \<and> t = [] then Some [(to_valid (fst kv), valid_value (snd kv))]
     else if d = CHR '','' then map_option (Cons (to_valid (fst kv), valid_value (snd kv))) (read_members n t) else None)"
  using assms read_json_string [of "fst kv" "CHR '':'' # json_value (snd kv) @ d # t"] read_json_value [OF assms, of t]
  by (auto simp: json_member_def)

lemma read_json_members:
  "list_all (int_ok \<circ> snd) kvs \<Longrightarrow> kvs \<noteq> [] \<Longrightarrow> length kvs \<le> n \<Longrightarrow>
   read_members n (join '','' (map json_member kvs) @ ''}'') = Some (map (\<lambda>(k, v). (to_valid k, valid_value v)) kvs)"
proof (induction kvs arbitrary: n)
  case (Cons kv kvs)
  then obtain m where m: "n = Suc m" by (cases n) auto
  show ?case
  proof (cases kvs)
    case Nil
    then show ?thesis using Cons.prems m read_json_member [of kv "CHR ''}''" m "[]"] by (simp add: case_prod_unfold)
  next
    case (Cons kv' kvs')
    then show ?thesis
      using Cons.IH [of m] Cons.prems m read_json_member [of kv "CHR '',''" m "join '','' (map json_member kvs) @ ''}''"]
      by (simp add: case_prod_unfold)
  qed
qed simp

lemma join_length: "length xs \<le> Suc (length (join '','' xs))"
  by (induction "'',''" xs rule: join.induct) auto

theorem read_json_object:
  assumes "list_all (int_ok \<circ> snd) kvs"
  shows "read_object (json_object kvs) = Some (map (\<lambda>(k, v). (to_valid k, valid_value v)) kvs)"
proof (cases "kvs = []")
  case False
  have len: "length kvs \<le> length (json_object kvs)" using join_length [of "map json_member kvs"] by (simp add: json_object_def)
  have parts: "has_prefix (json_object kvs) ''{''" "drop 1 (json_object kvs) = join '','' (map json_member kvs) @ ''}''"
    by (simp_all add: json_object_def)
  have "json_object kvs \<noteq> ''{}''"
    using False json_member_nonempty by (cases kvs; cases "tl kvs") (auto simp: json_object_def)
  then show ?thesis using read_json_members [OF assms False len] parts by (simp only: read_object_def if_False if_True)
qed (simp add: json_object_def read_object_def)

end
