(* ===== verification/Health_Server.thy ===== *)
theory Health_Server
  imports Main_Program Go_Json
begin

text \<open>
  The HTTP server of package \<^verbatim>\<open>metrics\<close> (\<^verbatim>\<open>internal/metrics/server.go\<close>) with the health endpoint that
  \<^verbatim>\<open>main\<close> configures. The listening socket and the page that the Prometheus client library
  renders are arguments; the status of the health endpoint is written byte by byte as
  \<^verbatim>\<open>encoding/json\<close> writes it.
\<close>

section \<open>Server\<close>

text \<open>The members of a status in the order of the fields; an empty error is omitted.\<close>

definition health_fields :: "HealthStatus \<Rightarrow> (string \<times> jvalue) list" where
  "health_fields h =
     [(''state'', JStr (hs_State h)), (''bootstrap'', JInt (hs_Bootstrap h)), (''failsafe'', JBool (hs_Failsafe h)),
      (''uptime_seconds'', JInt (hs_UptimeSeconds h)), (''tor_bootstrap_percent'', JInt (hs_BootstrapPercent h)),
      (''vm_pid'', JInt (hs_VMPID h))]
     @ (if hs_LastError h = [] then [] else [(''last_error'', JStr (hs_LastError h))])
     @ [(''version'', JStr (hs_Version h))]"

record reply =
  rp_code :: nat
  rp_type :: string
  rp_body :: string

text \<open>The encoder ends the object with a line feed.\<close>

definition healthz :: "HealthStatus \<Rightarrow> reply" where
  "healthz h = \<lparr>rp_code = 200, rp_type = ''application/json'', rp_body = json_object (health_fields h) @ [NL]\<rparr>"

text \<open>The multiplexer, on the path of a request after it was cleaned; \<open>page\<close> is the answer of
  \<^verbatim>\<open>promhttp\<close> for the registry.\<close>

definition mux :: "reply \<Rightarrow> HealthStatus \<Rightarrow> string \<Rightarrow> reply" where
  "mux page h path =
     (if path = ''/metrics'' then page
      else if path = ''/healthz'' then healthz h
      else \<lparr>rp_code = 404, rp_type = ''text/plain; charset=utf-8'', rp_body = ''404 page not found'' @ [NL]\<rparr>)"

text \<open>A server with the address it listens on. \<^verbatim>\<open>Serve\<close> does nothing after \<^verbatim>\<open>Shutdown\<close>.\<close>

record Server =
  srv_addr :: string
  srv_serving :: bool
  srv_shut :: bool

definition NewServer :: "(string \<Rightarrow> string res) \<Rightarrow> string \<Rightarrow> Server res" where
  "NewServer listen addr =
     bind_res (listen addr) (\<lambda>bound. Inr \<lparr>srv_addr = bound, srv_serving = False, srv_shut = False\<rparr>)"

definition server_Start :: "Server \<Rightarrow> Server" where
  "server_Start s = (if srv_shut s then s else s\<lparr>srv_serving := True\<rparr>)"

definition server_Shutdown :: "Server \<Rightarrow> Server" where
  "server_Shutdown s = s\<lparr>srv_serving := False, srv_shut := True\<rparr>"

definition server_Addr :: "Server \<Rightarrow> string" where
  "server_Addr s = srv_addr s"

definition answer :: "reply \<Rightarrow> HealthStatus \<Rightarrow> string \<Rightarrow> Server \<Rightarrow> reply option" where
  "answer page h path s = (if srv_serving s then Some (mux page h path) else None)"

text \<open>What \<^verbatim>\<open>main\<close> does with the flag \<^verbatim>\<open>--metrics-addr\<close>: no server without it.\<close>

definition start_metrics :: "(string \<Rightarrow> string res) \<Rightarrow> flags \<Rightarrow> Server option res" where
  "start_metrics listen fg =
     (if fg_metricsAddr fg = [] then Inr None
      else bind_res (NewServer listen (fg_metricsAddr fg)) (\<lambda>s. Inr (Some (server_Start s))))"

section \<open>Lemmas\<close>

lemma state_string_ascii: "list_all (\<lambda>c. \<not> high c) (state_string st)"
  by (cases st) (simp_all add: high_def state_string_def state_names_def)

lemma ascii_literals [simp]:
  "to_valid ''state'' = ''state''" "to_valid ''bootstrap'' = ''bootstrap''" "to_valid ''failsafe'' = ''failsafe''"
  "to_valid ''uptime_seconds'' = ''uptime_seconds''" "to_valid ''tor_bootstrap_percent'' = ''tor_bootstrap_percent''"
  "to_valid ''vm_pid'' = ''vm_pid''" "to_valid ''last_error'' = ''last_error''" "to_valid ''version'' = ''version''"
  "to_valid ''0.1.0'' = ''0.1.0''"
  by (simp_all add: to_valid_ascii high_def)

definition status_ints_ok :: "HealthStatus \<Rightarrow> bool" where
  "status_ints_ok h \<longleftrightarrow> list_all (int_ok \<circ> snd) (health_fields h)"

lemma healthz_read:
  "status_ints_ok h \<Longrightarrow>
   read_object (butlast (rp_body (healthz h))) = Some (map (\<lambda>(k, v). (to_valid k, valid_value v)) (health_fields h))"
  by (simp add: healthz_def status_ints_ok_def read_json_object)

section \<open>Properties\<close>

text \<open>
  C20. The health endpoint reports the engine. A server that \<^verbatim>\<open>main\<close> started for the address of the
  flag answers \<^verbatim>\<open>/healthz\<close> with one line of JSON; whoever reads it gets the state of the engine by
  its name, a bootstrap of 100 exactly while the engine is running, whether the failsafe is
  active, the uptime and the last error, whatever bytes this error has (invalid UTF-8 is replaced),
  each under its key. After the shutdown nothing is answered.
\<close>

theorem health_reports_engine:
  assumes "start_metrics listen fg = Inr (Some srv)" "- (2 ^ 63) \<le> uptime" "uptime < 2 ^ 63"
  shows "\<exists>line kvs. answer page (healthFn (Some e) uptime lastError) ''/healthz'' srv
        = Some \<lparr>rp_code = 200, rp_type = ''application/json'', rp_body = line @ [NL]\<rparr>
    \<and> read_object line = Some kvs
    \<and> map_of kvs ''state'' = Some (JStr (state_string (state e)))
    \<and> map_of kvs ''bootstrap'' = Some (JInt (if state e = StateRunning then 100 else 0))
    \<and> map_of kvs ''failsafe'' = Some (JBool (active e))
    \<and> map_of kvs ''uptime_seconds'' = Some (JInt uptime)
    \<and> map_of kvs ''last_error'' = (if lastError = [] then None else Some (JStr (to_valid lastError)))
    \<and> answer page h path (server_Shutdown srv) = None"
proof -
  let ?h = "healthFn (Some e) uptime lastError"
  have "status_ints_ok ?h" using assms(2,3) by (simp add: status_ints_ok_def health_fields_def healthFn_def Let_def)
  note r = healthz_read [OF this]
  have "srv_serving srv"
    using assms(1) by (auto simp: start_metrics_def NewServer_def bind_res_Inr server_Start_def split: if_splits)
  then have a: "answer page ?h ''/healthz'' srv = Some (healthz ?h)" by (simp add: answer_def mux_def)
  have "map_of (map (\<lambda>(k, v). (to_valid k, valid_value v)) (health_fields ?h)) k = map_option valid_value (map_of (health_fields ?h) k)" for k
    by (simp add: health_fields_def)
  then show ?thesis using r
    by (intro exI [of _ "butlast (rp_body (healthz ?h))"] exI [of _ "map (\<lambda>(k, v). (to_valid k, valid_value v)) (health_fields ?h)"])
       (simp add: a, simp add: healthz_def health_fields_def healthFn_def Let_def to_valid_ascii state_string_ascii
          answer_def server_Shutdown_def)
qed

theorem health_reports_engine_witness:
  "\<exists>line kvs. answer \<lparr>rp_code = 200, rp_type = [], rp_body = []\<rparr> (healthFn (Some calm_engine) 42 ''tap: x'') ''/healthz''
       \<lparr>srv_addr = ''127.0.0.1:9100'', srv_serving = True, srv_shut = False\<rparr>
     = Some \<lparr>rp_code = 200, rp_type = ''application/json'', rp_body = line @ [NL]\<rparr>
   \<and> read_object line = Some kvs \<and> map_of kvs ''uptime_seconds'' = Some (JInt 42)"
proof -
  have s: "start_metrics (\<lambda>a. Inr a) (sample_flags\<lparr>fg_metricsAddr := ''127.0.0.1:9100''\<rparr>)
    = Inr (Some \<lparr>srv_addr = ''127.0.0.1:9100'', srv_serving = True, srv_shut = False\<rparr>)"
    by (simp add: start_metrics_def NewServer_def bind_res_def server_Start_def)
  from health_reports_engine [OF s, of 42 "\<lparr>rp_code = 200, rp_type = [], rp_body = []\<rparr>" calm_engine "''tap: x''"] show ?thesis by fastforce
qed

end
