(* ===== verification/Tor_Control.thy ===== *)
theory Tor_Control
  imports Go_Prelude Tor_Geo
begin

text \<open>
  Package \<^verbatim>\<open>tor\<close>: the control-protocol client and the parsers of what Tor reports. The
  client's reader goroutine is a step on the bytes received so far; a command is a function
  of the lines that arrive on \<^verbatim>\<open>syncResp\<close> while it waits and of how the waiting ends when
  no final line is among them. Its result comes with the bytes it wrote, if any.
\<close>

section \<open>The reader\<close>

record AsyncEvent =
  ev_Code :: int
  ev_Action :: string
  ev_Lines :: "string list"

text \<open>
  The client: bytes received and not yet read, the two channels with their capacities, and
  whether \<^verbatim>\<open>done\<close> is closed.
\<close>

record ControlClient =
  received :: string
  events :: "AsyncEvent list"
  syncResp :: "string list"
  done_closed :: bool

definition events_cap :: nat where "events_cap = 256"
definition syncResp_cap :: nat where "syncResp_cap = 128"

definition new_client :: "ControlClient" where
  "new_client = \<lparr>received = [], events = [], syncResp = [], done_closed = False\<rparr>"

definition isAsyncEvent :: "string \<Rightarrow> bool" where
  "isAsyncEvent line \<longleftrightarrow> length line \<ge> 3 \<and> take 3 line = ''650''"

definition stripStatusPrefix :: "string \<Rightarrow> string" where
  "stripStatusPrefix line = (if length line \<ge> 4 then drop 4 line else line)"

definition parse_event :: "string \<Rightarrow> AsyncEvent" where
  "parse_event line =
     (let body = (if length line > 4 then drop 4 line else []);
          action = (case index_byte body (CHR '' '') of None \<Rightarrow> body | Some i \<Rightarrow> take i body)
      in \<lparr>ev_Code = 650, ev_Action = action, ev_Lines = [body]\<rparr>)"

text \<open>An event is dropped when its channel is full.\<close>

definition dispatchEvent :: "string \<Rightarrow> ControlClient \<Rightarrow> ControlClient" where
  "dispatchEvent line c =
     (if length (events c) < events_cap then c\<lparr>events := events c @ [parse_event line]\<rparr> else c)"

text \<open>
  One round of \<^verbatim>\<open>readLoop\<close>. It is blocked (\<open>None\<close>) while no whole line was received, and
  while \<^verbatim>\<open>syncResp\<close> is full and the line is a reply.
\<close>

definition read_round :: "ControlClient \<Rightarrow> ControlClient option" where
  "read_round c =
     (if done_closed c then None
      else case index_byte (received c) NL of
        None \<Rightarrow> None
      | Some i \<Rightarrow>
          (let line = trim_right_set [CR, NL] (take (Suc i) (received c));
               c' = c\<lparr>received := drop (Suc i) (received c)\<rparr>
           in if line = [] then Some c'
              else if isAsyncEvent line then Some (dispatchEvent line c')
              else if length (syncResp c) < syncResp_cap then Some (c'\<lparr>syncResp := syncResp c @ [line]\<rparr>)
              else None))"

text \<open>\<^verbatim>\<open>ReadString\<close> fails (the peer closed the connection): the client is closed.\<close>

definition read_failed :: "ControlClient \<Rightarrow> ControlClient" where
  "read_failed c = c\<lparr>done_closed := True\<rparr>"

definition Close :: "ControlClient \<Rightarrow> ControlClient" where
  "Close c = (if done_closed c then c else c\<lparr>done_closed := True\<rparr>)"

section \<open>Commands\<close>

datatype ending = ConnClosed | CmdTimeout string

definition ending_err :: "ending \<Rightarrow> goerr" where
  "ending_err e = (case e of ConnClosed \<Rightarrow> ErrMsg ''tor: connection closed''
                   | CmdTimeout d \<Rightarrow> ErrMsg (''tor: command timeout after '' @ d))"

definition final_line :: "string \<Rightarrow> bool" where
  "final_line line \<longleftrightarrow> length line \<ge> 4 \<and> line ! 3 = CHR '' ''"

definition error_line :: "string \<Rightarrow> bool" where
  "error_line line \<longleftrightarrow> line ! 0 = CHR ''4'' \<or> line ! 0 = CHR ''5''"

text \<open>
  \<^verbatim>\<open>collectResponse\<close>: the lines read so far are \<open>acc\<close>, last first; the result comes with the
  lines that were not read.
\<close>

fun collect_loop :: "ending \<Rightarrow> string list \<Rightarrow> string list \<Rightarrow> string list res \<times> string list" where
  "collect_loop en acc [] = (Inl (ending_err en), [])"
| "collect_loop en acc (line # ls) =
     (if final_line line then
        (if error_line line then (Inl (ErrMsg (''tor: '' @ line)), ls)
         else (Inr (rev (line # acc)), ls))
      else collect_loop en (line # acc) ls)"

definition collectResponse :: "ending \<Rightarrow> string list \<Rightarrow> string list res \<times> string list" where
  "collectResponse en ls = collect_loop en [] ls"

text \<open>
  What a command meets: errors of the writer, the lines that arrive and how the wait ends.
\<close>

record peer =
  write_err :: "goerr option"
  flush_err :: "goerr option"
  arriving :: "string list"
  ends :: ending

text \<open>The bytes handed to the writer, and the outcome.\<close>

definition sendCommand :: "peer \<Rightarrow> string \<Rightarrow> string \<times> string list res" where
  "sendCommand p cmd =
     (cmd @ [CR, NL],
      case write_err p of
        Some e \<Rightarrow> Inl (wrap ''tor: write'' e)
      | None \<Rightarrow>
          (case flush_err p of
             Some e \<Rightarrow> Inl (wrap ''tor: flush'' e)
           | None \<Rightarrow> fst (collectResponse (ends p) (arriving p))))"

definition expectOK :: "string list \<Rightarrow> goerr option" where
  "expectOK lines =
     (if length lines = 0 then Some (ErrMsg ''tor: empty response'')
      else if \<not> has_prefix (last lines) ''250 '' then Some (ErrMsg (''tor: '' @ last lines))
      else None)"

definition validateNoNewlines :: "string \<Rightarrow> goerr option" where
  "validateNoNewlines s =
     guard_err (contains_any s [CR, NL]) (ErrMsg ''input contains illegal newline characters'')"

text \<open>A command whose reply only has to be positive: bytes written (if it came to that) and error.\<close>

definition simple_command :: "peer \<Rightarrow> goerr option \<Rightarrow> string \<Rightarrow> string option \<times> goerr option" where
  "simple_command p invalid cmd =
     (case invalid of
        Some e \<Rightarrow> (None, Some e)
      | None \<Rightarrow>
          (case sendCommand p cmd of
             (sent, Inl e) \<Rightarrow> (Some sent, Some e)
           | (sent, Inr lines) \<Rightarrow> (Some sent, expectOK lines)))"

definition Authenticate :: "peer \<Rightarrow> string \<Rightarrow> string option \<times> goerr option" where
  "Authenticate p password =
     simple_command p (map_option (wrap ''tor: authenticate'') (validateNoNewlines password))
       (''AUTHENTICATE '' @ [DQ] @ password @ [DQ])"

definition Signal :: "peer \<Rightarrow> string \<Rightarrow> string option \<times> goerr option" where
  "Signal p sig =
     simple_command p (map_option (wrap ''tor: signal'') (validateNoNewlines sig)) (''SIGNAL '' @ sig)"

text \<open>The directives are a map; \<open>ds\<close> lists it in the order the iteration happens to take.\<close>

definition SetConf :: "peer \<Rightarrow> (string \<times> string) list \<Rightarrow> string option \<times> goerr option" where
  "SetConf p ds =
     simple_command p
       (first_err (\<lambda>(k, v). and_then (map_option (wrap ''tor: setconf key'') (validateNoNewlines k))
                                     (map_option (wrap ''tor: setconf value'') (validateNoNewlines v))) ds)
       (''SETCONF '' @ join '' '' (map (\<lambda>(k, v). k @ ''='' @ v) ds))"

definition SetEvents :: "peer \<Rightarrow> string list \<Rightarrow> string option \<times> goerr option" where
  "SetEvents p evs =
     simple_command p (first_err (\<lambda>ev. map_option (wrap ''tor: setevents'') (validateNoNewlines ev)) evs)
       (''SETEVENTS '' @ join '' '' evs)"

definition info_line :: "(string \<rightharpoonup> string) \<Rightarrow> string \<Rightarrow> (string \<rightharpoonup> string)" where
  "info_line m line =
     (let body = stripStatusPrefix line in
      case index_byte body (CHR ''='') of
        None \<Rightarrow> m
      | Some i \<Rightarrow> m(take i body \<mapsto> drop (Suc i) body))"

definition GetInfo :: "peer \<Rightarrow> string list \<Rightarrow> string option \<times> (string \<rightharpoonup> string) res" where
  "GetInfo p keywords =
     (case first_err (\<lambda>kw. map_option (wrap ''tor: getinfo'') (validateNoNewlines kw)) keywords of
        Some e \<Rightarrow> (None, Inl e)
      | None \<Rightarrow>
          (case sendCommand p (''GETINFO '' @ join '' '' keywords) of
             (sent, Inl e) \<Rightarrow> (Some sent, Inl e)
           | (sent, Inr lines) \<Rightarrow> (Some sent, Inr (foldl info_line Map.empty lines))))"

section \<open>Bootstrap, bandwidth\<close>

record BootstrapStatus =
  Progress :: int
  Tag :: string
  Summary :: string

definition until_char :: "char \<Rightarrow> string \<Rightarrow> string" where
  "until_char c s = (case index_byte s c of None \<Rightarrow> s | Some i \<Rightarrow> take i s)"

definition ParseBootstrapStatus :: "string \<Rightarrow> BootstrapStatus res" where
  "ParseBootstrapStatus line =
     (case index_str line ''PROGRESS='' of
        None \<Rightarrow> Inl (ErrMsg (''tor: missing PROGRESS in bootstrap status: '' @ quote line))
      | Some i \<Rightarrow>
          (let progressStr = until_char (CHR '' '') (drop (i + 9) line) in
           case parse_int64 progressStr of
             None \<Rightarrow> Inl (wrap ''tor: invalid PROGRESS value'' (num_error ''Atoi'' progressStr))
           | Some progress \<Rightarrow>
               Inr \<lparr>Progress = progress,
                    Tag = (case index_str line ''TAG='' of None \<Rightarrow> []
                           | Some t \<Rightarrow> until_char (CHR '' '') (drop (t + 4) line)),
                    Summary = (case index_str line (''SUMMARY='' @ [DQ]) of None \<Rightarrow> []
                               | Some q \<Rightarrow> until_char DQ (drop (q + 9) line))\<rparr>))"

definition GetBootstrapStatus :: "peer \<Rightarrow> string option \<times> BootstrapStatus res" where
  "GetBootstrapStatus p =
     (case GetInfo p [''status/bootstrap-phase''] of
        (sent, Inl e) \<Rightarrow> (sent, Inl e)
      | (sent, Inr info) \<Rightarrow>
          (sent, case info ''status/bootstrap-phase'' of
                   None \<Rightarrow> Inl (ErrMsg ''tor: no bootstrap-phase in response'')
                 | Some phase \<Rightarrow> ParseBootstrapStatus phase))"

record BandwidthStats =
  BytesRead :: int
  BytesWritten :: int

definition ParseBandwidthEvent :: "string \<Rightarrow> BandwidthStats res" where
  "ParseBandwidthEvent line =
     (let s = (if has_prefix line ''650 '' \<or> has_prefix line ''650-'' then drop 4 line else line) in
      if \<not> has_prefix s ''BW '' then Inl (ErrMsg (''tor: not a BW event: '' @ quote line))
      else case str_fields s of
        [_, r, w] \<Rightarrow>
          (case parse_int64 r of
             None \<Rightarrow> Inl (wrap ''tor: invalid bytes read'' (num_error ''ParseInt'' r))
           | Some rd \<Rightarrow>
               (case parse_int64 w of
                  None \<Rightarrow> Inl (wrap ''tor: invalid bytes written'' (num_error ''ParseInt'' w))
                | Some wr \<Rightarrow> Inr \<lparr>BytesRead = rd, BytesWritten = wr\<rparr>))
      | _ \<Rightarrow> Inl (ErrMsg (''tor: invalid BW event format: '' @ quote line)))"

section \<open>Circuits\<close>

definition circuitIDRe :: "string \<Rightarrow> bool" where
  "circuitIDRe s \<longleftrightarrow> s \<noteq> [] \<and> list_all is_digit s"

record CircuitInfo =
  ci_ID :: string
  ci_Status :: string
  ci_Path :: "string list"
  ci_Purpose :: string

definition purpose_of :: "string list \<Rightarrow> string" where
  "purpose_of fs =
     (case find (\<lambda>f. has_prefix f ''PURPOSE='') fs of None \<Rightarrow> [] | Some f \<Rightarrow> drop 8 f)"

text \<open>
  \<^verbatim>\<open>fields[3:]\<close> panics when there are fewer than three fields; the code reaches it with one
  or two.
\<close>

definition parseCircuitLine :: "string \<Rightarrow> CircuitInfo outcome" where
  "parseCircuitLine line =
     (let fs = str_fields line;
          ci = \<lparr>ci_ID = (if length fs \<ge> 1 then fs ! 0 else []),
                ci_Status = (if length fs \<ge> 2 then fs ! 1 else []), ci_Path = [], ci_Purpose = []\<rparr>
      in if length fs \<ge> 3 \<and> has_prefix (fs ! 2) ''PURPOSE='' then Ret (ci\<lparr>ci_Purpose := drop 8 (fs ! 2)\<rparr>)
         else if length fs < 3 then Panic ''slice bounds out of range''
         else Ret (ci\<lparr>ci_Path := split_on (CHR '','') (fs ! 2), ci_Purpose := purpose_of (drop 3 fs)\<rparr>))"

fun parse_circuits :: "string list \<Rightarrow> CircuitInfo list outcome" where
  "parse_circuits [] = Ret []"
| "parse_circuits (x # ls) =
     (let line = trim_space x in
      if line = [] then parse_circuits ls
      else case parseCircuitLine line of
        Panic m \<Rightarrow> Panic m
      | Ret ci \<Rightarrow> (case parse_circuits ls of Panic m \<Rightarrow> Panic m | Ret xs \<Rightarrow> Ret (ci # xs)))"

definition GetCircuits :: "peer \<Rightarrow> string option \<times> CircuitInfo list res outcome" where
  "GetCircuits p =
     (case GetInfo p [''circuit-status''] of
        (sent, Inl e) \<Rightarrow> (sent, Ret (Inl e))
      | (sent, Inr info) \<Rightarrow>
          (sent, case info ''circuit-status'' of
                   None \<Rightarrow> Ret (Inr [])
                 | Some raw \<Rightarrow>
                     (case parse_circuits (split_on NL raw) of
                        Panic m \<Rightarrow> Panic m
                      | Ret xs \<Rightarrow> Ret (Inr xs))))"

definition CloseCircuit :: "peer \<Rightarrow> string \<Rightarrow> string option \<times> goerr option" where
  "CloseCircuit p circuitID =
     simple_command p (guard_err (\<not> circuitIDRe circuitID)
                         (ErrMsg (''tor: invalid circuit ID '' @ quote circuitID)))
       (''CLOSECIRCUIT '' @ circuitID)"

section \<open>Relays\<close>

record RelayInfo =
  ri_Fingerprint :: string
  ri_Nickname :: string
  ri_CountryCode :: string
  ri_Latitude :: int
  ri_Longitude :: int

definition ParseRelayPath :: "string \<Rightarrow> string \<times> string" where
  "ParseRelayPath entry =
     (let e = trim_space entry in
      case index_byte e (CHR ''~'') of None \<Rightarrow> (e, []) | Some i \<Rightarrow> (take i e, drop (Suc i) e))"

definition GetRelayCountry :: "peer \<Rightarrow> string \<Rightarrow> string option \<times> string res" where
  "GetRelayCountry p ip =
     (case validateNoNewlines ip of
        Some e \<Rightarrow> (None, Inl (wrap ''tor: relay country'' e))
      | None \<Rightarrow>
          (case GetInfo p [''ip-to-country/'' @ ip] of
             (sent, Inl e) \<Rightarrow> (sent, Inl e)
           | (sent, Inr info) \<Rightarrow>
               (sent, case info (''ip-to-country/'' @ ip) of
                        None \<Rightarrow> Inl (ErrMsg (''tor: no country for IP '' @ ip))
                      | Some cc \<Rightarrow>
                          (if cc = [] then Inl (ErrMsg (''tor: no country for IP '' @ ip))
                           else Inr (to_upper (trim_space cc))))))"

text \<open>The address in the first \<^verbatim>\<open>r\<close> line with at least seven fields.\<close>

fun r_line_address :: "string list \<Rightarrow> string option" where
  "r_line_address [] = None"
| "r_line_address (x # ls) =
     (let line = trim_space x; fs = str_fields line in
      if has_prefix line ''r '' \<and> length fs \<ge> 7 then Some (fs ! 6) else r_line_address ls)"

definition GetRelayAddress :: "peer \<Rightarrow> string \<Rightarrow> string option \<times> string res" where
  "GetRelayAddress p fingerprint =
     (case validateNoNewlines fingerprint of
        Some e \<Rightarrow> (None, Inl (wrap ''tor: relay address'' e))
      | None \<Rightarrow>
          (let fp = trim_prefix fingerprint ''$'' in
           case GetInfo p [''ns/id/'' @ fp] of
             (sent, Inl e) \<Rightarrow> (sent, Inl e)
           | (sent, Inr info) \<Rightarrow>
               (sent, case info (''ns/id/'' @ fp) of
                        None \<Rightarrow> Inl (ErrMsg (''tor: no network status for '' @ fingerprint))
                      | Some raw \<Rightarrow>
                          (case r_line_address (split_on NL raw) of
                             None \<Rightarrow> Inl (ErrMsg (''tor: could not parse address from ns/id/'' @ fp))
                           | Some a \<Rightarrow> Inr a))))"

text \<open>The two queries meet two replies; the result is the relay so far and the error.\<close>

definition ResolveRelay :: "peer \<Rightarrow> peer \<Rightarrow> string \<Rightarrow> RelayInfo \<times> goerr option" where
  "ResolveRelay p1 p2 pathEntry =
     (case ParseRelayPath pathEntry of (fp, nick) \<Rightarrow>
      let ri = \<lparr>ri_Fingerprint = fp, ri_Nickname = nick, ri_CountryCode = [], ri_Latitude = 0, ri_Longitude = 0\<rparr> in
      case snd (GetRelayAddress p1 fp) of
        Inl e \<Rightarrow> (ri, Some e)
      | Inr ip \<Rightarrow>
          (case snd (GetRelayCountry p2 ip) of
             Inl e \<Rightarrow> (ri, Some e)
           | Inr cc \<Rightarrow>
               (case CountryCentroids cc of
                  None \<Rightarrow> (ri\<lparr>ri_CountryCode := cc\<rparr>, None)
                | Some (lat, lon) \<Rightarrow>
                    (ri\<lparr>ri_CountryCode := cc, ri_Latitude := lat, ri_Longitude := lon\<rparr>, None))))"

section \<open>Lemmas\<close>

lemma no_newlines_clean: "validateNoNewlines s = None \<longleftrightarrow> clean s"
  by (auto simp: validateNoNewlines_def contains_any_iff clean_def)

lemma clean_literals [simp]:
  "clean ''AUTHENTICATE ''" "clean ''SIGNAL ''" "clean ''SETCONF ''" "clean ''SETEVENTS ''"
  "clean ''GETINFO ''" "clean ''CLOSECIRCUIT ''" "clean '' ''" "clean [DQ]" "clean ''=''"
  by (simp_all add: NL_def CR_def DQ_def)

text \<open>A command that is sent is one line: the bytes end in \<^verbatim>\<open>\r\n\<close> and have no other break.\<close>

definition one_line :: "string option \<Rightarrow> bool" where
  "one_line sent \<longleftrightarrow> (\<forall>b. sent = Some b \<longrightarrow> (\<exists>l. b = l @ [CR, NL] \<and> clean l))"

lemma fst_sendCommand [simp]: "fst (sendCommand p cmd) = cmd @ [CR, NL]"
  by (simp add: sendCommand_def)

lemma simple_command_sent:
  "fst (simple_command p invalid cmd) = (if invalid = None then Some (cmd @ [CR, NL]) else None)"
  using fst_sendCommand [of p cmd]
  by (cases "sendCommand p cmd") (auto simp: simple_command_def split: option.splits sum.splits)

lemma sent_either:
  "fst (case sendCommand p cmd of (sent, Inl e) \<Rightarrow> (Some sent, f e) | (sent, Inr ls) \<Rightarrow> (Some sent, g ls))
     = Some (cmd @ [CR, NL])"
  using fst_sendCommand [of p cmd] by (cases "sendCommand p cmd") (simp split: sum.splits)

lemma GetInfo_sent:
  "fst (GetInfo p kws) =
     (if \<forall>k \<in> set kws. clean k then Some ((''GETINFO '' @ join '' '' kws) @ [CR, NL]) else None)"
proof (cases "first_err (\<lambda>kw. map_option (wrap ''tor: getinfo'') (validateNoNewlines kw)) kws")
  case None
  then have "\<forall>k \<in> set kws. clean k" by (simp add: first_err_None no_newlines_clean)
  then show ?thesis unfolding GetInfo_def None option.case sent_either by simp
next
  case (Some e)
  then have "\<not> (\<forall>k \<in> set kws. validateNoNewlines k = None)"
    using first_err_None [of "\<lambda>kw. map_option (wrap ''tor: getinfo'') (validateNoNewlines kw)" kws] by auto
  with Some show ?thesis by (simp add: GetInfo_def no_newlines_clean)
qed

lemma one_line_Some: "clean l \<Longrightarrow> one_line (Some (l @ [CR, NL]))"
  by (auto simp: one_line_def)

lemma one_line_None [simp]: "one_line None"
  by (simp add: one_line_def)

lemma simple_command_one_line:
  "(invalid = None \<Longrightarrow> clean cmd) \<Longrightarrow> one_line (fst (simple_command p invalid cmd))"
  unfolding simple_command_sent using one_line_Some [of cmd] by (cases invalid) simp_all

lemma GetInfo_one_line: "one_line (fst (GetInfo p kws))"
proof (cases "\<forall>k \<in> set kws. clean k")
  case True
  then have "clean (''GETINFO '' @ join '' '' kws)"
    by (metis clean_append clean_join clean_literals(5,7))
  then have "one_line (Some ((''GETINFO '' @ join '' '' kws) @ [CR, NL]))" by (rule one_line_Some)
  with True show ?thesis unfolding GetInfo_sent by presburger
next
  case False
  then show ?thesis unfolding GetInfo_sent by (simp only: if_False one_line_None)
qed

lemma digits_clean: "list_all is_digit s \<Longrightarrow> clean s"
  by (auto simp: clean_def list_all_iff)

lemma trim_prefix_clean: "clean s \<Longrightarrow> clean (trim_prefix s q)"
  using set_drop_subset [of "length q" s] by (auto simp: trim_prefix_def clean_def)

lemma fst_case_sum: "fst (case r of Inl e \<Rightarrow> (a, f e) | Inr x \<Rightarrow> (a, g x)) = a"
  by (cases r) simp_all

lemma collect_loop_spec:
  "collect_loop en acc ls =
     (case dropWhile (\<lambda>l. \<not> final_line l) ls of
        [] \<Rightarrow> (Inl (ending_err en), [])
      | l # rest \<Rightarrow>
          (if error_line l then Inl (ErrMsg (''tor: '' @ l))
           else Inr (rev acc @ takeWhile (\<lambda>l. \<not> final_line l) ls @ [l]), rest))"
proof (induction ls arbitrary: acc)
  case (Cons line ls)
  show ?case
  proof (cases "final_line line")
    case False
    then have "collect_loop en acc (line # ls) = collect_loop en (line # acc) ls" by simp
    with False Cons.IH [of "line # acc"] show ?thesis
      by (cases "dropWhile (\<lambda>l. \<not> final_line l) ls") (simp_all del: dropWhile_eq_Nil_conv)
  qed simp
qed simp

lemma until_char_append: "c \<notin> set a \<Longrightarrow> until_char c (a @ c # s) = a"
  by (simp add: until_char_def index_byte_append)

lemma trim_right_crlf:
  assumes "clean l"
  shows "trim_right_set [CR, NL] (l @ [CR, NL]) = l"
proof -
  have "dropWhile (\<lambda>c. c \<in> set [CR, NL]) (rev l) = rev l"
    using assms by (cases "rev l") (auto simp: clean_def dest: arg_cong [where f = set])
  then show ?thesis by (simp add: trim_right_set_def)
qed

lemma index_byte_line:
  assumes "clean l"
  shows "index_byte (l @ CR # NL # r) NL = Some (Suc (length l))"
  using index_byte_append [of NL "l @ [CR]" r] assms by (simp add: clean_def)

text \<open>Where the reader puts a line.\<close>

definition deliver :: "string \<Rightarrow> ControlClient \<Rightarrow> ControlClient" where
  "deliver l c = (if l = [] then c else if isAsyncEvent l then dispatchEvent l c
                  else c\<lparr>syncResp := syncResp c @ [l]\<rparr>)"

lemma read_round_line:
  assumes "clean l" "\<not> done_closed c" "received c = l @ [CR, NL] @ r" "length (syncResp c) < syncResp_cap"
  shows "read_round c = Some (deliver l (c\<lparr>received := r\<rparr>))"
  using assms index_byte_line [OF assms(1), of r] trim_right_crlf [OF assms(1)]
  by (simp add: read_round_def Let_def deliver_def)

fun read_rounds :: "nat \<Rightarrow> ControlClient \<Rightarrow> ControlClient option" where
  "read_rounds 0 c = Some c"
| "read_rounds (Suc k) c = (case read_round c of None \<Rightarrow> None | Some c' \<Rightarrow> read_rounds k c')"

definition as_stream :: "string list \<Rightarrow> string" where
  "as_stream ls = concat (map (\<lambda>l. l @ [CR, NL]) ls)"

definition replies :: "string list \<Rightarrow> string list" where
  "replies ls = filter (\<lambda>l. l \<noteq> [] \<and> \<not> isAsyncEvent l) ls"

definition asyncs :: "string list \<Rightarrow> AsyncEvent list" where
  "asyncs ls = map parse_event (filter isAsyncEvent ls)"

lemma isAsync_nonempty: "\<not> isAsyncEvent []"
  by (simp add: isAsyncEvent_def)

lemma read_rounds_stream:
  "\<forall>l \<in> set ls. clean l \<Longrightarrow> \<not> done_closed c \<Longrightarrow> received c = as_stream ls @ r \<Longrightarrow>
   length (syncResp c) + length (replies ls) \<le> syncResp_cap \<Longrightarrow> length (events c) \<le> events_cap \<Longrightarrow>
   read_rounds (length ls) c =
     Some (c\<lparr>received := r, syncResp := syncResp c @ replies ls,
             events := take events_cap (events c @ asyncs ls)\<rparr>)"
proof (induction ls arbitrary: c)
  case Nil
  then show ?case by (simp add: as_stream_def replies_def asyncs_def)
next
  case (Cons l ls)
  let ?c = "deliver l (c\<lparr>received := as_stream ls @ r\<rparr>)"
  have len: "length (syncResp c) \<le> syncResp_cap" "l \<noteq> [] \<and> \<not> isAsyncEvent l \<Longrightarrow> length (syncResp c) < syncResp_cap"
    using Cons.prems(4) by (auto simp: replies_def)
  have round: "read_round c = Some ?c"
  proof (cases "l \<noteq> [] \<and> \<not> isAsyncEvent l")
    case True
    then show ?thesis
      using Cons.prems len(2) by (intro read_round_line) (simp_all add: as_stream_def)
  next
    case False
    then show ?thesis
      using Cons.prems index_byte_line [of l "as_stream ls @ r"] trim_right_crlf [of l]
      by (auto simp: read_round_def Let_def deliver_def as_stream_def)
  qed
  have "read_rounds (length ls) ?c =
      Some (?c\<lparr>received := r, syncResp := syncResp ?c @ replies ls, events := take events_cap (events ?c @ asyncs ls)\<rparr>)"
    using Cons.prems
    by (intro Cons.IH) (auto simp: deliver_def dispatchEvent_def replies_def)
  also have "\<dots> = Some (c\<lparr>received := r, syncResp := syncResp c @ replies (l # ls),
        events := take events_cap (events c @ asyncs (l # ls))\<rparr>)"
    using Cons.prems(5) isAsync_nonempty
    by (auto simp: deliver_def dispatchEvent_def replies_def asyncs_def take_Cons')
  finally show ?case using round by simp
qed

section \<open>Properties\<close>

text \<open>
  C26. No injection into the control protocol: whatever password, signal, directive, keyword,
  event, circuit ID, address or fingerprint a command is given, either nothing is written or
  what is written is one protocol line, ended by \<^verbatim>\<open>\r\n\<close> and with no other line break.
\<close>

theorem control_commands_one_line:
  "one_line (fst (Authenticate p password)) \<and> one_line (fst (Signal p sig))
   \<and> one_line (fst (SetConf p ds)) \<and> one_line (fst (SetEvents p evs)) \<and> one_line (fst (GetInfo p kws))
   \<and> one_line (fst (CloseCircuit p circuitID)) \<and> one_line (fst (GetRelayCountry p ip))
   \<and> one_line (fst (GetRelayAddress p fp)) \<and> one_line (fst (GetBootstrapStatus p))"
proof -
  have "one_line (fst (Authenticate p password))" "one_line (fst (Signal p sig))"
    unfolding Authenticate_def Signal_def
    by (rule simple_command_one_line, simp add: no_newlines_clean NL_def CR_def DQ_def)+
  moreover have "one_line (fst (SetConf p ds))"
    unfolding SetConf_def
  proof (rule simple_command_one_line)
    assume "first_err (\<lambda>(k, v). and_then (map_option (wrap ''tor: setconf key'') (validateNoNewlines k))
              (map_option (wrap ''tor: setconf value'') (validateNoNewlines v))) ds = None"
    then have "clean k \<and> clean v" if "(k, v) \<in> set ds" for k v
      using that by (fastforce simp: first_err_None no_newlines_clean)
    then show "clean (''SETCONF '' @ join '' '' (map (\<lambda>(k, v). k @ ''='' @ v) ds))"
      by (auto simp: NL_def CR_def intro!: clean_join)
  qed
  moreover have "one_line (fst (SetEvents p evs))"
    unfolding SetEvents_def
    by (rule simple_command_one_line)
       (auto simp: first_err_None no_newlines_clean NL_def CR_def intro!: clean_join)
  moreover have "one_line (fst (CloseCircuit p circuitID))"
    unfolding CloseCircuit_def
    by (rule simple_command_one_line) (auto simp: circuitIDRe_def NL_def CR_def dest: digits_clean)
  moreover have "one_line (fst (GetRelayCountry p ip))"
    using GetInfo_one_line [of p "[''ip-to-country/'' @ ip]"]
    by (auto simp: GetRelayCountry_def split: option.splits prod.splits sum.splits)
  moreover have "one_line (fst (GetRelayAddress p fp))"
    using GetInfo_one_line [of p "[''ns/id/'' @ trim_prefix fp ''$'']"]
    by (auto simp: GetRelayAddress_def Let_def split: option.splits prod.splits sum.splits)
  moreover have "one_line (fst (GetBootstrapStatus p))"
    using GetInfo_one_line [of p "[''status/bootstrap-phase'']"]
    by (auto simp: GetBootstrapStatus_def split: prod.splits sum.splits)
  ultimately show ?thesis using GetInfo_one_line by blast
qed

text \<open>
  The reply to a command is what arrives up to the first final line, and no line after it
  is consumed: with the lines \<open>xs\<close> not final and \<open>l\<close> final, the command gets exactly
  \<open>xs @ [l]\<close>, or the error that \<open>l\<close> reports, and \<open>rest\<close> stays for the next command. With no
  final line it gets the reason the wait ended.
\<close>

theorem collectResponse_first_final:
  assumes "\<forall>x \<in> set xs. \<not> final_line x" "final_line l"
  shows "collectResponse en (xs @ l # rest) =
      (if error_line l then Inl (ErrMsg (''tor: '' @ l)) else Inr (xs @ [l]), rest)
    \<and> collectResponse en xs = (Inl (ending_err en), [])"
proof -
  have "dropWhile (\<lambda>l. \<not> final_line l) (xs @ l # rest) = l # rest"
    "takeWhile (\<lambda>l. \<not> final_line l) (xs @ l # rest) = xs"
    "dropWhile (\<lambda>l. \<not> final_line l) xs = []"
    using assms by (simp_all add: takeWhile_tail dropWhile_append2)
  then show ?thesis by (simp add: collectResponse_def collect_loop_spec del: dropWhile_eq_Nil_conv)
qed

theorem collectResponse_first_final_witness:
  "collectResponse ConnClosed [''250-version=0.4'', ''250 OK'', ''250 more''] =
     (Inr [''250-version=0.4'', ''250 OK''], [''250 more''])"
  using collectResponse_first_final [of "[''250-version=0.4'']" "''250 OK''" ConnClosed "[''250 more'']"]
  by (simp add: final_line_def error_line_def)

text \<open>
  C27. The reader sorts a stream of lines: as long as the reply channel has room for the
  replies among them, one round per line delivers the replies in order, and of the
  asynchronous events (code 650) in order as many as fit the event channel, dropping the
  rest; empty lines vanish and the bytes after the last line stay unread.
\<close>

theorem reader_sorts_lines:
  assumes "\<forall>l \<in> set ls. clean l" "\<not> done_closed c" "received c = as_stream ls @ r"
    and "length (syncResp c) + length (replies ls) \<le> syncResp_cap" "length (events c) \<le> events_cap"
  shows "read_rounds (length ls) c =
     Some (c\<lparr>received := r, syncResp := syncResp c @ replies ls,
             events := take events_cap (events c @ asyncs ls)\<rparr>)"
  using assms by (rule read_rounds_stream)

theorem reader_sorts_lines_witness:
  "read_rounds 3 (new_client\<lparr>received := as_stream [''650 BW 1 2'', [], ''250 OK''] @ ''65''\<rparr>) =
     Some \<lparr>received = ''65'', events = [\<lparr>ev_Code = 650, ev_Action = ''BW'', ev_Lines = [''BW 1 2'']\<rparr>],
           syncResp = [''250 OK''], done_closed = False\<rparr>"
  using reader_sorts_lines [of "[''650 BW 1 2'', [], ''250 OK'']"
      "new_client\<lparr>received := as_stream [''650 BW 1 2'', [], ''250 OK''] @ ''65''\<rparr>" "''65''"]
  by (simp add: new_client_def replies_def asyncs_def isAsyncEvent_def parse_event_def events_cap_def
        syncResp_cap_def NL_def CR_def numeral_3_eq_3)

text \<open>
  A bandwidth event printed as Tor does, with or without the status code, parses back to
  its two 64-bit numbers.
\<close>

theorem bandwidth_roundtrip:
  assumes "- (2 ^ 63) \<le> r" "r < 2 ^ 63" "- (2 ^ 63) \<le> w" "w < 2 ^ 63" "pre \<in> {[], ''650 '', ''650-''}"
  shows "ParseBandwidthEvent (pre @ ''BW '' @ itoa r @ '' '' @ itoa w) = Inr \<lparr>BytesRead = r, BytesWritten = w\<rparr>"
proof -
  let ?s = "''BW '' @ itoa r @ '' '' @ itoa w"
  have f: "str_fields ?s = [''BW'', itoa r, itoa w]"
    using str_fields_join [of "[''BW'', itoa r, itoa w]"] itoa_graphic by (simp add: graphic_def)
  have s: "(if has_prefix (pre @ ?s) ''650 '' \<or> has_prefix (pre @ ?s) ''650-'' then drop 4 (pre @ ?s) else pre @ ?s) = ?s"
    using assms(5) by auto
  show ?thesis
    unfolding ParseBandwidthEvent_def Let_def s f
    using assms by (simp add: parse_int64_itoa)
qed

theorem bandwidth_roundtrip_witness:
  "ParseBandwidthEvent (''650 '' @ ''BW '' @ itoa 1024 @ '' '' @ itoa 2048)
     = Inr \<lparr>BytesRead = 1024, BytesWritten = 2048\<rparr>"
  by (rule bandwidth_roundtrip) simp_all

text \<open>
  A bootstrap phase as Tor reports it parses back to its parts: the progress, the tag (when
  it has no blank and no capital S) and the summary (when it has no quote).
\<close>

theorem bootstrap_roundtrip:
  assumes "- (2 ^ 63) \<le> p" "p < 2 ^ 63" "CHR '' '' \<notin> set tag" "CHR ''S'' \<notin> set tag" "DQ \<notin> set summary"
  shows "ParseBootstrapStatus
      (''NOTICE BOOTSTRAP PROGRESS='' @ itoa p @ '' TAG='' @ tag @ '' SUMMARY='' @ [DQ] @ summary @ [DQ])
    = Inr \<lparr>Progress = p, Tag = tag, Summary = summary\<rparr>"
proof -
  let ?rest = "'' SUMMARY='' @ [DQ] @ summary @ [DQ]"
  let ?line = "''NOTICE BOOTSTRAP PROGRESS='' @ itoa p @ '' TAG='' @ tag @ ?rest"
  have digits: "c \<in> set (itoa p) \<Longrightarrow> c \<noteq> CHR '' '' \<and> c \<noteq> CHR ''T'' \<and> c \<noteq> CHR ''S''" for c
    by (auto simp: itoa_def is_digit_def dest!: digits_of_set split: if_splits)
  have i1: "index_str ?line ''PROGRESS='' = Some 17" by simp
  have p1: "until_char (CHR '' '') (drop (17 + 9) ?line) = itoa p"
    using until_char_append [of "CHR '' ''" "itoa p" "''TAG='' @ tag @ ?rest"] digits by auto
  have "index_str (itoa p @ '' TAG='' @ tag @ ?rest) ''TAG='' = Some (length (itoa p) + 1)"
    using digits by (subst index_str_skip) auto
  then have i2: "index_str ?line ''TAG='' = Some (length (itoa p) + 27)" by simp
  have "drop (length (itoa p) + 27 + 4) ((''NOTICE BOOTSTRAP PROGRESS='' @ itoa p @ '' TAG='') @ (tag @ ?rest))
      = tag @ ?rest"
    by (rule drop_prefix) simp
  then have "drop (length (itoa p) + 27 + 4) ?line = tag @ ?rest" by (simp only: append_assoc)
  then have p2: "until_char (CHR '' '') (drop (length (itoa p) + 27 + 4) ?line) = tag"
    using until_char_append [of "CHR '' ''" tag "tl ?rest"] assms(3) by simp
  have "index_str (itoa p @ '' TAG='' @ tag @ ?rest) (''SUMMARY='' @ [DQ])
      = Some (length (itoa p) + (length tag + 6))"
    using digits assms(4) index_str_skip [of "''SUMMARY='' @ [DQ]" "itoa p" "'' TAG='' @ tag @ ?rest"]
      index_str_skip [of "''SUMMARY='' @ [DQ]" "'' TAG='' @ tag" ?rest] by auto
  then have i3: "index_str ?line (''SUMMARY='' @ [DQ]) = Some (length (itoa p) + (length tag + 32))" by simp
  have "drop (length (itoa p) + (length tag + 32) + 9)
      ((''NOTICE BOOTSTRAP PROGRESS='' @ itoa p @ '' TAG='' @ tag @ '' SUMMARY='' @ [DQ]) @ (summary @ [DQ]))
      = summary @ [DQ]"
    by (rule drop_prefix) simp
  then have "drop (length (itoa p) + (length tag + 32) + 9) ?line = summary @ [DQ]"
    by (simp only: append_assoc)
  then have p3: "until_char DQ (drop (length (itoa p) + (length tag + 32) + 9) ?line) = summary"
    using until_char_append [of DQ summary "[]"] assms(5) by simp
  show ?thesis
    unfolding ParseBootstrapStatus_def i1 i2 i3 option.case Let_def p1 p2 p3
    using assms(1,2) by (simp add: parse_int64_itoa)
qed

theorem bootstrap_roundtrip_witness:
  "ParseBootstrapStatus
      (''NOTICE BOOTSTRAP PROGRESS='' @ itoa 50 @ '' TAG='' @ ''loading_descriptors'' @ '' SUMMARY='' @ [DQ]
       @ ''Loading relay descriptors'' @ [DQ])
    = Inr \<lparr>Progress = 50, Tag = ''loading_descriptors'', Summary = ''Loading relay descriptors''\<rparr>"
  by (rule bootstrap_roundtrip) (simp_all add: DQ_def)

text \<open>
  \<^verbatim>\<open>parseCircuitLine\<close> panics exactly on the lines with fewer than three fields, such as the
  line \<^verbatim>\<open>7 LAUNCHED\<close> of a circuit that has no path yet; on a line with an identifier, a
  status, a path and a purpose it gives these back.
\<close>

theorem parseCircuitLine_outcome:
  "((\<exists>m. parseCircuitLine line = Panic m) \<longleftrightarrow> length (str_fields line) < 3)
   \<and> parseCircuitLine ''7 LAUNCHED'' = Panic ''slice bounds out of range''
   \<and> parseCircuitLine ''12 BUILT $A~a,$B~b PURPOSE=GENERAL'' =
       Ret \<lparr>ci_ID = ''12'', ci_Status = ''BUILT'', ci_Path = [''$A~a'', ''$B~b''], ci_Purpose = ''GENERAL''\<rparr>"
proof -
  have f: "str_fields ''7 LAUNCHED'' = [''7'', ''LAUNCHED'']"
    "str_fields ''12 BUILT $A~a,$B~b PURPOSE=GENERAL'' = [''12'', ''BUILT'', ''$A~a,$B~b'', ''PURPOSE=GENERAL'']"
    using str_fields_join [of "[''7'', ''LAUNCHED'']"]
      str_fields_join [of "[''12'', ''BUILT'', ''$A~a,$B~b'', ''PURPOSE=GENERAL'']"]
    by (simp_all add: graphic_def)
  have "(\<exists>m. parseCircuitLine line = Panic m) \<longleftrightarrow> length (str_fields line) < 3"
    by (auto simp: parseCircuitLine_def Let_def)
  then show ?thesis
    by (simp add: parseCircuitLine_def f Let_def purpose_of_def)
qed

end
