(* ===== verification/Gui_Circuits.thy ===== *)
theory Gui_Circuits
  imports Gui_App Tor_Control
begin

text \<open>
  The circuits tab of the graphical interface (\<^verbatim>\<open>gui/circuits_tab.go\<close>) and the list of active
  relays of the relays tab: polling the circuits from Tor, resolving their relays through a cache,
  the data handed to the globe, and closing the selected circuit. What Tor answers is an argument;
  drawing is left out.
\<close>

section \<open>Definitions\<close>

text \<open>The relay with the role that the caller sets.\<close>

record relay = RelayInfo +
  ri_Role :: string

definition relay_of :: "RelayInfo \<Rightarrow> string \<Rightarrow> relay" where
  "relay_of ri role = RelayInfo.extend ri \<lparr>ri_Role = role\<rparr>"

definition relayRole :: "nat \<Rightarrow> nat \<Rightarrow> string" where
  "relayRole idx n =
     (if n = 0 then ''middle'' else if idx = 0 then ''guard'' else if idx = n - 1 then ''exit'' else ''middle'')"

record circuitEntry =
  ce_info :: CircuitInfo
  ce_resolved :: "relay list"

type_synonym cache = "string \<Rightarrow> relay option"

text \<open>The state of the tab; no circuit is selected at \<open>None\<close>.\<close>

record circuits_tab =
  ct_circuits :: "circuitEntry list"
  ct_selected :: "nat option"
  ct_cache :: cache

definition new_circuits_tab :: circuits_tab where
  "new_circuits_tab = \<lparr>ct_circuits = [], ct_selected = None, ct_cache = Map.empty\<rparr>"

text \<open>\<open>resolve\<close> is \<^verbatim>\<open>ResolveRelay\<close> of the control connection, \<open>None\<close> when there is none.\<close>

type_synonym resolver = "(string \<Rightarrow> RelayInfo \<times> goerr option) option"

definition fresh_relay :: "resolver \<Rightarrow> string \<Rightarrow> nat \<Rightarrow> nat \<Rightarrow> relay" where
  "fresh_relay resolve entry i n =
     (case ParseRelayPath entry of (fp, nick) \<Rightarrow>
      let ri = \<lparr>ri_Fingerprint = fp, ri_Nickname = nick, ri_CountryCode = [], ri_Latitude = 0, ri_Longitude = 0,
                ri_Role = relayRole i n\<rparr> in
      case resolve of
        None \<Rightarrow> ri
      | Some f \<Rightarrow> (case f entry of (full, None) \<Rightarrow> relay_of full (relayRole i n) | (full, Some _) \<Rightarrow> ri))"

fun resolve_path :: "resolver \<Rightarrow> nat \<Rightarrow> nat \<Rightarrow> string list \<Rightarrow> cache \<Rightarrow> relay list \<times> cache" where
  "resolve_path resolve n i [] cache = ([], cache)"
| "resolve_path resolve n i (entry # path) cache =
     (let fp = fst (ParseRelayPath entry) in
      case cache fp of
        Some cached \<Rightarrow>
          (case resolve_path resolve n (Suc i) path cache of
             (rs, c') \<Rightarrow> (cached\<lparr>ri_Role := relayRole i n\<rparr> # rs, c'))
      | None \<Rightarrow>
          (let ri = fresh_relay resolve entry i n in
           case resolve_path resolve n (Suc i) path (cache(fp \<mapsto> ri)) of (rs, c') \<Rightarrow> (ri # rs, c')))"

definition resolveCircuit :: "resolver \<Rightarrow> CircuitInfo \<Rightarrow> cache \<Rightarrow> relay list \<times> cache" where
  "resolveCircuit resolve ci cache = resolve_path resolve (length (ci_Path ci)) 0 (ci_Path ci) cache"

definition shown_status :: "CircuitInfo \<Rightarrow> bool" where
  "shown_status ci \<longleftrightarrow> ci_Status ci = ''BUILT'' \<or> ci_Status ci = ''EXTENDED''"

fun resolve_all :: "resolver \<Rightarrow> CircuitInfo list \<Rightarrow> cache \<Rightarrow> circuitEntry list \<times> cache" where
  "resolve_all resolve [] cache = ([], cache)"
| "resolve_all resolve (ci # cs) cache =
     (if \<not> shown_status ci then resolve_all resolve cs cache
      else case resolveCircuit resolve ci cache of
        (rs, c1) \<Rightarrow>
          (case resolve_all resolve cs c1 of (es, c2) \<Rightarrow> (\<lparr>ce_info = ci, ce_resolved = rs\<rparr> # es, c2)))"

text \<open>\<open>circs\<close> is what \<^verbatim>\<open>GetCircuits\<close> answers. The selection is kept.\<close>

definition pollCircuits ::
  "resolver \<Rightarrow> State \<Rightarrow> CircuitInfo list res outcome \<Rightarrow> circuits_tab \<Rightarrow> circuits_tab outcome" where
  "pollCircuits resolve st circs tab =
     (if resolve = None \<or> st \<noteq> StateRunning then Ret tab
      else case circs of
        Panic m \<Rightarrow> Panic m
      | Ret (Inl _) \<Rightarrow> Ret tab
      | Ret (Inr cs) \<Rightarrow>
          (case resolve_all resolve cs (ct_cache tab) of
             (es, c) \<Rightarrow> Ret (tab\<lparr>ct_circuits := es, ct_cache := c\<rparr>)))"

definition circuit_selected :: "nat \<Rightarrow> circuits_tab \<Rightarrow> circuits_tab" where
  "circuit_selected i tab = tab\<lparr>ct_selected := Some i\<rparr>"

text \<open>The circuit that the button closes.\<close>

definition close_target :: "circuits_tab \<Rightarrow> string" where
  "close_target tab =
     (case ct_selected tab of
        Some i \<Rightarrow> (if i < length (ct_circuits tab) then ci_ID (ce_info (ct_circuits tab ! i)) else [])
      | None \<Rightarrow> [])"

datatype close_result = NoSelection | NotConnected | CloseFailed goerr | Closed string

definition close_pressed :: "(string \<Rightarrow> goerr option) option \<Rightarrow> circuits_tab \<Rightarrow> close_result" where
  "close_pressed close tab =
     (let circID = close_target tab in
      if circID = [] then NoSelection
      else case close of
        None \<Rightarrow> NotConnected
      | Some f \<Rightarrow> (case f circID of Some err \<Rightarrow> CloseFailed (wrap (''close circuit #'' @ circID) err) | None \<Rightarrow> Closed circID))"

record GlobePath =
  gp_Nodes :: "relay list"
  gp_CircuitID :: string
  gp_Selected :: bool

text \<open>The nodes of the globe: each fingerprint once, at its first relay.\<close>

fun globe_nodes :: "string list \<Rightarrow> relay list \<Rightarrow> relay list" where
  "globe_nodes seen [] = []"
| "globe_nodes seen (r # rs) =
     (if ri_Fingerprint r \<in> set seen then globe_nodes seen rs else r # globe_nodes (ri_Fingerprint r # seen) rs)"

definition updateGlobe :: "circuits_tab \<Rightarrow> relay list \<times> GlobePath list" where
  "updateGlobe tab =
     (globe_nodes [] (concat (map ce_resolved (ct_circuits tab))),
      map (\<lambda>(i, e). \<lparr>gp_Nodes = ce_resolved e, gp_CircuitID = ci_ID (ce_info e), gp_Selected = (ct_selected tab = Some i)\<rparr>)
        (filter (\<lambda>(i, e). ce_resolved e \<noteq> []) (enumerate 0 (ct_circuits tab))))"

definition arrow :: string where "arrow = [CHR 0x20, CHR 0xE2, CHR 0x86, CHR 0x92, CHR 0x20]"

definition path_name :: "relay \<Rightarrow> string" where
  "path_name r =
     (let name = (if ri_Nickname r = []
                  then (if length (ri_Fingerprint r) > 10 then take 10 (ri_Fingerprint r) @ ''...'' else ri_Fingerprint r)
                  else ri_Nickname r)
      in if ri_CountryCode r \<noteq> [] then name @ ''['' @ ri_CountryCode r @ '']'' else name)"

definition formatCircuitPath :: "circuitEntry \<Rightarrow> string" where
  "formatCircuitPath ce =
     (let parts = map path_name (ce_resolved ce) in
      if parts = [] then join arrow (ci_Path (ce_info ce)) else join arrow parts)"

text \<open>The active relays of the relays tab, each fingerprint once.\<close>

fun path_relays :: "(string \<Rightarrow> RelayInfo \<times> goerr option) \<Rightarrow> nat \<Rightarrow> nat \<Rightarrow> string list \<Rightarrow> string list \<Rightarrow> relay list \<times> string list" where
  "path_relays f n i [] seen = ([], seen)"
| "path_relays f n i (entry # path) seen =
     (case ParseRelayPath entry of (fp, nick) \<Rightarrow>
      if fp \<in> set seen then path_relays f n (Suc i) path seen
      else
        (let ri = \<lparr>ri_Fingerprint = fp, ri_Nickname = nick, ri_CountryCode = [], ri_Latitude = 0, ri_Longitude = 0,
                   ri_Role = relayRole i n\<rparr>;
             ri' = (case f entry of
                      (res, None) \<Rightarrow> ri\<lparr>ri_CountryCode := ri_CountryCode res, ri_Latitude := ri_Latitude res,
                                         ri_Longitude := ri_Longitude res\<rparr>
                    | (res, Some _) \<Rightarrow> ri)
         in case path_relays f n (Suc i) path (fp # seen) of (rs, seen') \<Rightarrow> (ri' # rs, seen')))"

fun fetch_relays :: "(string \<Rightarrow> RelayInfo \<times> goerr option) \<Rightarrow> CircuitInfo list \<Rightarrow> string list \<Rightarrow> relay list" where
  "fetch_relays f [] seen = []"
| "fetch_relays f (ci # cs) seen =
     (if \<not> shown_status ci then fetch_relays f cs seen
      else case path_relays f (length (ci_Path ci)) 0 (ci_Path ci) seen of
        (rs, seen') \<Rightarrow> rs @ fetch_relays f cs seen')"

definition relay_label :: "relay \<Rightarrow> string" where
  "relay_label ri =
     (let d0 = (if ri_Nickname ri \<noteq> [] then ri_Nickname ri @ '' '' @ ri_Fingerprint ri else ri_Fingerprint ri);
          d1 = (if ri_CountryCode ri \<noteq> [] then d0 @ '' ['' @ ri_CountryCode ri @ '']'' else d0)
      in if ri_Role ri \<noteq> [] then d1 @ '' ('' @ ri_Role ri @ '')'' else d1)"

section \<open>Lemmas\<close>

text \<open>Resolving a path only adds to the cache, and shows for each hop the entry of the cache with
  the role of its position.\<close>

lemma resolve_path_cache:
  "resolve_path resolve n i path cache = (rs, c') \<Longrightarrow>
   cache \<subseteq>\<^sub>m c' \<and> length rs = length path
   \<and> (\<forall>k<length path. \<exists>r. c' (fst (ParseRelayPath (path ! k))) = Some r \<and> rs ! k = r\<lparr>ri_Role := relayRole (i + k) n\<rparr>)"
proof (induction path arbitrary: i cache rs c')
  case (Cons entry path)
  let ?fp = "fst (ParseRelayPath entry)"
  define c1 where "c1 = (case cache ?fp of Some _ \<Rightarrow> cache | None \<Rightarrow> cache(?fp \<mapsto> fresh_relay resolve entry i n))"
  obtain rs1 where r: "resolve_path resolve n (Suc i) path c1 = (rs1, c')" "rs = (the (c1 ?fp))\<lparr>ri_Role := relayRole i n\<rparr> # rs1"
    using Cons.prems by (auto simp: c1_def Let_def fresh_relay_def relay_of_def RelayInfo.defs split: option.splits prod.splits)
  have IH: "c1 \<subseteq>\<^sub>m c'" "length rs1 = length path"
    "\<forall>k<length path. \<exists>r. c' (fst (ParseRelayPath (path ! k))) = Some r \<and> rs1 ! k = r\<lparr>ri_Role := relayRole (Suc i + k) n\<rparr>"
    using Cons.IH [OF r(1)] by auto
  have "cache \<subseteq>\<^sub>m c1" by (auto simp: c1_def map_le_def split: option.splits)
  then have le: "cache \<subseteq>\<^sub>m c'" using IH(1) map_le_trans by blast
  have "c1 ?fp \<noteq> None" by (auto simp: c1_def split: option.splits)
  then have hd: "c' ?fp = c1 ?fp" using IH(1) by (metis domI map_le_def not_None_eq domIff)
  show ?case
  proof (intro conjI allI impI)
    fix k assume "k < length (entry # path)"
    then show "\<exists>r. c' (fst (ParseRelayPath ((entry # path) ! k))) = Some r \<and> rs ! k = r\<lparr>ri_Role := relayRole (i + k) n\<rparr>"
      using IH(3) hd \<open>c1 ?fp \<noteq> None\<close> by (cases k) (auto simp: r(2))
  qed (use le IH(2) r(2) in auto)
qed simp

text \<open>A circuit as it is shown: its relays are those of its path, as they stand in the cache, with the
  roles of their positions.\<close>

definition entry_ok :: "cache \<Rightarrow> circuitEntry \<Rightarrow> bool" where
  "entry_ok cache e \<longleftrightarrow> shown_status (ce_info e) \<and> length (ce_resolved e) = length (ci_Path (ce_info e))
     \<and> (\<forall>k<length (ce_resolved e). \<exists>r. cache (fst (ParseRelayPath (ci_Path (ce_info e) ! k))) = Some r
          \<and> ce_resolved e ! k = r\<lparr>ri_Role := relayRole k (length (ce_resolved e))\<rparr>)"

lemma map_leD: "c \<subseteq>\<^sub>m c' \<Longrightarrow> c x = Some r \<Longrightarrow> c' x = Some r"
  by (metis domI map_le_def)

lemma entry_ok_mono: "entry_ok c e \<Longrightarrow> c \<subseteq>\<^sub>m c' \<Longrightarrow> entry_ok c' e"
  unfolding entry_ok_def using map_leD by fast

lemma resolve_all_cache:
  "resolve_all resolve cs cache = (es, c') \<Longrightarrow>
   cache \<subseteq>\<^sub>m c' \<and> map ce_info es = filter shown_status cs \<and> (\<forall>e\<in>set es. entry_ok c' e)"
proof (induction cs arbitrary: cache es)
  case (Cons ci cs)
  show ?case
  proof (cases "shown_status ci")
    case False
    then show ?thesis using Cons by simp
  next
    case True
    then obtain rs c1 es1 where s: "resolve_path resolve (length (ci_Path ci)) 0 (ci_Path ci) cache = (rs, c1)"
      "resolve_all resolve cs c1 = (es1, c')" "es = \<lparr>ce_info = ci, ce_resolved = rs\<rparr> # es1"
      using Cons.prems by (auto simp: resolveCircuit_def split: prod.splits)
    note p = resolve_path_cache [OF s(1)] and q = Cons.IH [OF s(2)]
    have "entry_ok c1 \<lparr>ce_info = ci, ce_resolved = rs\<rparr>" using p True by (simp add: entry_ok_def)
    then show ?thesis using p q True s(3) map_le_trans [of cache c1 c'] entry_ok_mono by auto
  qed
qed simp

lemma globe_nodes_spec:
  "distinct (map ri_Fingerprint (globe_nodes seen rs)) \<and> set (map ri_Fingerprint (globe_nodes seen rs)) \<inter> set seen = {}
   \<and> set (map ri_Fingerprint (globe_nodes seen rs)) = set (map ri_Fingerprint rs) - set seen"
  by (induction seen rs rule: globe_nodes.induct) auto

text \<open>Any number of polls, each with its own answers.\<close>

fun polls :: "(resolver \<times> State \<times> CircuitInfo list res outcome) list \<Rightarrow> circuits_tab \<Rightarrow> circuits_tab outcome" where
  "polls [] tab = Ret tab"
| "polls ((resolve, st, circs) # ps) tab =
     (case pollCircuits resolve st circs tab of Panic m \<Rightarrow> Panic m | Ret tab' \<Rightarrow> polls ps tab')"

definition tab_ok :: "circuits_tab \<Rightarrow> bool" where
  "tab_ok tab \<longleftrightarrow> (\<forall>e\<in>set (ct_circuits tab). entry_ok (ct_cache tab) e)"

lemma poll_tab:
  assumes "pollCircuits resolve st circs tab = Ret tab'" "tab_ok tab"
  shows "tab_ok tab' \<and> ct_cache tab \<subseteq>\<^sub>m ct_cache tab'"
proof (cases "tab' = tab")
  case False
  then obtain cs es c where c: "resolve_all resolve cs (ct_cache tab) = (es, c)" "tab' = tab\<lparr>ct_circuits := es, ct_cache := c\<rparr>"
    using assms(1) by (auto simp: pollCircuits_def split: if_splits outcome.splits sum.splits prod.splits)
  then show ?thesis using resolve_all_cache [OF c(1)] by (simp add: tab_ok_def)
qed (use assms(2) in simp)

lemma polls_tab: "polls ps tab = Ret tab' \<Longrightarrow> tab_ok tab \<Longrightarrow> tab_ok tab' \<and> ct_cache tab \<subseteq>\<^sub>m ct_cache tab'"
proof (induction ps tab rule: polls.induct)
  case (2 resolve st circs ps tab)
  then obtain t where t: "pollCircuits resolve st circs tab = Ret t" "polls ps t = Ret tab'" by (auto split: outcome.splits)
  show ?case using 2(1) [OF t(1)] t poll_tab [OF t(1) 2(3)] map_le_trans by blast
qed simp

section \<open>Properties\<close>

text \<open>
  What the circuits tab shows. After any polls, failed ones included, every circuit shown is
  built or extended, its relays are those of its path in order, each as it stands in the cache,
  with the role of its position; the globe shows every fingerprint of the circuits exactly once.
  The cache never changes an entry: a relay that could not be resolved at its first poll keeps its
  empty country and the location 0/0 in all later ones, whatever Tor answers then.
\<close>

theorem circuits_shown:
  assumes "polls ps new_circuits_tab = Ret tab" "polls qs tab = Ret tab'"
  shows "(\<forall>e\<in>set (ct_circuits tab). entry_ok (ct_cache tab) e)
    \<and> distinct (map ri_Fingerprint (fst (updateGlobe tab)))
    \<and> set (map ri_Fingerprint (fst (updateGlobe tab))) = (\<Union>e\<in>set (ct_circuits tab). ri_Fingerprint ` set (ce_resolved e))
    \<and> (\<forall>fp r. ct_cache tab fp = Some r \<longrightarrow> ct_cache tab' fp = Some r)"
proof -
  have ok: "tab_ok tab" using polls_tab [OF assms(1)] by (simp add: tab_ok_def new_circuits_tab_def)
  have "ct_cache tab \<subseteq>\<^sub>m ct_cache tab'" using polls_tab [OF assms(2) ok] by blast
  then have "\<forall>fp r. ct_cache tab fp = Some r \<longrightarrow> ct_cache tab' fp = Some r" using map_leD by fast
  then show ?thesis
    using ok globe_nodes_spec [of "[]" "concat (map ce_resolved (ct_circuits tab))"]
    by (auto simp: tab_ok_def updateGlobe_def)
qed

text \<open>A relay that is not resolved at the first poll.\<close>

definition one_circuit :: CircuitInfo where
  "one_circuit = \<lparr>ci_ID = ''7'', ci_Status = ''BUILT'', ci_Path = [''$A~x''], ci_Purpose = ''GENERAL''\<rparr>"

theorem circuits_shown_witness:
  "\<exists>tab tab' r. polls [(Some (\<lambda>e. (\<lparr>ri_Fingerprint = ''$A'', ri_Nickname = ''x'', ri_CountryCode = [], ri_Latitude = 0, ri_Longitude = 0\<rparr>, Some ErrDeadline)), StateRunning, Ret (Inr [one_circuit]))] new_circuits_tab = Ret tab
     \<and> polls [(Some (\<lambda>e. (\<lparr>ri_Fingerprint = ''$A'', ri_Nickname = ''x'', ri_CountryCode = ''DE'', ri_Latitude = 51, ri_Longitude = 9\<rparr>, None)),
               StateRunning, Ret (Inr [one_circuit]))] tab = Ret tab'
     \<and> ct_cache tab' ''$A'' = Some r \<and> ri_CountryCode r = []"
proof -
  have p: "ParseRelayPath ''$A~x'' = (''$A'', ''x'')" by code_simp
  let ?p1 = "[(Some (\<lambda>e. (\<lparr>ri_Fingerprint = ''$A'', ri_Nickname = ''x'', ri_CountryCode = [], ri_Latitude = 0, ri_Longitude = 0\<rparr>, Some ErrDeadline)), StateRunning, Ret (Inr [one_circuit]))]"
  let ?p2 = "[(Some (\<lambda>e. (\<lparr>ri_Fingerprint = ''$A'', ri_Nickname = ''x'', ri_CountryCode = ''DE'', ri_Latitude = 51, ri_Longitude = 9\<rparr>, None)),
               StateRunning, Ret (Inr [one_circuit]))]"
  note defs = pollCircuits_def one_circuit_def shown_status_def resolveCircuit_def p fresh_relay_def
  obtain tab r where 1: "polls ?p1 new_circuits_tab = Ret tab" "ct_cache tab ''$A'' = Some r" "ri_CountryCode r = []"
    by (simp add: defs new_circuits_tab_def Let_def)
  obtain tab' where 2: "polls ?p2 tab = Ret tab'"
    by (cases "resolve_all (fst (hd ?p2)) [one_circuit] (ct_cache tab)") (simp add: pollCircuits_def del: resolve_all.simps)
  have "\<forall>fp r. ct_cache tab fp = Some r \<longrightarrow> ct_cache tab' fp = Some r" using circuits_shown [OF 1(1) 2] by (elim conjE)
  then have "ct_cache tab' ''$A'' = Some r" using 1(2) by simp
  with 1(1,3) 2 show ?thesis by (intro exI conjI)
qed

end
