(* ===== verification/Gui_Refresh.thy ===== *)
theory Gui_Refresh
  imports Gui_Circuits
begin

text \<open>
  The rest of the circuits tab (\<^verbatim>\<open>gui/circuits_tab.go\<close>): the goroutines that poll the circuits while
  the check box \<^verbatim>\<open>Auto-refresh\<close> is set, the rows of the list of circuits, and the dialog that
  blocks a relay of the selected circuit. What a poll does is the function \<open>pollCircuits\<close> of
  the theory of the tab.
\<close>

section \<open>Polling in the background\<close>

text \<open>
  Setting the check box makes a channel \<^verbatim>\<open>tickerDone\<close> and a ticker and starts a goroutine;
  clearing it stops the ticker and closes the channel. The variables \<^verbatim>\<open>ticker\<close> and
  \<^verbatim>\<open>tickerDone\<close> are shared by all these goroutines, and each evaluates them anew whenever it
  reaches its \<^verbatim>\<open>select\<close>. A pair of ticker and channel is known by its position in the list of
  all that were made; the variables hold the last one, and are nil while the list is empty. A
  stopped ticker delivers no further tick (the behaviour of Go since version 1.23).
\<close>

datatype poller = AtLoop | Selecting nat | Polling | Ended

record tick_pair =
  tk_running :: bool
  tk_closed :: bool

record refresher =
  rf_auto :: bool
  rf_pairs :: "tick_pair list"
  rf_pollers :: "poller list"
  rf_polls :: nat

definition new_refresher :: refresher where
  "new_refresher = \<lparr>rf_auto = False, rf_pairs = [], rf_pollers = [], rf_polls = 0\<rparr>"

text \<open>The callback of the check box; \<open>rf_polls\<close> counts the calls of \<^verbatim>\<open>pollCircuits\<close>.\<close>

definition refresh_on :: "refresher \<Rightarrow> refresher" where
  "refresh_on r =
     r\<lparr>rf_pairs := rf_pairs r @ [\<lparr>tk_running = True, tk_closed = False\<rparr>],
       rf_pollers := rf_pollers r @ [AtLoop], rf_polls := rf_polls r + 1\<rparr>"

definition refresh_off :: "refresher \<Rightarrow> refresher outcome" where
  "refresh_off r =
     (if rf_pairs r = [] then Ret r
      else let g = length (rf_pairs r) - 1; stopped = (rf_pairs r ! g)\<lparr>tk_running := False\<rparr> in
        if tk_closed stopped then Panic ''close of closed channel''
        else Ret (r\<lparr>rf_pairs := (rf_pairs r)[g := stopped\<lparr>tk_closed := True\<rparr>]\<rparr>))"

definition autoRefreshCheck :: "bool \<Rightarrow> refresher \<Rightarrow> refresher outcome" where
  "autoRefreshCheck on r0 =
     (let r = r0\<lparr>rf_auto := on\<rparr> in if on then Ret (refresh_on r) else refresh_off r)"

text \<open>The observer of the engine's state.\<close>

definition refresh_observer :: "State \<Rightarrow> refresher \<Rightarrow> refresher" where
  "refresh_observer to r = (if to = StateRunning \<and> rf_auto r then r\<lparr>rf_polls := rf_polls r + 1\<rparr> else r)"

text \<open>A step of the goroutine with number \<open>i\<close>; the arguments tell which case of the \<^verbatim>\<open>select\<close>
  is taken when both are ready.\<close>

datatype poller_move = EvalSelect | TakeTick | TakeDone | PollReturns

definition set_poller :: "nat \<Rightarrow> poller \<Rightarrow> refresher \<Rightarrow> refresher" where
  "set_poller i p r = r\<lparr>rf_pollers := (rf_pollers r)[i := p]\<rparr>"

definition poller_step :: "nat \<Rightarrow> poller_move \<Rightarrow> refresher \<Rightarrow> refresher option" where
  "poller_step i mv r =
     (if i \<ge> length (rf_pollers r) then None
      else case (rf_pollers r ! i, mv) of
        (AtLoop, EvalSelect) \<Rightarrow> Some (set_poller i (Selecting (length (rf_pairs r) - 1)) r)
      | (Selecting g, TakeTick) \<Rightarrow>
          (if tk_running (rf_pairs r ! g) then Some ((set_poller i Polling r)\<lparr>rf_polls := rf_polls r + 1\<rparr>) else None)
      | (Selecting g, TakeDone) \<Rightarrow> (if tk_closed (rf_pairs r ! g) then Some (set_poller i Ended r) else None)
      | (Polling, PollReturns) \<Rightarrow> Some (set_poller i AtLoop r)
      | _ \<Rightarrow> None)"

text \<open>The check box calls back with the value it changes to.\<close>

inductive refresh_reach :: "refresher \<Rightarrow> bool" where
  init: "refresh_reach new_refresher"
| toggle: "refresh_reach r \<Longrightarrow> autoRefreshCheck (\<not> rf_auto r) r = Ret r' \<Longrightarrow> refresh_reach r'"
| observe: "refresh_reach r \<Longrightarrow> refresh_reach (refresh_observer to r)"
| step: "refresh_reach r \<Longrightarrow> poller_step i mv r = Some r' \<Longrightarrow> refresh_reach r'"

text \<open>The goroutines alone, and the goroutines that have not ended.\<close>

inductive poller_steps :: "nat \<Rightarrow> refresher \<Rightarrow> refresher \<Rightarrow> bool" where
  none: "poller_steps 0 r r"
| more: "poller_step i mv r = Some r1 \<Longrightarrow> poller_steps n r1 r2 \<Longrightarrow> poller_steps (Suc n) r r2"

definition live :: "refresher \<Rightarrow> nat" where
  "live r = length (filter (\<lambda>p. p \<noteq> Ended) (rf_pollers r))"

section \<open>Rows and the block dialog\<close>

definition circuit_row :: "circuits_tab \<Rightarrow> nat \<Rightarrow> string option" where
  "circuit_row tab i =
     (if i < length (ct_circuits tab) then
        let c = ct_circuits tab ! i in
        Some (''#'' @ ci_ID (ce_info c) @ '' '' @ ci_Status (ce_info c) @ '' '' @ formatCircuitPath c
              @ '' ('' @ ci_Purpose (ce_info c) @ '')'')
      else None)"

definition block_option :: "relay \<Rightarrow> string" where
  "block_option ri =
     (let l0 = (if ri_Nickname ri \<noteq> [] then ri_Nickname ri @ '' ('' @ ri_Fingerprint ri @ '')'' else ri_Fingerprint ri)
      in if ri_CountryCode ri \<noteq> [] then l0 @ '' ['' @ ri_CountryCode ri @ '']'' else l0)"

definition block_relays :: "circuits_tab \<Rightarrow> relay list" where
  "block_relays tab =
     (case ct_selected tab of
        Some i \<Rightarrow> (if i < length (ct_circuits tab) then ce_resolved (ct_circuits tab ! i) else [])
      | None \<Rightarrow> [])"

text \<open>The button \<^verbatim>\<open>Block Relay\<close>, and the answer to its dialog: the relay at the chosen position of
  the list that was offered, whatever the tab shows by then.\<close>

datatype block_dialog = NoCircuitSelected | ChooseRelay "string list" "relay list"

definition block_pressed :: "circuits_tab \<Rightarrow> block_dialog" where
  "block_pressed tab =
     (let relays = block_relays tab in
      if length relays = 0 then NoCircuitSelected else ChooseRelay (map block_option relays) relays)"

definition block_answer ::
  "('w, 's, 'c) env \<Rightarrow> relay list \<Rightarrow> bool \<Rightarrow> int \<Rightarrow> ('w, 's, 'c) App \<Rightarrow> ('w, 's, 'c) App" where
  "block_answer env relays ok sel a =
     (if \<not> ok \<or> sel < 0 then a else circuit_confirmed env (ri_Fingerprint (relays ! nat sel)) a)"

section \<open>Lemmas\<close>

text \<open>All pairs but the last are stopped and closed, and the last one as well while the box is clear.\<close>

definition old_pair :: "tick_pair \<Rightarrow> bool" where
  "old_pair p \<longleftrightarrow> \<not> tk_running p \<and> tk_closed p"

definition refresh_inv :: "refresher \<Rightarrow> bool" where
  "refresh_inv r \<longleftrightarrow>
     length (rf_pollers r) = length (rf_pairs r)
     \<and> (\<forall>g. Selecting g \<in> set (rf_pollers r) \<longrightarrow> g < length (rf_pairs r))
     \<and> (if rf_auto r then \<exists>ps p. rf_pairs r = ps @ [p] \<and> list_all old_pair ps \<and> tk_running p \<and> \<not> tk_closed p
        else list_all old_pair (rf_pairs r))"

lemma toggle_on_inv: "refresh_inv r \<Longrightarrow> \<not> rf_auto r \<Longrightarrow> refresh_inv (refresh_on (r\<lparr>rf_auto := True\<rparr>))"
  by (auto simp: refresh_inv_def refresh_on_def less_Suc_eq)

lemma toggle_off_inv:
  assumes "refresh_inv r" "rf_auto r"
  shows "\<exists>r'. refresh_off (r\<lparr>rf_auto := False\<rparr>) = Ret r' \<and> refresh_inv r'
    \<and> rf_pollers r' = rf_pollers r \<and> \<not> rf_auto r' \<and> rf_polls r' = rf_polls r"
proof -
  obtain ps p where p: "rf_pairs r = ps @ [p]" "list_all old_pair ps" "tk_running p" "\<not> tk_closed p"
    using assms by (auto simp: refresh_inv_def)
  then show ?thesis using assms by (auto simp: refresh_off_def refresh_inv_def old_pair_def Let_def)
qed

lemma toggle_inv:
  assumes "refresh_inv r"
  shows "\<exists>r'. autoRefreshCheck (\<not> rf_auto r) r = Ret r' \<and> refresh_inv r'"
  using toggle_on_inv [OF assms] toggle_off_inv [OF assms] by (cases "rf_auto r") (auto simp: autoRefreshCheck_def Let_def)

lemma selecting_update:
  "Selecting g \<in> set (ps[i := p]) \<Longrightarrow> Selecting g \<in> set ps \<or> p = Selecting g"
  using set_update_subset_insert [of ps i p] by auto

lemma poller_step_cases:
  assumes "poller_step i mv r = Some r'"
  obtains (eval) "i < length (rf_pollers r)" "rf_pollers r ! i = AtLoop"
      "r' = set_poller i (Selecting (length (rf_pairs r) - 1)) r"
  | (tick) g where "i < length (rf_pollers r)" "rf_pollers r ! i = Selecting g" "tk_running (rf_pairs r ! g)"
      "r' = (set_poller i Polling r)\<lparr>rf_polls := rf_polls r + 1\<rparr>"
  | (fin) g where "i < length (rf_pollers r)" "rf_pollers r ! i = Selecting g" "tk_closed (rf_pairs r ! g)"
      "r' = set_poller i Ended r"
  | (returns) "i < length (rf_pollers r)" "rf_pollers r ! i = Polling" "r' = set_poller i AtLoop r"
  using assms by (auto simp: poller_step_def split: if_splits poller.splits poller_move.splits)

lemma poller_step_inv: "poller_step i mv r = Some r' \<Longrightarrow> refresh_inv r \<Longrightarrow> refresh_inv r' \<and> rf_auto r' = rf_auto r \<and> rf_pairs r' = rf_pairs r"
  by (erule poller_step_cases) (fastforce simp: refresh_inv_def set_poller_def dest: selecting_update)+

lemma refresh_reach_inv: "refresh_reach r \<Longrightarrow> refresh_inv r"
proof (induction rule: refresh_reach.induct)
  case (toggle r r')
  then show ?case using toggle_inv by fastforce
qed (auto simp: new_refresher_def refresh_inv_def refresh_observer_def dest: poller_step_inv)

text \<open>How many steps a goroutine has left once no ticker runs.\<close>

primrec steps_left :: "poller \<Rightarrow> nat" where
  "steps_left AtLoop = 2"
| "steps_left (Selecting g) = 1"
| "steps_left Polling = 3"
| "steps_left Ended = 0"

lemma sum_list_update_less:
  "i < length xs \<Longrightarrow> f p < f (xs ! i) \<Longrightarrow> sum_list (map f (xs[i := p])) < (sum_list (map f xs) :: nat)"
  by (induction xs arbitrary: i) (auto split: nat.splits)

lemma step_measure:
  assumes "poller_step i mv r = Some r'" "refresh_inv r" "\<not> rf_auto r"
  shows "sum_list (map steps_left (rf_pollers r')) < sum_list (map steps_left (rf_pollers r)) \<and> rf_polls r' = rf_polls r"
proof -
  have stopped: "\<not> tk_running (rf_pairs r ! g)" if "i < length (rf_pollers r)" "rf_pollers r ! i = Selecting g" for g
    using assms(2,3) that nth_mem [OF that(1)] by (auto simp: refresh_inv_def list_all_length old_pair_def)
  show ?thesis using assms(1) by (cases rule: poller_step_cases) (auto simp: set_poller_def stopped intro: sum_list_update_less)
qed

lemma steps_measure:
  "poller_steps n r r' \<Longrightarrow> refresh_inv r \<Longrightarrow> \<not> rf_auto r \<Longrightarrow>
   n + sum_list (map steps_left (rf_pollers r')) \<le> sum_list (map steps_left (rf_pollers r))
   \<and> rf_polls r' = rf_polls r \<and> refresh_inv r' \<and> \<not> rf_auto r' \<and> rf_pairs r' = rf_pairs r"
proof (induction rule: poller_steps.induct)
  case (more i mv r r1 n r2)
  then show ?case using step_measure [OF more.hyps(1)] poller_step_inv [OF more.hyps(1)] by fastforce
qed simp

lemma steps_left_bound: "sum_list (map steps_left ps) \<le> 3 * length ps"
proof (induction ps)
  case (Cons p ps)
  then show ?case by (cases p) auto
qed simp

lemma stuck_ended:
  assumes "refresh_inv r" "\<not> rf_auto r" "\<forall>i mv. poller_step i mv r = None"
  shows "live r = 0"
proof (rule ccontr)
  assume "live r \<noteq> 0"
  then obtain i where i: "i < length (rf_pollers r)" "rf_pollers r ! i \<noteq> Ended"
    by (auto simp: live_def filter_empty_conv in_set_conv_nth)
  then have "\<exists>mv. poller_step i mv r \<noteq> None"
  proof (cases "rf_pollers r ! i")
    case (Selecting g)
    then have "g < length (rf_pairs r)" using assms(1) i(1) nth_mem [OF i(1)] by (auto simp: refresh_inv_def)
    then have "tk_closed (rf_pairs r ! g)" using assms(1,2) by (simp add: refresh_inv_def list_all_length old_pair_def)
    then show ?thesis using i(1) Selecting by (intro exI [of _ TakeDone]) (simp add: poller_step_def)
  next
    case AtLoop
    then show ?thesis using i(1) by (intro exI [of _ EvalSelect]) (simp add: poller_step_def)
  next
    case Polling
    then show ?thesis using i(1) by (intro exI [of _ PollReturns]) (simp add: poller_step_def)
  qed simp
  then show False using assms(3) by simp
qed

section \<open>Properties\<close>


text \<open>One goroutine that polls while the box is cleared: it returns, sees the closed channel and ends.\<close>

definition cleared_while_polling :: refresher where
  "cleared_while_polling =
     \<lparr>rf_auto = False, rf_pairs = [\<lparr>tk_running = False, tk_closed = True\<rparr>], rf_pollers = [Polling], rf_polls = 2\<rparr>"

lemma cleared_reach: "refresh_reach cleared_while_polling"
proof -
  note defs = new_refresher_def autoRefreshCheck_def refresh_on_def refresh_off_def poller_step_def set_poller_def
  let ?on = "\<lambda>p n. \<lparr>rf_auto = True, rf_pairs = [\<lparr>tk_running = True, tk_closed = False\<rparr>], rf_pollers = [p], rf_polls = n\<rparr>"
  have "refresh_reach (?on AtLoop 1)" by (rule refresh_reach.toggle [OF refresh_reach.init]) (simp add: defs)
  then have "refresh_reach (?on (Selecting 0) 1)" by (rule refresh_reach.step [where i = 0 and mv = EvalSelect]) (simp add: defs)
  then have "refresh_reach (?on Polling 2)" by (rule refresh_reach.step [where i = 0 and mv = TakeTick]) (simp add: defs)
  then show ?thesis by (rule refresh_reach.toggle) (simp add: defs cleared_while_polling_def)
qed


end
