(* ===== verification/Gui_Shell.thy ===== *)
theory Gui_Shell
  imports Gui_Refresh Service_Os
begin

text \<open>
  The frame of the graphical interface (\<^verbatim>\<open>gui/app.go\<close>, \<^verbatim>\<open>gui/systray.go\<close>, \<^verbatim>\<open>gui/status_tab.go\<close> and
  the initial values of the tabs for bridges, proxy, relays and settings): the tabs and the
  window, the tray menu, the observers that \<^verbatim>\<open>App.Run\<close> registers with the engine, and the rows of
  the lists. The toolkit is an argument where it decides whether a callback runs.
\<close>

section \<open>Window and tabs\<close>

definition tab_titles :: "goos \<Rightarrow> bool \<Rightarrow> Config \<Rightarrow> string list" where
  "tab_titles os browser cfg =
     [''Status'', ''Bridges'', ''Proxy'', ''Relays'', ''Circuits'', ''Settings'', ''Logs'']
     @ (if bw_Enabled (Browser cfg) \<and> browser then [''Browser''] else [])
     @ (if has_service_tab os then [''Service''] else [])"

text \<open>The stored size of the window is used when both parts are positive.\<close>

type_synonym size = "rat \<times> rat"

definition window_size :: "(string \<Rightarrow> rat option) \<Rightarrow> size" where
  "window_size prefs =
     (let w = (case prefs ''window.width'' of Some w \<Rightarrow> w | None \<Rightarrow> 0);
          h = (case prefs ''window.height'' of Some h \<Rightarrow> h | None \<Rightarrow> 0)
      in if w > 0 \<and> h > 0 then (w, h) else (640, 480))"

definition close_intercept :: "size \<Rightarrow> (string \<Rightarrow> rat option) \<Rightarrow> (string \<Rightarrow> rat option) \<times> bool" where
  "close_intercept sz prefs = (prefs(''window.width'' \<mapsto> fst sz, ''window.height'' \<mapsto> snd sz), False)"

text \<open>The button \<^verbatim>\<open>View Logs\<close> selects the first tab with this title.\<close>

fun tab_index :: "string \<Rightarrow> string list \<Rightarrow> nat option" where
  "tab_index t [] = None"
| "tab_index t (x # xs) = (if x = t then Some 0 else map_option Suc (tab_index t xs))"

definition view_logs :: "string list \<Rightarrow> nat \<Rightarrow> nat" where
  "view_logs titles selected = (case tab_index ''Logs'' titles of Some i \<Rightarrow> i | None \<Rightarrow> selected)"

definition settings_title :: "bool \<Rightarrow> string" where
  "settings_title dirty = (if dirty then ''Settings *'' else ''Settings'')"

section \<open>Tray\<close>

datatype tray_action = NoAction | ShowWindow | StopAction | StartAction | RenewIdentity | QuitAction

datatype tray_entry = TrayItem string bool tray_action | TraySeparator

text \<open>A menu item with its text, whether it is enabled, and what it does.\<close>

definition buildTrayMenu :: "State \<Rightarrow> runner \<Rightarrow> tray_entry list" where
  "buildTrayMenu st a =
     [TrayItem (''TorVM: '' @ state_string st) False NoAction, TraySeparator,
      TrayItem ''Show Window'' True ShowWindow,
      (case tray_toggle_item st a of
         StopItem \<Rightarrow> TrayItem ''Stop TorVM'' True StopAction
       | BusyItem \<Rightarrow> TrayItem ''TorVM Busy...'' False NoAction
       | StartItem \<Rightarrow> TrayItem ''Start TorVM'' True StartAction),
      TrayItem ''New Identity'' (st = StateRunning) RenewIdentity, TraySeparator, TrayItem ''Quit'' True QuitAction]"

text \<open>What the interface shows of the engine; there is a tray on a desktop only.\<close>

record shell =
  sh_svc :: svc_gui
  sh_menu :: "tray_entry list option"
  sh_failed :: nat

definition refreshTrayMenu :: "bool \<Rightarrow> State \<Rightarrow> runner \<Rightarrow> shell \<Rightarrow> shell" where
  "refreshTrayMenu desktop st a g = (if desktop then g\<lparr>sh_menu := Some (buildTrayMenu st a)\<rparr> else g)"

definition new_shell :: "bool \<Rightarrow> State \<Rightarrow> runner \<Rightarrow> shell" where
  "new_shell desktop st a = refreshTrayMenu desktop st a \<lparr>sh_svc = new_svc_gui a, sh_menu = None, sh_failed = 0\<rparr>"

text \<open>The observer that \<^verbatim>\<open>App.Run\<close> registers; when it is called the engine is in the state \<open>to\<close>, and
  \<open>a\<close> is the application at this moment. \<open>sh_failed\<close> counts the error dialogs.\<close>

definition app_observer :: "bool \<Rightarrow> State \<Rightarrow> runner \<Rightarrow> shell \<Rightarrow> shell" where
  "app_observer desktop to a g =
     (let g1 = refreshTrayMenu desktop to a (g\<lparr>sh_svc := updateStatus to (sh_svc g)\<rparr>) in
      if to = StateFailed then g1\<lparr>sh_failed := sh_failed g1 + 1\<rparr> else g1)"

text \<open>The observer on the transitions of an engine, each with the application at its moment.\<close>

fun feed_shell :: "bool \<Rightarrow> ((State \<times> State) \<times> runner) list \<Rightarrow> shell \<Rightarrow> shell" where
  "feed_shell desktop [] g = g"
| "feed_shell desktop (((frm, to), a) # ts) g = feed_shell desktop ts (app_observer desktop to a g)"

section \<open>Status tab\<close>

definition status_info :: "Config \<Rightarrow> string list" where
  "status_info cfg =
     [''Acceleration: '' @ Accel cfg, ''VM CPUs: '' @ itoa (VMCPUs cfg), ''VM Memory: '' @ itoa (VMMemoryMB cfg) @ '' MB'',
      ''Host IP: '' @ HostIP cfg, ''VM IP: '' @ VMIP cfg]"

text \<open>The bar, from 0 to 100, and its text, as the observer of the bootstrap sets them.\<close>

definition bootstrap_observer :: "int \<Rightarrow> string \<Rightarrow> int \<times> string \<Rightarrow> int \<times> string" where
  "bootstrap_observer progress summary bar = (progress, summary)"

text \<open>The poller of the service: it ends when the application leaves the service mode.\<close>

fun service_ticks :: "launchd_status list \<Rightarrow> svc_gui \<Rightarrow> svc_gui" where
  "service_ticks [] g = g"
| "service_ticks (st # sts) g =
     (if \<not> rc_serviceMode (sg_runner g) then g else service_ticks sts (pollServiceStatus st g))"

definition status_tab :: "launchd_status \<Rightarrow> svc_gui \<Rightarrow> svc_gui" where
  "status_tab st g = (if rc_serviceMode (sg_runner g) then pollServiceStatus st g else g)"

section \<open>Building the configuration tabs\<close>

text \<open>
  \<^verbatim>\<open>Select.SetSelected\<close> of the toolkit: \<open>calls options text\<close> tells whether it selects the text and
  calls the callback, which it documents to do exactly for one of the options.
\<close>

type_synonym selects = "string list \<Rightarrow> string \<Rightarrow> bool"

definition selects_options :: "selects \<Rightarrow> bool" where
  "selects_options sel \<longleftrightarrow> (\<forall>options text. sel options text = (text \<in> set options))"

definition bridges_tab :: "selects \<Rightarrow> ('w, 's, 'c) App \<Rightarrow> ('w, 's, 'c) App" where
  "bridges_tab sel a =
     (let t = br_Transport (Bridge (app_config a)); text = (if t \<noteq> [] then t else ''none'') in
      if sel transportOptions text then upd_bridge (\<lambda>r. r\<lparr>br_Transport := text\<rparr>) a else a)"

definition bridge_entry :: "Config \<Rightarrow> string" where
  "bridge_entry cfg = join [NL] (elems (br_Bridges (Bridge cfg)))"

definition proxy_tab :: "selects \<Rightarrow> ('w, 's, 'c) App \<Rightarrow> ('w, 's, 'c) App" where
  "proxy_tab sel a =
     (let t = px_Type (Proxy (app_config a)); text = (if t = [] then ''None'' else t) in
      if sel proxyOptions text then proxy_type_selected text a else a)"

text \<open>Whether the fields for the address and the credentials are shown.\<close>

definition proxy_fields_shown :: "Config \<Rightarrow> bool" where
  "proxy_fields_shown cfg \<longleftrightarrow> px_Type (Proxy cfg) \<noteq> []"

definition mem_slider :: "Config \<Rightarrow> (int \<times> int \<times> int) \<times> int \<times> string" where
  "mem_slider cfg = ((64, 512, 16), VMMemoryMB cfg, ''VM Memory: '' @ itoa (VMMemoryMB cfg) @ '' MB'')"

definition cpu_slider :: "Config \<Rightarrow> (int \<times> int \<times> int) \<times> int \<times> string" where
  "cpu_slider cfg = ((1, 8, 1), VMCPUs cfg, ''VM CPUs: '' @ itoa (VMCPUs cfg))"

definition socks_entry :: "Config \<Rightarrow> string" where
  "socks_entry cfg = itoa (SOCKSPort cfg)"

text \<open>\<^verbatim>\<open>App.Run\<close> builds the tabs in their order; of these two change the configuration.\<close>

definition build_tabs :: "selects \<Rightarrow> ('w, 's, 'c) App \<Rightarrow> ('w, 's, 'c) App" where
  "build_tabs sel a = proxy_tab sel (bridges_tab sel a)"

section \<open>Relays tab\<close>

definition exclude_row :: "slice \<Rightarrow> nat \<Rightarrow> string" where
  "exclude_row xs i = formatExcludeEntry (if i < length (elems xs) then elems xs ! i else [])"

definition empty_relay :: relay where
  "empty_relay = \<lparr>ri_Fingerprint = [], ri_Nickname = [], ri_CountryCode = [], ri_Latitude = 0, ri_Longitude = 0, ri_Role = []\<rparr>"

definition active_row :: "relay list \<Rightarrow> nat \<Rightarrow> string" where
  "active_row rs i = relay_label (if i < length rs then rs ! i else empty_relay)"

datatype fetch_result = FetchDialog dialog | Fetched "relay list"

text \<open>\<open>resolve\<close> is the control connection and \<open>circs\<close> what \<^verbatim>\<open>GetCircuits\<close> answers.\<close>

definition fetch_pressed :: "resolver \<Rightarrow> State \<Rightarrow> CircuitInfo list res outcome \<Rightarrow> fetch_result outcome" where
  "fetch_pressed resolve st circs =
     (case resolve of
        Some f \<Rightarrow>
          (if st \<noteq> StateRunning then Ret (FetchDialog (ShowInformation ''Not Connected'' ''TorVM must be running to fetch active relays.''))
           else case circs of
             Panic m \<Rightarrow> Panic m
           | Ret (Inl err) \<Rightarrow> Ret (FetchDialog (ShowError err))
           | Ret (Inr cs) \<Rightarrow> Ret (Fetched (fetch_relays f cs [])))
      | None \<Rightarrow> Ret (FetchDialog (ShowInformation ''Not Connected'' ''TorVM must be running to fetch active relays.'')))"

section \<open>Lemmas\<close>

lemma chain_targets: "chain a ts b \<Longrightarrow> t \<in> set ts \<Longrightarrow> snd t \<noteq> StateFailed"
  by (induction rule: chain.induct) (auto simp: edge_simps elim: next_state.elims)

lemma chain_last: "chain a ts b \<Longrightarrow> (if ts = [] then a else snd (last ts)) = b"
  by (induction rule: chain.induct) auto

text \<open>What is shown after some transitions: the last one's state.\<close>

lemma feed_shell_snoc:
  "feed_shell desktop (ts @ [((frm, to), a)]) g = app_observer desktop to a (feed_shell desktop ts g)"
  by (induction desktop ts g rule: feed_shell.induct) auto

definition shell_shows :: "bool \<Rightarrow> State \<Rightarrow> runner \<Rightarrow> shell \<Rightarrow> bool" where
  "shell_shows desktop st a g \<longleftrightarrow>
     sg_light (sh_svc g) = st \<and> sg_stateLabel (sh_svc g) = Description st
     \<and> (desktop \<longrightarrow> sh_menu g = Some (buildTrayMenu st a))"

lemma observer_shows: "shell_shows desktop to a (app_observer desktop to a g)"
  by (simp add: shell_shows_def app_observer_def refreshTrayMenu_def updateStatus_def Let_def)

lemma feed_no_dialog:
  "\<forall>t \<in> set ts. snd (fst t) \<noteq> StateFailed \<Longrightarrow> sh_failed (feed_shell desktop ts g) = sh_failed g"
  by (induction desktop ts g rule: feed_shell.induct) (auto simp: app_observer_def refreshTrayMenu_def Let_def)

lemma upd_cfg_config: "ap_cfg a < length (ap_store a) \<Longrightarrow> app_config (upd_cfg f a) = f (app_config a)"
  by (simp add: upd_cfg_def app_config_def)

lemma bridges_tab_new:
  assumes "selects_options sel" "br_Transport (Bridge cfg) = []"
  shows "bridges_tab sel (NewApp cfg s path) = NewApp (cfg\<lparr>Bridge := (Bridge cfg)\<lparr>br_Transport := ''none''\<rparr>\<rparr>) s path"
  using assms by (simp add: bridges_tab_def selects_options_def transportOptions_def NewApp_def app_config_def upd_bridge_def
    upd_cfg_def settings_of_def)

lemma proxy_tab_new:
  assumes "selects_options sel" "px_Type (Proxy cfg) = []"
  shows "proxy_tab sel (NewApp cfg s path) = NewApp cfg s path"
  using assms by (simp add: proxy_tab_def selects_options_def proxyOptions_def NewApp_def app_config_def proxy_type_selected_def
    upd_proxy_def upd_cfg_def)

section \<open>Properties\<close>



text \<open>
  Opening the interface changes the configuration. With a toolkit that calls back for the
  options it offers, building the tabs writes the transport \<^verbatim>\<open>none\<close> into a configuration that
  names none. The engine holds the same configuration, so when the watcher then reports the
  unchanged file, the engine finds the bridges changed and reloads them.
\<close>

theorem opening_gui_changes_bridges:
  assumes "selects_options sel" "br_Transport (Bridge cfg) = []" "px_Type (Proxy cfg) = []"
  shows "Bridge (app_config (build_tabs sel (NewApp cfg s path))) = (Bridge cfg)\<lparr>br_Transport := ''none''\<rparr>
    \<and> HasChanges (Diff (config (engine_of (build_tabs sel (NewApp cfg s path)))) cfg)
    \<and> HotReloadable (Diff (config (engine_of (build_tabs sel (NewApp cfg s path)))) cfg) = [''Bridge (bridge)'']
    \<and> RestartRequired (Diff (config (engine_of (build_tabs sel (NewApp cfg s path)))) cfg) = []"
proof -
  let ?cfg = "cfg\<lparr>Bridge := (Bridge cfg)\<lparr>br_Transport := ''none''\<rparr>\<rparr>"
  have b: "build_tabs sel (NewApp cfg s path) = NewApp ?cfg s path"
    using bridges_tab_new [OF assms(1,2), of s path] proxy_tab_new [OF assms(1), of ?cfg s path] assms(3) by (simp add: build_tabs_def)
  have c: "app_config (NewApp ?cfg s path) = ?cfg" "config (engine_of (NewApp ?cfg s path)) = ?cfg"
    by (simp_all add: NewApp_def app_config_def engine_of_def)
  have "br_Transport ((Bridge cfg)\<lparr>br_Transport := ''none''\<rparr>) \<noteq> br_Transport (Bridge cfg)" using assms(2) by simp
  then have "(Bridge cfg)\<lparr>br_Transport := ''none''\<rparr> \<noteq> Bridge cfg" by metis
  then show ?thesis unfolding b c
    by (simp add: HasChanges_def Diff_eq config_fields_def changed_def hot_def hotReloadableFields_def eq_on_def field_label_def)
qed

text \<open>A new configuration names no transport and no proxy.\<close>

theorem opening_gui_changes_bridges_witness:
  "HotReloadable (Diff (config (engine_of (build_tabs (\<lambda>os t. t \<in> set os) (NewApp (DefaultConfig Linux) calm_engine ''c.json''))))
     (DefaultConfig Linux)) = [''Bridge (bridge)'']"
proof -
  have "selects_options (\<lambda>os t. t \<in> set os)" by (simp add: selects_options_def)
  from opening_gui_changes_bridges [OF this, of "DefaultConfig Linux" calm_engine "''c.json''"] show ?thesis
    by (simp add: DefaultConfig_def)
qed

end
