(* ===== verification/Gui_Browser.thy ===== *)
theory Gui_Browser
  imports Browser_Engine Lifecycle
begin

text \<open>
  The browser tab of the graphical interface (\<^verbatim>\<open>gui/browser_tab.go\<close>): its two buttons, the labels it
  keeps about the security of the browser VM and the list of events it shows.
\<close>

section \<open>Definitions\<close>

text \<open>The button starts the engine when it is idle and the Tor VM runs.\<close>

definition launchBrowser :: "State \<Rightarrow> BrowserEngine \<Rightarrow> BrowserEngine" where
  "launchBrowser tor e =
     (if en_state e \<noteq> BrowserIdle then e else if tor \<noteq> StateRunning then e else browser_Start e)"

definition stopBrowser :: "BrowserEngine \<Rightarrow> BrowserEngine" where
  "stopBrowser e = browser_Stop e"

definition browserStateToLifecycle :: "BrowserState \<Rightarrow> State" where
  "browserStateToLifecycle bs =
     (case bs of BrowserRunning \<Rightarrow> StateRunning | BrowserCompromised \<Rightarrow> StateFailed | BrowserIdle \<Rightarrow> StateInit
      | _ \<Rightarrow> StateWaitBootstrap)"

record browser_tab =
  bt_state :: string
  bt_canary :: string
  bt_honey :: string
  bt_seccomp :: string
  bt_integrity :: string
  bt_last :: string
  bt_events :: "SecurityEvent list"
  bt_alerts :: "(string \<times> string) list"

definition new_browser_tab :: browser_tab where
  "new_browser_tab = \<lparr>bt_state = ''Idle'', bt_canary = ''Canaries: --'', bt_honey = ''Honey Tokens: --'',
     bt_seccomp = ''Seccomp: --'', bt_integrity = ''File Integrity: --'', bt_last = ''Last Event: none'', bt_events = [], bt_alerts = []\<rparr>"

definition tab_state_changed :: "BrowserState \<Rightarrow> browser_tab \<Rightarrow> browser_tab" where
  "tab_state_changed to t0 =
     (let t = t0\<lparr>bt_state := browser_state_string to\<rparr> in
      case to of
        BrowserRunning \<Rightarrow>
          t\<lparr>bt_canary := ''Canaries: OK'', bt_honey := ''Honey Tokens: Untouched'', bt_seccomp := ''Seccomp: Active'',
            bt_integrity := ''File Integrity: OK''\<rparr>
      | BrowserIdle \<Rightarrow>
          t\<lparr>bt_canary := ''Canaries: --'', bt_honey := ''Honey Tokens: --'', bt_seccomp := ''Seccomp: --'',
            bt_integrity := ''File Integrity: --''\<rparr>
      | BrowserCompromised \<Rightarrow> t\<lparr>bt_last := ''COMPROMISE DETECTED - see event log''\<rparr>
      | _ \<Rightarrow> t)"

text \<open>\<open>fmt\<close> formats the time of an event.\<close>

definition tab_event :: "(int \<Rightarrow> string) \<Rightarrow> SecurityEvent \<Rightarrow> browser_tab \<Rightarrow> browser_tab" where
  "tab_event fmt ev t0 =
     (let evs = bt_events t0 @ [ev];
          t1 = t0\<lparr>bt_events := (if length evs > 200 then drop (length evs - 200) evs else evs),
                  bt_last := ''Last Event: ['' @ fmt (ev_Timestamp ev) @ ''] '' @ ev_Type ev\<rparr>;
          t2 = (if ev_Type ev = ''canary_violation'' then t1\<lparr>bt_canary := ''Canaries: VIOLATION DETECTED''\<rparr>
                else if ev_Type ev = ''honey_token_access'' then t1\<lparr>bt_honey := ''Honey Tokens: ACCESSED - '' @ ev_Detail ev\<rparr>
                else if ev_Type ev = ''seccomp_kill''
                  then t1\<lparr>bt_seccomp := ''Seccomp: Violation PID '' @ itoa (ev_PID ev) @ '' killed''\<rparr>
                else if ev_Type ev = ''file_tamper'' then t1\<lparr>bt_integrity := ''File Integrity: TAMPERED - '' @ ev_Detail ev\<rparr>
                else t1)
      in if IsCritical ev
         then t2\<lparr>bt_alerts := bt_alerts t2 @ [(''Security Alert'', ''Browser VM security event: '' @ ev_Type ev @ [NL] @ ev_Detail ev)]\<rparr>
         else t2)"

section \<open>Lemmas\<close>

text \<open>The second press comes before the goroutine of the first has changed the state.\<close>

definition pressed_twice :: BrowserEngine where
  "pressed_twice = launchBrowser StateRunning (launchBrowser StateRunning NewBrowserEngine)"

definition twice_actions :: "action list" where
  "twice_actions = [RunStep 0 Tau, RunStep 0 (TorRunning True), RunStep 0 Tau, RunStep 0 (Host sample_env),
     RunStep 0 Tau, RunStep 0 Tau, RunStep 0 Tau,
     RunStep 1 Tau, RunStep 1 (TorRunning True), RunStep 1 Tau, RunStep 1 (Host sample_env), RunStep 1 Tau]"

lemma twice_run:
  assumes "\<forall>i. \<not> in_running i \<longrightarrow> Browser_Start Linux (DefaultConfig Linux) sample_env i =
     Ret (None, fresh_channel (launch q args (i\<lparr>in_QEMUPath := q\<rparr>)))"
  shows "\<exists>e. acts Linux (DefaultConfig Linux) json twice_actions pressed_twice = Some e
    \<and> en_state e = BrowserIdle \<and> en_runs e = [RWait 1, RReturned (Some (wrap ''browser VM start'' (ErrMsg ''browser VM already running'')))]
    \<and> en_ctxs e = [False, True] \<and> en_cancel e = Some 1
    \<and> in_procs (en_vm e) = [\<lparr>pr_path = q, pr_args = args, pr_status = Alive, pr_waiter = Waiting\<rparr>]"
  using assms
  by (simp add: twice_actions_def pressed_twice_def launchBrowser_def NewBrowserEngine_def NewMonitor_def NewBrowserInstance_def
      blank_instance_def step_defs fun_upd_idem Browser_Start_running cancel_ctx_def)

section \<open>Properties\<close>

text \<open>
  Pressing Launch twice leaves a browser that cannot be stopped. The button looks at the state
  of the engine, which changes only once the goroutine of the first press runs, so both presses
  start a run. On a host on which every call succeeds, the first run launches the VM; the second
  finds it running, sets the state back to idle and returns. From then on the tab shows an idle
  browser while its VM is alive, and Stop has no effect: it cancels the context of the run that is
  over, while the one that waits for the VM keeps its own.
\<close>

theorem double_launch_unstoppable:
  "\<exists>e. be_reach Linux (DefaultConfig Linux) json pressed_twice e
     \<and> en_state e = BrowserIdle \<and> alive (en_vm e) 0 \<and> en_runs e ! 0 = RWait 1
     \<and> \<not> en_ctxs (stopBrowser e) ! 0 \<and> en_vm (stopBrowser e) = en_vm e \<and> en_runs (stopBrowser e) = en_runs e"
proof -
  obtain q args where start: "\<forall>i. \<not> in_running i \<longrightarrow> Browser_Start Linux (DefaultConfig Linux) sample_env i =
     Ret (None, fresh_channel (launch q args (i\<lparr>in_QEMUPath := q\<rparr>)))"
    using sample_browser_start by blast
  obtain e where e: "acts Linux (DefaultConfig Linux) json twice_actions pressed_twice = Some e"
    "en_state e = BrowserIdle" "en_runs e = [RWait 1, RReturned (Some (wrap ''browser VM start'' (ErrMsg ''browser VM already running'')))]"
    "en_ctxs e = [False, True]" "en_cancel e = Some 1"
    "in_procs (en_vm e) = [\<lparr>pr_path = q, pr_args = args, pr_status = Alive, pr_waiter = Waiting\<rparr>]"
    using twice_run [OF start, of json] by blast
  have "be_reach Linux (DefaultConfig Linux) json pressed_twice e" using reach_acts [OF e(1)] be_reach.refl by blast
  then show ?thesis using e(2-6)
    by (intro exI [of _ e]) (simp add: stopBrowser_def browser_Stop_def cancel_ctx_def alive_def)
qed

end
