(* ===== verification/Logging.thy ===== *)
theory Logging
  imports Go_Prelude
begin

text \<open>
  Package \<^verbatim>\<open>logging\<close>: the logger, the ring buffer of recent lines and the writer that turns
  log lines into JSON. Both writers split what they are given into lines and keep the
  incomplete one, which the locale \<open>line_writer\<close> states as a contract: what a sequence of
  writes does depends on the bytes only, not on how they are cut into writes.
\<close>

section \<open>Contract of a line writer\<close>

locale line_writer =
  fixes feed :: "string \<Rightarrow> 's \<Rightarrow> 's \<times> string list"
    and inv :: "'s \<Rightarrow> bool"
  assumes feed_inv: "inv s \<Longrightarrow> inv (fst (feed p s))"
    and feed_append: "inv s \<Longrightarrow> feed (p @ q) s =
          (fst (feed q (fst (feed p s))), snd (feed p s) @ snd (feed q (fst (feed p s))))"
    and feed_empty: "inv s \<Longrightarrow> feed [] s = (s, [])"
begin

fun feed_all :: "string list \<Rightarrow> 's \<Rightarrow> 's \<times> string list" where
  "feed_all [] s = (s, [])"
| "feed_all (p # ps) s =
     (case feed p s of (s', ls) \<Rightarrow> (case feed_all ps s' of (s'', ls') \<Rightarrow> (s'', ls @ ls')))"

lemma feed_all_concat: "inv s \<Longrightarrow> feed_all ps s = feed (concat ps) s"
proof (induction ps arbitrary: s)
  case (Cons p ps)
  have "feed_all ps (fst (feed p s)) = feed (concat ps) (fst (feed p s))"
    by (rule Cons.IH) (rule feed_inv [OF Cons.prems])
  with Cons.prems show ?case by (simp add: feed_append case_prod_unfold)
qed (simp add: feed_empty)

lemma chunking_irrelevant:
  "inv s \<Longrightarrow> concat ps = concat qs \<Longrightarrow> feed_all ps s = feed_all qs s"
  by (simp add: feed_all_concat)

end

section \<open>Ring buffer\<close>

record RingWriter =
  ring_lines :: "string list"
  capacity :: nat
  pos :: nat
  full :: bool
  partial :: string

definition NewRingWriter :: "nat \<Rightarrow> RingWriter" where
  "NewRingWriter cap =
     \<lparr>ring_lines = replicate cap [], capacity = cap, pos = 0, full = False, partial = []\<rparr>"

text \<open>Storing a line; \<^verbatim>\<open>r.lines[r.pos]\<close> panics when the index is out of range.\<close>

definition put_line :: "string \<Rightarrow> RingWriter \<Rightarrow> RingWriter outcome" where
  "put_line line r =
     (if pos r < length (ring_lines r) then
        (let r' = r\<lparr>ring_lines := (ring_lines r)[pos r := line], pos := Suc (pos r)\<rparr>
         in Ret (if pos r' \<ge> capacity r' then r'\<lparr>pos := 0, full := True\<rparr> else r'))
      else Panic ''index out of range'')"

function write_loop :: "string \<Rightarrow> RingWriter \<Rightarrow> string list \<Rightarrow> (RingWriter \<times> string list) outcome" where
  "write_loop data r newLines =
     (case index_byte data NL of
        None \<Rightarrow> Ret (r\<lparr>partial := data\<rparr>, newLines)
      | Some i \<Rightarrow>
          (case put_line (take i data) r of
             Panic m \<Rightarrow> Panic m
           | Ret r' \<Rightarrow> write_loop (drop (Suc i) data) r' (newLines @ [take i data])))"
  by pat_completeness auto
termination
  by (relation "measure (\<lambda>(data, r, ls). length data)")
     (auto dest!: index_byte_Some)

declare write_loop.simps [simp del]

text \<open>\<^verbatim>\<open>RingWriter.Write\<close>: the new state and the lines handed to the callback, if one is set.\<close>

definition ring_Write :: "string \<Rightarrow> RingWriter \<Rightarrow> (RingWriter \<times> string list) outcome" where
  "ring_Write p r = write_loop (partial r @ p) (r\<lparr>partial := []\<rparr>) []"

definition Lines :: "RingWriter \<Rightarrow> string list" where
  "Lines r =
     (if \<not> full r then take (pos r) (ring_lines r)
      else drop (pos r) (ring_lines r) @ take (pos r) (ring_lines r))"

section \<open>JSON lines\<close>

record jsonEntry =
  je_Ts :: string
  je_Level :: string
  je_Msg :: string

text \<open>\<^verbatim>\<open>parseLine\<close>; \<open>now\<close> is the formatted current time that the fallback uses.\<close>

definition parseLine :: "string \<Rightarrow> string \<Rightarrow> jsonEntry" where
  "parseLine now l =
     (let line = trim_space l;
          fallback = \<lparr>je_Ts = now, je_Level = ''INFO'', je_Msg = line\<rparr>
      in if length line > 0 \<and> line ! 0 = CHR ''['' then
           (case index_str line '']'' of
              None \<Rightarrow> fallback
            | Some e \<Rightarrow>
                (if e > 0 then
                   (let ts = trim_space (take (e - 1) (drop 1 line));
                        rest = trim_space (drop (e + 1) line)
                    in case index_str rest '': '' of
                         None \<Rightarrow> \<lparr>je_Ts = ts, je_Level = ''INFO'', je_Msg = rest\<rparr>
                       | Some c \<Rightarrow>
                           (if c > 0 then \<lparr>je_Ts = ts, je_Level = take c rest, je_Msg = drop (c + 2) rest\<rparr>
                            else \<lparr>je_Ts = ts, je_Level = ''INFO'', je_Msg = rest\<rparr>))
                 else fallback))
         else fallback)"

text \<open>
  \<^verbatim>\<open>JSONWriter.Write\<close>: \<open>marshal\<close> is \<^verbatim>\<open>json.Marshal\<close> on an entry, \<open>out\<close> the writer behind it,
  on a state \<open>'w\<close>. The state of the writer is its partial line and the state of \<open>out\<close>.
\<close>

function json_loop ::
  "(jsonEntry \<Rightarrow> string res) \<Rightarrow> string \<Rightarrow> (string \<Rightarrow> 'w \<Rightarrow> goerr option \<times> 'w) \<Rightarrow>
   string \<Rightarrow> 'w \<Rightarrow> goerr option \<times> string \<times> 'w" where
  "json_loop marshal now out data w =
     (case index_byte data NL of
        None \<Rightarrow> (None, data, w)
      | Some i \<Rightarrow>
          (case marshal (parseLine now (take i data)) of
             Inl _ \<Rightarrow> json_loop marshal now out (drop (Suc i) data) w
           | Inr b \<Rightarrow>
               (case out (b @ [NL]) w of
                  (Some e, w') \<Rightarrow> (Some e, [], w')
                | (None, w') \<Rightarrow> json_loop marshal now out (drop (Suc i) data) w')))"
  by pat_completeness auto
termination
  by (relation "measure (\<lambda>(marshal, now, out, data, w). length data)")
     (auto dest!: index_byte_Some)

declare json_loop.simps [simp del]

definition json_Write ::
  "(jsonEntry \<Rightarrow> string res) \<Rightarrow> string \<Rightarrow> (string \<Rightarrow> 'w \<Rightarrow> goerr option \<times> 'w) \<Rightarrow>
   string \<Rightarrow> string \<times> 'w \<Rightarrow> goerr option \<times> string \<times> 'w" where
  "json_Write marshal now out p st = json_loop marshal now out (fst st @ p) (snd st)"

section \<open>Logger\<close>

datatype Level = LevelError | LevelInfo | LevelDebug

fun level_value :: "Level \<Rightarrow> nat" where
  "level_value LevelError = 0"
| "level_value LevelInfo = 1"
| "level_value LevelDebug = 2"

fun level_string :: "Level \<Rightarrow> string" where
  "level_string LevelError = ''ERROR''"
| "level_string LevelInfo = ''INFO''"
| "level_string LevelDebug = ''DEBUG''"

text \<open>A logger with its level and, for each writer, the bytes it has been given.\<close>

record Logger =
  log_level :: Level
  log_writers :: "string list"

definition new_level :: "bool \<Rightarrow> Level" where
  "new_level verbose = (if verbose then LevelDebug else LevelInfo)"

text \<open>\<^verbatim>\<open>NewLogger\<close>: stderr, and the log file when one is named; opening it can fail.\<close>

definition NewLogger :: "string \<Rightarrow> bool \<Rightarrow> goerr option \<Rightarrow> Logger res" where
  "NewLogger LogFile verbose open_err =
     (if LogFile \<noteq> [] then
        (case open_err of
           Some e \<Rightarrow> Inl (wrap ''open log file'' e)
         | None \<Rightarrow> Inr \<lparr>log_level = new_level verbose, log_writers = [[], []]\<rparr>)
      else Inr \<lparr>log_level = new_level verbose, log_writers = [[]]\<rparr>)"

definition log_line :: "string \<Rightarrow> Level \<Rightarrow> string \<Rightarrow> string" where
  "log_line now lvl msg = ''['' @ now @ '' UTC] '' @ level_string lvl @ '': '' @ msg @ [NL]"

definition logger_log :: "string \<Rightarrow> Level \<Rightarrow> string \<Rightarrow> Logger \<Rightarrow> Logger" where
  "logger_log now lvl msg l =
     (if level_value lvl > level_value (log_level l) then l
      else l\<lparr>log_writers := map (\<lambda>w. w @ log_line now lvl msg) (log_writers l)\<rparr>)"

definition logger_Error :: "string \<Rightarrow> string \<Rightarrow> Logger \<Rightarrow> Logger" where
  "logger_Error now = logger_log now LevelError"

definition logger_Info :: "string \<Rightarrow> string \<Rightarrow> Logger \<Rightarrow> Logger" where
  "logger_Info now = logger_log now LevelInfo"

definition logger_Debug :: "string \<Rightarrow> string \<Rightarrow> Logger \<Rightarrow> Logger" where
  "logger_Debug now = logger_log now LevelDebug"

definition AddWriter :: "Logger \<Rightarrow> Logger" where
  "AddWriter l = l\<lparr>log_writers := log_writers l @ [[]]\<rparr>"

definition SetVerbose :: "bool \<Rightarrow> Logger \<Rightarrow> Logger" where
  "SetVerbose verbose l = l\<lparr>log_level := new_level verbose\<rparr>"

section \<open>Lemmas\<close>

text \<open>The complete lines of a text and what follows the last line feed.\<close>

definition whole_lines :: "string \<Rightarrow> string list" where
  "whole_lines d = butlast (split_on NL d)"

definition tail_part :: "string \<Rightarrow> string" where
  "tail_part d = last (split_on NL d)"

lemma lines_none: "NL \<notin> set d \<Longrightarrow> whole_lines d = [] \<and> tail_part d = d"
  by (simp add: whole_lines_def tail_part_def split_on_free)

lemma lines_some:
  assumes "index_byte d NL = Some i"
  shows "whole_lines d = take i d # whole_lines (drop (Suc i) d)" "tail_part d = tail_part (drop (Suc i) d)"
proof -
  have i: "i < length d" "d ! i = NL" "NL \<notin> set (take i d)"
    using index_byte_Some [OF assms] by auto
  then have "d = take i d @ NL # drop (Suc i) d" using id_take_nth_drop [of i d] by simp
  then have "split_on NL d = take i d # split_on NL (drop (Suc i) d)"
    using split_on_append [OF i(3), of "drop (Suc i) d"] by simp
  then show "whole_lines d = take i d # whole_lines (drop (Suc i) d)" "tail_part d = tail_part (drop (Suc i) d)"
    by (simp_all add: whole_lines_def tail_part_def)
qed

lemma split_on_append_last:
  "split_on c (a @ b) = butlast (split_on c a) @ split_on c (last (split_on c a) @ b)"
proof (induction a)
  case (Cons x a)
  obtain h t where ht: "split_on c a = h # t" by (cases "split_on c a") auto
  show ?case
  proof (cases "x = c")
    case False
    obtain h' t' where ht': "split_on c (a @ b) = h' # t'" by (cases "split_on c (a @ b)") auto
    show ?thesis
      using Cons.IH ht ht' False by (cases t) (auto split: list.splits)
  qed (use Cons ht in simp)
qed simp

lemma lines_append:
  "whole_lines (a @ b) = whole_lines a @ whole_lines (tail_part a @ b)"
  "tail_part (a @ b) = tail_part (tail_part a @ b)"
  using split_on_append_last [of NL a b] by (simp_all add: whole_lines_def tail_part_def butlast_append)

text \<open>The last lines that fit.\<close>

definition lastn :: "nat \<Rightarrow> 'a list \<Rightarrow> 'a list" where
  "lastn n xs = drop (length xs - n) xs"

lemma lastn_append: "lastn n (lastn n xs @ ys) = lastn n (xs @ ys)"
proof (cases "n \<le> length xs")
  case True
  then have "length xs + length ys - n = (length xs - n) + length ys" by simp
  with True show ?thesis by (auto simp: lastn_def add.commute)
qed (simp add: lastn_def)

text \<open>The representation invariant of the ring.\<close>

definition ring_inv :: "RingWriter \<Rightarrow> bool" where
  "ring_inv r \<longleftrightarrow> 0 < capacity r \<and> length (ring_lines r) = capacity r \<and> pos r < capacity r"

lemma NewRingWriter_inv: "0 < cap \<Longrightarrow> ring_inv (NewRingWriter cap)"
  by (simp add: ring_inv_def NewRingWriter_def)

lemma put_line_ok:
  assumes "ring_inv r"
  shows "\<exists>r'. put_line l r = Ret r' \<and> ring_inv r' \<and> capacity r' = capacity r \<and> partial r' = partial r
    \<and> Lines r' = lastn (capacity r) (Lines r @ [l])"
proof -
  let ?n = "capacity r" and ?p = "pos r" and ?xs = "ring_lines r"
  have p: "?p < ?n" "length ?xs = ?n" using assms by (auto simp: ring_inv_def)
  have tk: "take (Suc ?p) (?xs[?p := l]) = take ?p ?xs @ [l]"
    using p by (simp add: take_Suc_conv_app_nth)
  have dr: "drop (Suc ?p) (?xs[?p := l]) = drop (Suc ?p) ?xs" by simp
  show ?thesis
  proof (cases "Suc ?p \<ge> ?n")
    case True
    with p have n: "?n = Suc ?p" by simp
    have "?xs[?p := l] = take ?p ?xs @ [l]" using tk p n by (metis length_list_update order_refl take_all)
    moreover have "drop ?p ?xs = [?xs ! ?p]" using p n by (simp add: Cons_nth_drop_Suc [symmetric])
    ultimately show ?thesis
      using assms p n by (auto simp: put_line_def Let_def Lines_def ring_inv_def lastn_def)
  next
    case False
    have d: "drop ?p ?xs = ?xs ! ?p # drop (Suc ?p) ?xs" using p by (simp add: Cons_nth_drop_Suc)
    show ?thesis
      using assms p False tk dr d by (auto simp: put_line_def Let_def Lines_def ring_inv_def lastn_def)
  qed
qed

lemma ring_inv_partial [simp]: "ring_inv (r\<lparr>partial := x\<rparr>) = ring_inv r"
  by (simp add: ring_inv_def)

lemma Lines_partial [simp]: "Lines (r\<lparr>partial := x\<rparr>) = Lines r"
  by (simp add: Lines_def)

lemma write_loop_ok:
  "ring_inv r \<Longrightarrow> \<exists>r'. write_loop d r acc = Ret (r', acc @ whole_lines d) \<and> ring_inv r'
     \<and> capacity r' = capacity r \<and> partial r' = tail_part d
     \<and> Lines r' = lastn (capacity r) (Lines r @ whole_lines d)"
proof (induction d r acc rule: write_loop.induct)
  case (1 d r acc)
  show ?case
  proof (cases "index_byte d NL")
    case None
    have len: "length (Lines r) \<le> capacity r" using 1(2) by (auto simp: Lines_def ring_inv_def)
    have "write_loop d r acc = Ret (r\<lparr>partial := d\<rparr>, acc)"
      unfolding write_loop.simps [of d] None by simp
    moreover have "whole_lines d = []" "tail_part d = d" using None lines_none by auto
    ultimately show ?thesis using 1(2) len by (intro exI [of _ "r\<lparr>partial := d\<rparr>"]) (simp add: lastn_def)
  next
    case (Some i)
    obtain r1 where r1: "put_line (take i d) r = Ret r1" "ring_inv r1" "capacity r1 = capacity r"
      "Lines r1 = lastn (capacity r) (Lines r @ [take i d])"
      using put_line_ok [OF 1(2), of "take i d"] by blast
    obtain r' where r': "write_loop (drop (Suc i) d) r1 (acc @ [take i d]) = Ret (r', (acc @ [take i d]) @ whole_lines (drop (Suc i) d))"
      "ring_inv r'" "capacity r' = capacity r1" "partial r' = tail_part (drop (Suc i) d)"
      "Lines r' = lastn (capacity r1) (Lines r1 @ whole_lines (drop (Suc i) d))"
      using 1(1) [OF Some r1(1,2)] by blast
    have "Lines r' = lastn (capacity r) (Lines r @ whole_lines d)"
      using r'(5) r1(3,4) lines_some(1) [OF Some] lastn_append [of "capacity r" "Lines r @ [take i d]"] by simp
    with r' r1 Some lines_some [OF Some] show ?thesis by (simp add: write_loop.simps [of d])
  qed
qed

lemma ring_Write_ok:
  assumes "ring_inv r"
  shows "\<exists>r'. ring_Write p r = Ret (r', whole_lines (partial r @ p)) \<and> ring_inv r'
     \<and> capacity r' = capacity r \<and> partial r' = tail_part (partial r @ p)
     \<and> Lines r' = lastn (capacity r) (Lines r @ whole_lines (partial r @ p))"
  using write_loop_ok [of "r\<lparr>partial := []\<rparr>" "partial r @ p" "[]"] assms by (simp add: ring_Write_def)

text \<open>
  The ring buffer meets the contract through what can be seen of it: its lines, its
  incomplete line and its capacity.
\<close>

definition ring_view :: "RingWriter \<Rightarrow> nat \<times> string list \<times> string" where
  "ring_view r = (capacity r, Lines r, partial r)"

definition view_write :: "string \<Rightarrow> nat \<times> string list \<times> string \<Rightarrow> (nat \<times> string list \<times> string) \<times> string list" where
  "view_write p v =
     (case v of (n, ls, d) \<Rightarrow>
        ((n, lastn n (ls @ whole_lines (d @ p)), tail_part (d @ p)), whole_lines (d @ p)))"

definition view_inv :: "nat \<times> string list \<times> string \<Rightarrow> bool" where
  "view_inv v = (case v of (n, ls, d) \<Rightarrow> length ls \<le> n \<and> NL \<notin> set d)"

lemma tail_part_free: "NL \<notin> set (tail_part d)"
  unfolding tail_part_def by (rule split_on_parts_free [of _ NL d]) simp

interpretation ring: line_writer view_write view_inv
proof
  fix s p
  assume "view_inv s"
  then show "view_inv (fst (view_write p s))"
    using tail_part_free by (auto simp: view_inv_def view_write_def lastn_def split: prod.splits)
next
  fix s p q
  assume "view_inv s"
  obtain n ls d where s: "s = (n, ls, d)" by (cases s) auto
  show "view_write (p @ q) s =
      (fst (view_write q (fst (view_write p s))), snd (view_write p s) @ snd (view_write q (fst (view_write p s))))"
    using lines_append [of "d @ p" q]
      lastn_append [of n "ls @ whole_lines (d @ p)" "whole_lines (tail_part (d @ p) @ q)"]
    by (simp add: s view_write_def)
next
  fix s
  assume "view_inv s"
  then show "view_write [] s = (s, [])"
    using lines_none by (auto simp: view_inv_def view_write_def lastn_def split: prod.splits)
qed

lemma ring_view_write:
  assumes "ring_inv r"
  shows "\<exists>r'. ring_Write p r = Ret (r', snd (view_write p (ring_view r))) \<and> ring_inv r'
     \<and> ring_view r' = fst (view_write p (ring_view r))"
  using ring_Write_ok [OF assms, of p] by (auto simp: ring_view_def view_write_def)

text \<open>A sequence of writes on the ring.\<close>

fun ring_writes :: "string list \<Rightarrow> RingWriter \<Rightarrow> (RingWriter \<times> string list) outcome" where
  "ring_writes [] r = Ret (r, [])"
| "ring_writes (p # ps) r =
     (case ring_Write p r of
        Panic m \<Rightarrow> Panic m
      | Ret (r', ls) \<Rightarrow>
          (case ring_writes ps r' of Panic m \<Rightarrow> Panic m | Ret (r'', ls') \<Rightarrow> Ret (r'', ls @ ls')))"

lemma ring_writes_view:
  "ring_inv r \<Longrightarrow> \<exists>r'. ring_writes ps r = Ret (r', snd (ring.feed_all ps (ring_view r))) \<and> ring_inv r'
     \<and> ring_view r' = fst (ring.feed_all ps (ring_view r))"
proof (induction ps arbitrary: r)
  case (Cons p ps)
  obtain r1 where r1: "ring_Write p r = Ret (r1, snd (view_write p (ring_view r)))" "ring_inv r1"
    "ring_view r1 = fst (view_write p (ring_view r))"
    using ring_view_write [OF Cons.prems, of p] by blast
  obtain r2 where r2: "ring_writes ps r1 = Ret (r2, snd (ring.feed_all ps (ring_view r1)))" "ring_inv r2"
    "ring_view r2 = fst (ring.feed_all ps (ring_view r1))"
    using Cons.IH [OF r1(2)] by blast
  show ?case using r1 r2 by (auto simp: case_prod_unfold)
qed simp

lemma ring_view_inv: "ring_inv r \<Longrightarrow> NL \<notin> set (partial r) \<Longrightarrow> view_inv (ring_view r)"
  by (auto simp: ring_inv_def view_inv_def ring_view_def Lines_def)

subsection \<open>The JSON writer\<close>

text \<open>The objects for the lines that could be marshalled, as they are written.\<close>

definition json_objects :: "(jsonEntry \<Rightarrow> string res) \<Rightarrow> string \<Rightarrow> string list \<Rightarrow> string list" where
  "json_objects marshal now ls =
     List.map_filter (\<lambda>l. case marshal (parseLine now l) of Inl _ \<Rightarrow> None | Inr b \<Rightarrow> Some (b @ [NL])) ls"

abbreviation collect :: "string \<Rightarrow> string list \<Rightarrow> goerr option \<times> string list" where
  "collect \<equiv> (\<lambda>b w. (None, w @ [b]))"

lemma json_loop_collect:
  "json_loop marshal now collect d w = (None, tail_part d, w @ json_objects marshal now (whole_lines d))"
proof (induction marshal now "collect" d w rule: json_loop.induct)
  case (1 marshal now d w)
  show ?case
  proof (cases "index_byte d NL")
    case None
    then have "whole_lines d = []" "tail_part d = d" using lines_none by auto
    then show ?thesis
      unfolding json_loop.simps [of _ _ _ d] None by (simp add: json_objects_def List.map_filter_def)
  next
    case (Some i)
    show ?thesis
      using 1 [OF Some] lines_some [OF Some]
      by (cases "marshal (parseLine now (take i d))")
         (simp_all add: json_loop.simps [of _ _ _ d] Some json_objects_def List.map_filter_def)
  qed
qed

text \<open>The JSON writer in front of a writer that accepts everything.\<close>

definition json_feed :: "(jsonEntry \<Rightarrow> string res) \<Rightarrow> string \<Rightarrow> string \<Rightarrow> string \<Rightarrow> string \<times> string list" where
  "json_feed marshal now p d =
     (case json_Write marshal now collect p (d, []) of (_, d', w) \<Rightarrow> (d', w))"

lemma json_feed_eq:
  "json_feed marshal now p d = (tail_part (d @ p), json_objects marshal now (whole_lines (d @ p)))"
  by (simp add: json_feed_def json_Write_def json_loop_collect)

interpretation json: line_writer "json_feed marshal now" "\<lambda>d. NL \<notin> set d" for marshal now
proof
  show "NL \<notin> set (fst (json_feed marshal now p s))" for p s
    by (simp add: json_feed_eq tail_part_free)
  show "json_feed marshal now (p @ q) s =
      (fst (json_feed marshal now q (fst (json_feed marshal now p s))),
       snd (json_feed marshal now p s) @ snd (json_feed marshal now q (fst (json_feed marshal now p s))))" for p q s
    using lines_append [of "s @ p" q] by (simp add: json_feed_eq json_objects_def List.map_filter_def)
  show "NL \<notin> set s \<Longrightarrow> json_feed marshal now [] s = (s, [])" for s
    using lines_none [of s] by (simp add: json_feed_eq json_objects_def List.map_filter_def)
qed

lemma ring_lines_written:
  assumes "0 < cap"
  shows "\<exists>r. ring_writes ps (NewRingWriter cap) = Ret (r, whole_lines (concat ps))
    \<and> Lines r = lastn cap (whole_lines (concat ps)) \<and> partial r = tail_part (concat ps)"
proof -
  let ?r = "NewRingWriter cap"
  have inv: "ring_inv ?r" "view_inv (ring_view ?r)"
    using assms NewRingWriter_inv ring_view_inv [of ?r] by (auto simp: NewRingWriter_def)
  have v: "ring_view ?r = (cap, [], [])" by (simp add: ring_view_def NewRingWriter_def Lines_def)
  have "ring.feed_all ps (ring_view ?r) = view_write (concat ps) (cap, [], [])"
    using ring.feed_all_concat [OF inv(2), of ps] by (simp add: v)
  with ring_writes_view [OF inv(1), of ps] show ?thesis
    by (auto simp: view_write_def ring_view_def)
qed

section \<open>Properties\<close>

text \<open>
  C28. The ring buffer implements its specification, however the text is cut into writes: after
  any sequence of writes to a new ring of positive capacity, no write has panicked, the
  callback has seen exactly the complete lines of the whole text in order, \<^verbatim>\<open>Lines\<close> returns
  the last of them, as many as the capacity allows, and the text after the last line feed is
  kept for the next write.
\<close>

theorem ring_writer_refines:
  assumes "0 < cap"
  shows "\<exists>r. ring_writes ps (NewRingWriter cap) = Ret (r, whole_lines (concat ps))
    \<and> Lines r = lastn cap (whole_lines (concat ps)) \<and> partial r = tail_part (concat ps)"
  by (rule ring_lines_written [OF assms])

theorem ring_writer_refines_witness:
  "\<exists>r. ring_writes [''a'' @ [NL] @ ''b'', ''c'' @ [NL] @ ''d'' @ [NL] @ ''e''] (NewRingWriter 2)
       = Ret (r, [''a'', ''bc'', ''d'']) \<and> Lines r = [''bc'', ''d''] \<and> partial r = ''e''"
  using ring_writer_refines [of 2 "[''a'' @ [NL] @ ''b'', ''c'' @ [NL] @ ''d'' @ [NL] @ ''e'']"]
  by (simp add: whole_lines_def tail_part_def lastn_def NL_def)

text \<open>
  The JSON writer emits one object per complete log line and none for the rest, however the
  text is cut into writes: the objects are those of the lines of the whole text.
\<close>

theorem json_writer_chunks:
  "json.feed_all marshal now ps [] =
     (tail_part (concat ps), json_objects marshal now (whole_lines (concat ps)))"
  by (subst json.feed_all_concat) (simp_all add: json_feed_eq)

text \<open>
  A line that the logger writes is parsed back by \<^verbatim>\<open>parseLine\<close>: time stamp, level and
  message, for a time stamp without a bracket and a message that starts and ends with a
  visible character.
\<close>

theorem log_line_roundtrip:
  assumes "ts \<noteq> []" "graphic (hd ts)" "CHR '']'' \<notin> set ts"
    and "msg \<noteq> []" "graphic (hd msg)" "graphic (last msg)"
  shows "parseLine now (butlast (log_line ts lvl msg)) =
     \<lparr>je_Ts = ts @ '' UTC'', je_Level = level_string lvl, je_Msg = msg\<rparr>"
proof -
  let ?rest = "level_string lvl @ '': '' @ msg"
  let ?line = "''['' @ ts @ '' UTC] '' @ ?rest"
  have b: "butlast (log_line ts lvl msg) = ?line"
    unfolding log_line_def by (metis append.assoc butlast_snoc)
  have lv: "level_string lvl \<noteq> []" "graphic (hd (level_string lvl))" "CHR '':'' \<notin> set (level_string lvl)"
    by (cases lvl; simp add: graphic_def)+
  have t1: "trim_space ?line = ?line"
    using assms(4,6) by (intro trim_space_graphic) (auto simp: graphic_def)
  have i1: "index_str ?line '']'' = Some (length ts + 5)"
    using index_str_skip [of "'']''" "''['' @ ts @ '' UTC''" "''] '' @ ?rest"] assms(3)
    by (fastforce simp: eval_nat_numeral)
  have "take (length ts + 4) (ts @ '' UTC'' @ ''] '' @ ?rest) = ts @ '' UTC''" by simp
  then have ts1: "trim_space (take (length ts + 5 - 1) (drop 1 ?line)) = ts @ '' UTC''"
    using assms(1,2) by (subst trim_space_graphic [symmetric]) (auto simp: graphic_def)
  have d: "drop (length ts + 5 + 1) ((''['' @ ts @ '' UTC]'') @ ('' '' @ ?rest)) = '' '' @ ?rest"
    by (rule drop_prefix) simp
  have "trim_left_space ('' '' @ ?rest) = trim_left_space ?rest"
    by (simp add: trim_left_space_def drop_space.simps [of _ "CHR '' '' # _"] space_len_blank)
  then have "trim_space ('' '' @ ?rest) = trim_space ?rest" by (simp add: trim_space_def)
  also have "\<dots> = ?rest"
    using lv assms(4,6) by (intro trim_space_graphic) auto
  finally have r1: "trim_space (drop (length ts + 5 + 1) ?line) = ?rest"
    using d by simp
  have i2: "index_str ?rest '': '' = Some (length (level_string lvl))"
    using index_str_skip [of "'': ''" "level_string lvl" "'': '' @ msg"] lv by auto
  show ?thesis
    unfolding b parseLine_def Let_def t1 i1 option.case ts1 r1 i2 using lv by simp
qed

theorem log_line_roundtrip_witness:
  "parseLine [] (butlast (log_line ''2024/01/02 03:04:05.000'' LevelError ''VM exited''))
     = \<lparr>je_Ts = ''2024/01/02 03:04:05.000 UTC'', je_Level = ''ERROR'', je_Msg = ''VM exited''\<rparr>"
  using log_line_roundtrip [of "''2024/01/02 03:04:05.000''" "''VM exited''" "[]" LevelError]
  by (simp add: graphic_def)

end
