(* ===== verification/Gui_Log.thy ===== *)
theory Gui_Log
  imports Logging
begin

text \<open>
  The log view of the graphical interface (\<^verbatim>\<open>gui/widgets.go\<close>, \<^verbatim>\<open>gui/log_tab.go\<close>): a snapshot of the
  ring buffer and the lines of it that pass the filters. Both are slices, and without a filter the
  filtered slice is the snapshot itself, so the model keeps the arrays behind the slices: a slice
  is the index of its array in a list of arrays and a length, its capacity is the length of the
  array, and all slices here start at the first element. Array 0 is empty and stands behind nil.
\<close>

section \<open>Slices\<close>

type_synonym arrays = "string list list"

record go_slice =
  sl_arr :: nat
  sl_len :: nat

definition nil_slice :: go_slice where
  "nil_slice = \<lparr>sl_arr = 0, sl_len = 0\<rparr>"

definition elements :: "arrays \<Rightarrow> go_slice \<Rightarrow> string list" where
  "elements h s = take (sl_len s) (h ! sl_arr s)"

text \<open>A new array with the given elements, as \<^verbatim>\<open>make\<close> and \<^verbatim>\<open>copy\<close> give it.\<close>

definition alloc :: "string list \<Rightarrow> arrays \<Rightarrow> arrays \<times> go_slice" where
  "alloc xs h = (h @ [xs], \<lparr>sl_arr = length h, sl_len = length xs\<rparr>)"

text \<open>
  \<^verbatim>\<open>append(s, x)\<close>: in place while the capacity lasts, else into a new array; \<open>grow n\<close> is the number
  of spare elements the run-time system adds.
\<close>

definition append_elem :: "(nat \<Rightarrow> nat) \<Rightarrow> string \<Rightarrow> arrays \<times> go_slice \<Rightarrow> arrays \<times> go_slice" where
  "append_elem grow x hs =
     (case hs of (h, s) \<Rightarrow>
        let arr = h ! sl_arr s; n = sl_len s in
        if n < length arr then (h[sl_arr s := arr[n := x]], s\<lparr>sl_len := n + 1\<rparr>)
        else (h @ [take n arr @ [x] @ replicate (grow n) []], \<lparr>sl_arr = length h, sl_len = n + 1\<rparr>))"

section \<open>The log view\<close>

text \<open>\<open>lv_pending\<close> tells whether the timer of \<^verbatim>\<open>SetFilter\<close> is running.\<close>

record LogView =
  lv_arrays :: arrays
  lv_snapshot :: go_slice
  lv_filtered :: go_slice
  lv_filter :: string
  lv_levelFilter :: string
  lv_pending :: bool

text \<open>What passes the filters, as the two \<^verbatim>\<open>continue\<close> of the loop decide it.\<close>

definition passes :: "string \<Rightarrow> string \<Rightarrow> string \<Rightarrow> bool" where
  "passes level text line \<longleftrightarrow>
     \<not> (level \<noteq> ''All'' \<and> \<not> contains_str line (level @ '':''))
     \<and> \<not> (text \<noteq> [] \<and> \<not> contains_str (to_lower line) (to_lower text))"

text \<open>The loop over the snapshot, which reads its array while the appends may write it.\<close>

fun filter_loop ::
  "(nat \<Rightarrow> nat) \<Rightarrow> (string \<Rightarrow> bool) \<Rightarrow> go_slice \<Rightarrow> nat list \<Rightarrow> arrays \<times> go_slice \<Rightarrow> arrays \<times> go_slice" where
  "filter_loop grow keep snap [] hs = hs"
| "filter_loop grow keep snap (i # is) (h, f) =
     (let line = h ! sl_arr snap ! i in
      filter_loop grow keep snap is (if keep line then append_elem grow line (h, f) else (h, f)))"

definition applyFilters :: "(nat \<Rightarrow> nat) \<Rightarrow> LogView \<Rightarrow> LogView" where
  "applyFilters grow lv =
     (if lv_filter lv = [] \<and> lv_levelFilter lv = ''All'' then lv\<lparr>lv_filtered := lv_snapshot lv\<rparr>
      else case filter_loop grow (passes (lv_levelFilter lv) (lv_filter lv)) (lv_snapshot lv)
                  [0..<sl_len (lv_snapshot lv)] (lv_arrays lv, (lv_filtered lv)\<lparr>sl_len := 0\<rparr>) of
        (h, f) \<Rightarrow> lv\<lparr>lv_arrays := h, lv_filtered := f\<rparr>)"

definition NewLogView :: "(nat \<Rightarrow> nat) \<Rightarrow> RingWriter \<Rightarrow> LogView" where
  "NewLogView grow ring =
     (case alloc (Lines ring) [[]] of (h, s) \<Rightarrow>
        applyFilters grow \<lparr>lv_arrays = h, lv_snapshot = s, lv_filtered = nil_slice, lv_filter = [],
                           lv_levelFilter = ''All'', lv_pending = False\<rparr>)"

definition SetFilter :: "(nat \<Rightarrow> nat) \<Rightarrow> string \<Rightarrow> LogView \<Rightarrow> LogView" where
  "SetFilter grow text lv =
     (let lv1 = lv\<lparr>lv_filter := text, lv_pending := False\<rparr> in
      if text = [] then applyFilters grow lv1 else lv1\<lparr>lv_pending := True\<rparr>)"

text \<open>The function that the timer of \<^verbatim>\<open>SetFilter\<close> calls.\<close>

definition filter_timer :: "(nat \<Rightarrow> nat) \<Rightarrow> LogView \<Rightarrow> LogView" where
  "filter_timer grow lv = (applyFilters grow lv)\<lparr>lv_pending := False\<rparr>"

definition SetLevelFilter :: "(nat \<Rightarrow> nat) \<Rightarrow> string \<Rightarrow> LogView \<Rightarrow> LogView" where
  "SetLevelFilter grow level lv = applyFilters grow (lv\<lparr>lv_levelFilter := level\<rparr>)"

definition Refresh :: "(nat \<Rightarrow> nat) \<Rightarrow> RingWriter \<Rightarrow> LogView \<Rightarrow> LogView" where
  "Refresh grow ring lv =
     (case alloc (Lines ring) (lv_arrays lv) of (h, s) \<Rightarrow>
        applyFilters grow (lv\<lparr>lv_arrays := h, lv_snapshot := s\<rparr>))"

definition Clear :: "LogView \<Rightarrow> LogView" where
  "Clear lv = lv\<lparr>lv_snapshot := nil_slice, lv_filtered := nil_slice\<rparr>"

text \<open>The lines that the list shows, and the text that Copy and Export take.\<close>

definition shown :: "LogView \<Rightarrow> string list" where
  "shown lv = elements (lv_arrays lv) (lv_filtered lv)"

definition CopyText :: "LogView \<Rightarrow> string" where
  "CopyText lv = join [NL] (shown lv)"

text \<open>
  \<^verbatim>\<open>exportLogs\<close>: \<open>home\<close> is what \<^verbatim>\<open>os.UserHomeDir\<close> answers, \<open>stamp\<close> the formatted time, \<open>jn\<close> is
  \<^verbatim>\<open>filepath.Join\<close> and \<open>wr\<close> writing a file. The result is the dialog and the file written.
\<close>

datatype export_dialog = NothingToExport | ExportFailed goerr | Exported string

definition exportLogs ::
  "string res \<Rightarrow> string \<Rightarrow> (string \<Rightarrow> string \<Rightarrow> string) \<Rightarrow> (string \<Rightarrow> string \<Rightarrow> goerr option) \<Rightarrow> LogView \<Rightarrow>
   export_dialog \<times> (string \<times> string) option" where
  "exportLogs home stamp jn wr lv =
     (let text = CopyText lv in
      if text = [] then (NothingToExport, None)
      else let dir = (case home of Inl _ \<Rightarrow> ''.'' | Inr d \<Rightarrow> d);
               path = jn dir (''torvm-logs-'' @ stamp @ ''.txt'') in
           case wr path text of
             Some err \<Rightarrow> (ExportFailed err, Some (path, text))
           | None \<Rightarrow> (Exported path, Some (path, text)))"

text \<open>What can happen to the view: the callback of the ring, the widgets of the tab and the timer.\<close>

datatype view_op = OpRefresh RingWriter | OpFilter string | OpTimer | OpLevel string | OpClear

fun view_step :: "(nat \<Rightarrow> nat) \<Rightarrow> view_op \<Rightarrow> LogView \<Rightarrow> LogView" where
  "view_step grow (OpRefresh ring) lv = Refresh grow ring lv"
| "view_step grow (OpFilter text) lv = SetFilter grow text lv"
| "view_step grow OpTimer lv = filter_timer grow lv"
| "view_step grow (OpLevel level) lv = SetLevelFilter grow level lv"
| "view_step grow OpClear lv = Clear lv"

section \<open>Lemmas\<close>

text \<open>Slices lie within their arrays, array 0 is empty, and so is what shares it.\<close>

definition slice_ok :: "arrays \<Rightarrow> go_slice \<Rightarrow> bool" where
  "slice_ok h s \<longleftrightarrow> sl_arr s < length h \<and> sl_len s \<le> length (h ! sl_arr s)"

definition log_inv :: "LogView \<Rightarrow> bool" where
  "log_inv lv \<longleftrightarrow> slice_ok (lv_arrays lv) (lv_snapshot lv) \<and> slice_ok (lv_arrays lv) (lv_filtered lv)
     \<and> 0 < length (lv_arrays lv) \<and> lv_arrays lv ! 0 = []"

text \<open>The loop when the filtered slice shares the array of the snapshot: it writes behind what it reads.\<close>

lemma filter_loop_shared:
  assumes "sl_arr f = sl_arr snap" "sl_arr snap < length h" "sl_len f \<le> i" "i \<le> n" "n \<le> length (h ! sl_arr snap)"
    and "arr = h ! sl_arr snap" "ks = filter keep (drop i (take n arr))"
  shows "filter_loop grow keep snap [i..<n] (h, f) =
    (h[sl_arr snap := take (sl_len f) arr @ ks @ drop (sl_len f + length ks) arr], f\<lparr>sl_len := sl_len f + length ks\<rparr>)"
  using assms
proof (induction "n - i" arbitrary: i f h arr ks)
  case 0
  then show ?case by simp
next
  case (Suc d)
  let ?k = "sl_len f" and ?a = "sl_arr snap"
  have i: "i < n" "i < length arr" "?k < length arr" using Suc.hyps(2) Suc.prems by auto
  have up: "[i..<n] = i # [Suc i..<n]" using i by (simp add: upt_conv_Cons)
  have dr: "drop i (take n arr) = arr ! i # drop (Suc i) (take n arr)" using i Cons_nth_drop_Suc [of i "take n arr"] by simp
  show ?case
  proof (cases "keep (arr ! i)")
    case True
    let ?arr = "arr[?k := arr ! i]" and ?f = "f\<lparr>sl_len := ?k + 1\<rparr>"
    have h': "h[?a := ?arr] ! ?a = ?arr" using Suc.prems(2) by simp
    have same: "drop (Suc i) (take n ?arr) = drop (Suc i) (take n arr)"
      using Suc.prems(3) by (simp add: take_update_swap drop_update_cancel)
    have "filter_loop grow keep snap [Suc i..<n] (h[?a := ?arr], ?f) =
      (h[?a := ?arr, ?a := take (?k + 1) ?arr @ filter keep (drop (Suc i) (take n ?arr))
           @ drop (?k + 1 + length (filter keep (drop (Suc i) (take n ?arr)))) ?arr],
       ?f\<lparr>sl_len := ?k + 1 + length (filter keep (drop (Suc i) (take n ?arr)))\<rparr>)"
      using Suc.hyps(2) Suc.prems i h' by (subst Suc.hyps(1)) auto
    moreover have "take (?k + 1) ?arr = take ?k arr @ [arr ! i]" using i by (simp add: take_Suc_conv_app_nth)
    ultimately show ?thesis
      using True i dr Suc.prems unfolding same
      by (simp add: up append_elem_def Let_def drop_update_cancel)
  next
    case False
    then have "ks = filter keep (drop (Suc i) (take n arr))" using dr Suc.prems by simp
    then show ?thesis using Suc.hyps(2) Suc.prems False i by (simp add: up Suc.hyps(1) [of "Suc i" f h arr ks])
  qed
qed

text \<open>An append to a slice with an array of its own: arrays other than its own stay as they are.\<close>

lemma append_elem_apart:
  assumes "slice_ok h f" "append_elem grow x (h, f) = (h', f')"
  shows "elements h' f' = elements h f @ [x]" "slice_ok h' f'" "length h \<le> length h'"
    "j < length h \<Longrightarrow> j \<noteq> sl_arr f \<Longrightarrow> h' ! j = h ! j \<and> sl_arr f' \<noteq> j"
    "h ! sl_arr f = [] \<Longrightarrow> h' ! sl_arr f = []"
proof -
  have "(h' = h[sl_arr f := (h ! sl_arr f)[sl_len f := x]] \<and> f' = f\<lparr>sl_len := sl_len f + 1\<rparr>
          \<and> sl_len f < length (h ! sl_arr f)) \<or>
        (h' = h @ [take (sl_len f) (h ! sl_arr f) @ [x] @ replicate (grow (sl_len f)) []]
          \<and> f' = \<lparr>sl_arr = length h, sl_len = sl_len f + 1\<rparr> \<and> sl_len f = length (h ! sl_arr f))"
    using assms by (auto simp: append_elem_def slice_ok_def Let_def split: if_splits)
  then show "elements h' f' = elements h f @ [x]" "slice_ok h' f'" "length h \<le> length h'"
    "j < length h \<Longrightarrow> j \<noteq> sl_arr f \<Longrightarrow> h' ! j = h ! j \<and> sl_arr f' \<noteq> j"
    "h ! sl_arr f = [] \<Longrightarrow> h' ! sl_arr f = []"
    using assms(1) by (auto simp: elements_def slice_ok_def nth_append take_Suc_conv_app_nth)
qed

lemma filter_loop_apart:
  assumes "filter_loop grow keep snap is (h, f) = (h', f')" "slice_ok h f" "sl_arr snap < length h"
    and "sl_arr f \<noteq> sl_arr snap" "0 < length h" "h ! 0 = []"
  shows "elements h' f' = elements h f @ filter keep (map ((!) (h ! sl_arr snap)) is)
    \<and> h' ! sl_arr snap = h ! sl_arr snap \<and> sl_arr f' \<noteq> sl_arr snap \<and> slice_ok h' f'
    \<and> length h \<le> length h' \<and> h' ! 0 = []"
  using assms
proof (induction grow keep snap "is" "(h, f)" arbitrary: h f rule: filter_loop.induct)
  case (2 grow keep snap i "is" h f)
  let ?x = "h ! sl_arr snap ! i"
  show ?case
  proof (cases "keep ?x")
    case True
    obtain h1 f1 where a: "append_elem grow ?x (h, f) = (h1, f1)" by fastforce
    note ap = append_elem_apart [OF "2.prems"(2) a]
    have s1: "h1 ! sl_arr snap = h ! sl_arr snap" "sl_arr f1 \<noteq> sl_arr snap"
      using ap(4) [of "sl_arr snap"] "2.prems"(3,4) by auto
    have z: "h1 ! 0 = []" using ap(4) [of 0] ap(5) "2.prems"(5,6) by (cases "sl_arr f = 0") auto
    have "filter_loop grow keep snap is (h1, f1) = (h', f')" using "2.prems"(1) True a by (simp add: Let_def)
    moreover have "sl_arr snap < length h1" "0 < length h1" using ap(3) "2.prems"(3,5) by auto
    ultimately show ?thesis
      using "2.hyps" [of ?x h1 f1] True a ap(1,2,3) s1 z by auto
  next
    case False
    then show ?thesis using "2.hyps" [of ?x h f] "2.prems" by (auto simp: Let_def)
  qed
qed simp

lemma elements_map: "slice_ok h s \<Longrightarrow> map ((!) (h ! sl_arr s)) [0..<sl_len s] = elements h s"
  unfolding slice_ok_def elements_def by (intro nth_equalityI) auto

abbreviation view_passes :: "LogView \<Rightarrow> string \<Rightarrow> bool" where
  "view_passes lv \<equiv> passes (lv_levelFilter lv) (lv_filter lv)"

abbreviation snapshot_lines :: "LogView \<Rightarrow> string list" where
  "snapshot_lines lv \<equiv> elements (lv_arrays lv) (lv_snapshot lv)"

lemma passes_all [simp]: "passes ''All'' [] = (\<lambda>_. True)" by (auto simp: passes_def)

text \<open>
  What applying the filters shows and what it makes of the snapshot: the right lines are shown, but
  when the filtered slice was the snapshot, they have also overwritten its beginning.
\<close>

lemma applyFilters_spec:
  assumes "log_inv lv" "ls = snapshot_lines lv" "fs = filter (view_passes lv) ls"
  shows "shown (applyFilters grow lv) = fs \<and> log_inv (applyFilters grow lv)
    \<and> (lv_filter (applyFilters grow lv), lv_levelFilter (applyFilters grow lv)) = (lv_filter lv, lv_levelFilter lv)
    \<and> snapshot_lines (applyFilters grow lv) =
        (if sl_arr (lv_filtered lv) = sl_arr (lv_snapshot lv) then fs @ drop (length fs) ls else ls)"
proof (cases "lv_filter lv = [] \<and> lv_levelFilter lv = ''All''")
  case True
  then show ?thesis using assms by (simp add: applyFilters_def shown_def log_inv_def)
next
  case False
  let ?h = "lv_arrays lv" and ?s = "lv_snapshot lv" and ?f0 = "(lv_filtered lv)\<lparr>sl_len := 0\<rparr>"
  have ok: "slice_ok ?h ?s" "slice_ok ?h ?f0" "0 < length ?h" "?h ! 0 = []"
    using assms(1) by (auto simp: log_inv_def slice_ok_def)
  obtain h f where lp: "filter_loop grow (view_passes lv) ?s [0..<sl_len ?s] (?h, ?f0) = (h, f)" by fastforce
  then have lv': "applyFilters grow lv = lv\<lparr>lv_arrays := h, lv_filtered := f\<rparr>"
    unfolding applyFilters_def by (simp only: if_not_P [OF False] prod.case)
  show ?thesis
  proof (cases "sl_arr (lv_filtered lv) = sl_arr ?s")
    case True
    have le: "length fs \<le> length ls" using assms(3) by simp
    have ls: "length ls = sl_len ?s" "ls = take (sl_len ?s) (?h ! sl_arr ?s)"
      using assms(2) ok(1) by (auto simp: elements_def slice_ok_def)
    have "(h, f) = (?h[sl_arr ?s := fs @ drop (length fs) (?h ! sl_arr ?s)], ?f0\<lparr>sl_len := length fs\<rparr>)"
      using filter_loop_shared [of ?f0 ?s ?h 0 "sl_len ?s" _ fs "view_passes lv" grow] lp True ok(1) assms(2,3) ls(2)
      by (simp add: slice_ok_def elements_def)
    moreover have "drop (length fs) ls = take (sl_len ?s - length fs) (drop (length fs) (?h ! sl_arr ?s))"
      using ls(2) by (simp add: drop_take)
    ultimately show ?thesis
      using True lv' assms(1) ok le ls(1)
      by (auto simp: shown_def elements_def log_inv_def slice_ok_def nth_list_update)
  next
    case False
    have "elements ?h ?f0 = []" by (simp add: elements_def)
    then show ?thesis
      using filter_loop_apart [OF lp ok(2) _ _ ok(3,4)] False ok(1) lv' assms elements_map [OF ok(1)]
      by (auto simp: shown_def log_inv_def slice_ok_def elements_def)
  qed
qed

lemma applyFilters_inv: "log_inv lv \<Longrightarrow> log_inv (applyFilters grow lv)"
  using applyFilters_spec by blast

lemma alloc_inv:
  assumes "log_inv lv" "alloc xs (lv_arrays lv) = (h, s)"
  shows "log_inv (lv\<lparr>lv_arrays := h, lv_snapshot := s\<rparr>)" "elements h s = xs" "sl_arr (lv_filtered lv) \<noteq> sl_arr s"
  using assms by (auto simp: alloc_def log_inv_def slice_ok_def elements_def nth_append)

text \<open>A refresh shows the lines of the ring that pass, and leaves an unshared or unfiltered snapshot.\<close>

lemma Refresh_spec:
  assumes "log_inv lv"
  shows "shown (Refresh grow ring lv) = filter (view_passes lv) (Lines ring)" "log_inv (Refresh grow ring lv)"
    "snapshot_lines (Refresh grow ring lv) = Lines ring"
    "lv_filter (Refresh grow ring lv) = lv_filter lv" "lv_levelFilter (Refresh grow ring lv) = lv_levelFilter lv"
proof -
  obtain h s where a: "alloc (Lines ring) (lv_arrays lv) = (h, s)" by fastforce
  let ?lv = "lv\<lparr>lv_arrays := h, lv_snapshot := s\<rparr>"
  have "Refresh grow ring lv = applyFilters grow ?lv" by (simp add: Refresh_def a)
  then show "shown (Refresh grow ring lv) = filter (view_passes lv) (Lines ring)" "log_inv (Refresh grow ring lv)"
    "snapshot_lines (Refresh grow ring lv) = Lines ring"
    "lv_filter (Refresh grow ring lv) = lv_filter lv" "lv_levelFilter (Refresh grow ring lv) = lv_levelFilter lv"
    using applyFilters_spec [OF alloc_inv(1) [OF assms a] HOL.refl HOL.refl, of grow] alloc_inv(2,3) [OF assms a]
    by auto
qed

lemma log_inv_fields [simp]:
  "log_inv (lv\<lparr>lv_filter := t\<rparr>) = log_inv lv" "log_inv (lv\<lparr>lv_pending := b\<rparr>) = log_inv lv"
  "log_inv (lv\<lparr>lv_levelFilter := l\<rparr>) = log_inv lv"
  by (simp_all add: log_inv_def)

lemma NewLogView_inv: "log_inv (NewLogView grow ring)"
  unfolding NewLogView_def alloc_def prod.case
  by (rule applyFilters_inv) (simp add: log_inv_def slice_ok_def nil_slice_def)

lemma Clear_inv: "log_inv lv \<Longrightarrow> log_inv (Clear lv)"
  by (simp add: log_inv_def Clear_def slice_ok_def nil_slice_def)

lemma view_step_inv: "log_inv lv \<Longrightarrow> log_inv (view_step grow op lv)"
  by (cases op) (simp_all add: Refresh_spec(2) SetFilter_def filter_timer_def SetLevelFilter_def applyFilters_inv Clear_inv Let_def)

lemma view_steps_inv: "log_inv lv \<Longrightarrow> log_inv (fold (view_step grow) ops lv)"
  by (induction ops arbitrary: lv) (simp_all add: view_step_inv)

text \<open>Without a filter the filtered slice is the snapshot.\<close>

lemma unfiltered_shared:
  "lv_filter lv = [] \<Longrightarrow> lv_levelFilter lv = ''All'' \<Longrightarrow> lv_filtered (Refresh grow ring lv) = lv_snapshot (Refresh grow ring lv)"
  by (simp add: Refresh_def alloc_def applyFilters_def)

lemma level_there_and_back:
  assumes "log_inv lv" "lv_filter lv = []" "sl_arr (lv_filtered lv) = sl_arr (lv_snapshot lv)"
    and "ls = snapshot_lines lv" "fs = filter (passes l []) ls"
  shows "shown (SetLevelFilter grow ''All'' (SetLevelFilter grow l lv)) = fs @ drop (length fs) ls"
proof -
  let ?lv = "SetLevelFilter grow l lv"
  have inv: "log_inv (lv\<lparr>lv_levelFilter := l\<rparr>)" using assms(1) by simp
  have s: "snapshot_lines ?lv = fs @ drop (length fs) ls" "log_inv ?lv" "lv_filter ?lv = []"
    using applyFilters_spec [OF inv HOL.refl HOL.refl, of grow] assms(2-5) unfolding SetLevelFilter_def by auto
  have "log_inv (?lv\<lparr>lv_levelFilter := ''All''\<rparr>)" using s(2) by simp
  from applyFilters_spec [OF this HOL.refl HOL.refl, of grow] s(1,3)
  show ?thesis unfolding SetLevelFilter_def [of grow "''All''" ?lv] by simp
qed

section \<open>Properties\<close>

text \<open>
  C29. What the log view shows. After any use of the tab, whatever text the ring buffer was given and
  however it was cut into writes, a refresh shows exactly the last lines of the text, as many as the
  ring holds, that pass the level and the text filter. But choosing a level and going back to
  all levels without a new line in between does not bring the lines back: the lines that passed have
  overwritten the beginning of the snapshot, whose array the filtered slice shared, so the view
  shows them again in front of what is left of the lines.
\<close>

theorem log_view_shows:
  assumes "0 < cap" "ring_writes ps (NewRingWriter cap) = Ret (r, sent)"
    and "lv = fold (view_step grow) ops (NewLogView grow ring0)"
  shows "shown (Refresh grow r lv)
      = filter (passes (lv_levelFilter lv) (lv_filter lv)) (lastn cap (whole_lines (concat ps)))
    \<and> (lv_filter lv = [] \<and> lv_levelFilter lv = ''All'' \<longrightarrow>
         shown (SetLevelFilter grow ''All'' (SetLevelFilter grow l (Refresh grow r lv)))
           = filter (passes l []) (Lines r) @ drop (length (filter (passes l []) (Lines r))) (Lines r))"
proof -
  have inv: "log_inv lv" unfolding assms(3) by (intro view_steps_inv NewLogView_inv)
  obtain r' where "ring_writes ps (NewRingWriter cap) = Ret (r', whole_lines (concat ps))"
    "Lines r' = lastn cap (whole_lines (concat ps))"
    using ring_lines_written [OF assms(1)] by blast
  then have "Lines r = lastn cap (whole_lines (concat ps))" using assms(2) by simp
  then have "shown (Refresh grow r lv) = filter (view_passes lv) (lastn cap (whole_lines (concat ps)))"
    using Refresh_spec(1) [OF inv] by simp
  moreover have "shown (SetLevelFilter grow ''All'' (SetLevelFilter grow l (Refresh grow r lv)))
      = filter (passes l []) (Lines r) @ drop (length (filter (passes l []) (Lines r))) (Lines r)"
    if "lv_filter lv = []" "lv_levelFilter lv = ''All''"
    using level_there_and_back [OF Refresh_spec(2) [OF inv] _ _ HOL.refl HOL.refl, of grow r grow l]
      Refresh_spec(3,4) [OF inv, of grow r] unfiltered_shared [OF that, of grow r] that(1) by simp
  ultimately show ?thesis by blast
qed

theorem log_view_shows_witness:
  "\<exists>r. ring_writes [''INFO: up'' @ [NL] @ ''ERROR: no'' @ [NL]] (NewRingWriter 4) = Ret (r, [''INFO: up'', ''ERROR: no''])
     \<and> shown (Refresh (\<lambda>_. 0) r (NewLogView (\<lambda>_. 0) (NewRingWriter 4))) = [''INFO: up'', ''ERROR: no'']
     \<and> shown (SetLevelFilter (\<lambda>_. 0) ''All'' (SetLevelFilter (\<lambda>_. 0) ''ERROR'' (Refresh (\<lambda>_. 0) r (NewLogView (\<lambda>_. 0) (NewRingWriter 4)))))
         = [''ERROR: no'', ''ERROR: no'']"
proof -
  let ?ps = "[''INFO: up'' @ [NL] @ ''ERROR: no'' @ [NL]]" and ?lv = "NewLogView (\<lambda>_. 0) (NewRingWriter 4)"
  have w: "whole_lines (concat ?ps) = [''INFO: up'', ''ERROR: no'']" by code_simp
  obtain r where r: "ring_writes ?ps (NewRingWriter 4) = Ret (r, whole_lines (concat ?ps))"
    "Lines r = lastn 4 (whole_lines (concat ?ps))"
    using ring_lines_written [of 4 ?ps] by auto
  have lv: "?lv = fold (view_step (\<lambda>_. 0)) [] ?lv" "lv_filter ?lv = []" "lv_levelFilter ?lv = ''All''"
    by (simp_all add: NewLogView_def alloc_def applyFilters_def)
  have e: "filter (passes ''ERROR'' []) [''INFO: up'', ''ERROR: no''] = [''ERROR: no'']" by code_simp
  show ?thesis
    using log_view_shows [OF _ r(1) lv(1), of "''ERROR''"] r lv(2,3) w e by (intro exI [of _ r]) (simp add: lastn_def)
qed

end
