(* ===== verification/Gui_Globe.thy ===== *)
theory Gui_Globe
  imports Go_Prelude "HOL-Library.Word"
begin

text \<open>
  The globe of the circuits tab (\<^verbatim>\<open>gui/globe.go\<close>): drawing of lines, dots and arcs into a picture, the
  projection of the sphere, rotation by mouse and keyboard, and the search for the relay under a
  tap. Integers keep the 64 bits of Go's \<^verbatim>\<open>int\<close>, colours their 8 bits. The arithmetic on
  \<^verbatim>\<open>float64\<close> is an argument, a record of its operations; what depends on it is proved for exact
  arithmetic on the reals. The toolkit that puts the picture on the screen is not modelled.
\<close>

section \<open>Pictures\<close>

definition int64 :: "int \<Rightarrow> int" where
  "int64 n = (n + 2 ^ 63) mod 2 ^ 64 - 2 ^ 63"

record RGBA =
  co_R :: "8 word"
  co_G :: "8 word"
  co_B :: "8 word"
  co_A :: "8 word"

text \<open>A picture with \<^verbatim>\<open>Bounds\<close> from (0, 0) to its width and height.\<close>

record image =
  im_w :: int
  im_h :: int
  im_pix :: "int \<times> int \<Rightarrow> RGBA"

definition in_bounds :: "image \<Rightarrow> int \<times> int \<Rightarrow> bool" where
  "in_bounds im p \<longleftrightarrow> fst p \<ge> 0 \<and> fst p < im_w im \<and> snd p \<ge> 0 \<and> snd p < im_h im"

text \<open>\<^verbatim>\<open>SetRGBA\<close> behind the test of the bounds that the drawing functions make.\<close>

definition set_pixel :: "RGBA \<Rightarrow> int \<times> int \<Rightarrow> image \<Rightarrow> image" where
  "set_pixel c p im = (if in_bounds im p then im\<lparr>im_pix := (im_pix im)(p := c)\<rparr> else im)"

definition clampU8 :: "int \<Rightarrow> 8 word" where
  "clampU8 v = (if v > 255 then 255 else word_of_int v)"

definition abs_int :: "int \<Rightarrow> int" where
  "abs_int x = (if x < 0 then int64 (- x) else x)"

definition nodeColor :: "string \<Rightarrow> RGBA" where
  "nodeColor role =
     (if role = ''guard'' then \<lparr>co_R = 50, co_G = 200, co_B = 50, co_A = 255\<rparr>
      else if role = ''exit'' then \<lparr>co_R = 220, co_G = 50, co_B = 50, co_A = 255\<rparr>
      else \<lparr>co_R = 200, co_G = 150, co_B = 50, co_A = 255\<rparr>)"

definition brighten :: "RGBA \<Rightarrow> RGBA" where
  "brighten c = \<lparr>co_R = clampU8 (uint (co_R c) + 80), co_G = clampU8 (uint (co_G c) + 80),
                 co_B = clampU8 (uint (co_B c) + 80), co_A = co_A c\<rparr>"

section \<open>Lines and dots\<close>

text \<open>
  The loop of \<^verbatim>\<open>drawLine\<close> (Bresenham's algorithm), which ends only when it meets the end point; not
  returning is None. Sums and products are those of 64-bit integers.
\<close>

partial_function (option) line_loop ::
  "RGBA \<Rightarrow> int \<times> int \<Rightarrow> int \<times> int \<Rightarrow> int \<times> int \<Rightarrow> int \<times> int \<Rightarrow> int \<Rightarrow> image \<Rightarrow> image option" where
  "line_loop c d s p1 p err im =
     (let im' = set_pixel c p im in
      if p = p1 then Some im'
      else let e2 = int64 (2 * err);
               goes_x = (e2 \<ge> snd d);
               goes_y = (e2 \<le> fst d);
               err1 = (if goes_x then int64 (err + snd d) else err);
               x = (if goes_x then int64 (fst p + fst s) else fst p);
               err2 = (if goes_y then int64 (err1 + fst d) else err1);
               y = (if goes_y then int64 (snd p + snd s) else snd p)
           in line_loop c d s p1 (x, y) err2 im')"

definition drawLine :: "image \<Rightarrow> int \<Rightarrow> int \<Rightarrow> int \<Rightarrow> int \<Rightarrow> RGBA \<Rightarrow> image option" where
  "drawLine im x0 y0 x1 y1 c =
     (let dx = abs_int (int64 (x1 - x0));
          dy = int64 (- abs_int (int64 (y1 - y0)));
          sx = (if x0 > x1 then -1 else 1);
          sy = (if y0 > y1 then -1 else 1)
      in line_loop c (dx, dy) (sx, sy) (x1, y1) (x0, y0) (int64 (dx + dy)) im)"

text \<open>The offsets of the dot's pixels, in the order of the two loops.\<close>

definition dot_offsets :: "int \<Rightarrow> (int \<times> int) list" where
  "dot_offsets radius =
     concat (map (\<lambda>dy. map (\<lambda>dx. (dx, dy)) (filter (\<lambda>dx. dx * dx + dy * dy \<le> radius * radius) [- radius..radius]))
       [- radius..radius])"

definition drawDot :: "image \<Rightarrow> int \<Rightarrow> int \<Rightarrow> int \<Rightarrow> RGBA \<Rightarrow> image" where
  "drawDot im cx cy radius c =
     fold (\<lambda>(dx, dy). set_pixel c (int64 (cx + dx), int64 (cy + dy))) (dot_offsets radius) im"

section \<open>The sphere\<close>

text \<open>
  The arithmetic on \<^verbatim>\<open>float64\<close>: \<open>mo_lit n d\<close> is the constant n / d, \<open>mo_deg2rad\<close> the constant of that
  name, \<open>mo_trunc\<close> the conversion to \<^verbatim>\<open>int\<close>.
\<close>

record 'f math_ops =
  mo_int :: "int \<Rightarrow> 'f"
  mo_lit :: "int \<Rightarrow> int \<Rightarrow> 'f"
  mo_deg2rad :: 'f
  mo_add :: "'f \<Rightarrow> 'f \<Rightarrow> 'f"
  mo_sub :: "'f \<Rightarrow> 'f \<Rightarrow> 'f"
  mo_mul :: "'f \<Rightarrow> 'f \<Rightarrow> 'f"
  mo_div :: "'f \<Rightarrow> 'f \<Rightarrow> 'f"
  mo_lt :: "'f \<Rightarrow> 'f \<Rightarrow> bool"
  mo_le :: "'f \<Rightarrow> 'f \<Rightarrow> bool"
  mo_trunc :: "'f \<Rightarrow> int"
  mo_sin :: "'f \<Rightarrow> 'f"
  mo_cos :: "'f \<Rightarrow> 'f"
  mo_acos :: "'f \<Rightarrow> 'f"
  mo_atan2 :: "'f \<Rightarrow> 'f \<Rightarrow> 'f"
  mo_sqrt :: "'f \<Rightarrow> 'f"

record 'f GlobeNode =
  gn_Lat :: 'f
  gn_Lon :: 'f
  gn_Fingerprint :: string
  gn_Nickname :: string
  gn_Country :: string
  gn_Role :: string

text \<open>The widget with its size in whole pixels; a path is its nodes and whether it is selected.\<close>

record 'f GlobeWidget =
  gw_rotation :: 'f
  gw_tilt :: 'f
  gw_nodes :: "'f GlobeNode list"
  gw_paths :: "('f GlobeNode list \<times> bool) list"
  gw_size :: "int \<times> int"
  gw_img :: image

text \<open>The position of a point of the sphere on the screen, None on the far side.\<close>

definition project :: "'f math_ops \<Rightarrow> 'f \<Rightarrow> 'f \<Rightarrow> 'f \<Rightarrow> 'f \<Rightarrow> 'f \<Rightarrow> 'f \<Rightarrow> 'f \<Rightarrow> ('f \<times> 'f) option" where
  "project m lat lon rot tilt cx cy r =
     (let latR = mo_mul m lat (mo_deg2rad m);
          lonR = mo_mul m lon (mo_deg2rad m);
          cosLat = mo_cos m latR; sinLat = mo_sin m latR;
          cosLon = mo_cos m (mo_sub m lonR rot); sinLon = mo_sin m (mo_sub m lonR rot);
          cosTilt = mo_cos m tilt; sinTilt = mo_sin m tilt;
          vis = mo_add m (mo_mul m sinTilt sinLat) (mo_mul m (mo_mul m cosTilt cosLat) cosLon)
      in if mo_lt m vis (mo_int m 0) then None
         else Some (mo_add m cx (mo_mul m (mo_mul m r cosLat) sinLon),
                    mo_sub m cy (mo_mul m r (mo_sub m (mo_mul m cosTilt sinLat) (mo_mul m (mo_mul m sinTilt cosLat) cosLon)))))"

text \<open>Draws in sequence, each of which might not return.\<close>

fun draw_all :: "(image \<Rightarrow> image option) list \<Rightarrow> image \<Rightarrow> image option" where
  "draw_all [] im = Some im"
| "draw_all (d # ds) im = (case d im of None \<Rightarrow> None | Some im' \<Rightarrow> draw_all ds im')"

text \<open>Point \<open>i\<close> of the 25 on the great circle between two nodes, as latitude and longitude in radians.\<close>

definition arc_point :: "'f math_ops \<Rightarrow> 'f \<Rightarrow> 'f \<Rightarrow> 'f \<Rightarrow> 'f \<Rightarrow> nat \<Rightarrow> 'f \<times> 'f" where
  "arc_point m lat1 lon1 lat2 lon2 i =
     (let t = mo_div m (mo_int m (int i)) (mo_int m 24);
          cosD0 = mo_add m (mo_mul m (mo_sin m lat1) (mo_sin m lat2))
                    (mo_mul m (mo_mul m (mo_cos m lat1) (mo_cos m lat2)) (mo_cos m (mo_sub m lon2 lon1)));
          cosD1 = (if mo_lt m (mo_int m 1) cosD0 then mo_int m 1 else cosD0);
          cosD = (if mo_lt m cosD1 (mo_int m (-1)) then mo_int m (-1) else cosD1);
          d = mo_acos m cosD
      in if mo_lt m d (mo_lit m 1 1000000) then
           (mo_add m lat1 (mo_mul m t (mo_sub m lat2 lat1)), mo_add m lon1 (mo_mul m t (mo_sub m lon2 lon1)))
         else
           let sinD = mo_sin m d;
               fa = mo_div m (mo_sin m (mo_mul m (mo_sub m (mo_int m 1) t) d)) sinD;
               fb = mo_div m (mo_sin m (mo_mul m t d)) sinD;
               x = mo_add m (mo_mul m (mo_mul m fa (mo_cos m lat1)) (mo_cos m lon1))
                            (mo_mul m (mo_mul m fb (mo_cos m lat2)) (mo_cos m lon2));
               y = mo_add m (mo_mul m (mo_mul m fa (mo_cos m lat1)) (mo_sin m lon1))
                            (mo_mul m (mo_mul m fb (mo_cos m lat2)) (mo_sin m lon2));
               z = mo_add m (mo_mul m fa (mo_sin m lat1)) (mo_mul m fb (mo_sin m lat2))
           in (mo_atan2 m z (mo_sqrt m (mo_add m (mo_mul m x x) (mo_mul m y y))), mo_atan2 m y x))"

text \<open>A segment, once per pixel of the width.\<close>

definition draw_segment :: "'f math_ops \<Rightarrow> RGBA \<Rightarrow> nat \<Rightarrow> 'f \<times> 'f \<Rightarrow> 'f \<times> 'f \<Rightarrow> image \<Rightarrow> image option" where
  "draw_segment m c width p q =
     draw_all (map (\<lambda>w im. drawLine im (mo_trunc m (fst p)) (int64 (mo_trunc m (snd p) + int w))
                             (mo_trunc m (fst q)) (int64 (mo_trunc m (snd q) + int w)) c) [0..<width])"

fun arc_loop ::
  "'f math_ops \<Rightarrow> RGBA \<Rightarrow> nat \<Rightarrow> (nat \<Rightarrow> ('f \<times> 'f) option) \<Rightarrow> nat list \<Rightarrow> ('f \<times> 'f) option \<Rightarrow> image \<Rightarrow> image option" where
  "arc_loop m c width pos [] prev im = Some im"
| "arc_loop m c width pos (i # is) prev im =
     (case (prev, pos i) of
        (Some p, Some q) \<Rightarrow>
          (if i > 0 then
             (case draw_segment m c width p q im of
                None \<Rightarrow> None
              | Some im' \<Rightarrow> arc_loop m c width pos is (pos i) im')
           else arc_loop m c width pos is (pos i) im)
      | _ \<Rightarrow> arc_loop m c width pos is (pos i) im)"

text \<open>\<open>view\<close> is the projection with the rotation, the tilt and the disc of the frame.\<close>

definition drawGreatCircleArc ::
  "'f math_ops \<Rightarrow> ('f \<Rightarrow> 'f \<Rightarrow> ('f \<times> 'f) option) \<Rightarrow> RGBA \<Rightarrow> nat \<Rightarrow> 'f GlobeNode \<Rightarrow> 'f GlobeNode \<Rightarrow> image \<Rightarrow> image option" where
  "drawGreatCircleArc m view c width a b =
     (let rad = (\<lambda>x. mo_mul m x (mo_deg2rad m)); deg = (\<lambda>x. mo_div m x (mo_deg2rad m));
          pos = (\<lambda>i. case arc_point m (rad (gn_Lat a)) (rad (gn_Lon a)) (rad (gn_Lat b)) (rad (gn_Lon b)) i of
                       (lat, lon) \<Rightarrow> view (deg lat) (deg lon))
      in arc_loop m c width pos [0..<25] None)"

section \<open>Frames\<close>

definition pairs :: "'a list \<Rightarrow> ('a \<times> 'a) list" where
  "pairs xs = zip xs (tl xs)"

text \<open>The sphere before anything is drawn on it.\<close>

definition ocean :: "'f math_ops \<Rightarrow> int \<Rightarrow> int \<Rightarrow> 'f \<Rightarrow> 'f \<Rightarrow> 'f \<Rightarrow> image" where
  "ocean m w h cx cy r =
     \<lparr>im_w = w, im_h = h,
      im_pix = (\<lambda>(x, y).
        let dx = mo_sub m (mo_int m x) cx; dy = mo_sub m (mo_int m y) cy in
        if mo_le m (mo_add m (mo_mul m dx dx) (mo_mul m dy dy)) (mo_mul m r r)
        then \<lparr>co_R = 26, co_G = 58, co_B = 92, co_A = 255\<rparr> else \<lparr>co_R = 15, co_G = 15, co_B = 25, co_A = 255\<rparr>)\<rparr>"

definition coast_draw ::
  "'f math_ops \<Rightarrow> ('f \<Rightarrow> 'f \<Rightarrow> ('f \<times> 'f) option) \<Rightarrow> ('f \<times> 'f) \<times> ('f \<times> 'f) \<Rightarrow> image \<Rightarrow> image option" where
  "coast_draw m view ab im =
     (case (view (fst (fst ab)) (snd (fst ab)), view (fst (snd ab)) (snd (snd ab))) of
        (Some p, Some q) \<Rightarrow>
          drawLine im (mo_trunc m (fst p)) (mo_trunc m (snd p)) (mo_trunc m (fst q)) (mo_trunc m (snd q))
            \<lparr>co_R = 80, co_G = 140, co_B = 100, co_A = 255\<rparr>
      | _ \<Rightarrow> Some im)"

definition coast_draws ::
  "'f math_ops \<Rightarrow> ('f \<Rightarrow> 'f \<Rightarrow> ('f \<times> 'f) option) \<Rightarrow> ('f \<times> 'f) list list \<Rightarrow> (image \<Rightarrow> image option) list" where
  "coast_draws m view coast = concat (map (\<lambda>poly. map (coast_draw m view) (pairs poly)) coast)"

definition path_draws ::
  "'f math_ops \<Rightarrow> ('f \<Rightarrow> 'f \<Rightarrow> ('f \<times> 'f) option) \<Rightarrow> ('f GlobeNode list \<times> bool) list \<Rightarrow> (image \<Rightarrow> image option) list" where
  "path_draws m view paths =
     concat (map (\<lambda>(nodes, selected).
       map (\<lambda>(a, b). drawGreatCircleArc m view
              (if selected then \<lparr>co_R = 255, co_G = 200, co_B = 50, co_A = 255\<rparr>
               else \<lparr>co_R = 100, co_G = 180, co_B = 255, co_A = 200\<rparr>)
              (if selected then 2 else 1) a b) (pairs nodes)) paths)"

definition node_draw :: "'f math_ops \<Rightarrow> ('f \<Rightarrow> 'f \<Rightarrow> ('f \<times> 'f) option) \<Rightarrow> 'f GlobeNode \<Rightarrow> image \<Rightarrow> image option" where
  "node_draw m view node im =
     (case view (gn_Lat node) (gn_Lon node) of
        None \<Rightarrow> Some im
      | Some (px, py) \<Rightarrow>
          (let nc = nodeColor (gn_Role node) in
           Some (drawDot (drawDot im (mo_trunc m px) (mo_trunc m py) 4 nc) (mo_trunc m px) (mo_trunc m py) 2 (brighten nc))))"

text \<open>The disc of a widget, \<^verbatim>\<open>(cx, cy, r)\<close>, and its projection.\<close>

definition disc :: "'f math_ops \<Rightarrow> int \<times> int \<Rightarrow> 'f \<times> 'f \<times> 'f" where
  "disc m sz =
     (mo_div m (mo_int m (fst sz)) (mo_int m 2), mo_div m (mo_int m (snd sz)) (mo_int m 2),
      mo_div m (mo_int m (min (fst sz) (snd sz))) (mo_lit m 22 10))"

definition view_of :: "'f math_ops \<Rightarrow> 'f GlobeWidget \<Rightarrow> 'f \<Rightarrow> 'f \<Rightarrow> ('f \<times> 'f) option" where
  "view_of m g lat lon =
     (case disc m (gw_size g) of (cx, cy, r) \<Rightarrow>
        project m lat lon (mo_mul m (gw_rotation g) (mo_deg2rad m)) (mo_mul m (gw_tilt g) (mo_deg2rad m)) cx cy r)"

text \<open>\<open>coast\<close> is the table \<^verbatim>\<open>Coastlines\<close>.\<close>

definition renderFrame :: "'f math_ops \<Rightarrow> ('f \<times> 'f) list list \<Rightarrow> 'f GlobeWidget \<Rightarrow> 'f GlobeWidget option" where
  "renderFrame m coast g =
     (let w = fst (gw_size g); h = snd (gw_size g) in
      if w < 10 \<or> h < 10 then Some g
      else case disc m (gw_size g) of (cx, cy, r) \<Rightarrow>
        (case draw_all (coast_draws m (view_of m g) coast @ path_draws m (view_of m g) (gw_paths g)
                          @ map (node_draw m (view_of m g)) (gw_nodes g)) (ocean m w h cx cy r) of
           None \<Rightarrow> None
         | Some im \<Rightarrow> Some (g\<lparr>gw_img := im\<rparr>)))"

definition SetData ::
  "'f math_ops \<Rightarrow> ('f \<times> 'f) list list \<Rightarrow> 'f GlobeNode list \<Rightarrow> ('f GlobeNode list \<times> bool) list \<Rightarrow>
   'f GlobeWidget \<Rightarrow> 'f GlobeWidget option" where
  "SetData m coast nodes paths g = renderFrame m coast (g\<lparr>gw_nodes := nodes, gw_paths := paths\<rparr>)"

section \<open>Rotation and taps\<close>

definition clamp_tilt :: "'f math_ops \<Rightarrow> 'f \<Rightarrow> 'f" where
  "clamp_tilt m t =
     (let t1 = (if mo_lt m (mo_int m 90) t then mo_int m 90 else t) in
      if mo_lt m t1 (mo_int m (-90)) then mo_int m (-90) else t1)"

definition Dragged :: "'f math_ops \<Rightarrow> 'f \<times> 'f \<Rightarrow> 'f GlobeWidget \<Rightarrow> 'f GlobeWidget" where
  "Dragged m d g =
     g\<lparr>gw_rotation := mo_sub m (gw_rotation g) (mo_mul m (fst d) (mo_lit m 1 2)),
       gw_tilt := clamp_tilt m (mo_add m (gw_tilt g) (mo_mul m (snd d) (mo_lit m 1 2)))\<rparr>"

datatype key = KeyLeft | KeyRight | KeyUp | KeyDown | OtherKey

definition TypedKey :: "'f math_ops \<Rightarrow> key \<Rightarrow> 'f GlobeWidget \<Rightarrow> 'f GlobeWidget" where
  "TypedKey m k g =
     (case k of
        KeyLeft \<Rightarrow> g\<lparr>gw_rotation := mo_add m (gw_rotation g) (mo_int m 10)\<rparr>
      | KeyRight \<Rightarrow> g\<lparr>gw_rotation := mo_sub m (gw_rotation g) (mo_int m 10)\<rparr>
      | KeyUp \<Rightarrow>
          (let t = mo_sub m (gw_tilt g) (mo_int m 10) in
           g\<lparr>gw_tilt := (if mo_lt m t (mo_int m (-90)) then mo_int m (-90) else t)\<rparr>)
      | KeyDown \<Rightarrow>
          (let t = mo_add m (gw_tilt g) (mo_int m 10) in
           g\<lparr>gw_tilt := (if mo_lt m (mo_int m 90) t then mo_int m 90 else t)\<rparr>)
      | OtherKey \<Rightarrow> g)"

definition tap_hits :: "'f math_ops \<Rightarrow> 'f \<times> 'f \<Rightarrow> 'f \<times> 'f \<Rightarrow> bool" where
  "tap_hits m tap p \<longleftrightarrow>
     (let dx = mo_sub m (fst tap) (fst p); dy = mo_sub m (snd tap) (snd p) in
      mo_le m (mo_add m (mo_mul m dx dx) (mo_mul m dy dy)) (mo_int m 144))"

text \<open>The fingerprint that \<^verbatim>\<open>OnNodeTapped\<close> is called with: the first node under the tap.\<close>

definition Tapped :: "'f math_ops \<Rightarrow> 'f \<times> 'f \<Rightarrow> 'f GlobeWidget \<Rightarrow> string option" where
  "Tapped m tap g =
     (if fst (gw_size g) < 10 \<or> snd (gw_size g) < 10 then None
      else map_option gn_Fingerprint
        (find (\<lambda>node. case view_of m g (gn_Lat node) (gn_Lon node) of None \<Rightarrow> False | Some p \<Rightarrow> tap_hits m tap p) (gw_nodes g)))"

section \<open>Lemmas on lines\<close>

lemma int64_id: "- (2 ^ 63) \<le> n \<Longrightarrow> n < 2 ^ 63 \<Longrightarrow> int64 n = n"
  by (simp add: int64_def)

definition paint :: "RGBA \<Rightarrow> (int \<times> int) list \<Rightarrow> image \<Rightarrow> image" where
  "paint c ps im = fold (set_pixel c) ps im"

definition king_move :: "int \<times> int \<Rightarrow> int \<times> int \<Rightarrow> bool" where
  "king_move p q \<longleftrightarrow> p \<noteq> q \<and> \<bar>fst q - fst p\<bar> \<le> 1 \<and> \<bar>snd q - snd p\<bar> \<le> 1"

text \<open>
  A line with \<open>dx\<close> columns and \<open>D\<close> rows after \<open>X\<close> steps in its first and \<open>Y\<close> in its second
  direction: \<open>X * D - Y * dx\<close> measures how far the point is off the line, and \<open>line_err\<close> is the
  variable \<^verbatim>\<open>err\<close> of the loop.
\<close>

definition near :: "int \<Rightarrow> int \<Rightarrow> int \<Rightarrow> int \<Rightarrow> bool" where
  "near dx D X Y \<longleftrightarrow> 0 \<le> X \<and> X \<le> dx \<and> 0 \<le> Y \<and> Y \<le> D
     \<and> 2 * (X * D - Y * dx) \<le> max dx D \<and> - max dx D \<le> 2 * (X * D - Y * dx)"

definition line_err :: "int \<Rightarrow> int \<Rightarrow> int \<Rightarrow> int \<Rightarrow> int" where
  "line_err dx D X Y = (Y + 1) * dx - (X + 1) * D"

abbreviation step_x :: "int \<Rightarrow> int \<Rightarrow> int \<Rightarrow> int \<Rightarrow> bool" where
  "step_x dx D X Y \<equiv> 2 * line_err dx D X Y \<ge> - D"

abbreviation step_y :: "int \<Rightarrow> int \<Rightarrow> int \<Rightarrow> int \<Rightarrow> bool" where
  "step_y dx D X Y \<equiv> 2 * line_err dx D X Y \<le> dx"

lemma near_swap: "near dx D X Y \<Longrightarrow> near D dx Y X"
  by (auto simp: near_def mult.commute max.commute)

lemma err_swap: "line_err dx D X Y = - line_err D dx Y X"
  by (simp add: line_err_def)

text \<open>In the longer direction every round advances, and the other stays within half a pixel.\<close>

lemma near_bounds:
  assumes "near dx D X Y" "D \<le> dx"
  shows "2 * (X * D - Y * dx) \<le> dx" "- dx \<le> 2 * (X * D - Y * dx)" "0 \<le> X" "0 \<le> Y" "Y \<le> D"
  using assms by (auto simp: near_def)

lemma flat_end:
  assumes "near dx D X Y" "D \<le> dx" "X = dx"
  shows "Y = D"
proof (rule ccontr)
  note n = near_bounds [OF assms(1,2)]
  assume "Y \<noteq> D"
  with n(5) have y: "Y + 1 \<le> D" by simp
  with n(4) assms(2) have "0 < dx" by simp
  with y have "(Y + 1) * dx \<le> D * dx" by (intro mult_right_mono) auto
  with n(1) assms(3) \<open>0 < dx\<close> show False by (simp add: algebra_simps)
qed

lemma flat_step:
  assumes "near dx D X Y" "D \<le> dx" "X < dx"
  shows "step_x dx D X Y" "near dx D (X + 1) (if step_y dx D X Y then Y + 1 else Y)"
proof -
  define P Q where "P = X * D" and "Q = Y * dx"
  let ?Y = "if step_y dx D X Y then Y + 1 else Y"
  note n = near_bounds [OF assms(1,2), folded P_def Q_def]
  have err: "line_err dx D X Y = Q + dx - P - D" by (simp add: line_err_def P_def Q_def algebra_simps)
  show "step_x dx D X Y" using n(1) assms(2) unfolding err by simp
  have off: "2 * ((X + 1) * D - ?Y * dx) \<le> dx \<and> - dx \<le> 2 * ((X + 1) * D - ?Y * dx)"
  proof (cases "step_y dx D X Y")
    case True
    then have eq: "(X + 1) * D - ?Y * dx = P + D - Q - dx" by (simp add: P_def Q_def algebra_simps)
    show ?thesis unfolding eq using True [unfolded err] n(1) assms(2) by simp
  next
    case False
    then have eq: "(X + 1) * D - ?Y * dx = P + D - Q" by (simp add: P_def Q_def algebra_simps)
    show ?thesis unfolding eq using False [unfolded err] n(2,4,5) by simp
  qed
  have "(X + 1) * D \<le> dx * D" using assms(3) n by (intro mult_right_mono) auto
  then have le: "2 * (?Y * dx) \<le> 2 * (D * dx) + dx" using off by (simp add: mult.commute)
  have "?Y \<le> D"
  proof (rule ccontr)
    assume "\<not> ?Y \<le> D"
    then have "(D + 1) * dx \<le> ?Y * dx" using assms(3) n(3) by (intro mult_right_mono) auto
    with le assms(3) n(3) show False by (simp add: algebra_simps)
  qed
  then show "near dx D (X + 1) ?Y" using off n assms(2,3) unfolding near_def by auto
qed

lemma steep_step:
  assumes "near dx D X Y" "dx \<le> D" "Y < D"
  shows "step_y dx D X Y" "near dx D (if step_x dx D X Y then X + 1 else X) (Y + 1)"
  using flat_step [OF near_swap [OF assms(1)] assms(2,3)]
  by (auto simp: err_swap [of dx D X Y] dest: near_swap)

definition travelled :: "int \<Rightarrow> int \<Rightarrow> int \<Rightarrow> int \<Rightarrow> int" where
  "travelled dx D X Y = (if D \<le> dx then X else Y)"

lemma near_step:
  assumes "near dx D X Y" "(X, Y) \<noteq> (dx, D)"
    and "X' = (if step_x dx D X Y then X + 1 else X)" "Y' = (if step_y dx D X Y then Y + 1 else Y)"
  shows "near dx D X' Y'" "travelled dx D X' Y' = travelled dx D X Y + 1"
proof -
  have "near dx D X' Y' \<and> X' = X + 1" if "D \<le> dx"
  proof -
    have "X \<noteq> dx" using flat_end [OF assms(1) that] assms(2) by auto
    with assms(1) have "X < dx" by (simp add: near_def)
    then show ?thesis using flat_step [OF assms(1) that] assms(3,4) by auto
  qed
  moreover have "near dx D X' Y' \<and> Y' = Y + 1" if "dx < D"
  proof -
    have "Y \<noteq> D" using flat_end [OF near_swap [OF assms(1)]] that assms(2) by auto
    with assms(1) have "Y < D" by (simp add: near_def)
    then show ?thesis using steep_step [OF assms(1)] that assms(3,4) by auto
  qed
  ultimately show "near dx D X' Y'" "travelled dx D X' Y' = travelled dx D X Y + 1"
    by (cases "D \<le> dx"; simp add: travelled_def)+
qed

lemma near_end: "near dx D X Y \<Longrightarrow> travelled dx D X Y = max dx D \<Longrightarrow> X = dx \<and> Y = D"
  using flat_end [of dx D X Y] flat_end [OF near_swap, of dx D X Y]
  by (auto simp: travelled_def max_def split: if_splits)

lemma travelled_le: "near dx D X Y \<Longrightarrow> 0 \<le> travelled dx D X Y \<and> travelled dx D X Y \<le> max dx D"
  by (auto simp: near_def travelled_def)

text \<open>With end points of moderate size no sum in the loop overflows.\<close>

lemma err_small:
  assumes "near dx D X Y" "dx \<le> 2 ^ 60" "D \<le> 2 ^ 60"
  shows "\<bar>line_err dx D X Y\<bar> \<le> 2 ^ 61"
proof -
  have "line_err dx D X Y = dx - D - (X * D - Y * dx)" by (simp add: line_err_def algebra_simps)
  then show ?thesis using assms unfolding near_def by (auto simp: max_def split: if_splits)
qed

lemma err_step:
  "line_err dx D (X + 1) Y = line_err dx D X Y - D" "line_err dx D X (Y + 1) = line_err dx D X Y + dx"
  by (simp_all add: line_err_def algebra_simps)

abbreviation spot :: "int \<times> int \<Rightarrow> int \<times> int \<Rightarrow> int \<Rightarrow> int \<Rightarrow> int \<times> int" where
  "spot p0 s X Y \<equiv> (fst p0 + fst s * X, snd p0 + snd s * Y)"

definition line_ok :: "int \<times> int \<Rightarrow> int \<times> int \<Rightarrow> int \<Rightarrow> int \<Rightarrow> bool" where
  "line_ok p0 s dx D \<longleftrightarrow> fst s \<in> {-1, 1} \<and> snd s \<in> {-1, 1} \<and> \<bar>fst p0\<bar> \<le> 2 ^ 59 \<and> \<bar>snd p0\<bar> \<le> 2 ^ 59
     \<and> dx \<le> 2 ^ 60 \<and> D \<le> 2 ^ 60"

lemma at_small:
  assumes "line_ok p0 s dx D" "near dx D X Y"
  shows "\<bar>fst (spot p0 s X Y)\<bar> \<le> 2 ^ 61" "\<bar>snd (spot p0 s X Y)\<bar> \<le> 2 ^ 61"
  using assms by (auto simp: line_ok_def near_def)

text \<open>One round of the loop, in the coordinates of the line.\<close>

lemma line_loop_round:
  assumes "line_ok p0 s dx D" "near dx D X Y" "(X, Y) \<noteq> (dx, D)"
    and "X' = (if step_x dx D X Y then X + 1 else X)" "Y' = (if step_y dx D X Y then Y + 1 else Y)"
  shows "line_loop c (dx, - D) s (spot p0 s dx D) (spot p0 s X Y) (line_err dx D X Y) im =
    line_loop c (dx, - D) s (spot p0 s dx D) (spot p0 s X' Y') (line_err dx D X' Y') (set_pixel c (spot p0 s X Y) im)"
proof -
  note n' = near_step [OF assms(2-5)]
  let ?e = "line_err dx D X Y"
  have b: "dx \<le> 2 ^ 60" "D \<le> 2 ^ 60" "0 \<le> dx" "0 \<le> D" using assms(1,2) by (auto simp: line_ok_def near_def)
  have e: "\<bar>?e\<bar> \<le> 2 ^ 61" using err_small [OF assms(2) b(1,2)] .
  have 1: "int64 (2 * ?e) = 2 * ?e" "int64 (?e - D) = ?e - D" "int64 (?e + dx) = ?e + dx" "int64 (?e - D + dx) = ?e - D + dx"
    using e b by (auto intro!: int64_id)
  have 2: "int64 (fst (spot p0 s X' Y')) = fst (spot p0 s X' Y')" "int64 (snd (spot p0 s X' Y')) = snd (spot p0 s X' Y')"
    using at_small [OF assms(1) n'(1)] by (auto intro!: int64_id)
  have 3: "fst p0 + fst s * X + fst s = fst p0 + fst s * (X + 1)" "snd p0 + snd s * Y + snd s = snd p0 + snd s * (Y + 1)"
    by (simp_all add: algebra_simps)
  have ne: "spot p0 s X Y \<noteq> spot p0 s dx D" using assms(1,3) by (auto simp: line_ok_def)
  show ?thesis
    by (subst line_loop.simps) (use 1 2 in \<open>simp add: Let_def if_not_P [OF ne] assms(4,5) err_step 3 del: prod.inject split: if_splits\<close>)
qed

text \<open>The points that the loop visits from a point on the line to its end.\<close>

definition visits :: "int \<times> int \<Rightarrow> int \<times> int \<Rightarrow> int \<Rightarrow> int \<Rightarrow> int \<Rightarrow> int \<Rightarrow> (int \<times> int) list \<Rightarrow> bool" where
  "visits p0 s dx D X Y pts \<longleftrightarrow> pts \<noteq> [] \<and> hd pts = spot p0 s X Y \<and> last pts = spot p0 s dx D
     \<and> int (length pts) = max dx D - travelled dx D X Y + 1 \<and> successively king_move pts
     \<and> list_all (\<lambda>p. \<exists>X Y. p = spot p0 s X Y \<and> near dx D X Y) pts"

lemma king_step:
  assumes "line_ok p0 s dx D" "travelled dx D X' Y' = travelled dx D X Y + 1" "X' \<in> {X, X + 1}" "Y' \<in> {Y, Y + 1}"
  shows "king_move (spot p0 s X Y) (spot p0 s X' Y')"
  using assms by (auto simp: king_move_def line_ok_def travelled_def split: if_splits)

lemma line_loop_visits:
  assumes "line_ok p0 s dx D" "near dx D X Y"
  shows "\<exists>pts. line_loop c (dx, - D) s (spot p0 s dx D) (spot p0 s X Y) (line_err dx D X Y) im = Some (paint c pts im)
    \<and> visits p0 s dx D X Y pts"
  using assms(2)
proof (induction "nat (max dx D - travelled dx D X Y)" arbitrary: X Y im)
  case 0
  then have t: "travelled dx D X Y = max dx D" using travelled_le [OF 0(2)] by (simp add: max_def split: if_splits)
  then have "X = dx" "Y = D" using near_end [OF 0(2)] by auto
  then show ?case using 0
    by (intro exI [of _ "[spot p0 s dx D]"], subst line_loop.simps)
       (auto simp: Let_def paint_def visits_def t [symmetric])
next
  case (Suc k)
  define X' Y' where "X' = (if step_x dx D X Y then X + 1 else X)" and "Y' = (if step_y dx D X Y then Y + 1 else Y)"
  have ne: "(X, Y) \<noteq> (dx, D)" using Suc.hyps(2) by (auto simp: travelled_def max_def split: if_splits)
  note n' = near_step [OF Suc.prems ne X'_def Y'_def]
  have "k = nat (max dx D - travelled dx D X' Y')" using Suc.hyps(2) n'(2) by simp
  from Suc.hyps(1) [OF this n'(1), of "set_pixel c (spot p0 s X Y) im"] obtain pts where pts:
    "line_loop c (dx, - D) s (spot p0 s dx D) (spot p0 s X' Y') (line_err dx D X' Y') (set_pixel c (spot p0 s X Y) im)
       = Some (paint c pts (set_pixel c (spot p0 s X Y) im))" "visits p0 s dx D X' Y' pts" by blast
  have "king_move (spot p0 s X Y) (spot p0 s X' Y')"
    by (rule king_step [OF assms(1) n'(2)]) (auto simp: X'_def Y'_def)
  then have "visits p0 s dx D X Y (spot p0 s X Y # pts)"
    using pts(2) n'(2) Suc.prems by (cases pts) (auto simp: visits_def)
  moreover have "line_loop c (dx, - D) s (spot p0 s dx D) (spot p0 s X Y) (line_err dx D X Y) im
      = Some (paint c (spot p0 s X Y # pts) im)"
    using line_loop_round [OF assms(1) Suc.prems ne X'_def Y'_def] pts(1) by (simp add: paint_def)
  ultimately show ?case by blast
qed

lemma paint_pix:
  "im_w (paint c ps im) = im_w im" "im_h (paint c ps im) = im_h im"
  "im_pix (paint c ps im) p = (if p \<in> set ps \<and> in_bounds im p then c else im_pix im p)"
proof -
  have "im_w (paint c ps im) = im_w im \<and> im_h (paint c ps im) = im_h im
    \<and> im_pix (paint c ps im) p = (if p \<in> set ps \<and> in_bounds im p then c else im_pix im p)"
    unfolding paint_def by (induction ps arbitrary: im) (auto simp: set_pixel_def in_bounds_def)
  then show "im_w (paint c ps im) = im_w im" "im_h (paint c ps im) = im_h im"
    "im_pix (paint c ps im) p = (if p \<in> set ps \<and> in_bounds im p then c else im_pix im p)" by auto
qed

text \<open>The start of a line in these coordinates.\<close>

lemma drawLine_loop:
  assumes "\<bar>x0\<bar> \<le> 2 ^ 59" "\<bar>y0\<bar> \<le> 2 ^ 59" "\<bar>x1\<bar> \<le> 2 ^ 59" "\<bar>y1\<bar> \<le> 2 ^ 59"
    and "dx = \<bar>x1 - x0\<bar>" "D = \<bar>y1 - y0\<bar>" "s = (if x0 > x1 then -1 else 1, if y0 > y1 then -1 else 1)"
  shows "line_ok (x0, y0) s dx D" "near dx D 0 0" "spot (x0, y0) s dx D = (x1, y1)"
    "drawLine im x0 y0 x1 y1 c =
       line_loop c (dx, - D) s (spot (x0, y0) s dx D) (spot (x0, y0) s 0 0) (line_err dx D 0 0) im"
proof -
  have a: "abs_int (int64 (x1 - x0)) = dx" "abs_int (int64 (y1 - y0)) = D" "int64 (- D) = - D" "int64 (dx + - D) = dx - D"
    using assms(1-6) by (auto simp: abs_int_def int64_id)
  show sp: "spot (x0, y0) s dx D = (x1, y1)" using assms(5-7) by auto
  show "line_ok (x0, y0) s dx D" "near dx D 0 0" using assms by (auto simp: line_ok_def near_def)
  show "drawLine im x0 y0 x1 y1 c =
       line_loop c (dx, - D) s (spot (x0, y0) s dx D) (spot (x0, y0) s 0 0) (line_err dx D 0 0) im"
    unfolding sp using a assms(7) by (simp add: drawLine_def Let_def line_err_def)
qed

section \<open>Lemmas on frames\<close>

text \<open>Exact arithmetic; the conversion to \<^verbatim>\<open>int\<close> cuts towards zero.\<close>

definition truncate :: "real \<Rightarrow> int" where
  "truncate x = (if 0 \<le> x then \<lfloor>x\<rfloor> else \<lceil>x\<rceil>)"

definition real_ops :: "real math_ops" where
  "real_ops = \<lparr>mo_int = real_of_int, mo_lit = (\<lambda>n d. real_of_int n / real_of_int d), mo_deg2rad = pi / 180,
     mo_add = (+), mo_sub = (-), mo_mul = (*), mo_div = (/), mo_lt = (<), mo_le = (\<le>), mo_trunc = truncate,
     mo_sin = sin, mo_cos = cos, mo_acos = arccos, mo_atan2 = (\<lambda>y x. Arg (Complex x y)), mo_sqrt = sqrt\<rparr>"

lemma real_ops_sel [simp]:
  "mo_int real_ops = real_of_int" "mo_lit real_ops n d = real_of_int n / real_of_int d" "mo_deg2rad real_ops = pi / 180"
  "mo_add real_ops = (+)" "mo_sub real_ops = (-)" "mo_mul real_ops = (*)" "mo_div real_ops = (/)"
  "mo_lt real_ops = (<)" "mo_le real_ops = (\<le>)" "mo_trunc real_ops = truncate"
  "mo_sin real_ops = sin" "mo_cos real_ops = cos" "mo_acos real_ops = arccos" "mo_sqrt real_ops = sqrt"
  by (simp_all add: real_ops_def)

text \<open>The near side of the sphere is projected into the disc.\<close>

lemma sphere_identity:
  fixes a b c d s t :: real
  assumes "a\<^sup>2 + b\<^sup>2 = 1" "c\<^sup>2 + d\<^sup>2 = 1" "s\<^sup>2 + t\<^sup>2 = 1"
  shows "(a * d)\<^sup>2 + (t * b - s * a * c)\<^sup>2 = 1 - (s * b + t * a * c)\<^sup>2"
proof -
  have "(t * b - s * a * c)\<^sup>2 + (s * b + t * a * c)\<^sup>2 = (s\<^sup>2 + t\<^sup>2) * (b\<^sup>2 + a\<^sup>2 * c\<^sup>2)" by (simp add: power2_eq_square algebra_simps)
  moreover have "(a * d)\<^sup>2 + a\<^sup>2 * c\<^sup>2 = a\<^sup>2 * (c\<^sup>2 + d\<^sup>2)" by (simp add: power2_eq_square algebra_simps)
  ultimately show ?thesis using assms by simp
qed

lemma project_disc:
  assumes "project real_ops lat lon rot tilt cx cy r = Some (x, y)"
  shows "(x - cx)\<^sup>2 + (y - cy)\<^sup>2 \<le> r\<^sup>2"
proof -
  let ?a = "cos (lat * (pi / 180))" and ?b = "sin (lat * (pi / 180))"
  let ?c = "cos (lon * (pi / 180) - rot)" and ?d = "sin (lon * (pi / 180) - rot)"
  have "x - cx = r * (?a * ?d)" "y - cy = - r * (cos tilt * ?b - sin tilt * ?a * ?c)"
    using assms by (auto simp: project_def Let_def split: if_splits)
  then have "(x - cx)\<^sup>2 + (y - cy)\<^sup>2 = r\<^sup>2 * ((?a * ?d)\<^sup>2 + (cos tilt * ?b - sin tilt * ?a * ?c)\<^sup>2)"
    by (simp add: power_mult_distrib distrib_left)
  also have "\<dots> = r\<^sup>2 * (1 - (sin tilt * ?b + cos tilt * ?a * ?c)\<^sup>2)"
    by (subst sphere_identity) (simp_all add: add.commute)
  also have "\<dots> \<le> r\<^sup>2 * 1" by (intro mult_left_mono) auto
  finally show ?thesis by simp
qed

text \<open>In a widget of moderate size a projected point lies in the picture.\<close>

definition small_size :: "int \<times> int \<Rightarrow> bool" where
  "small_size sz \<longleftrightarrow> 0 \<le> fst sz \<and> fst sz \<le> 2 ^ 31 \<and> 0 \<le> snd sz \<and> snd sz \<le> 2 ^ 31"

lemma view_inside:
  assumes "view_of real_ops g lat lon = Some (x, y)" "small_size (gw_size g)"
  shows "0 \<le> truncate x" "truncate x \<le> fst (gw_size g)" "0 \<le> truncate y" "truncate y \<le> snd (gw_size g)"
proof -
  obtain w h where sz: "gw_size g = (w, h)" by fastforce
  define r where "r = real_of_int (min w h) / (22 / 10)"
  have pos: "0 \<le> r" "0 \<le> w" "0 \<le> h" using assms(2) sz by (auto simp: small_size_def r_def)
  then have half: "r \<le> w / 2" "r \<le> h / 2" by (auto simp: r_def min_def)
  have d: "(x - w / 2)\<^sup>2 + (y - h / 2)\<^sup>2 \<le> r\<^sup>2"
    using assms(1) project_disc by (auto simp: view_of_def disc_def sz r_def)
  then have "(x - w / 2)\<^sup>2 \<le> r\<^sup>2" "(y - h / 2)\<^sup>2 \<le> r\<^sup>2"
    using zero_le_power2 [of "x - w / 2"] zero_le_power2 [of "y - h / 2"] by linarith+
  then have "\<bar>x - w / 2\<bar> \<le> r" "\<bar>y - h / 2\<bar> \<le> r"
    using abs_le_square_iff [of _ r] abs_of_nonneg [OF pos(1)] by metis+
  with half have "0 \<le> x" "x \<le> w" "0 \<le> y" "y \<le> h" by auto
  then show "0 \<le> truncate x" "truncate x \<le> fst (gw_size g)" "0 \<le> truncate y" "truncate y \<le> snd (gw_size g)"
    by (auto simp: truncate_def sz floor_le_iff le_floor_iff)
qed

text \<open>Every draw of a frame returns, on pictures of any size.\<close>

definition returns :: "(image \<Rightarrow> image option) \<Rightarrow> bool" where
  "returns d \<longleftrightarrow> (\<forall>im. \<exists>im'. d im = Some im' \<and> im_w im' = im_w im \<and> im_h im' = im_h im)"

lemma returnsD: "returns d \<Longrightarrow> \<exists>im'. d im = Some im' \<and> im_w im' = im_w im \<and> im_h im' = im_h im"
  by (simp add: returns_def)

lemma draw_all_returns: "list_all returns ds \<Longrightarrow> returns (draw_all ds)"
proof (induction ds)
  case (Cons d ds)
  show ?case unfolding returns_def
  proof
    fix im
    obtain im1 where 1: "d im = Some im1" "im_w im1 = im_w im" "im_h im1 = im_h im"
      using Cons.prems returnsD [of d im] by auto
    obtain im2 where "draw_all ds im1 = Some im2" "im_w im2 = im_w im1" "im_h im2 = im_h im1"
      using Cons returnsD [of "draw_all ds" im1] by auto
    with 1 show "\<exists>im'. draw_all (d # ds) im = Some im' \<and> im_w im' = im_w im \<and> im_h im' = im_h im" by simp
  qed
qed (simp add: returns_def)

lemma drawLine_returns:
  assumes "\<bar>x0\<bar> \<le> 2 ^ 59" "\<bar>y0\<bar> \<le> 2 ^ 59" "\<bar>x1\<bar> \<le> 2 ^ 59" "\<bar>y1\<bar> \<le> 2 ^ 59"
  shows "returns (\<lambda>im. drawLine im x0 y0 x1 y1 c)"
  unfolding returns_def
proof
  fix im
  note l = drawLine_loop [OF assms HOL.refl HOL.refl HOL.refl]
  show "\<exists>im'. drawLine im x0 y0 x1 y1 c = Some im' \<and> im_w im' = im_w im \<and> im_h im' = im_h im"
    using line_loop_visits [OF l(1,2), of c im] l(4) [of im c] paint_pix(1,2) by auto
qed

lemma drawDot_size [simp]: "im_w (drawDot im cx cy r c) = im_w im" "im_h (drawDot im cx cy r c) = im_h im"
proof -
  have "im_w (fold (\<lambda>(dx, dy). set_pixel c (f dx, g dy)) ps im) = im_w im
      \<and> im_h (fold (\<lambda>(dx, dy). set_pixel c (f dx, g dy)) ps im) = im_h im" for f g and ps :: "(int \<times> int) list"
    by (induction ps arbitrary: im) (auto simp: set_pixel_def)
  then show "im_w (drawDot im cx cy r c) = im_w im" "im_h (drawDot im cx cy r c) = im_h im"
    by (simp_all add: drawDot_def)
qed

text \<open>Points that a view gives are inside the picture, so segments between them can be drawn.\<close>

abbreviation inside :: "int \<times> int \<Rightarrow> real \<times> real \<Rightarrow> bool" where
  "inside sz p \<equiv> 0 \<le> truncate (fst p) \<and> truncate (fst p) \<le> fst sz \<and> 0 \<le> truncate (snd p) \<and> truncate (snd p) \<le> snd sz"

lemma draw_segment_returns:
  assumes "inside sz p" "inside sz q" "small_size sz" "width \<le> 2"
  shows "returns (draw_segment real_ops c width p q)"
  unfolding draw_segment_def
proof (rule draw_all_returns, simp add: list_all_iff, intro ballI)
  fix w assume "w \<in> {0..<width}"
  with assms(4) have w: "w \<le> 2" by simp
  have b: "0 \<le> truncate (snd p) + int w" "truncate (snd p) + int w \<le> 2 ^ 32"
    "0 \<le> truncate (snd q) + int w" "truncate (snd q) + int w \<le> 2 ^ 32"
    using assms(1-3) w by (auto simp: small_size_def)
  then have "int64 (truncate (snd p) + int w) = truncate (snd p) + int w" "int64 (truncate (snd q) + int w) = truncate (snd q) + int w"
    by (auto intro!: int64_id)
  then show "returns (\<lambda>im. drawLine im (truncate (fst p)) (int64 (truncate (snd p) + int w))
      (truncate (fst q)) (int64 (truncate (snd q) + int w)) c)"
    using assms(1-3) b by (auto intro!: drawLine_returns simp: small_size_def)
qed

lemma arc_loop_returns:
  assumes "\<And>i p. pos i = Some p \<Longrightarrow> inside sz p" "small_size sz" "width \<le> 2"
    and "\<And>p. prev = Some p \<Longrightarrow> inside sz p"
  shows "returns (arc_loop real_ops c width pos is prev)"
  using assms(4)
proof (induction "is" arbitrary: prev)
  case (Cons i "is")
  have IH: "returns (arc_loop real_ops c width pos is (pos i))" by (rule Cons.IH) (rule assms(1))
  show ?case
  proof (cases "\<exists>p q. prev = Some p \<and> pos i = Some q \<and> 0 < i")
    case True
    then obtain p q where pq: "prev = Some p" "pos i = Some q" "0 < i" by blast
    have seg: "returns (draw_segment real_ops c width p q)"
      using draw_segment_returns [OF _ _ assms(2,3), of p q] Cons.prems [OF pq(1)] assms(1) [OF pq(2)] by simp
    have "arc_loop real_ops c width pos (i # is) prev
        = draw_all [draw_segment real_ops c width p q, arc_loop real_ops c width pos is (Some q)]"
      using pq by (auto simp: fun_eq_iff split: option.splits)
    then show ?thesis using draw_all_returns [of "[draw_segment real_ops c width p q, arc_loop real_ops c width pos is (Some q)]"]
      seg IH pq(2) by (simp del: draw_all.simps)
  next
    case False
    then have "arc_loop real_ops c width pos (i # is) prev = arc_loop real_ops c width pos is (pos i)"
      by (auto simp: fun_eq_iff split: option.splits)
    then show ?thesis using IH by simp
  qed
qed (simp add: returns_def)

lemma view_of_inside:
  "view_of real_ops g lat lon = Some p \<Longrightarrow> small_size (gw_size g) \<Longrightarrow> inside (gw_size g) p"
  using view_inside by (cases p) auto

lemma arc_returns:
  assumes "small_size (gw_size g)" "width \<le> 2"
  shows "returns (drawGreatCircleArc real_ops (view_of real_ops g) c width a b)"
  unfolding drawGreatCircleArc_def Let_def
  by (rule arc_loop_returns [OF _ assms]) (auto dest: view_of_inside [OF _ assms(1)] split: prod.splits)

lemma coast_draw_returns:
  assumes "small_size (gw_size g)"
  shows "returns (coast_draw real_ops (view_of real_ops g) ab)"
proof (cases "view_of real_ops g (fst (fst ab)) (snd (fst ab))"; cases "view_of real_ops g (fst (snd ab)) (snd (snd ab))")
  fix p q
  assume v: "view_of real_ops g (fst (fst ab)) (snd (fst ab)) = Some p" "view_of real_ops g (fst (snd ab)) (snd (snd ab)) = Some q"
  have "returns (\<lambda>im. drawLine im (truncate (fst p)) (truncate (snd p)) (truncate (fst q)) (truncate (snd q)) c)" for c
    using view_of_inside [OF v(1) assms] view_of_inside [OF v(2) assms] assms
    by (intro drawLine_returns) (auto simp: small_size_def)
  then show ?thesis by (simp add: returns_def coast_draw_def v)
qed (simp_all add: returns_def coast_draw_def)

lemma coast_returns:
  "small_size (gw_size g) \<Longrightarrow> list_all returns (coast_draws real_ops (view_of real_ops g) coast)"
  by (auto simp: coast_draws_def list_all_iff coast_draw_returns)

lemma node_returns: "returns (node_draw m view node)"
  by (auto simp: returns_def node_draw_def Let_def split: option.splits prod.splits)

lemma path_returns: "small_size (gw_size g) \<Longrightarrow> list_all returns (path_draws real_ops (view_of real_ops g) paths)"
  by (auto simp: path_draws_def list_all_iff arc_returns)

section \<open>Properties\<close>

text \<open>
  C32. A line is drawn and the drawing ends. Between end points whose coordinates have at most 59 bits
  the loop of \<^verbatim>\<open>drawLine\<close> returns, no sum in it overflowing; it visits one pixel per step in the longer
  direction, from the first end point to the second, each a neighbour of the one before it and at
  most half a pixel off the straight line; exactly those of them that lie in the picture get
  the colour, and every other pixel keeps its own.
\<close>

theorem drawLine_draws_line:
  assumes "\<bar>x0\<bar> \<le> 2 ^ 59" "\<bar>y0\<bar> \<le> 2 ^ 59" "\<bar>x1\<bar> \<le> 2 ^ 59" "\<bar>y1\<bar> \<le> 2 ^ 59"
  shows "\<exists>pts im'. drawLine im x0 y0 x1 y1 c = Some im'
    \<and> int (length pts) = max \<bar>x1 - x0\<bar> \<bar>y1 - y0\<bar> + 1 \<and> hd pts = (x0, y0) \<and> last pts = (x1, y1)
    \<and> successively king_move pts
    \<and> list_all (\<lambda>(x, y). 2 * \<bar>(x - x0) * (y1 - y0) - (y - y0) * (x1 - x0)\<bar> \<le> max \<bar>x1 - x0\<bar> \<bar>y1 - y0\<bar>) pts
    \<and> (im_w im', im_h im') = (im_w im, im_h im)
    \<and> im_pix im' = (\<lambda>p. if p \<in> set pts \<and> in_bounds im p then c else im_pix im p)"
proof -
  define dx D s where "dx = \<bar>x1 - x0\<bar>" and "D = \<bar>y1 - y0\<bar>"
    and "s = ((if x0 > x1 then -1 else 1 :: int), (if y0 > y1 then -1 else 1 :: int))"
  note l = drawLine_loop [OF assms dx_def D_def s_def]
  obtain pts where pts: "drawLine im x0 y0 x1 y1 c = Some (paint c pts im)" "visits (x0, y0) s dx D 0 0 pts"
    using line_loop_visits [OF l(1,2), of c im] unfolding l(4) [symmetric] by blast
  have len: "int (length pts) = max dx D + 1" using pts(2) by (auto simp: visits_def travelled_def)
  have off: "2 * \<bar>(x - x0) * (y1 - y0) - (y - y0) * (x1 - x0)\<bar> \<le> max dx D"
    if "(x, y) = spot (x0, y0) s X Y" "near dx D X Y" for x y X Y
  proof -
    have "y1 - y0 = snd s * D" "x1 - x0 = fst s * dx" by (auto simp: s_def dx_def D_def)
    then have "(x - x0) * (y1 - y0) - (y - y0) * (x1 - x0) = fst s * snd s * (X * D - Y * dx)"
      using that(1) by (simp add: algebra_simps)
    then have "\<bar>(x - x0) * (y1 - y0) - (y - y0) * (x1 - x0)\<bar> = \<bar>X * D - Y * dx\<bar>" by (auto simp: s_def abs_mult)
    moreover have "2 * \<bar>e\<bar> \<le> m" if "2 * e \<le> m" "- m \<le> 2 * e" for e m :: int using that by simp
    ultimately show ?thesis using that(2) by (simp add: near_def)
  qed
  have "list_all (\<lambda>(x, y). 2 * \<bar>(x - x0) * (y1 - y0) - (y - y0) * (x1 - x0)\<bar> \<le> max dx D) pts"
    using pts(2) off unfolding visits_def list_all_iff by fast
  then show ?thesis
    using pts len l(3) paint_pix [of c pts im] unfolding dx_def [symmetric] D_def [symmetric]
    by (intro exI [of _ pts] exI [of _ "paint c pts im"]) (auto simp: visits_def)
qed

text \<open>A line of slope one half.\<close>

theorem drawLine_draws_line_witness:
  "\<exists>pts im'. drawLine \<lparr>im_w = 3, im_h = 9, im_pix = (\<lambda>_. nodeColor [])\<rparr> 0 0 4 2 (nodeColor ''exit'') = Some im'
     \<and> length pts = 5 \<and> hd pts = (0, 0) \<and> last pts = (4, 2) \<and> successively king_move pts
     \<and> im_pix im' (4, 2) = nodeColor []"
proof -
  let ?im = "\<lparr>im_w = 3, im_h = 9, im_pix = (\<lambda>_. nodeColor [])\<rparr> :: image"
  obtain pts im' where "drawLine ?im 0 0 4 2 (nodeColor ''exit'') = Some im'" "int (length pts) = max \<bar>4 - 0\<bar> \<bar>2 - 0\<bar> + 1"
    "hd pts = (0, 0)" "last pts = (4, 2)" "successively king_move pts"
    "im_pix im' = (\<lambda>p. if p \<in> set pts \<and> in_bounds ?im p then nodeColor ''exit'' else im_pix ?im p)"
    using drawLine_draws_line [of 0 0 4 2 ?im "nodeColor ''exit''"] by auto
  then show ?thesis by (intro exI [of _ pts] exI [of _ im']) (auto simp: in_bounds_def)
qed

text \<open>
  Every frame is drawn: in exact arithmetic rendering returns for every rotation and tilt, all relays
  and circuits and any coastlines, and the picture has the size of the widget.
\<close>

theorem frame_drawn:
  assumes "small_size (gw_size g)"
  shows "\<exists>im. renderFrame real_ops coast g = Some (g\<lparr>gw_img := im\<rparr>)
    \<and> (10 \<le> fst (gw_size g) \<and> 10 \<le> snd (gw_size g) \<longrightarrow> (im_w im, im_h im) = gw_size g)"
proof (cases "fst (gw_size g) < 10 \<or> snd (gw_size g) < 10")
  case True
  then show ?thesis by (intro exI [of _ "gw_img g"]) (auto simp: renderFrame_def)
next
  case False
  obtain cx cy r where d: "disc real_ops (gw_size g) = (cx, cy, r)" by (meson prod_cases3)
  let ?ds = "coast_draws real_ops (view_of real_ops g) coast @ path_draws real_ops (view_of real_ops g) (gw_paths g)
    @ map (node_draw real_ops (view_of real_ops g)) (gw_nodes g)"
  have "list_all returns ?ds" using coast_returns [OF assms] path_returns [OF assms] by (auto simp: list_all_iff node_returns)
  from returnsD [OF draw_all_returns [OF this], of "ocean real_ops (fst (gw_size g)) (snd (gw_size g)) cx cy r"]
  show ?thesis using False d by (auto simp: renderFrame_def ocean_def)
qed

text \<open>Dragging and keys keep the tilt between the poles.\<close>

theorem tilt_bounded:
  assumes "\<bar>gw_tilt g\<bar> \<le> 90"
  shows "\<bar>gw_tilt (TypedKey real_ops k g)\<bar> \<le> 90" "\<bar>gw_tilt (Dragged real_ops d g)\<bar> \<le> 90"
  using assms by (auto simp: TypedKey_def Dragged_def clamp_tilt_def Let_def split: key.splits)

end
