(* ===== verification/Update_Checker.thy ===== *)
theory Update_Checker
  imports Go_Scan
begin

text \<open>
  The update checker (\<^verbatim>\<open>internal/update/checker.go\<close>): what it makes of the latest release on
  GitHub, the comparison of versions, and the goroutine that checks once a day. What the HTTP
  client and the JSON decoder return is an argument.
\<close>

section \<open>Definitions\<close>

definition Version_current :: string where "Version_current = ''0.1.0''"

record GitHubRelease =
  TagName :: string
  HTMLURL :: string

record UpdateInfo =
  up_Available :: bool
  up_NewVersion :: string
  up_ReleaseURL :: string
  up_DownloadURL :: string

text \<open>The observers are numbered; \<open>ck_calls\<close> lists the calls of them in order.\<close>

record Checker =
  ck_owner :: string
  ck_repo :: string
  ck_observers :: nat
  ck_latest :: UpdateInfo
  ck_done :: bool
  ck_calls :: "(nat \<times> UpdateInfo) list"

definition no_update :: UpdateInfo where
  "no_update = \<lparr>up_Available = False, up_NewVersion = [], up_ReleaseURL = [], up_DownloadURL = []\<rparr>"

definition NewChecker :: "string \<Rightarrow> string \<Rightarrow> Checker" where
  "NewChecker owner repo = \<lparr>ck_owner = owner, ck_repo = repo, ck_observers = 0, ck_latest = no_update,
     ck_done = False, ck_calls = []\<rparr>"

definition OnUpdate :: "Checker \<Rightarrow> Checker" where
  "OnUpdate c = c\<lparr>ck_observers := ck_observers c + 1\<rparr>"

definition checker_Stop :: "Checker \<Rightarrow> Checker" where
  "checker_Stop c = (if ck_done c then c else c\<lparr>ck_done := True\<rparr>)"

text \<open>The number of a part of a version, 0 when it is missing or no number.\<close>

definition part_value :: "string list \<Rightarrow> nat \<Rightarrow> int" where
  "part_value parts i =
     (if i < length parts then (case sscanf_d (parts ! i) of None \<Rightarrow> 0 | Some v \<Rightarrow> v) else 0)"

fun compare_parts :: "nat \<Rightarrow> nat \<Rightarrow> string list \<Rightarrow> string list \<Rightarrow> int" where
  "compare_parts 0 i as bs = 0"
| "compare_parts (Suc k) i as bs =
     (let av = part_value as i; bv = part_value bs i in
      if av < bv then -1 else if av > bv then 1 else compare_parts k (Suc i) as bs)"

definition compareVersions :: "string \<Rightarrow> string \<Rightarrow> int" where
  "compareVersions a b =
     compare_parts 3 0 (split_on (CHR ''.'') (trim_prefix a ''v'')) (split_on (CHR ''.'') (trim_prefix b ''v''))"

text \<open>\<open>get\<close> is the response for a URL, status and body, and \<open>decode\<close> the JSON decoder.\<close>

definition fetchLatest ::
  "(string \<Rightarrow> (int \<times> string) res) \<Rightarrow> (string \<Rightarrow> GitHubRelease res) \<Rightarrow> Checker \<Rightarrow> UpdateInfo res" where
  "fetchLatest get decode c =
     (let url = ''https://api.github.com/repos/'' @ ck_owner c @ ''/'' @ ck_repo c @ ''/releases/latest'' in
      case get url of
        Inl err \<Rightarrow> Inl (wrap ''fetch release'' err)
      | Inr (status, body) \<Rightarrow>
          (if status \<noteq> 200 then Inl (ErrMsg (''github API status '' @ itoa status))
           else case decode body of
             Inl err \<Rightarrow> Inl (wrap ''decode release'' err)
           | Inr release \<Rightarrow>
               (let tag = trim_prefix (TagName release) ''v'' in
                if tag = [] then Inl (ErrMsg ''empty release tag'')
                else Inr \<lparr>up_Available = compareVersions Version_current tag < 0, up_NewVersion = tag,
                          up_ReleaseURL = HTMLURL release, up_DownloadURL = []\<rparr>)))"

definition check ::
  "(string \<Rightarrow> (int \<times> string) res) \<Rightarrow> (string \<Rightarrow> GitHubRelease res) \<Rightarrow> Checker \<Rightarrow> Checker" where
  "check get decode c =
     (case fetchLatest get decode c of
        Inl _ \<Rightarrow> c
      | Inr info \<Rightarrow>
          (let changed = (up_Available info \<noteq> up_Available (ck_latest c) \<or> up_NewVersion info \<noteq> up_NewVersion (ck_latest c)) in
           c\<lparr>ck_latest := info,
             ck_calls := ck_calls c @ (if changed then map (\<lambda>i. (i, info)) [0..<ck_observers c] else [])\<rparr>))"

text \<open>The goroutine: a check at once, then one per tick, until \<^verbatim>\<open>done\<close> is closed. The list gives the
  responses of the checks; with a tick and \<^verbatim>\<open>done\<close> both ready either is taken, so the number of
  checks is any.\<close>

fun checks :: "(string \<Rightarrow> GitHubRelease res) \<Rightarrow> (string \<Rightarrow> (int \<times> string) res) list \<Rightarrow> Checker \<Rightarrow> Checker" where
  "checks decode [] c = c"
| "checks decode (get # gets) c = checks decode gets (check get decode c)"

section \<open>Lemmas\<close>

text \<open>The three numbers of a version, and their lexicographic comparison.\<close>

definition version_key :: "string \<Rightarrow> int \<times> int \<times> int" where
  "version_key s =
     (let parts = split_on (CHR ''.'') (trim_prefix s ''v'') in (part_value parts 0, part_value parts 1, part_value parts 2))"

fun key_less :: "int \<times> int \<times> int \<Rightarrow> int \<times> int \<times> int \<Rightarrow> bool" where
  "key_less (a, b, c) (x, y, z) \<longleftrightarrow> a < x \<or> (a = x \<and> (b < y \<or> (b = y \<and> c < z)))"

lemma compare_key:
  "compareVersions a b =
     (if key_less (version_key a) (version_key b) then -1
      else if key_less (version_key b) (version_key a) then 1 else 0)"
  by (auto simp: compareVersions_def version_key_def numeral_3_eq_3 numeral_2_eq_2 Let_def)

lemma key_less_order: "key_less p q \<Longrightarrow> \<not> key_less q p" "key_less p q \<Longrightarrow> key_less q r \<Longrightarrow> key_less p r"
  by (cases p; cases q; cases r; auto)+

lemma compare_flip: "compareVersions a b = - compareVersions b a"
  using key_less_order(1) [of "version_key a" "version_key b"] by (simp add: compare_key)

lemma compare_trans: "compareVersions a b < 0 \<Longrightarrow> compareVersions b d < 0 \<Longrightarrow> compareVersions a d < 0"
  using key_less_order(2) [of "version_key a" "version_key b" "version_key d"] by (simp add: compare_key split: if_splits)

lemma part_value_number:
  "i < length ps \<Longrightarrow> ps ! i = digits_of n \<Longrightarrow> n < 2 ^ 63 \<Longrightarrow> part_value ps i = int n"
  using sscanf_d_number [of n "[]"] by (simp add: part_value_def)

text \<open>The text of a release: three numbers, with or without the letter.\<close>

definition version_text :: "nat \<Rightarrow> nat \<Rightarrow> nat \<Rightarrow> string" where
  "version_text x y z = join ''.'' [digits_of x, digits_of y, digits_of z]"

lemma digits_no_dot: "CHR ''.'' \<notin> set (digits_of n)"
  using digits_of_digits [of n] by (auto simp: list_all_iff is_digit_def)

lemma version_parts: "split_on (CHR ''.'') (version_text x y z) = [digits_of x, digits_of y, digits_of z]"
  unfolding version_text_def by (rule split_on_join) (simp_all add: digits_no_dot)

lemma version_no_v: "has_prefix (version_text x y z @ r) ''v'' = False" "version_text x y z \<noteq> []"
proof -
  obtain c cs where c: "digits_of x = c # cs" "is_digit c"
    using digits_of_digits [of x] digits_of_nonempty [of x] by (cases "digits_of x") auto
  then show "has_prefix (version_text x y z @ r) ''v'' = False" "version_text x y z \<noteq> []"
    by (auto simp: version_text_def is_digit_def)
qed

lemma trim_version [simp]: "trim_prefix (version_text x y z) ''v'' = version_text x y z"
  "trim_prefix (CHR ''v'' # version_text x y z) ''v'' = version_text x y z"
  using version_no_v(1) [of x y z "[]"] by (simp_all add: trim_prefix_def)

lemma version_key_text:
  "x < 2 ^ 63 \<Longrightarrow> y < 2 ^ 63 \<Longrightarrow> z < 2 ^ 63 \<Longrightarrow> version_key (version_text x y z) = (int x, int y, int z)"
  by (simp add: version_key_def version_parts part_value_number Let_def)

lemma current_key: "version_key Version_current = (0, 1, 0)"
proof -
  have "Version_current = version_text 0 1 0" by code_simp
  then show ?thesis using version_key_text [of 0 1 0] by simp
qed

text \<open>The infos that differ from the one before in what the observers are told about.\<close>

fun changes :: "UpdateInfo \<Rightarrow> UpdateInfo list \<Rightarrow> UpdateInfo list" where
  "changes prev [] = []"
| "changes prev (i # is) =
     (if up_Available i \<noteq> up_Available prev \<or> up_NewVersion i \<noteq> up_NewVersion prev then i # changes i is else changes i is)"

definition successes ::
  "(string \<Rightarrow> GitHubRelease res) \<Rightarrow> Checker \<Rightarrow> (string \<Rightarrow> (int \<times> string) res) list \<Rightarrow> UpdateInfo list" where
  "successes decode c gets = concat (map (\<lambda>get. case fetchLatest get decode c of Inl _ \<Rightarrow> [] | Inr i \<Rightarrow> [i]) gets)"

lemma fetch_same:
  "ck_owner c = ck_owner d \<Longrightarrow> ck_repo c = ck_repo d \<Longrightarrow> fetchLatest get decode c = fetchLatest get decode d"
  by (simp add: fetchLatest_def)

lemma checks_calls:
  "ck_owner c = ck_owner d \<Longrightarrow> ck_repo c = ck_repo d \<Longrightarrow>
   ck_calls (checks decode gets c) = ck_calls c @
     concat (map (\<lambda>i. map (\<lambda>k. (k, i)) [0..<ck_observers c]) (changes (ck_latest c) (successes decode d gets)))
   \<and> ck_latest (checks decode gets c) = last (ck_latest c # successes decode d gets)"
proof (induction gets arbitrary: c)
  case Nil
  then show ?case by (simp add: successes_def)
next
  case (Cons get gets)
  have f: "fetchLatest get decode c = fetchLatest get decode d" using Cons.prems by (rule fetch_same)
  have "ck_owner (check get decode c) = ck_owner d" "ck_repo (check get decode c) = ck_repo d"
    using Cons.prems by (auto simp: check_def Let_def split: sum.splits)
  from Cons.IH [OF this] show ?case by (auto simp: check_def f successes_def Let_def split: sum.splits)
qed

section \<open>Properties\<close>

text \<open>
  When an update is announced. The comparison of versions is a total preorder on all strings
  (swapping the arguments flips the sign, and being older is transitive), it decides the
  lexicographic order of the three numbers, and a release tagged with three numbers, with or
  without the letter v in front, counts as available exactly when its numbers are greater than
  those of the running version 0.1.0.
\<close>

theorem update_available_iff:
  assumes "decode body = Inr \<lparr>TagName = p @ version_text x y z, HTMLURL = u\<rparr>" "p = [] \<or> p = ''v''"
    and "x < 2 ^ 63" "y < 2 ^ 63" "z < 2 ^ 63"
  shows "fetchLatest (\<lambda>_. Inr (200, body)) decode c =
      Inr \<lparr>up_Available = (0 < x \<or> 1 < y \<or> (y = 1 \<and> 0 < z)), up_NewVersion = version_text x y z,
           up_ReleaseURL = u, up_DownloadURL = []\<rparr>
    \<and> compareVersions a b = - compareVersions b a
    \<and> (compareVersions a b < 0 \<and> compareVersions b d < 0 \<longrightarrow> compareVersions a d < 0)"
proof -
  have tag: "trim_prefix (p @ version_text x y z) ''v'' = version_text x y z" using assms(2) by auto
  have "compareVersions Version_current (version_text x y z) < 0 \<longleftrightarrow> key_less (0, 1, 0) (int x, int y, int z)"
    by (auto simp: compare_key current_key version_key_text [OF assms(3-5)])
  then have "fetchLatest (\<lambda>_. Inr (200, body)) decode c =
      Inr \<lparr>up_Available = (0 < x \<or> 1 < y \<or> (y = 1 \<and> 0 < z)), up_NewVersion = version_text x y z,
           up_ReleaseURL = u, up_DownloadURL = []\<rparr>"
    using version_no_v(2) by (auto simp: fetchLatest_def assms(1) tag Let_def)
  then show ?thesis using compare_flip compare_trans by blast
qed

theorem update_available_iff_witness:
  "fetchLatest (\<lambda>_. Inr (200, ''{}'')) (\<lambda>_. Inr \<lparr>TagName = ''v0.10.2'', HTMLURL = ''u''\<rparr>) (NewChecker ''o'' ''r'') =
     Inr \<lparr>up_Available = True, up_NewVersion = ''0.10.2'', up_ReleaseURL = ''u'', up_DownloadURL = []\<rparr>"
proof -
  have t: "version_text 0 10 2 = ''0.10.2''" by code_simp
  have "fetchLatest (\<lambda>_. Inr (200, ''{}'')) (\<lambda>_. Inr \<lparr>TagName = ''v'' @ version_text 0 10 2, HTMLURL = ''u''\<rparr>) (NewChecker ''o'' ''r'') =
     Inr \<lparr>up_Available = True, up_NewVersion = version_text 0 10 2, up_ReleaseURL = ''u'', up_DownloadURL = []\<rparr>"
    using update_available_iff [where p = "''v''" and x = 0 and y = 10 and z = 2 and u = "''u''" and body = "''{}''"
      and decode = "\<lambda>_. Inr \<lparr>TagName = ''v'' @ version_text 0 10 2, HTMLURL = ''u''\<rparr>"] by simp
  then show ?thesis by (simp add: t)
qed

text \<open>
  Notifications of updates. For any sequence of checks, failed ones included, every observer
  registered before is called once, in the order of registration, for each successful check
  whose availability or version differs from that of the successful check before, and for no
  other; \<^verbatim>\<open>Latest\<close> is the result of the last successful check.
\<close>

theorem update_notifications:
  "ck_calls (checks decode gets ((OnUpdate ^^ k) (NewChecker owner repo))) =
     concat (map (\<lambda>i. map (\<lambda>j. (j, i)) [0..<k]) (changes no_update (successes decode (NewChecker owner repo) gets)))
   \<and> ck_latest (checks decode gets ((OnUpdate ^^ k) (NewChecker owner repo))) =
     last (no_update # successes decode (NewChecker owner repo) gets)"
proof -
  have "(OnUpdate ^^ k) (NewChecker owner repo) = (NewChecker owner repo)\<lparr>ck_observers := k\<rparr>"
    by (induction k) (simp_all add: OnUpdate_def NewChecker_def)
  then show ?thesis
    using checks_calls [of "(NewChecker owner repo)\<lparr>ck_observers := k\<rparr>" "NewChecker owner repo" decode gets]
    by (simp add: NewChecker_def)
qed

end
