(* ===== verification/Go_Sha256.thy ===== *)
theory Go_Sha256
  imports Go_Prelude "HOL-Library.Word"
begin

text \<open>
  Packages \<^verbatim>\<open>crypto/sha256\<close> and \<^verbatim>\<open>crypto/hmac\<close> of the Go library as the network manager uses them:
  HMAC-SHA256 over byte strings, on 32-bit words with wrap-around addition.
\<close>

unbundle bit_operations_syntax

type_synonym w32 = "32 word"
type_synonym byte = "8 word"

text \<open>The round constants and the initial state, in decimal.\<close>

definition sha_k :: "w32 list" where
  "sha_k =
     [1116352408, 1899447441, 3049323471, 3921009573, 961987163, 1508970993, 2453635748, 2870763221,
      3624381080, 310598401, 607225278, 1426881987, 1925078388, 2162078206, 2614888103, 3248222580,
      3835390401, 4022224774, 264347078, 604807628, 770255983, 1249150122, 1555081692, 1996064986,
      2554220882, 2821834349, 2952996808, 3210313671, 3336571891, 3584528711, 113926993, 338241895,
      666307205, 773529912, 1294757372, 1396182291, 1695183700, 1986661051, 2177026350, 2456956037,
      2730485921, 2820302411, 3259730800, 3345764771, 3516065817, 3600352804, 4094571909, 275423344,
      430227734, 506948616, 659060556, 883997877, 958139571, 1322822218, 1537002063, 1747873779,
      1955562222, 2024104815, 2227730452, 2361852424, 2428436474, 2756734187, 3204031479, 3329325298]"

definition sha_init :: "w32 list" where
  "sha_init = [1779033703, 3144134277, 1013904242, 2773480762, 1359893119, 2600822924, 528734635, 1541459225]"

definition rotr :: "nat \<Rightarrow> w32 \<Rightarrow> w32" where
  "rotr n x = (drop_bit n x) OR (push_bit (32 - n) x)"

text \<open>Big-endian reading and writing.\<close>

definition be_word :: "byte list \<Rightarrow> w32" where
  "be_word bs = foldl (\<lambda>a b. push_bit 8 a OR ucast b) 0 bs"

definition be_bytes :: "nat \<Rightarrow> 'a::len word \<Rightarrow> byte list" where
  "be_bytes len w = map (\<lambda>i. ucast (drop_bit (8 * i) w)) (rev [0..<len])"

text \<open>The padding: a bit, zeros up to 56 modulo 64, and the length in bits in eight bytes.\<close>

definition sha_pad :: "byte list \<Rightarrow> byte list" where
  "sha_pad m =
     m @ [0x80] @ replicate ((119 - length m mod 64) mod 64) 0
     @ be_bytes 8 (8 * word_of_int (int (length m)) :: 64 word)"

fun chunks :: "nat \<Rightarrow> nat \<Rightarrow> 'a list \<Rightarrow> 'a list list" where
  "chunks 0 k xs = []"
| "chunks (Suc n) k xs = take k xs # chunks n k (drop k xs)"

text \<open>The message schedule, with the latest word first.\<close>

fun schedule :: "nat \<Rightarrow> w32 list \<Rightarrow> w32 list" where
  "schedule 0 ws = ws"
| "schedule (Suc n) ws =
     (let a = ws ! 14; b = ws ! 1;
          s0 = rotr 7 a XOR rotr 18 a XOR drop_bit 3 a;
          s1 = rotr 17 b XOR rotr 19 b XOR drop_bit 10 b
      in schedule n ((ws ! 15 + s0 + ws ! 6 + s1) # ws))"

fun sha_round :: "w32 list \<Rightarrow> w32 \<times> w32 \<Rightarrow> w32 list" where
  "sha_round [a, b, c, d, e, f, g, h] (k, w) =
     (let t1 = h + (rotr 6 e XOR rotr 11 e XOR rotr 25 e) + ((e AND f) XOR (NOT e AND g)) + k + w;
          t2 = (rotr 2 a XOR rotr 13 a XOR rotr 22 a) + ((a AND b) XOR (a AND c) XOR (b AND c))
      in [t1 + t2, a, b, c, d + t1, e, f, g])"
| "sha_round s kw = s"

definition sha_block :: "w32 list \<Rightarrow> byte list \<Rightarrow> w32 list" where
  "sha_block h block =
     (let ws = rev (schedule 48 (rev (map be_word (chunks 16 4 block))))
      in map2 (+) h (foldl sha_round h (zip sha_k ws)))"

definition sha256 :: "byte list \<Rightarrow> byte list" where
  "sha256 m =
     (let p = sha_pad m
      in concat (map (\<lambda>w. be_bytes 4 w) (foldl sha_block sha_init (chunks (length p div 64) 64 p))))"

text \<open>\<^verbatim>\<open>hmac.New(sha256.New, key)\<close>, one \<^verbatim>\<open>Write\<close> and \<^verbatim>\<open>Sum\<close>.\<close>

definition hmac_sha256 :: "byte list \<Rightarrow> byte list \<Rightarrow> byte list" where
  "hmac_sha256 key msg =
     (let k0 = (if length key > 64 then sha256 key else key);
          k = k0 @ replicate (64 - length k0) 0
      in sha256 (map ((XOR) 0x5C) k @ sha256 (map ((XOR) 0x36) k @ msg)))"

definition bytes_of :: "string \<Rightarrow> byte list" where
  "bytes_of s = map (\<lambda>c. word_of_int (of_char c)) s"

definition string_of :: "byte list \<Rightarrow> string" where
  "string_of bs = map (\<lambda>b. char_of (uint b)) bs"

lemma sha_round_length: "length s = 8 \<Longrightarrow> length (sha_round s kw) = 8"
  by (induction s kw rule: sha_round.induct) (simp_all add: Let_def)

lemma sha_rounds_length: "length s = 8 \<Longrightarrow> length (foldl sha_round s kws) = 8"
  by (induction kws arbitrary: s) (simp_all add: sha_round_length)

lemma sha_blocks_length: "length s = 8 \<Longrightarrow> length (foldl sha_block s bs) = 8"
  by (induction bs arbitrary: s) (simp_all add: sha_block_def Let_def sha_rounds_length)

lemma sha256_length: "length (sha256 m) = 32"
proof -
  have "length (foldl sha_block sha_init bs) = 8" for bs
    by (rule sha_blocks_length) (simp add: sha_init_def)
  moreover have "length (concat (map (be_bytes 4) ws)) = 4 * length ws" for ws :: "w32 list"
    by (induction ws) (simp_all add: be_bytes_def)
  ultimately show ?thesis by (simp add: sha256_def Let_def)
qed

lemma hmac_length: "length (hmac_sha256 k m) = 32"
  by (simp add: hmac_sha256_def Let_def sha256_length)

end
