(* ===== verification/Network.thy ===== *)
theory Network
  imports Qemu_Args Go_Sha256
begin

text \<open>
  Package \<^verbatim>\<open>network\<close>: the managers of the three systems, the integrity check of a saved
  configuration, and the route verifier. The interface \<^verbatim>\<open>Manager\<close> is the locale
  \<open>network_manager\<close>, interpreted on the three managers.

  The managers work by running commands and writing files. What they did so far is a list of
  operations; the host is an argument that answers an operation, given those before it, with
  its output and its error, so nothing is assumed about it.
\<close>

section \<open>The host\<close>

datatype hostop = Exec string "string list" | MkdirAll string nat | WriteFile string string nat | RemoveFile string

type_synonym trace = "hostop list"
type_synonym host = "trace \<Rightarrow> hostop \<Rightarrow> string \<times> goerr option"

definition perform :: "host \<Rightarrow> hostop \<Rightarrow> trace \<Rightarrow> (string \<times> goerr option) \<times> trace" where
  "perform h opn tr = (h tr opn, tr @ [opn])"

text \<open>\<^verbatim>\<open>%v\<close> of a slice of strings.\<close>

definition show_slice :: "string list \<Rightarrow> string" where
  "show_slice ss = ''['' @ join '' '' ss @ '']''"

definition run :: "host \<Rightarrow> string \<Rightarrow> string list \<Rightarrow> trace \<Rightarrow> goerr option \<times> trace" where
  "run h name args tr =
     (case perform h (Exec name args) tr of
        ((out, Some e), tr') \<Rightarrow> (Some (wrap (name @ '' '' @ show_slice args @ '': '' @ out) e), tr')
      | ((_, None), tr') \<Rightarrow> (None, tr'))"

text \<open>\<^verbatim>\<open>exec.Command(...).Output()\<close>.\<close>

definition cmd_output :: "host \<Rightarrow> string \<Rightarrow> string list \<Rightarrow> trace \<Rightarrow> string res \<times> trace" where
  "cmd_output h name args tr =
     (case perform h (Exec name args) tr of
        ((_, Some e), tr') \<Rightarrow> (Inl e, tr')
      | ((out, None), tr') \<Rightarrow> (Inr out, tr'))"

text \<open>Sequencing of calls that return an error, with the text each error is wrapped in.\<close>

definition wrapped :: "string \<Rightarrow> goerr option \<times> trace \<Rightarrow> goerr option \<times> trace" where
  "wrapped what = apfst (map_option (wrap what))"

definition and_run :: "goerr option \<times> trace \<Rightarrow> (trace \<Rightarrow> goerr option \<times> trace) \<Rightarrow> goerr option \<times> trace" where
  "and_run r k = (case r of (Some e, tr) \<Rightarrow> (Some e, tr) | (None, tr) \<Rightarrow> k tr)"

text \<open>A call whose error is dropped.\<close>

definition ignoring :: "goerr option \<times> trace \<Rightarrow> trace" where
  "ignoring r = snd r"

section \<open>Saved configurations\<close>

record SavedConfig =
  sc_Data :: string
  sc_Platform :: string
  sc_HMAC :: string

type_synonym session_key = "string option"

definition newSessionKey :: "randomness \<Rightarrow> session_key" where
  "newSessionKey rnd = (case rnd 32 of Inl _ \<Rightarrow> None | Inr key \<Rightarrow> Some key)"

definition computeHMAC :: "session_key \<Rightarrow> string \<Rightarrow> string" where
  "computeHMAC key data =
     (case key of
        None \<Rightarrow> []
      | Some k \<Rightarrow> hex_encode (string_of (hmac_sha256 (bytes_of k) (bytes_of data))))"

definition verifyHMAC :: "session_key \<Rightarrow> string \<Rightarrow> string \<Rightarrow> goerr option" where
  "verifyHMAC key data expected =
     (if key = None then None
      else if expected = [] then Some (ErrMsg ''saved config has no HMAC; integrity cannot be verified'')
      else if computeHMAC key data \<noteq> expected
        then Some (ErrMsg ''saved config HMAC mismatch; data may have been tampered with'')
      else None)"

definition signed_config :: "session_key \<Rightarrow> string \<Rightarrow> string \<Rightarrow> SavedConfig" where
  "signed_config key platform out = \<lparr>sc_Data = out, sc_Platform = platform, sc_HMAC = computeHMAC key out\<rparr>"

text \<open>The two checks each \<^verbatim>\<open>RestoreConfig\<close> starts with.\<close>

definition check_saved :: "session_key \<Rightarrow> string \<Rightarrow> SavedConfig option \<Rightarrow> goerr option" where
  "check_saved key platform cfg =
     (case cfg of
        None \<Rightarrow> Some (ErrMsg (''invalid saved config for '' @ platform))
      | Some c \<Rightarrow>
          (if sc_Platform c \<noteq> platform then Some (ErrMsg (''invalid saved config for '' @ platform))
           else map_option (wrap ''saved config integrity check failed'') (verifyHMAC key (sc_Data c) (sc_HMAC c))))"

section \<open>Linux\<close>

definition linux_CreateTAP :: "host \<Rightarrow> string \<Rightarrow> ip \<Rightarrow> ip \<Rightarrow> nat list \<Rightarrow> trace \<Rightarrow> goerr option \<times> trace" where
  "linux_CreateTAP h name hostIP vmIP msk tr =
     and_run (wrapped ''create tap'' (run h ''ip'' [''tuntap'', ''add'', ''dev'', name, ''mode'', ''tap''] tr)) (\<lambda>tr.
     and_run (wrapped ''set tap address''
                (run h ''ip'' [''addr'', ''add'', ip_string hostIP @ ''/'' @ itoa (int (mask_ones msk)), ''dev'', name] tr)) (\<lambda>tr.
     wrapped ''bring tap up'' (run h ''ip'' [''link'', ''set'', name, ''up''] tr)))"

definition linux_DestroyTAP :: "host \<Rightarrow> string \<Rightarrow> trace \<Rightarrow> goerr option \<times> trace" where
  "linux_DestroyTAP h name tr = run h ''ip'' [''tuntap'', ''del'', ''dev'', name, ''mode'', ''tap''] tr"

definition linux_SaveConfig :: "host \<Rightarrow> session_key \<Rightarrow> trace \<Rightarrow> SavedConfig res \<times> trace" where
  "linux_SaveConfig h key tr =
     (case cmd_output h ''ip'' [''route'', ''show''] tr of
        (Inl e, tr') \<Rightarrow> (Inl (wrap ''save routes'' e), tr')
      | (Inr out, tr') \<Rightarrow> (Inr (signed_config key ''linux'' out), tr'))"

definition linux_RestoreConfig :: "session_key \<Rightarrow> SavedConfig option \<Rightarrow> trace \<Rightarrow> goerr option \<times> trace" where
  "linux_RestoreConfig key cfg tr = (check_saved key ''linux'' cfg, tr)"

definition linux_SetupRouting :: "host \<Rightarrow> string \<Rightarrow> ip \<Rightarrow> trace \<Rightarrow> goerr option \<times> trace" where
  "linux_SetupRouting h tapName vmIP tr =
     wrapped ''add default route''
       (run h ''ip'' [''route'', ''add'', ''default'', ''via'', ip_string vmIP, ''dev'', tapName, ''metric'', ''50''] tr)"

definition linux_TeardownRouting :: "host \<Rightarrow> trace \<Rightarrow> goerr option \<times> trace" where
  "linux_TeardownRouting h tr = (None, ignoring (run h ''ip'' [''route'', ''del'', ''default'', ''metric'', ''50''] tr))"

definition linux_FlushDNS :: "host \<Rightarrow> trace \<Rightarrow> goerr option \<times> trace" where
  "linux_FlushDNS h tr = (None, ignoring (run h ''resolvectl'' [''flush-caches''] tr))"

section \<open>macOS\<close>

definition darwin_CreateTAP :: "string \<Rightarrow> ip \<Rightarrow> ip \<Rightarrow> nat list \<Rightarrow> trace \<Rightarrow> goerr option \<times> trace" where
  "darwin_CreateTAP name hostIP vmIP msk tr = (None, tr)"

definition darwin_DestroyTAP :: "string \<Rightarrow> trace \<Rightarrow> goerr option \<times> trace" where
  "darwin_DestroyTAP name tr = (None, tr)"

definition darwin_SaveConfig :: "host \<Rightarrow> session_key \<Rightarrow> trace \<Rightarrow> SavedConfig res \<times> trace" where
  "darwin_SaveConfig h key tr =
     (case cmd_output h ''netstat'' [''-rn''] tr of
        (Inl e, tr') \<Rightarrow> (Inl (wrap ''save routes'' e), tr')
      | (Inr out, tr') \<Rightarrow> (Inr (signed_config key ''darwin'' out), tr'))"

definition darwin_RestoreConfig :: "session_key \<Rightarrow> SavedConfig option \<Rightarrow> trace \<Rightarrow> goerr option \<times> trace" where
  "darwin_RestoreConfig key cfg tr = (check_saved key ''darwin'' cfg, tr)"

definition darwin_SetupRouting :: "host \<Rightarrow> string \<Rightarrow> ip \<Rightarrow> trace \<Rightarrow> goerr option \<times> trace" where
  "darwin_SetupRouting h tapName vmIP tr =
     and_run (wrapped ''add route 0.0.0.0/1'' (run h ''route'' [''-n'', ''add'', ''-net'', ''0.0.0.0/1'', ip_string vmIP] tr)) (\<lambda>tr.
     wrapped ''add route 128.0.0.0/1'' (run h ''route'' [''-n'', ''add'', ''-net'', ''128.0.0.0/1'', ip_string vmIP] tr))"

definition darwin_TeardownRouting :: "host \<Rightarrow> trace \<Rightarrow> goerr option \<times> trace" where
  "darwin_TeardownRouting h tr =
     (let tr = ignoring (run h ''route'' [''-n'', ''delete'', ''-net'', ''0.0.0.0/1''] tr);
          tr = ignoring (run h ''route'' [''-n'', ''delete'', ''-net'', ''128.0.0.0/1''] tr)
      in (None, tr))"

definition darwin_FlushDNS :: "host \<Rightarrow> trace \<Rightarrow> goerr option \<times> trace" where
  "darwin_FlushDNS h tr =
     (let tr = ignoring (run h ''dscacheutil'' [''-flushcache''] tr);
          tr = ignoring (run h ''killall'' [''-HUP'', ''mDNSResponder''] tr)
      in (None, tr))"

section \<open>Windows\<close>

text \<open>\<open>exe_dir\<close> is the directory of \<^verbatim>\<open>os.Executable()\<close>, or the error of that call.\<close>

definition windows_state_dir :: "string res \<Rightarrow> string" where
  "windows_state_dir exe_dir = (case exe_dir of Inl _ \<Rightarrow> ''state'' | Inr d \<Rightarrow> filepath_join Windows [d, ''state''])"

definition windows_CreateTAP :: "host \<Rightarrow> string \<Rightarrow> ip \<Rightarrow> ip \<Rightarrow> nat list \<Rightarrow> trace \<Rightarrow> goerr option \<times> trace" where
  "windows_CreateTAP h name hostIP vmIP msk tr =
     wrapped ''configure tap address''
       (run h ''netsh'' [''interface'', ''ip'', ''set'', ''address'', name, ''static'', ip_string hostIP, ip_string msk,
                         ip_string vmIP, ''1''] tr)"

definition windows_DestroyTAP :: "host \<Rightarrow> string \<Rightarrow> trace \<Rightarrow> goerr option \<times> trace" where
  "windows_DestroyTAP h name tr =
     (None, ignoring (run h ''netsh'' [''interface'', ''ip'', ''delete'', ''address'', name, ''all''] tr))"

text \<open>
  \<^verbatim>\<open>bufio.Scanner\<close>: lines end at a line feed and lose one carriage return before it; no token
  follows a final line feed; a line of 65536 bytes or more does not fit the buffer and ends the
  scan with an error.
\<close>

definition scan_lines :: "string \<Rightarrow> string list" where
  "scan_lines data = (let ls = split_on NL data in if last ls = [] then butlast ls else ls)"

definition scan_max :: nat where "scan_max = 65536"

definition drop_cr :: "string \<Rightarrow> string" where
  "drop_cr l = (if l \<noteq> [] \<and> last l = CR then butlast l else l)"

definition safePrefixes :: "string list" where
  "safePrefixes = [''set address'', ''add dns'', ''set dns'', ''add wins'', ''set wins'', ''pushd'', ''popd'',
     ''set interface'', ''add address'']"

definition netsh_line_ok :: "string \<Rightarrow> bool" where
  "netsh_line_ok line \<longleftrightarrow>
     line = [] \<or> has_prefix line ''#'' \<or> has_prefix line ''rem ''
     \<or> (\<exists>prefix \<in> set safePrefixes. has_prefix (to_lower line) prefix)"

fun netsh_scan :: "int \<Rightarrow> string list \<Rightarrow> goerr option" where
  "netsh_scan lineNum [] = None"
| "netsh_scan lineNum (l # ls) =
     (if length l \<ge> scan_max then Some (ErrMsg ''bufio.Scanner: token too long'')
      else let line = trim_space (drop_cr l) in
        if netsh_line_ok line then netsh_scan (lineNum + 1) ls
        else Some (ErrMsg (''netsh dump line '' @ itoa (lineNum + 1) @ '' has unexpected content: '' @ quote line)))"

definition validateNetshDump :: "string \<Rightarrow> goerr option" where
  "validateNetshDump data = netsh_scan 0 (scan_lines data)"

definition netcfg_path :: "string \<Rightarrow> string" where
  "netcfg_path stateDir = filepath_join Windows [stateDir, ''netcfg.save'']"

definition windows_SaveConfig :: "host \<Rightarrow> session_key \<Rightarrow> string \<Rightarrow> trace \<Rightarrow> SavedConfig res \<times> trace" where
  "windows_SaveConfig h key stateDir tr =
     (case cmd_output h ''netsh'' [''interface'', ''ip'', ''dump''] tr of
        (Inl e, tr) \<Rightarrow> (Inl (wrap ''netsh dump'' e), tr)
      | (Inr out, tr) \<Rightarrow>
          (case perform h (MkdirAll stateDir 488) tr of
             ((_, Some e), tr) \<Rightarrow> (Inl (wrap ''create state dir'' e), tr)
           | ((_, None), tr) \<Rightarrow>
               (case perform h (WriteFile (netcfg_path stateDir) out 384) tr of
                  ((_, Some e), tr) \<Rightarrow> (Inl (wrap ''write netcfg save'' e), tr)
                | ((_, None), tr) \<Rightarrow> (Inr (signed_config key ''windows'' out), tr))))"

definition windows_restore :: "host \<Rightarrow> string \<Rightarrow> string \<Rightarrow> trace \<Rightarrow> goerr option \<times> trace" where
  "windows_restore h stateDir data tr =
     (let savePath = netcfg_path stateDir in
      case perform h (WriteFile savePath data 384) tr of
        ((_, Some e), tr) \<Rightarrow> (Some (wrap ''write netcfg for restore'' e), tr)
      | ((_, None), tr) \<Rightarrow>
          (let (r, tr) = wrapped ''netsh exec restore'' (run h ''netsh'' [''exec'', savePath] tr)
           in (r, snd (perform h (RemoveFile savePath) tr))))"

definition windows_RestoreConfig ::
  "host \<Rightarrow> session_key \<Rightarrow> string \<Rightarrow> SavedConfig option \<Rightarrow> trace \<Rightarrow> goerr option \<times> trace" where
  "windows_RestoreConfig h key stateDir cfg tr =
     (case (check_saved key ''windows'' cfg, cfg) of
        (None, Some c) \<Rightarrow>
          (case validateNetshDump (sc_Data c) of
             Some e \<Rightarrow> (Some (wrap ''netsh dump validation failed'' e), tr)
           | None \<Rightarrow> windows_restore h stateDir (sc_Data c) tr)
      | (r, _) \<Rightarrow> (r, tr))"

definition windows_SetupRouting :: "host \<Rightarrow> string \<Rightarrow> ip \<Rightarrow> trace \<Rightarrow> goerr option \<times> trace" where
  "windows_SetupRouting h tapName vmIP tr =
     and_run (wrapped ''set dns1'' (run h ''netsh'' [''interface'', ''ip'', ''set'', ''dns'', tapName, ''static'', ''4.2.2.4''] tr)) (\<lambda>tr.
     wrapped ''set dns2'' (run h ''netsh'' [''interface'', ''ip'', ''add'', ''dns'', tapName, ''4.2.2.2''] tr))"

definition windows_TeardownRouting :: "trace \<Rightarrow> goerr option \<times> trace" where
  "windows_TeardownRouting tr = (None, tr)"

definition windows_FlushDNS :: "host \<Rightarrow> trace \<Rightarrow> goerr option \<times> trace" where
  "windows_FlushDNS h tr = run h ''ipconfig'' [''/flushdns''] tr"

section \<open>The route verifier\<close>

text \<open>
  \<^verbatim>\<open>verifyRoutes\<close> on Linux: the loop over the fields of a line keeps the last value after
  \<^verbatim>\<open>via\<close> and \<^verbatim>\<open>dev\<close>, and looks at no pair that starts at the first field.
\<close>

fun via_dev :: "string list \<Rightarrow> string \<times> string \<Rightarrow> string \<times> string" where
  "via_dev (f # v # fs) (gateway, dev) =
     via_dev (v # fs) (if f = ''via'' then (v, dev) else if f = ''dev'' then (gateway, v) else (gateway, dev))"
| "via_dev _ gd = gd"

definition default_route_ok :: "string \<Rightarrow> string \<Rightarrow> string \<Rightarrow> bool" where
  "default_route_ok vmStr tap line \<longleftrightarrow>
     (let fields = str_fields line in
      length fields \<ge> 5 \<and> hd fields = ''default'' \<and> via_dev (tl fields) ([], []) = (vmStr, tap))"

definition linux_verifyRoutes :: "host \<Rightarrow> string \<Rightarrow> ip \<Rightarrow> trace \<Rightarrow> goerr option \<times> trace" where
  "linux_verifyRoutes h expectedTAP expectedVMIP tr =
     (case cmd_output h ''ip'' [''route'', ''show''] tr of
        (Inl e, tr) \<Rightarrow> (Some (wrap ''ip route show'' e), tr)
      | (Inr out, tr) \<Rightarrow>
          (let vmStr = ip_string expectedVMIP in
           (if \<exists>line \<in> set (split_on NL out). default_route_ok vmStr expectedTAP line then None
            else Some (ErrMsg (''no default route via '' @ vmStr @ '' dev '' @ expectedTAP @ '' found'')), tr)))"

text \<open>On macOS, with the two flags of the loop as arguments.\<close>

fun split_routes :: "string \<Rightarrow> bool \<Rightarrow> bool \<Rightarrow> string list \<Rightarrow> goerr option" where
  "split_routes vmStr found0 found128 [] =
     (if \<not> found0 then Some (ErrMsg (''route 0/1 via '' @ vmStr @ '' not found''))
      else if \<not> found128 then Some (ErrMsg (''route 128.0/1 via '' @ vmStr @ '' not found''))
      else None)"
| "split_routes vmStr found0 found128 (line # ls) =
     (case str_fields line of
        dest # gateway # _ \<Rightarrow>
          (if dest = ''0/1'' then
             (if gateway \<noteq> vmStr then Some (ErrMsg (''route 0/1 points to '' @ gateway @ '', expected '' @ vmStr))
              else split_routes vmStr True found128 ls)
           else if dest = ''128.0/1'' then
             (if gateway \<noteq> vmStr then Some (ErrMsg (''route 128.0/1 points to '' @ gateway @ '', expected '' @ vmStr))
              else split_routes vmStr found0 True ls)
           else split_routes vmStr found0 found128 ls)
      | _ \<Rightarrow> split_routes vmStr found0 found128 ls)"

definition darwin_verifyRoutes :: "host \<Rightarrow> string \<Rightarrow> ip \<Rightarrow> trace \<Rightarrow> goerr option \<times> trace" where
  "darwin_verifyRoutes h expectedTAP expectedVMIP tr =
     (case cmd_output h ''netstat'' [''-rn''] tr of
        (Inl e, tr) \<Rightarrow> (Some (wrap ''netstat -rn'' e), tr)
      | (Inr out, tr) \<Rightarrow> (split_routes (ip_string expectedVMIP) False False (split_on NL out), tr))"

definition windows_VerifyRoutes :: "host \<Rightarrow> string \<Rightarrow> string \<Rightarrow> trace \<Rightarrow> string list \<times> trace" where
  "windows_VerifyRoutes h tapName vmIP tr =
     (case perform h (Exec ''route'' [''print'']) tr of
        ((_, Some e), tr) \<Rightarrow> ([''failed to run '' @ [CHR 0x27] @ ''route print'' @ [CHR 0x27] @ '': '' @ error_msg e], tr)
      | ((routeTable, None), tr) \<Rightarrow>
          ((if \<not> contains_str routeTable vmIP then [''VM IP '' @ vmIP @ '' not found in routing table''] else [])
           @ (if \<not> contains_str routeTable ''0.0.0.0'' then [''default route 0.0.0.0 not found in routing table''] else [])
           @ (if \<not> contains_str routeTable ''128.0.0.0'' then [''128.0.0.0/1 route not found in routing table''] else []), tr))"

record DriftEvent =
  de_Type :: string
  de_Description :: string

record VerifierConfig =
  vf_Interval :: int
  vf_ExpectedTAP :: string
  vf_ExpectedVMIP :: ip

text \<open>\<^verbatim>\<open>checkDNSLeak\<close>: the outcomes of dialling, of writing the query and of reading an answer.\<close>

definition dns_query :: "nat list" where
  "dns_query = [0, 1, 1, 0, 0, 1, 0, 0, 0, 0, 0, 0, 0, 0, 1, 0, 1]"

definition checkDNSLeak :: "goerr option \<Rightarrow> (nat list \<Rightarrow> goerr option) \<Rightarrow> nat res \<Rightarrow> goerr option" where
  "checkDNSLeak dial write read =
     (if dial \<noteq> None \<or> write dns_query \<noteq> None then None
      else case read of
        Inl _ \<Rightarrow> None
      | Inr n \<Rightarrow> guard_err (n > 0)
          (ErrMsg (''received '' @ itoa (int n) @ ''-byte DNS response from 8.8.8.8 outside Tor'')))"

text \<open>
  \<^verbatim>\<open>check\<close>: the events it sends, in order. \<open>ended k\<close> says that the context ended while the
  \<open>k\<close>-th send waited for room in the channel, on which \<^verbatim>\<open>check\<close> returns.
\<close>

definition verifier_check :: "goerr option \<Rightarrow> goerr option \<Rightarrow> (nat \<Rightarrow> bool) \<Rightarrow> DriftEvent list" where
  "verifier_check routes leak ended =
     (let drift = (case routes of None \<Rightarrow> [] | Some e \<Rightarrow> [\<lparr>de_Type = ''route_drift'', de_Description = error_msg e\<rparr>]);
          dns = (case leak of None \<Rightarrow> [] | Some e \<Rightarrow> [\<lparr>de_Type = ''dns_leak'', de_Description = error_msg e\<rparr>])
      in if drift \<noteq> [] \<and> ended 0 then []
         else drift @ (if dns \<noteq> [] \<and> ended (length drift) then [] else dns))"

text \<open>The interval \<^verbatim>\<open>Start\<close> uses, in nanoseconds.\<close>

definition verifier_interval :: "VerifierConfig \<Rightarrow> int" where
  "verifier_interval cfg = (if vf_Interval cfg \<le> 0 then 30 * 1000000000 else vf_Interval cfg)"

text \<open>\<^verbatim>\<open>Start\<close>: one check at once and one per tick, each given by the outcomes of its parts; a check in
  which the context ended is the last one. The channel receives the events of all of them.\<close>

fun verifier_Start :: "(goerr option \<times> goerr option \<times> (nat \<Rightarrow> bool)) list \<Rightarrow> DriftEvent list" where
  "verifier_Start [] = []"
| "verifier_Start ((routes, leak, ended) # rounds) =
     verifier_check routes leak ended @ (if ended 0 \<or> ended 1 then [] else verifier_Start rounds)"

section \<open>The manager interface\<close>

text \<open>The routes a command adds and deletes, as the managers spell these commands.\<close>

fun route_added :: "hostop \<Rightarrow> string option" where
  "route_added (Exec prog args) =
     (if prog = ''ip'' \<and> length args = 9 \<and> take 3 args = [''route'', ''add'', ''default''] \<and> args ! 7 = ''metric''
        then Some (''default metric '' @ args ! 8)
      else if prog = ''route'' \<and> length args = 5 \<and> take 3 args = [''-n'', ''add'', ''-net''] then Some (args ! 3)
      else None)"
| "route_added _ = None"

fun route_deleted :: "hostop \<Rightarrow> string option" where
  "route_deleted (Exec prog args) =
     (if prog = ''ip'' \<and> length args = 5 \<and> take 4 args = [''route'', ''del'', ''default'', ''metric'']
        then Some (''default metric '' @ args ! 4)
      else if prog = ''route'' \<and> length args = 4 \<and> take 3 args = [''-n'', ''delete'', ''-net''] then Some (args ! 3)
      else None)"
| "route_deleted _ = None"

text \<open>
  The laws the engine relies on, one locale for the interface \<^verbatim>\<open>Manager\<close>: operations only add
  to what was done; a saved configuration carries the platform and the HMAC of its data; a
  configuration that fails the checks is refused before anything is done; \<^verbatim>\<open>TeardownRouting\<close>
  does not fail and deletes every route \<^verbatim>\<open>SetupRouting\<close> may have added.
\<close>

locale network_manager =
  fixes platform :: string and key :: session_key
    and create :: "string \<Rightarrow> ip \<Rightarrow> ip \<Rightarrow> nat list \<Rightarrow> trace \<Rightarrow> goerr option \<times> trace"
    and destroy :: "string \<Rightarrow> trace \<Rightarrow> goerr option \<times> trace"
    and save :: "trace \<Rightarrow> SavedConfig res \<times> trace"
    and restore :: "SavedConfig option \<Rightarrow> trace \<Rightarrow> goerr option \<times> trace"
    and set_up :: "string \<Rightarrow> ip \<Rightarrow> trace \<Rightarrow> goerr option \<times> trace"
    and tear_down :: "trace \<Rightarrow> goerr option \<times> trace"
    and flush :: "trace \<Rightarrow> goerr option \<times> trace"
  assumes create_extends: "prefix tr (snd (create n a b m tr))"
    and destroy_extends: "prefix tr (snd (destroy n tr))"
    and save_extends: "prefix tr (snd (save tr))"
    and restore_extends: "prefix tr (snd (restore c tr))"
    and set_up_extends: "prefix tr (snd (set_up n b tr))"
    and teardown_extends: "prefix tr (snd (tear_down tr))"
    and flush_extends: "prefix tr (snd (flush tr))"
    and save_signed: "save tr = (Inr sc, tr') \<Longrightarrow> sc = signed_config key platform (sc_Data sc)"
    and restore_refuses: "check_saved key platform c \<noteq> None \<Longrightarrow> restore c tr = (check_saved key platform c, tr)"
    and teardown_nil: "fst (tear_down tr) = None"
    and teardown_undoes: "tr1 = snd (set_up n b tr) \<Longrightarrow> opn \<in> set (drop (length tr) tr1) \<Longrightarrow> route_added opn = Some rt \<Longrightarrow>
          \<exists>opn' \<in> set (drop (length tr2) (snd (tear_down tr2))). route_deleted opn' = Some rt"

subsection \<open>Integrity\<close>

lemma hex_encode_Nil: "hex_encode s = [] \<longleftrightarrow> s = []"
  using hex_encode_length [of s] by auto

lemma computeHMAC_nonempty: "computeHMAC (Some k) d \<noteq> []"
  using hmac_length [of "bytes_of k" "bytes_of d"]
  by (auto simp: computeHMAC_def hex_encode_Nil string_of_def)

lemma verifyHMAC_iff:
  "verifyHMAC key d m = None \<longleftrightarrow> key = None \<or> m = computeHMAC key d"
  using computeHMAC_nonempty by (cases key) (auto simp: verifyHMAC_def)

lemma check_saved_None:
  "check_saved key platform c = None \<longleftrightarrow>
     (\<exists>s. c = Some s \<and> sc_Platform s = platform \<and> (key = None \<or> sc_HMAC s = computeHMAC key (sc_Data s)))"
  by (auto simp: check_saved_def verifyHMAC_iff split: option.splits)

context network_manager
begin

lemma saved_accepted: "save tr = (Inr c, tr') \<Longrightarrow> check_saved key platform (Some c) = None"
  using save_signed [of tr c tr'] by (metis check_saved_None signed_config_def SavedConfig.select_convs(2,3))

lemma tampered_refused:
  assumes "save tr = (Inr c, tr')" "key \<noteq> None" "computeHMAC key d \<noteq> computeHMAC key (sc_Data c)"
  shows "fst (restore (Some (c\<lparr>sc_Data := d\<rparr>)) tr2) \<noteq> None \<and> snd (restore (Some (c\<lparr>sc_Data := d\<rparr>)) tr2) = tr2"
proof -
  have "sc_HMAC c = computeHMAC key (sc_Data c)"
    using save_signed [OF assms(1)] by (metis signed_config_def SavedConfig.select_convs(3))
  with assms have "check_saved key platform (Some (c\<lparr>sc_Data := d\<rparr>)) \<noteq> None" by (auto simp: check_saved_None)
  from restore_refuses [OF this] this show ?thesis by simp
qed

lemma foreign_refused:
  assumes "c = None \<or> sc_Platform (the c) \<noteq> platform"
  shows "fst (restore c tr) \<noteq> None \<and> snd (restore c tr) = tr"
proof -
  have "check_saved key platform c \<noteq> None" using assms by (auto simp: check_saved_None)
  from restore_refuses [OF this] this show ?thesis by simp
qed

end

text \<open>
  The contract in one predicate over the operations of a manager: what was saved by a manager
  passes its own check, what was changed or is foreign is refused with nothing done, and routing
  is torn down completely.
\<close>

definition manager_contract ::
  "string \<Rightarrow> session_key \<Rightarrow> (trace \<Rightarrow> SavedConfig res \<times> trace) \<Rightarrow> (SavedConfig option \<Rightarrow> trace \<Rightarrow> goerr option \<times> trace)
   \<Rightarrow> (string \<Rightarrow> ip \<Rightarrow> trace \<Rightarrow> goerr option \<times> trace) \<Rightarrow> (trace \<Rightarrow> goerr option \<times> trace) \<Rightarrow> bool" where
  "manager_contract platform key save restore set_up tear_down \<longleftrightarrow>
     (\<forall>tr c tr'. save tr = (Inr c, tr') \<longrightarrow>
        check_saved key platform (Some c) = None
        \<and> (\<forall>d tr2. key \<noteq> None \<and> computeHMAC key d \<noteq> computeHMAC key (sc_Data c) \<longrightarrow>
              fst (restore (Some (c\<lparr>sc_Data := d\<rparr>)) tr2) \<noteq> None \<and> snd (restore (Some (c\<lparr>sc_Data := d\<rparr>)) tr2) = tr2))
     \<and> (\<forall>c tr. c = None \<or> sc_Platform (the c) \<noteq> platform \<longrightarrow>
          fst (restore c tr) \<noteq> None \<and> snd (restore c tr) = tr)
     \<and> (\<forall>n b tr tr2. \<forall>opn \<in> set (drop (length tr) (snd (set_up n b tr))). \<forall>rt. route_added opn = Some rt \<longrightarrow>
          fst (tear_down tr2) = None
          \<and> (\<exists>opn' \<in> set (drop (length tr2) (snd (tear_down tr2))). route_deleted opn' = Some rt))"

context network_manager
begin

lemma contract: "manager_contract platform key save restore set_up tear_down"
  unfolding manager_contract_def
  using saved_accepted tampered_refused foreign_refused teardown_nil teardown_undoes
  by (intro conjI allI impI ballI) simp_all

end

subsection \<open>The three managers\<close>

named_theorems trace_simps \<open>what calls add to the trace\<close>

lemma perform_snd [trace_simps]: "snd (perform h opn tr) = tr @ [opn]"
  by (simp add: perform_def)

lemma run_snd [trace_simps]: "snd (run h name args tr) = tr @ [Exec name args]"
  by (auto simp: run_def perform_def split: prod.splits option.splits)

lemma output_snd [trace_simps]: "snd (cmd_output h name args tr) = tr @ [Exec name args]"
  by (auto simp: cmd_output_def perform_def split: prod.splits option.splits)

lemma wrapped_snd [trace_simps]: "snd (wrapped w r) = snd r"
  by (simp add: wrapped_def)

lemma ignoring_run [trace_simps]: "ignoring (run h name args tr) = tr @ [Exec name args]"
  by (simp add: ignoring_def run_snd)

lemma and_run_snd:
  "snd (and_run r k) = snd r \<or> snd (and_run r k) = snd (k (snd r))"
  by (auto simp: and_run_def split: prod.splits option.splits)

lemma and_run_extends: "prefix tr (snd r) \<Longrightarrow> (\<And>t. prefix t (snd (k t))) \<Longrightarrow> prefix tr (snd (and_run r k))"
  using and_run_snd [of r k] prefix_order.trans by metis

lemma output_case: "cmd_output h name args tr = (r, tr') \<Longrightarrow> tr' = tr @ [Exec name args]"
  using output_snd [of h name args tr] by simp

lemma perform_case: "perform h opn tr = (r, tr') \<Longrightarrow> tr' = tr @ [opn]"
  by (simp add: perform_def)

lemma signed_config_data: "signed_config key pl d = signed_config key pl (sc_Data (signed_config key pl d))"
  by (simp add: signed_config_def)

interpretation linux: network_manager "''linux''" key "linux_CreateTAP h" "linux_DestroyTAP h" "linux_SaveConfig h key"
  "linux_RestoreConfig key" "linux_SetupRouting h" "linux_TeardownRouting h" "linux_FlushDNS h" for h key
proof
  show "prefix tr (snd (linux_CreateTAP h n a b m tr))" for n a b m tr
    unfolding linux_CreateTAP_def by (intro and_run_extends) (simp_all add: trace_simps)
  show "sc = signed_config key ''linux'' (sc_Data sc)" if "linux_SaveConfig h key tr = (Inr sc, tr')" for tr sc tr'
    using that by (auto simp: linux_SaveConfig_def signed_config_def split: prod.splits sum.splits)
  show "\<exists>opn' \<in> set (drop (length tr2) (snd (linux_TeardownRouting h tr2))). route_deleted opn' = Some rt"
    if "tr1 = snd (linux_SetupRouting h n b tr)" "opn \<in> set (drop (length tr) tr1)" "route_added opn = Some rt" for tr1 n b tr opn rt tr2
    using that by (auto simp: linux_SetupRouting_def linux_TeardownRouting_def trace_simps)
qed (auto simp: linux_DestroyTAP_def linux_SaveConfig_def linux_RestoreConfig_def linux_SetupRouting_def
       linux_TeardownRouting_def linux_FlushDNS_def trace_simps dest: output_case split: prod.splits sum.splits)

interpretation darwin: network_manager "''darwin''" key "darwin_CreateTAP" "darwin_DestroyTAP" "darwin_SaveConfig h key"
  "darwin_RestoreConfig key" "darwin_SetupRouting h" "darwin_TeardownRouting h" "darwin_FlushDNS h" for h key
proof
  show "prefix tr (snd (darwin_SetupRouting h n b tr))" for n b tr
    unfolding darwin_SetupRouting_def by (intro and_run_extends) (simp_all add: trace_simps)
  show "sc = signed_config key ''darwin'' (sc_Data sc)" if "darwin_SaveConfig h key tr = (Inr sc, tr')" for tr sc tr'
    using that by (auto simp: darwin_SaveConfig_def signed_config_def split: prod.splits sum.splits)
  show "\<exists>opn' \<in> set (drop (length tr2) (snd (darwin_TeardownRouting h tr2))). route_deleted opn' = Some rt"
    if "tr1 = snd (darwin_SetupRouting h n b tr)" "opn \<in> set (drop (length tr) tr1)" "route_added opn = Some rt" for tr1 n b tr opn rt tr2
  proof -
    have "opn \<in> {Exec ''route'' [''-n'', ''add'', ''-net'', ''0.0.0.0/1'', ip_string b],
                 Exec ''route'' [''-n'', ''add'', ''-net'', ''128.0.0.0/1'', ip_string b]}"
      using that(1,2) unfolding darwin_SetupRouting_def
      by (auto simp: and_run_def trace_simps split: prod.splits option.splits dest!: arg_cong [of _ _ snd])
    with that(3) show ?thesis by (auto simp: darwin_TeardownRouting_def trace_simps Let_def)
  qed
qed (auto simp: darwin_CreateTAP_def darwin_DestroyTAP_def darwin_SaveConfig_def darwin_RestoreConfig_def
       darwin_TeardownRouting_def darwin_FlushDNS_def trace_simps Let_def dest: output_case split: prod.splits sum.splits)

lemma windows_restore_extends: "prefix tr (snd (windows_restore h dir d tr))"
  by (auto simp: windows_restore_def Let_def perform_def run_snd wrapped_snd split: prod.splits option.splits
           dest!: arg_cong [of "wrapped _ _" _ snd])

lemma windows_save_extends: "prefix tr (snd (windows_SaveConfig h key dir tr))"
  by (auto simp: windows_SaveConfig_def perform_def dest: output_case split: prod.splits sum.splits option.splits)

interpretation windows: network_manager "''windows''" key "windows_CreateTAP h" "windows_DestroyTAP h"
  "windows_SaveConfig h key dir" "windows_RestoreConfig h key dir" "windows_SetupRouting h" windows_TeardownRouting
  "windows_FlushDNS h" for h key dir
proof
  show "prefix tr (snd (windows_SetupRouting h n b tr))" for n b tr
    unfolding windows_SetupRouting_def by (intro and_run_extends) (simp_all add: trace_simps)
  show "prefix tr (snd (windows_RestoreConfig h key dir c tr))" for c tr
    using windows_restore_extends by (auto simp: windows_RestoreConfig_def split: option.splits)
  show "windows_RestoreConfig h key dir c tr = (check_saved key ''windows'' c, tr)"
    if "check_saved key ''windows'' c \<noteq> None" for c tr
    using that by (auto simp: windows_RestoreConfig_def split: option.splits)
  show "sc = signed_config key ''windows'' (sc_Data sc)" if "windows_SaveConfig h key dir tr = (Inr sc, tr')" for tr sc tr'
    using that by (auto simp: windows_SaveConfig_def signed_config_def split: prod.splits sum.splits option.splits)
  show "\<exists>opn' \<in> set (drop (length tr2) (snd (windows_TeardownRouting tr2))). route_deleted opn' = Some rt"
    if "tr1 = snd (windows_SetupRouting h n b tr)" "opn \<in> set (drop (length tr) tr1)" "route_added opn = Some rt" for tr1 n b tr opn rt tr2
  proof -
    have "\<exists>args. opn = Exec ''netsh'' args"
      using that(1,2) unfolding windows_SetupRouting_def
      by (auto simp: and_run_def trace_simps split: prod.splits option.splits dest!: arg_cong [of _ _ snd])
    with that(3) show ?thesis by auto
  qed
qed (auto simp: windows_CreateTAP_def windows_DestroyTAP_def windows_save_extends windows_TeardownRouting_def
       windows_FlushDNS_def trace_simps)

subsection \<open>The dump of netsh\<close>

lemma netsh_scan_None:
  "netsh_scan n ls = None \<longleftrightarrow> (\<forall>l \<in> set ls. length l < scan_max \<and> netsh_line_ok (trim_space (drop_cr l)))"
  by (induction ls arbitrary: n) (auto simp: Let_def)

lemma windows_RestoreConfig_cases:
  assumes "windows_RestoreConfig h key dir cfg tr = (r, tr')"
  obtains (refused) e where "r = Some e" "tr' = tr"
  | (unwritten) e c where "cfg = Some c" "r = Some e" "tr' = tr @ [WriteFile (netcfg_path dir) (sc_Data c) 384]"
      "check_saved key ''windows'' cfg = None" "validateNetshDump (sc_Data c) = None"
  | (executed) c where "cfg = Some c" "check_saved key ''windows'' cfg = None" "validateNetshDump (sc_Data c) = None"
      "tr' = tr @ [WriteFile (netcfg_path dir) (sc_Data c) 384, Exec ''netsh'' [''exec'', netcfg_path dir],
                   RemoveFile (netcfg_path dir)]"
      "r = None \<longleftrightarrow> snd (h (tr @ [WriteFile (netcfg_path dir) (sc_Data c) 384]) (Exec ''netsh'' [''exec'', netcfg_path dir])) = None"
proof (cases "check_saved key ''windows'' cfg = None \<and> (\<exists>c. cfg = Some c \<and> validateNetshDump (sc_Data c) = None)")
  case False
  then have "\<exists>e. r = Some e \<and> tr' = tr"
    using assms check_saved_None [of key "''windows''" cfg]
    by (cases "check_saved key ''windows'' cfg") (auto simp: windows_RestoreConfig_def split: option.splits)
  then show ?thesis using refused by blast
next
  case True
  then obtain c where c: "cfg = Some c" "check_saved key ''windows'' cfg = None" "validateNetshDump (sc_Data c) = None" by auto
  with assms have w: "windows_restore h dir (sc_Data c) tr = (r, tr')" by (simp add: windows_RestoreConfig_def)
  let ?w = "WriteFile (netcfg_path dir) (sc_Data c) 384"
  show ?thesis
  proof (cases "snd (h tr ?w)")
    case None
    with w c executed show ?thesis
      by (cases "h tr ?w"; cases "h (tr @ [?w]) (Exec ''netsh'' [''exec'', netcfg_path dir])")
         (auto simp: windows_restore_def perform_def run_def wrapped_def Let_def split: option.splits)
  next
    case (Some e)
    with w c unwritten show ?thesis
      by (cases "h tr ?w") (auto simp: windows_restore_def perform_def Let_def)
  qed
qed

subsection \<open>Verification of routes\<close>

lemma split_routes_None:
  "split_routes v f0 f128 ls = None \<longleftrightarrow>
     (\<forall>l \<in> set ls. \<forall>g r d. str_fields l = d # g # r \<and> d \<in> {''0/1'', ''128.0/1''} \<longrightarrow> g = v)
     \<and> (f0 \<or> (\<exists>l \<in> set ls. \<exists>g r. str_fields l = ''0/1'' # g # r))
     \<and> (f128 \<or> (\<exists>l \<in> set ls. \<exists>g r. str_fields l = ''128.0/1'' # g # r))"
proof (induction ls arbitrary: f0 f128)
  case (Cons l ls)
  show ?case
  proof (cases "\<exists>d g r. str_fields l = d # g # r")
    case True
    then obtain d g r where "str_fields l = d # g # r" by blast
    with Cons show ?thesis by auto
  next
    case False
    then have "split_routes v f0 f128 (l # ls) = split_routes v f0 f128 ls"
      by (auto split: list.splits)
    with Cons False show ?thesis by auto
  qed
qed simp

section \<open>Properties\<close>

text \<open>
  C30. The managers of the three systems keep the contract of \<^verbatim>\<open>Manager\<close>, on every host and with
  every session key: a configuration a manager saved passes its own integrity check; one whose
  data was changed (with a key, and up to a collision of the HMAC), a missing one or one of
  another platform is refused by \<^verbatim>\<open>RestoreConfig\<close> before any command runs; and
  \<^verbatim>\<open>TeardownRouting\<close> never fails and deletes every route that \<^verbatim>\<open>SetupRouting\<close> adds, even if
  \<^verbatim>\<open>SetupRouting\<close> stopped half-way.
\<close>

theorem managers_keep_contract:
  "manager_contract ''linux'' key (linux_SaveConfig h key) (linux_RestoreConfig key) (linux_SetupRouting h) (linux_TeardownRouting h)
   \<and> manager_contract ''darwin'' key (darwin_SaveConfig h key) (darwin_RestoreConfig key) (darwin_SetupRouting h) (darwin_TeardownRouting h)
   \<and> manager_contract ''windows'' key (windows_SaveConfig h key dir) (windows_RestoreConfig h key dir) (windows_SetupRouting h)
       windows_TeardownRouting"
  using linux.contract darwin.contract windows.contract by blast

text \<open>
  C31. On Windows \<^verbatim>\<open>RestoreConfig\<close> lets netsh execute a saved dump only if the dump has this
  platform, has a valid HMAC, and consists of lines that are blank, comments or start with one
  of the nine known commands; the file it executes is the one it wrote with that content right
  before, and it is removed afterwards. It returns \<^verbatim>\<open>nil\<close> only if netsh ran and succeeded.
\<close>

theorem windows_restore_validated:
  assumes "windows_RestoreConfig h key dir cfg tr = (r, tr')"
  shows "(\<forall>n args. Exec n args \<in> set (drop (length tr) tr') \<longrightarrow>
            (\<exists>c. cfg = Some c \<and> sc_Platform c = ''windows'' \<and> (key = None \<or> sc_HMAC c = computeHMAC key (sc_Data c))
               \<and> (\<forall>l \<in> set (scan_lines (sc_Data c)). length l < scan_max \<and> netsh_line_ok (trim_space (drop_cr l)))
               \<and> drop (length tr) tr' =
                   [WriteFile (netcfg_path dir) (sc_Data c) 384, Exec ''netsh'' [''exec'', netcfg_path dir],
                    RemoveFile (netcfg_path dir)]))
    \<and> (r = None \<longrightarrow> Exec ''netsh'' [''exec'', netcfg_path dir] \<in> set (drop (length tr) tr'))"
  using assms
proof (cases rule: windows_RestoreConfig_cases)
  case (executed c)
  have "sc_Platform c = ''windows'' \<and> (key = None \<or> sc_HMAC c = computeHMAC key (sc_Data c))"
    using executed(1,2) check_saved_None [of key "''windows''" cfg] by auto
  moreover have "\<forall>l \<in> set (scan_lines (sc_Data c)). length l < scan_max \<and> netsh_line_ok (trim_space (drop_cr l))"
    using executed(3) by (simp add: validateNetshDump_def netsh_scan_None)
  ultimately show ?thesis using executed by auto
qed auto

definition quiet_host :: host where
  "quiet_host tr opn = ([], None)"

definition sample_dump :: SavedConfig where
  "sample_dump = \<lparr>sc_Data = ''popd'', sc_Platform = ''windows'', sc_HMAC = ''''\<rparr>"

lemma sample_dump_ok: "validateNetshDump ''popd'' = None"
  by (simp add: validateNetshDump_def scan_lines_def NL_def scan_max_def drop_cr_def CR_def trim_space_graphic
      graphic_def netsh_line_ok_def safePrefixes_def lower_char_def is_upper_def)

theorem windows_restore_validated_witness:
  "windows_RestoreConfig quiet_host None ''s'' (Some sample_dump) [] =
     (None, [WriteFile (netcfg_path ''s'') ''popd'' 384, Exec ''netsh'' [''exec'', netcfg_path ''s''], RemoveFile (netcfg_path ''s'')])
   \<and> sc_Platform sample_dump = ''windows''
   \<and> Exec ''netsh'' [''exec'', netcfg_path ''s''] \<in>
       set [WriteFile (netcfg_path ''s'') ''popd'' 384, Exec ''netsh'' [''exec'', netcfg_path ''s''], RemoveFile (netcfg_path ''s'')]"
proof -
  have r: "windows_RestoreConfig quiet_host None ''s'' (Some sample_dump) [] =
     (None, [WriteFile (netcfg_path ''s'') ''popd'' 384, Exec ''netsh'' [''exec'', netcfg_path ''s''], RemoveFile (netcfg_path ''s'')])"
    by (simp add: windows_RestoreConfig_def check_saved_def verifyHMAC_def sample_dump_def sample_dump_ok
        windows_restore_def perform_def run_def wrapped_def quiet_host_def Let_def)
  from windows_restore_validated [OF r] r show ?thesis by auto
qed

text \<open>
  The route verifiers decide what their comments say of the routing table. On Linux it is
  accepted exactly when some line of at least five fields starts with \<^verbatim>\<open>default\<close> and names the
  VM's address after its last \<^verbatim>\<open>via\<close> and the TAP device after its last \<^verbatim>\<open>dev\<close>. On macOS exactly
  when there is a line for \<^verbatim>\<open>0/1\<close> and one for \<^verbatim>\<open>128.0/1\<close> and all such lines name the VM's address.
  A failing command is an error on both.
\<close>

theorem verifyRoutes_spec:
  "(fst (linux_verifyRoutes h tap vm tr) = None \<longleftrightarrow>
      snd (h tr (Exec ''ip'' [''route'', ''show''])) = None
      \<and> (\<exists>line \<in> set (split_on NL (fst (h tr (Exec ''ip'' [''route'', ''show''])))).
           default_route_ok (ip_string vm) tap line))
   \<and> (fst (darwin_verifyRoutes h tap vm tr) = None \<longleftrightarrow>
      snd (h tr (Exec ''netstat'' [''-rn''])) = None
      \<and> (let lines = split_on NL (fst (h tr (Exec ''netstat'' [''-rn'']))) in
         \<not> (\<exists>l \<in> set lines. \<exists>d g r. str_fields l = d # g # r \<and> d \<in> {''0/1'', ''128.0/1''} \<and> g \<noteq> ip_string vm)
         \<and> (\<exists>l \<in> set lines. \<exists>g r. str_fields l = ''0/1'' # g # r)
         \<and> (\<exists>l \<in> set lines. \<exists>g r. str_fields l = ''128.0/1'' # g # r)))"
proof -
  have "fst (linux_verifyRoutes h tap vm tr) = None \<longleftrightarrow>
      snd (h tr (Exec ''ip'' [''route'', ''show''])) = None
      \<and> (\<exists>line \<in> set (split_on NL (fst (h tr (Exec ''ip'' [''route'', ''show''])))).
           default_route_ok (ip_string vm) tap line)"
    by (cases "h tr (Exec ''ip'' [''route'', ''show''])")
       (auto simp: linux_verifyRoutes_def cmd_output_def perform_def Let_def split: option.splits)
  moreover have "fst (darwin_verifyRoutes h tap vm tr) = None \<longleftrightarrow>
      snd (h tr (Exec ''netstat'' [''-rn''])) = None
      \<and> split_routes (ip_string vm) False False (split_on NL (fst (h tr (Exec ''netstat'' [''-rn''])))) = None"
    by (cases "h tr (Exec ''netstat'' [''-rn''])")
       (auto simp: darwin_verifyRoutes_def cmd_output_def perform_def split: option.splits)
  ultimately show ?thesis unfolding split_routes_None Let_def by blast
qed

text \<open>
  The route that \<^verbatim>\<open>SetupRouting\<close> adds on Linux, listed by \<^verbatim>\<open>ip route show\<close> with its gateway,
  device and metric, satisfies the verifier, whatever the other lines of the table are. In
  particular a second default route with a smaller metric, which the kernel prefers, goes
  unnoticed.
\<close>

theorem linux_route_accepted:
  assumes "h tr (Exec ''ip'' [''route'', ''show'']) =
      (join [NL] (pre @ [join '' '' [''default'', ''via'', ip_string vm, ''dev'', tap, ''metric'', ''50'']] @ post), None)"
    and "\<forall>l \<in> set (pre @ post). NL \<notin> set l"
    and "tap \<noteq> []" "\<forall>c \<in> set tap. graphic c" "tap \<notin> {''via'', ''dev''}"
    and "ip_string vm \<noteq> []" "\<forall>c \<in> set (ip_string vm). graphic c" "ip_string vm \<notin> {''via'', ''dev''}"
  shows "fst (linux_verifyRoutes h tap vm tr) = None"
proof -
  let ?ws = "[''default'', ''via'', ip_string vm, ''dev'', tap, ''metric'', ''50'']"
  have g: "\<forall>w \<in> set ?ws. w \<noteq> [] \<and> (\<forall>c \<in> set w. graphic c)"
    using assms by (auto simp: graphic_Char)
  then have "str_fields (join '' '' ?ws) = ?ws" by (rule str_fields_join)
  then have ok: "default_route_ok (ip_string vm) tap (join '' '' ?ws)"
    using assms(5,8) by (simp add: default_route_ok_def Let_def)
  have "\<not> graphic NL" by (simp add: graphic_def NL_def)
  then have "NL \<notin> set (join '' '' ?ws)"
    using g set_join [of "'' ''" ?ws] by (auto simp: NL_def)
  then have "split_on NL (join [NL] (pre @ [join '' '' ?ws] @ post)) = pre @ [join '' '' ?ws] @ post"
    using assms(2) by (intro split_on_join) auto
  with ok assms(1) show ?thesis
    by (auto simp: linux_verifyRoutes_def cmd_output_def perform_def Let_def)
qed

theorem linux_route_accepted_witness:
  "fst (linux_verifyRoutes
     (\<lambda>_ _. (join [NL] [''default via 192.168.1.1 dev eth0 metric 10'', ''default via 10.10.10.1 dev torvm0 metric 50''], None))
     ''torvm0'' [10, 10, 10, 1] []) = None"
proof -
  have ip: "ip_string [10, 10, 10, 1] = ''10.10.10.1''" by code_simp
  show ?thesis
    using linux_route_accepted [of "\<lambda>_ _. (join [NL] [''default via 192.168.1.1 dev eth0 metric 10'',
        ''default via 10.10.10.1 dev torvm0 metric 50''], None)" "[]" "[''default via 192.168.1.1 dev eth0 metric 10'']"
        "[10, 10, 10, 1]" "''torvm0''" "[]"]
    by (simp add: ip NL_def graphic_def del: One_nat_def)
qed

end
