(* ===== verification/Search_Index.thy ===== *)
theory Search_Index
  imports Vm_Host Go_Sha256 Go_Json
begin

text \<open>
  The keyword search of package \<^verbatim>\<open>index\<close> and \<^verbatim>\<open>fhe.HashTerm\<close>: tokens, the inverted index, the
  filter on metadata and the keyword mode of the composite index. Unicode's tables and its
  normalization, the file system and the clock are arguments. Times are nanoseconds, with the
  zero time as \<open>None\<close>.
\<close>

section \<open>Tokens\<close>

text \<open>
  Package \<^verbatim>\<open>x/text\<close>'s normal form, Unicode's letters and digits, by the encoding of the rune, and
  \<^verbatim>\<open>strings.ToLower\<close>.
\<close>

record unicode =
  un_NFD :: "string \<Rightarrow> string"
  un_word :: "string \<Rightarrow> bool"
  un_lower :: "string \<Rightarrow> string"

text \<open>\<^verbatim>\<open>strings.FieldsFunc\<close>: the maximal runs of runes that satisfy the predicate.\<close>

fun runs :: "('a \<Rightarrow> bool) \<Rightarrow> 'a list \<Rightarrow> 'a list \<Rightarrow> 'a list list" where
  "runs p acc [] = (if acc = [] then [] else [rev acc])"
| "runs p acc (x # xs) =
     (if p x then runs p (x # acc) xs else (if acc = [] then [] else [rev acc]) @ runs p [] xs)"

definition fields_func :: "(string \<Rightarrow> bool) \<Rightarrow> string \<Rightarrow> string list" where
  "fields_func p s = map concat (runs p [] (runes s))"

definition trim_func :: "(string \<Rightarrow> bool) \<Rightarrow> string \<Rightarrow> string" where
  "trim_func p s = concat (rev (dropWhile p (rev (dropWhile p (runes s)))))"

definition commonStopWords :: "string list" where
  "commonStopWords =
     [''a'', ''an'', ''and'', ''are'', ''as'', ''at'', ''be'', ''by'', ''for'', ''from'', ''has'', ''he'', ''in'',
      ''is'', ''it'', ''its'', ''of'', ''on'', ''or'', ''she'', ''that'', ''the'', ''to'', ''was'', ''were'', ''will'',
      ''with'', ''this'', ''but'', ''not'', ''you'', ''all'', ''can'', ''had'', ''her'', ''one'', ''our'', ''out'',
      ''do'', ''if'', ''me'', ''my'', ''no'', ''so'', ''up'', ''we'']"

text \<open>The body of the loop; the terms so far are also the set \<^verbatim>\<open>seen\<close>.\<close>

definition add_word :: "unicode \<Rightarrow> string list \<Rightarrow> string \<Rightarrow> string list" where
  "add_word u terms w =
     (let t = trim_func (\<lambda>r. \<not> un_word u r) (un_lower u w) in
      if length t < 3 then terms
      else if t \<in> set commonStopWords then terms
      else if t \<in> set terms then terms
      else terms @ [t])"

definition Tokenize :: "unicode \<Rightarrow> string \<Rightarrow> string list" where
  "Tokenize u text = foldl (add_word u) [] (fields_func (un_word u) (un_NFD u text))"

section \<open>Hashes\<close>

definition DefaultPlaintextModulus :: nat where "DefaultPlaintextModulus = 65537"

text \<open>\<^verbatim>\<open>binary.LittleEndian.Uint64\<close> on eight bytes.\<close>

definition le_uint64 :: "byte list \<Rightarrow> nat" where
  "le_uint64 bs = foldr (\<lambda>b a. unat b + 256 * a) bs 0"

definition HashTerm :: "unicode \<Rightarrow> string \<Rightarrow> nat" where
  "HashTerm u term =
     le_uint64 (take 8 (sha256 (bytes_of (un_lower u (trim_space term))))) mod DefaultPlaintextModulus"

section \<open>Metadata\<close>

type_synonym docid = "32 word"
type_synonym gotime = "int option"

record DocMeta =
  dm_ID :: docid
  dm_Path :: string
  dm_Title :: string
  dm_Size :: int
  dm_IndexedAt :: gotime
  dm_FileType :: string
  dm_MimeType :: string
  dm_CreatedAt :: gotime
  dm_ModifiedAt :: gotime
  dm_Tags :: "string list"
  dm_WordCount :: nat

definition DetectFileType :: "string \<Rightarrow> string" where
  "DetectFileType ext =
     (let e = to_lower ext in
      if e = ''.txt'' then ''text''
      else if e \<in> {''.md'', ''.markdown''} then ''markdown''
      else if e = ''.json'' then ''json''
      else if e = ''.xml'' then ''xml''
      else if e \<in> {''.html'', ''.htm''} then ''html''
      else if e \<in> {''.yaml'', ''.yml''} then ''yaml''
      else if e = ''.toml'' then ''toml''
      else if e \<in> {''.cfg'', ''.conf'', ''.ini''} then ''config''
      else if e = ''.log'' then ''log''
      else if e = ''.csv'' then ''data''
      else ''unknown'')"

definition DetectMimeType :: "string \<Rightarrow> string" where
  "DetectMimeType ext =
     (let e = to_lower ext in
      if e = ''.txt'' then ''text/plain''
      else if e \<in> {''.md'', ''.markdown''} then ''text/markdown''
      else if e = ''.json'' then ''application/json''
      else if e = ''.xml'' then ''application/xml''
      else if e \<in> {''.html'', ''.htm''} then ''text/html''
      else if e \<in> {''.yaml'', ''.yml''} then ''text/yaml''
      else if e = ''.toml'' then ''text/toml''
      else if e = ''.csv'' then ''text/csv''
      else if e \<in> {''.log'', ''.cfg'', ''.conf'', ''.ini''} then ''text/plain''
      else ''application/octet-stream'')"

text \<open>\<^verbatim>\<open>filepath.Ext\<close> and \<^verbatim>\<open>filepath.Base\<close> with the separator \<^verbatim>\<open>/\<close>.\<close>

definition last_elem :: "string \<Rightarrow> string" where
  "last_elem p = rev (takeWhile (\<lambda>c. c \<noteq> CHR ''/'') (rev p))"

definition path_ext :: "string \<Rightarrow> string" where
  "path_ext p =
     (let e = last_elem p in
      if CHR ''.'' \<in> set e then CHR ''.'' # rev (takeWhile (\<lambda>c. c \<noteq> CHR ''.'') (rev e)) else [])"

definition path_base :: "string \<Rightarrow> string" where
  "path_base p =
     (if p = [] then ''.''
      else let q = rev (dropWhile (\<lambda>c. c = CHR ''/'') (rev p))
           in if q = [] then ''/'' else last_elem q)"

section \<open>The inverted index\<close>

record InvertedIndex =
  Terms :: "nat \<rightharpoonup> docid list"
  Documents :: "docid \<rightharpoonup> DocMeta"
  nextDocID :: docid

definition NewInvertedIndex :: InvertedIndex where
  "NewInvertedIndex = \<lparr>Terms = Map.empty, Documents = Map.empty, nextDocID = 0\<rparr>"

definition appendUnique :: "docid list \<Rightarrow> docid \<Rightarrow> docid list" where
  "appendUnique ids val = (if val \<in> set ids then ids else ids @ [val])"

definition postings :: "(nat \<rightharpoonup> docid list) \<Rightarrow> nat \<Rightarrow> docid list" where
  "postings ts h = (case ts h of None \<Rightarrow> [] | Some l \<Rightarrow> l)"

definition add_term :: "unicode \<Rightarrow> docid \<Rightarrow> (nat \<rightharpoonup> docid list) \<Rightarrow> string \<Rightarrow> (nat \<rightharpoonup> docid list)" where
  "add_term u docID ts term = (let h = HashTerm u term in ts(h \<mapsto> appendUnique (postings ts h) docID))"

text \<open>What the file system and the clock say when a document is added: size and modification time
  if \<^verbatim>\<open>os.Stat\<close> succeeds, and the present time.\<close>

record file_env =
  fe_Stat :: "(int \<times> gotime) option"
  fe_Now :: gotime

definition doc_meta :: "unicode \<Rightarrow> file_env \<Rightarrow> docid \<Rightarrow> string \<Rightarrow> string \<Rightarrow> DocMeta" where
  "doc_meta u fe docID path content =
     (let (size, modTime) = (case fe_Stat fe of None \<Rightarrow> (0, None) | Some st \<Rightarrow> st); ext = path_ext path in
      \<lparr>dm_ID = docID, dm_Path = path, dm_Title = path_base path, dm_Size = size, dm_IndexedAt = fe_Now fe,
       dm_FileType = DetectFileType ext, dm_MimeType = DetectMimeType ext, dm_CreatedAt = modTime,
       dm_ModifiedAt = modTime, dm_Tags = [], dm_WordCount = length (Tokenize u content)\<rparr>)"

definition AddDocument ::
  "unicode \<Rightarrow> file_env \<Rightarrow> string \<Rightarrow> string \<Rightarrow> InvertedIndex \<Rightarrow> docid \<times> InvertedIndex" where
  "AddDocument u fe path content idx =
     (let docID = nextDocID idx in
      (docID, \<lparr>Terms = foldl (add_term u docID) (Terms idx) (Tokenize u content),
               Documents = (Documents idx)(docID \<mapsto> doc_meta u fe docID path content),
               nextDocID = docID + 1\<rparr>))"

definition Query :: "unicode \<Rightarrow> string \<Rightarrow> InvertedIndex \<Rightarrow> docid list" where
  "Query u term idx = postings (Terms idx) (HashTerm u term)"

definition TermCount :: "InvertedIndex \<Rightarrow> nat" where
  "TermCount idx = card (dom (Terms idx))"

definition DocCount :: "InvertedIndex \<Rightarrow> nat" where
  "DocCount idx = card (dom (Documents idx))"

definition GetDoc :: "docid \<Rightarrow> InvertedIndex \<Rightarrow> DocMeta option" where
  "GetDoc d idx = Documents idx d"

definition LocalQuery :: "unicode \<Rightarrow> string \<Rightarrow> InvertedIndex \<Rightarrow> DocMeta list" where
  "LocalQuery u term idx = List.map_filter (\<lambda>d. GetDoc d idx) (Query u term idx)"

section \<open>Filters\<close>

record MetadataFilter =
  mf_FileTypes :: "string list"
  mf_MinSize :: int
  mf_MaxSize :: int
  mf_CreatedAfter :: gotime
  mf_CreatedBefore :: gotime
  mf_ModifiedAfter :: gotime
  mf_ModifiedBefore :: gotime
  mf_Tags :: "string list"

definition IsEmpty :: "MetadataFilter option \<Rightarrow> bool" where
  "IsEmpty flt =
     (case flt of
        None \<Rightarrow> True
      | Some f \<Rightarrow> mf_FileTypes f = [] \<and> mf_MinSize f = 0 \<and> mf_MaxSize f = 0
          \<and> mf_CreatedAfter f = None \<and> mf_CreatedBefore f = None
          \<and> mf_ModifiedAfter f = None \<and> mf_ModifiedBefore f = None \<and> mf_Tags f = [])"

text \<open>The checks of type and size, which both filters share.\<close>

definition type_ok :: "MetadataFilter \<Rightarrow> string \<Rightarrow> bool" where
  "type_ok f t \<longleftrightarrow> mf_FileTypes f = [] \<or> (\<exists>ft \<in> set (mf_FileTypes f). equal_fold ft t)"

definition size_ok :: "MetadataFilter \<Rightarrow> int \<Rightarrow> bool" where
  "size_ok f s \<longleftrightarrow> \<not> (mf_MinSize f > 0 \<and> s < mf_MinSize f) \<and> \<not> (mf_MaxSize f > 0 \<and> s > mf_MaxSize f)"

text \<open>\<^verbatim>\<open>!bound.IsZero() && !t.IsZero() && t.Before(bound)\<close>, and with \<^verbatim>\<open>After\<close>.\<close>

definition too_early :: "gotime \<Rightarrow> gotime \<Rightarrow> bool" where
  "too_early bound t \<longleftrightarrow> (case (bound, t) of (Some b, Some x) \<Rightarrow> x < b | _ \<Rightarrow> False)"

definition too_late :: "gotime \<Rightarrow> gotime \<Rightarrow> bool" where
  "too_late bound t \<longleftrightarrow> (case (bound, t) of (Some b, Some x) \<Rightarrow> x > b | _ \<Rightarrow> False)"

definition Matches :: "unicode \<Rightarrow> MetadataFilter option \<Rightarrow> DocMeta \<Rightarrow> bool" where
  "Matches u flt doc =
     (case flt of
        None \<Rightarrow> True
      | Some f \<Rightarrow>
          type_ok f (dm_FileType doc) \<and> size_ok f (dm_Size doc)
          \<and> \<not> too_early (mf_CreatedAfter f) (dm_CreatedAt doc) \<and> \<not> too_late (mf_CreatedBefore f) (dm_CreatedAt doc)
          \<and> \<not> too_early (mf_ModifiedAfter f) (dm_ModifiedAt doc) \<and> \<not> too_late (mf_ModifiedBefore f) (dm_ModifiedAt doc)
          \<and> (\<forall>required \<in> set (mf_Tags f). un_lower u required \<in> un_lower u ` set (dm_Tags doc)))"

text \<open>\<^verbatim>\<open>Time.Unix\<close>, in seconds; the zero time is the first second of year 1.\<close>

definition unix :: "gotime \<Rightarrow> int" where
  "unix t = (case t of None \<Rightarrow> - 62135596800 | Some ns \<Rightarrow> ns div 1000000000)"

record ReplicaDocInfo =
  ri_FileType :: string
  ri_Size :: int
  ri_CreatedAt :: int
  ri_ModifiedAt :: int
  ri_WordCount :: nat

definition DocMetaToReplicaInfo :: "DocMeta \<Rightarrow> ReplicaDocInfo" where
  "DocMetaToReplicaInfo doc =
     \<lparr>ri_FileType = dm_FileType doc, ri_Size = dm_Size doc, ri_CreatedAt = unix (dm_CreatedAt doc),
      ri_ModifiedAt = unix (dm_ModifiedAt doc), ri_WordCount = dm_WordCount doc\<rparr>"

definition before_unix :: "int \<Rightarrow> gotime \<Rightarrow> bool" where
  "before_unix t bound \<longleftrightarrow> bound \<noteq> None \<and> t < unix bound"

definition after_unix :: "int \<Rightarrow> gotime \<Rightarrow> bool" where
  "after_unix t bound \<longleftrightarrow> bound \<noteq> None \<and> t > unix bound"

definition MatchesReplicaInfo :: "MetadataFilter option \<Rightarrow> ReplicaDocInfo \<Rightarrow> bool" where
  "MatchesReplicaInfo flt info =
     (case flt of
        None \<Rightarrow> True
      | Some f \<Rightarrow>
          type_ok f (ri_FileType info) \<and> size_ok f (ri_Size info)
          \<and> \<not> before_unix (ri_CreatedAt info) (mf_CreatedAfter f) \<and> \<not> after_unix (ri_CreatedAt info) (mf_CreatedBefore f)
          \<and> \<not> before_unix (ri_ModifiedAt info) (mf_ModifiedAfter f) \<and> \<not> after_unix (ri_ModifiedAt info) (mf_ModifiedBefore f))"

section \<open>Searching\<close>

datatype SearchMode = ModeKeyword | ModeVector | ModeHybrid | OtherMode string

text \<open>A hit, over the type of scores; the score of a keyword hit is the constant \<open>one\<close>.\<close>

record 'f SearchResult =
  sr_DocID :: docid
  sr_Path :: string
  sr_Title :: string
  sr_Score :: 'f
  sr_Mode :: SearchMode
  sr_FileType :: string
  sr_Size :: int
  sr_CreatedAt :: int
  sr_ModifiedAt :: int
  sr_WordCount :: nat

definition keyword_result :: "'f \<Rightarrow> DocMeta \<Rightarrow> 'f SearchResult" where
  "keyword_result one doc =
     \<lparr>sr_DocID = dm_ID doc, sr_Path = dm_Path doc, sr_Title = dm_Title doc, sr_Score = one, sr_Mode = ModeKeyword,
      sr_FileType = dm_FileType doc, sr_Size = dm_Size doc, sr_CreatedAt = unix (dm_CreatedAt doc),
      sr_ModifiedAt = unix (dm_ModifiedAt doc), sr_WordCount = dm_WordCount doc\<rparr>"

definition limit :: "int \<Rightarrow> 'a list \<Rightarrow> 'a list" where
  "limit k xs = (if k > 0 then take (nat k) xs else xs)"

definition keywordSearch :: "'f \<Rightarrow> unicode \<Rightarrow> string \<Rightarrow> int \<Rightarrow> InvertedIndex \<Rightarrow> 'f SearchResult list" where
  "keywordSearch one u query k idx = map (keyword_result one) (limit k (LocalQuery u query idx))"

text \<open>
  \<^verbatim>\<open>Search\<close>. The results of the two modes that involve the vector index, which sort by
  floating-point scores, are arguments: functions of the query and the bound.
\<close>

definition Search ::
  "'f \<Rightarrow> unicode \<Rightarrow> (string \<Rightarrow> int \<Rightarrow> 'f SearchResult list) \<Rightarrow> (string \<Rightarrow> int \<Rightarrow> 'f SearchResult list) \<Rightarrow> InvertedIndex
   \<Rightarrow> string \<Rightarrow> SearchMode \<Rightarrow> int \<Rightarrow> MetadataFilter option \<Rightarrow> 'f SearchResult list" where
  "Search one u vectorSearch hybridSearch idx query mode k flt =
     (let results = (case mode of
                       ModeVector \<Rightarrow> vectorSearch query (k * 2)
                     | ModeHybrid \<Rightarrow> hybridSearch query (k * 2)
                     | _ \<Rightarrow> keywordSearch one u query (k * 2) idx);
          results = (if flt \<noteq> None \<and> \<not> IsEmpty flt
                     then filter (\<lambda>r. case GetDoc (sr_DocID r) idx of Some doc \<Rightarrow> Matches u flt doc | None \<Rightarrow> False) results
                     else results)
      in limit k results)"

section \<open>What the index holds\<close>

text \<open>
  The specification: an index is the sequence of documents added to it, and a query answers
  with the numbers of those that have a term of the same hash, in the order of adding. The
  collection of documents and the lookup are what the searches rely on.
\<close>

type_synonym document = "file_env \<times> string \<times> string"

definition add_document :: "unicode \<Rightarrow> InvertedIndex \<Rightarrow> document \<Rightarrow> InvertedIndex" where
  "add_document u idx d = (case d of (fe, path, content) \<Rightarrow> snd (AddDocument u fe path content idx))"

definition build_index :: "unicode \<Rightarrow> document list \<Rightarrow> InvertedIndex" where
  "build_index u ds = foldl (add_document u) NewInvertedIndex ds"

definition has_hash :: "unicode \<Rightarrow> nat \<Rightarrow> document \<Rightarrow> bool" where
  "has_hash u h d \<longleftrightarrow> h \<in> HashTerm u ` set (Tokenize u (snd (snd d)))"

definition matching :: "unicode \<Rightarrow> nat \<Rightarrow> document list \<Rightarrow> docid list" where
  "matching u h ds = map word_of_nat (filter (\<lambda>i. has_hash u h (ds ! i)) [0..<length ds])"

definition meta_of :: "unicode \<Rightarrow> document list \<Rightarrow> nat \<Rightarrow> DocMeta" where
  "meta_of u ds i = (case ds ! i of (fe, path, content) \<Rightarrow> doc_meta u fe (word_of_nat i) path content)"

definition index_of :: "unicode \<Rightarrow> document list \<Rightarrow> InvertedIndex \<Rightarrow> bool" where
  "index_of u ds idx \<longleftrightarrow>
     (\<forall>h. Terms idx h = (if matching u h ds = [] then None else Some (matching u h ds)))
     \<and> (\<forall>d. Documents idx d = (if unat d < length ds then Some (meta_of u ds (unat d)) else None))
     \<and> nextDocID idx = word_of_nat (length ds)"

lemma appendUnique_idem [simp]: "appendUnique (appendUnique l d) d = appendUnique l d"
  by (simp add: appendUnique_def)

lemma add_terms:
  "foldl (add_term u d) ts terms h =
     (if h \<in> HashTerm u ` set terms then Some (appendUnique (postings ts h) d) else ts h)"
  by (induction terms arbitrary: ts) (auto simp: add_term_def postings_def Let_def)

lemma matching_snoc:
  "matching u h (ds @ [d]) = matching u h ds @ (if has_hash u h d then [word_of_nat (length ds)] else [])"
proof -
  have "filter (\<lambda>i. has_hash u h ((ds @ [d]) ! i)) [0..<length ds] = filter (\<lambda>i. has_hash u h (ds ! i)) [0..<length ds]"
    by (rule filter_cong) (auto simp: nth_append)
  then show ?thesis by (simp add: matching_def)
qed

lemma unat_docid: "i < 2 ^ 32 \<Longrightarrow> unat (word_of_nat i :: docid) = i"
  by (simp add: unsigned_of_nat take_bit_nat_eq_self)

lemma new_docid: "length ds < 2 ^ 32 \<Longrightarrow> (word_of_nat (length ds) :: docid) \<notin> set (matching u h ds)"
  using unat_docid by (fastforce simp: matching_def dest: arg_cong [of _ _ unat])

lemma postings_index: "index_of u ds idx \<Longrightarrow> postings (Terms idx) h = matching u h ds"
  by (simp add: index_of_def postings_def)

lemma index_of_add:
  assumes "index_of u ds idx" "length ds < 2 ^ 32"
  shows "index_of u (ds @ [d]) (add_document u idx d)"
proof -
  obtain fe path content where d: "d = (fe, path, content)" by (cases d)
  let ?n = "word_of_nat (length ds) :: docid"
  have n: "nextDocID idx = ?n" using assms by (simp add: index_of_def)
  have "Terms (add_document u idx d) h =
      (if has_hash u h d then Some (matching u h ds @ [?n]) else Terms idx h)" for h
    using new_docid [OF assms(2), of u h] postings_index [OF assms(1)]
    by (simp add: add_document_def AddDocument_def d n add_terms has_hash_def appendUnique_def Let_def)
  then have "Terms (add_document u idx d) h =
      (if matching u h (ds @ [d]) = [] then None else Some (matching u h (ds @ [d])))" for h
    using assms(1) by (auto simp: matching_snoc index_of_def)
  moreover have "Documents (add_document u idx d) e =
      (if unat e < length (ds @ [d]) then Some (meta_of u (ds @ [d]) (unat e)) else None)" for e
  proof (cases "e = ?n")
    case True
    with assms(2) show ?thesis
      by (simp add: add_document_def AddDocument_def d n Let_def meta_of_def unat_docid)
  next
    case False
    then have "unat e \<noteq> length ds" using unat_docid [OF assms(2)] by (auto simp: word_unat_eq_iff)
    with False assms show ?thesis
      by (auto simp: add_document_def AddDocument_def d n Let_def meta_of_def nth_append index_of_def)
  qed
  moreover have "nextDocID (add_document u idx d) = word_of_nat (length (ds @ [d]))"
    by (simp add: add_document_def AddDocument_def d n Let_def)
  ultimately show ?thesis by (simp add: index_of_def)
qed

lemma index_of_build: "length ds \<le> 2 ^ 32 \<Longrightarrow> index_of u ds (build_index u ds)"
proof (induction ds rule: rev_induct)
  case Nil
  then show ?case by (simp add: build_index_def NewInvertedIndex_def index_of_def matching_def)
next
  case (snoc d ds)
  then show ?case using index_of_add [of u ds "build_index u ds" d] by (simp add: build_index_def)
qed

lemma map_filter_meta:
  assumes "index_of u ds idx" "\<forall>i \<in> set is. i < length ds" "length ds \<le> 2 ^ 32"
  shows "List.map_filter (\<lambda>d. GetDoc d idx) (map word_of_nat is) = map (meta_of u ds) is"
  using assms(2)
proof (induction "is")
  case (Cons i "is")
  then have "GetDoc (word_of_nat i) idx = Some (meta_of u ds i)"
    using assms(1,3) by (simp add: GetDoc_def index_of_def unat_docid)
  with Cons show ?case by (simp add: List.map_filter_simps)
qed (simp add: List.map_filter_simps)

definition hits :: "unicode \<Rightarrow> string \<Rightarrow> document list \<Rightarrow> nat list" where
  "hits u query ds = filter (\<lambda>i. has_hash u (HashTerm u query) (ds ! i)) [0..<length ds]"

lemma hits_bound: "i \<in> set (hits u query ds) \<Longrightarrow> i < length ds"
  by (simp add: hits_def)

lemma LocalQuery_hits:
  assumes "index_of u ds idx" "length ds \<le> 2 ^ 32"
  shows "LocalQuery u query idx = map (meta_of u ds) (hits u query ds)"
proof -
  have "Query u query idx = map word_of_nat (hits u query ds)"
    by (simp add: Query_def postings_index [OF assms(1)] matching_def hits_def)
  with map_filter_meta [OF assms(1) _ assms(2), of "hits u query ds"] hits_bound show ?thesis
    by (simp add: LocalQuery_def)
qed

lemma limit_map: "limit k (map f xs) = map f (limit k xs)"
  by (simp add: limit_def take_map)

lemma set_limit: "x \<in> set (limit k xs) \<Longrightarrow> x \<in> set xs"
  by (auto simp: limit_def dest: in_set_takeD split: if_splits)

lemma IsEmpty_Matches: "IsEmpty flt \<Longrightarrow> Matches u flt doc"
  by (cases flt) (auto simp: IsEmpty_def Matches_def type_ok_def size_ok_def too_early_def too_late_def)

lemma filter_results:
  assumes "index_of u ds idx" "length ds \<le> 2 ^ 32" "\<forall>i \<in> set is. i < length ds"
  shows "filter (\<lambda>r. case GetDoc (sr_DocID r) idx of Some doc \<Rightarrow> P doc | None \<Rightarrow> False)
           (map (\<lambda>i. keyword_result one (meta_of u ds i)) is)
         = map (\<lambda>i. keyword_result one (meta_of u ds i)) (filter (\<lambda>i. P (meta_of u ds i)) is)"
  using assms(3)
proof (induction "is")
  case (Cons i "is")
  have "sr_DocID (keyword_result one (meta_of u ds i)) = word_of_nat i"
    by (simp add: keyword_result_def meta_of_def doc_meta_def Let_def split: prod.splits option.splits)
  then have "GetDoc (sr_DocID (keyword_result one (meta_of u ds i))) idx = Some (meta_of u ds i)"
    using Cons.prems assms(1,2) by (simp add: GetDoc_def index_of_def unat_docid)
  with Cons show ?case by simp
qed simp

lemma before_unix_early: "before_unix (unix t) b \<Longrightarrow> t \<noteq> None \<Longrightarrow> too_early b t"
  by (auto simp: before_unix_def too_early_def unix_def not_le split: option.splits)

lemma after_unix_late: "after_unix (unix t) b \<Longrightarrow> t \<noteq> None \<Longrightarrow> too_late b t"
  by (auto simp: after_unix_def too_late_def unix_def split: option.splits)

section \<open>Properties\<close>


definition ascii :: unicode where
  "ascii = \<lparr>un_NFD = id, un_word = (\<lambda>r. case r of [c] \<Rightarrow> is_alnum c | _ \<Rightarrow> False), un_lower = to_lower\<rparr>"

definition one_document :: "document list" where
  "one_document = [(\<lparr>fe_Stat = Some (11, Some 5), fe_Now = Some 7\<rparr>, ''a.txt'', ''The onion'')]"

lemma Tokenize_sample: "Tokenize ascii ''The onion'' = [''onion'']"
  by code_simp


text \<open>
  A keyword search returns exactly this: of the documents with the hash of the query, the
  first \<open>2k\<close> in the order of adding (all of them if \<open>k\<close> is not positive), of these the ones the
  filter accepts, and of these the first \<open>k\<close>, each with its own metadata. So every result matches
  the query and the filter, and with at most \<open>2k\<close> hits no match is missing below the bound; with
  more hits, documents the filter accepts can be left out although fewer than \<open>k\<close> are returned.
\<close>

theorem keyword_search_exact:
  assumes "length ds \<le> 2 ^ 32"
  shows "Search one u vs hs (build_index u ds) query ModeKeyword k flt =
    map (\<lambda>i. keyword_result one (meta_of u ds i))
      (limit k (filter (\<lambda>i. Matches u flt (meta_of u ds i)) (limit (2 * k) (hits u query ds))))"
proof -
  let ?idx = "build_index u ds"
  note ix = index_of_build [OF assms, of u]
  have r: "keywordSearch one u query (k * 2) ?idx = map (\<lambda>i. keyword_result one (meta_of u ds i)) (limit (2 * k) (hits u query ds))"
    by (simp add: keywordSearch_def LocalQuery_hits [OF ix assms] limit_map comp_def mult.commute)
  show ?thesis
  proof (cases "flt \<noteq> None \<and> \<not> IsEmpty flt")
    case True
    have "\<forall>i \<in> set (limit (2 * k) (hits u query ds)). i < length ds"
      by (auto intro: hits_bound dest: set_limit)
    note f = filter_results [OF ix assms this, of "Matches u flt"]
    have "Search one u vs hs ?idx query ModeKeyword k flt =
      limit k (filter (\<lambda>r. case GetDoc (sr_DocID r) ?idx of Some doc \<Rightarrow> Matches u flt doc | None \<Rightarrow> False)
                (keywordSearch one u query (k * 2) ?idx))"
      unfolding Search_def Let_def by (simp only: if_P [OF True] SearchMode.case)
    then show ?thesis by (simp only: r f limit_map)
  next
    case False
    then have "IsEmpty flt" by (cases flt) (simp_all add: IsEmpty_def)
    then have "Matches u flt d" for d by (rule IsEmpty_Matches)
    moreover have "Search one u vs hs ?idx query ModeKeyword k flt = limit k (keywordSearch one u query (k * 2) ?idx)"
      unfolding Search_def Let_def by (simp only: if_not_P [OF False] SearchMode.case)
    ultimately show ?thesis by (simp add: r limit_map)
  qed
qed

theorem keyword_search_exact_witness:
  "Search (1 :: rat) ascii (\<lambda>_ _. []) (\<lambda>_ _. []) (build_index ascii one_document) ''onion'' ModeKeyword 1
     (Some \<lparr>mf_FileTypes = [], mf_MinSize = 12, mf_MaxSize = 0, mf_CreatedAfter = None, mf_CreatedBefore = None,
            mf_ModifiedAfter = None, mf_ModifiedBefore = None, mf_Tags = []\<rparr>) = []"
  using keyword_search_exact [of one_document "1 :: rat" ascii "\<lambda>_ _. []" "\<lambda>_ _. []" "''onion''" 1]
  by (simp add: one_document_def hits_def has_hash_def Tokenize_sample limit_def Matches_def meta_of_def doc_meta_def size_ok_def Let_def)

text \<open>
  The filter a peer applies to the shared metadata never drops a document whose times are
  known and which the owner's filter accepts; it is coarser only by rounding to seconds and by
  ignoring tags. For a document without a creation time the two differ the other way: the
  owner's filter has no constraint there, the peer's filter takes the time for year 1.
\<close>

theorem replica_filter_sound:
  "(dm_CreatedAt doc \<noteq> None \<and> dm_ModifiedAt doc \<noteq> None \<and> Matches u flt doc \<longrightarrow>
      MatchesReplicaInfo flt (DocMetaToReplicaInfo doc))
   \<and> (dm_CreatedAt doc = None \<and> flt = Some f \<and> mf_CreatedAfter f = Some b \<and> 0 \<le> b \<longrightarrow>
      \<not> MatchesReplicaInfo flt (DocMetaToReplicaInfo doc))"
proof (intro conjI impI)
  assume a: "dm_CreatedAt doc \<noteq> None \<and> dm_ModifiedAt doc \<noteq> None \<and> Matches u flt doc"
  then show "MatchesReplicaInfo flt (DocMetaToReplicaInfo doc)"
    by (cases flt) (auto simp: MatchesReplicaInfo_def DocMetaToReplicaInfo_def Matches_def dest!: before_unix_early after_unix_late)
next
  assume a: "dm_CreatedAt doc = None \<and> flt = Some f \<and> mf_CreatedAfter f = Some b \<and> 0 \<le> b"
  then have "0 \<le> b div 1000000000" by (simp add: pos_imp_zdiv_nonneg_iff)
  then have "- 62135596800 < b div 1000000000" by linarith
  with a show "\<not> MatchesReplicaInfo flt (DocMetaToReplicaInfo doc)"
    by (simp add: MatchesReplicaInfo_def DocMetaToReplicaInfo_def before_unix_def unix_def)
qed

definition sample_filter :: MetadataFilter where
  "sample_filter = \<lparr>mf_FileTypes = [], mf_MinSize = 0, mf_MaxSize = 0, mf_CreatedAfter = Some 1, mf_CreatedBefore = None,
     mf_ModifiedAfter = None, mf_ModifiedBefore = None, mf_Tags = []\<rparr>"

definition sample_doc :: "gotime \<Rightarrow> DocMeta" where
  "sample_doc t = \<lparr>dm_ID = 0, dm_Path = ''a.txt'', dm_Title = ''a.txt'', dm_Size = 1, dm_IndexedAt = Some 1,
     dm_FileType = ''text'', dm_MimeType = ''text/plain'', dm_CreatedAt = t, dm_ModifiedAt = Some 1, dm_Tags = [],
     dm_WordCount = 1\<rparr>"

theorem replica_filter_sound_witness:
  "MatchesReplicaInfo (Some sample_filter) (DocMetaToReplicaInfo (sample_doc (Some 5)))
   \<and> Matches ascii (Some sample_filter) (sample_doc None)
   \<and> \<not> MatchesReplicaInfo (Some sample_filter) (DocMetaToReplicaInfo (sample_doc None))"
proof -
  have m: "Matches ascii (Some sample_filter) (sample_doc t)" if "t = None \<or> t = Some 5" for t
    using that by (auto simp: Matches_def type_ok_def size_ok_def too_early_def too_late_def sample_filter_def sample_doc_def)
  show ?thesis
    using replica_filter_sound [of "sample_doc (Some 5)" ascii "Some sample_filter" sample_filter 1] m
      replica_filter_sound [of "sample_doc None" ascii "Some sample_filter" sample_filter 1]
    by (simp add: sample_doc_def sample_filter_def)
qed

end
