(* ===== verification/Search_Encrypted.thy ===== *)
theory Search_Encrypted
  imports Search_Index
begin

text \<open>
  The encrypted search: \<^verbatim>\<open>fhe/encrypt.go\<close>, \<^verbatim>\<open>fhe/compare.go\<close>, the encrypted index and its queries
  (\<^verbatim>\<open>index/encrypted.go\<close>, \<^verbatim>\<open>index/query.go\<close>), the indexing of a directory (\<^verbatim>\<open>index/document.go\<close>) and the
  storage of keys (\<^verbatim>\<open>fhe/keys.go\<close>). The lattice library is an argument: its operations for one key
  pair and one choice of parameters, with a number that stands for the randomness of an
  encryption. What the search needs from it is the predicate \<open>he_correct\<close>.
\<close>

section \<open>The lattice library\<close>

record ('pt, 'ct) bgv =
  bgv_N :: nat
  bgv_encode :: "nat list \<Rightarrow> 'pt res"
  bgv_encrypt :: "nat \<Rightarrow> 'pt \<Rightarrow> 'ct res"
  bgv_sub :: "'ct \<Rightarrow> 'ct \<Rightarrow> 'ct res"
  bgv_decrypt :: "'ct \<Rightarrow> 'pt"
  bgv_decode :: "'pt \<Rightarrow> nat list res"
  bgv_marshal :: "'ct \<Rightarrow> byte list res"

definition valid_slots :: "('pt, 'ct) bgv \<Rightarrow> nat list \<Rightarrow> bool" where
  "valid_slots lib xs \<longleftrightarrow> length xs = bgv_N lib \<and> (\<forall>x \<in> set xs. x < DefaultPlaintextModulus)"

definition fresh :: "('pt, 'ct) bgv \<Rightarrow> nat list \<Rightarrow> 'ct \<Rightarrow> bool" where
  "fresh lib xs ct \<longleftrightarrow> valid_slots lib xs \<and> (\<exists>pt seed. bgv_encode lib xs = Inr pt \<and> bgv_encrypt lib seed pt = Inr ct)"

text \<open>
  What the library documents of vectors of slot values below the plaintext modulus: they can be
  encoded, encrypted and written, and the difference of two fresh encryptions decrypts to the
  differences of the slots modulo the plaintext modulus.
\<close>

definition he_correct :: "('pt, 'ct) bgv \<Rightarrow> bool" where
  "he_correct lib \<longleftrightarrow>
     0 < bgv_N lib
     \<and> (\<forall>xs seed. valid_slots lib xs \<longrightarrow>
          (\<exists>pt ct m. bgv_encode lib xs = Inr pt \<and> bgv_encrypt lib seed pt = Inr ct \<and> bgv_marshal lib ct = Inr m))
     \<and> (\<forall>xs ys a b. fresh lib xs a \<and> fresh lib ys b \<longrightarrow>
          (\<exists>c. bgv_sub lib a b = Inr c
               \<and> bgv_decode lib (bgv_decrypt lib c)
                 = Inr (map2 (\<lambda>x y. (x + DefaultPlaintextModulus - y) mod DefaultPlaintextModulus) xs ys)))"

section \<open>Encryption and comparison\<close>

definition encrypt_slots :: "('pt, 'ct) bgv \<Rightarrow> nat \<Rightarrow> nat list \<Rightarrow> 'ct res" where
  "encrypt_slots lib seed slots = bind_res (bgv_encode lib slots) (bgv_encrypt lib seed)"

definition EncryptTermPage :: "('pt, 'ct) bgv \<Rightarrow> nat \<Rightarrow> nat list \<Rightarrow> 'ct res" where
  "EncryptTermPage lib seed hashes =
     (let n = bgv_N lib in encrypt_slots lib seed (take n hashes @ replicate (n - length hashes) 0))"

definition EncryptSingleTerm :: "('pt, 'ct) bgv \<Rightarrow> nat \<Rightarrow> nat \<Rightarrow> 'ct res" where
  "EncryptSingleTerm lib seed hash = encrypt_slots lib seed (replicate (bgv_N lib) hash)"

definition DecryptSlots :: "('pt, 'ct) bgv \<Rightarrow> 'ct \<Rightarrow> nat list res" where
  "DecryptSlots lib ct = bgv_decode lib (bgv_decrypt lib ct)"

definition EvaluateMatch :: "('pt, 'ct) bgv \<Rightarrow> 'ct \<Rightarrow> 'ct \<Rightarrow> 'ct res" where
  "EvaluateMatch lib encQuery encTermPage =
     (case bgv_sub lib encQuery encTermPage of
        Inl e \<Rightarrow> Inl (wrap ''homomorphic subtraction'' e)
      | Inr result \<Rightarrow> Inr result)"

definition DecryptMatchVector :: "('pt, 'ct) bgv \<Rightarrow> 'ct \<Rightarrow> nat \<Rightarrow> bool list res" where
  "DecryptMatchVector lib result activeSlots =
     bind_res (DecryptSlots lib result)
       (\<lambda>slots. Inr (map (\<lambda>i. i < length slots \<and> slots ! i = 0) [0..<activeSlots]))"

section \<open>The encrypted index\<close>

record 'ct EncryptedIndex =
  ei_TermPages :: "('ct \<times> nat) list"
  ei_PageCount :: nat
  ei_TermCount :: nat
  ei_DocCount :: nat
  ei_Checksum :: "byte list"

text \<open>
  The loop over the pages, with the encodings that go into the checksum. The number of slots is a
  power of two, so the loop makes progress; with no slots at all it would not.
\<close>

function build_pages :: "('pt, 'ct) bgv \<Rightarrow> nat \<Rightarrow> nat list \<Rightarrow> (('ct \<times> nat) list \<times> byte list) res" where
  "build_pages lib seed hashes =
     (if hashes = [] \<or> bgv_N lib = 0 then Inr ([], [])
      else let pageHashes = take (bgv_N lib) hashes in
        bind_res (EncryptTermPage lib seed pageHashes) (\<lambda>ct.
        bind_res (bgv_marshal lib ct) (\<lambda>ctBytes.
        bind_res (build_pages lib (Suc seed) (drop (bgv_N lib) hashes)) (\<lambda>(pages, bytes).
        Inr ((ct, length pageHashes) # pages, ctBytes @ bytes)))))"
  by pat_completeness auto
termination
  by (relation "measure (\<lambda>(lib, seed, hashes). length hashes)") auto

declare build_pages.simps [simp del]

text \<open>\<open>allHashes\<close> is the result of \<^verbatim>\<open>TermHashes\<close>: the keys of the map in the order of iteration.\<close>

definition BuildEncryptedIndex ::
  "('pt, 'ct) bgv \<Rightarrow> nat \<Rightarrow> nat list \<Rightarrow> InvertedIndex \<Rightarrow> 'ct EncryptedIndex res" where
  "BuildEncryptedIndex lib seed allHashes idx =
     bind_res (build_pages lib seed allHashes) (\<lambda>(pages, bytes).
       Inr \<lparr>ei_TermPages = pages, ei_PageCount = length pages, ei_TermCount = TermCount idx,
            ei_DocCount = DocCount idx, ei_Checksum = sha256 bytes\<rparr>)"

definition EncryptedQuery :: "('pt, 'ct) bgv \<Rightarrow> unicode \<Rightarrow> nat \<Rightarrow> string \<Rightarrow> 'ct res" where
  "EncryptedQuery lib u seed term = EncryptSingleTerm lib seed (HashTerm u term)"

fun evaluate_pages :: "('pt, 'ct) bgv \<Rightarrow> 'ct \<Rightarrow> ('ct \<times> nat) list \<Rightarrow> 'ct list res" where
  "evaluate_pages lib q [] = Inr []"
| "evaluate_pages lib q (page # pages) =
     bind_res (EvaluateMatch lib q (fst page)) (\<lambda>r. bind_res (evaluate_pages lib q pages) (\<lambda>rs. Inr (r # rs)))"

definition DelegatedEvaluate :: "('pt, 'ct) bgv \<Rightarrow> 'ct \<Rightarrow> 'ct EncryptedIndex \<Rightarrow> 'ct list res" where
  "DelegatedEvaluate lib encQuery encIdx = evaluate_pages lib encQuery (ei_TermPages encIdx)"

definition true_slots :: "nat \<Rightarrow> bool list \<Rightarrow> nat list" where
  "true_slots offset ms = map (\<lambda>j. offset + j) (filter (\<lambda>j. ms ! j) [0..<length ms])"

fun decrypt_loop :: "('pt, 'ct) bgv \<Rightarrow> nat \<Rightarrow> 'ct list \<Rightarrow> ('ct \<times> nat) list \<Rightarrow> nat list res outcome" where
  "decrypt_loop lib offset [] pages = Ret (Inr [])"
| "decrypt_loop lib offset (result # results) [] = Panic ''index out of range''"
| "decrypt_loop lib offset (result # results) (page # pages) =
     (case DecryptMatchVector lib result (snd page) of
        Inl e \<Rightarrow> Ret (Inl e)
      | Inr ms \<Rightarrow>
          (case decrypt_loop lib (offset + snd page) results pages of
             Ret (Inr rest) \<Rightarrow> Ret (Inr (true_slots offset ms @ rest))
           | r \<Rightarrow> r))"

definition DecryptResults :: "('pt, 'ct) bgv \<Rightarrow> 'ct list \<Rightarrow> 'ct EncryptedIndex \<Rightarrow> nat list res outcome" where
  "DecryptResults lib results encIdx = decrypt_loop lib 0 results (ei_TermPages encIdx)"

section \<open>Correctness of the encrypted search\<close>

lemma diff_mod_zero: "x < t \<Longrightarrow> y < t \<Longrightarrow> (x + t - y) mod t = 0 \<longleftrightarrow> x = y" for x y t :: nat
  by (cases "x < y") (auto simp: mod_if)

lemma encrypt_slots_fresh: "encrypt_slots lib seed xs = Inr ct \<Longrightarrow> valid_slots lib xs \<Longrightarrow> fresh lib xs ct"
  by (auto simp: encrypt_slots_def fresh_def)

lemma encrypt_slots_ok: "he_correct lib \<Longrightarrow> valid_slots lib xs \<Longrightarrow> \<exists>ct m. encrypt_slots lib seed xs = Inr ct \<and> bgv_marshal lib ct = Inr m"
  unfolding he_correct_def encrypt_slots_def by fastforce

lemma true_slots_append: "true_slots off (xs @ ys) = true_slots off xs @ true_slots (off + length xs) ys"
proof -
  have "[0..<length xs + length ys] = [0..<length xs] @ map (\<lambda>j. length xs + j) [0..<length ys]"
    using upt_add_eq_append [of 0 "length xs" "length ys"] map_add_upt [of "length xs" "length ys"]
    by (simp add: add.commute [of "length xs"])
  moreover have "filter (\<lambda>j. (xs @ ys) ! j) [0..<length xs] = filter (\<lambda>j. xs ! j) [0..<length xs]"
    by (rule filter_cong) (auto simp: nth_append)
  ultimately show ?thesis by (simp add: true_slots_def filter_map comp_def nth_append add.assoc)
qed

lemma match_vector:
  assumes he: "he_correct lib" and q: "fresh lib (replicate (bgv_N lib) h) q"
    and ct: "fresh lib (c @ replicate (bgv_N lib - length c) 0) ct" and c: "length c \<le> bgv_N lib"
  shows "\<exists>r. EvaluateMatch lib q ct = Inr r \<and> DecryptMatchVector lib r (length c) = Inr (map (\<lambda>x. x = h) c)"
proof -
  let ?N = "bgv_N lib" and ?t = DefaultPlaintextModulus
  let ?f = "\<lambda>x y. (x + ?t - y) mod ?t" and ?ys = "c @ replicate (bgv_N lib - length c) 0"
  from he q ct obtain r where r: "bgv_sub lib q ct = Inr r"
    "bgv_decode lib (bgv_decrypt lib r) = Inr (map2 ?f (replicate ?N h) ?ys)"
    unfolding he_correct_def by blast
  have lt: "h < ?t" if "c \<noteq> []" using q c that by (auto simp: fresh_def valid_slots_def)
  have ltc: "\<forall>x \<in> set c. x < ?t" using ct by (auto simp: fresh_def valid_slots_def)
  have "(i < length (map2 ?f (replicate ?N h) ?ys) \<and> map2 ?f (replicate ?N h) ?ys ! i = 0) \<longleftrightarrow> c ! i = h"
    if "i < length c" for i
  proof -
    have "map2 ?f (replicate ?N h) ?ys ! i = ?f h (c ! i)" using that c by (simp add: nth_append)
    moreover have "h < ?t \<and> c ! i < ?t" using that lt ltc nth_mem [of i c] by fastforce
    moreover have "i < length (map2 ?f (replicate ?N h) ?ys)" using that c by simp
    ultimately show ?thesis using diff_mod_zero [of h ?t "c ! i"] by metis
  qed
  then have "map (\<lambda>i. i < length (map2 ?f (replicate ?N h) ?ys) \<and> map2 ?f (replicate ?N h) ?ys ! i = 0) [0..<length c]
      = map (\<lambda>i. c ! i = h) [0..<length c]" by (intro map_cong) auto
  also have "\<dots> = map (\<lambda>x. x = h) c" by (auto intro: nth_equalityI)
  finally show ?thesis using r by (simp add: EvaluateMatch_def DecryptMatchVector_def DecryptSlots_def)
qed

text \<open>The pages of an index, evaluated and decrypted, by induction on the pages.\<close>

lemma pages_correct:
  assumes he: "he_correct lib" and q: "fresh lib (replicate (bgv_N lib) h) q"
    and "\<forall>x \<in> set hashes. x < DefaultPlaintextModulus"
  shows "\<exists>pages bytes rs. build_pages lib seed hashes = Inr (pages, bytes) \<and> evaluate_pages lib q pages = Inr rs
    \<and> (\<forall>off. decrypt_loop lib off rs pages = Ret (Inr (true_slots off (map (\<lambda>x. x = h) hashes))))"
  using assms(3)
proof (induction "length hashes" arbitrary: seed hashes rule: less_induct)
  case less
  have N: "0 < bgv_N lib" using he by (simp add: he_correct_def)
  show ?case
  proof (cases "hashes = []")
    case True
    then show ?thesis by (auto simp: build_pages.simps true_slots_def)
  next
    case False
    let ?c = "take (bgv_N lib) hashes" and ?d = "drop (bgv_N lib) hashes"
    have v: "valid_slots lib (?c @ replicate (bgv_N lib - length ?c) 0)"
      using less.prems by (auto simp: valid_slots_def DefaultPlaintextModulus_def dest: in_set_takeD)
    obtain ct m where ct: "EncryptTermPage lib seed ?c = Inr ct" "bgv_marshal lib ct = Inr m"
      using encrypt_slots_ok [OF he v, of seed] by (auto simp: EncryptTermPage_def Let_def min_def split: if_splits)
    have f: "fresh lib (?c @ replicate (bgv_N lib - length ?c) 0) ct"
      using ct(1) v by (intro encrypt_slots_fresh [of _ seed]) (auto simp: EncryptTermPage_def Let_def min_def split: if_splits)
    obtain r where r: "EvaluateMatch lib q ct = Inr r" "DecryptMatchVector lib r (length ?c) = Inr (map (\<lambda>x. x = h) ?c)"
      using match_vector [OF he q f] by auto
    have "length ?d < length hashes" "\<forall>x \<in> set ?d. x < DefaultPlaintextModulus"
      using False N less.prems by (auto dest: in_set_dropD)
    from less.hyps [OF this, of "Suc seed"] obtain pages bytes rs where
      ih: "build_pages lib (Suc seed) ?d = Inr (pages, bytes)" "evaluate_pages lib q pages = Inr rs"
        "\<forall>off. decrypt_loop lib off rs pages = Ret (Inr (true_slots off (map (\<lambda>x. x = h) ?d)))" by blast
    have "map (\<lambda>x. x = h) hashes = map (\<lambda>x. x = h) ?c @ map (\<lambda>x. x = h) ?d"
      by (simp add: append_take_drop_id flip: map_append)
    then have ts: "true_slots off (map (\<lambda>x. x = h) hashes) =
        true_slots off (map (\<lambda>x. x = h) ?c) @ true_slots (off + length ?c) (map (\<lambda>x. x = h) ?d)" for off
      using true_slots_append [of off "map (\<lambda>x. x = h) ?c" "map (\<lambda>x. x = h) ?d"] by simp
    have "build_pages lib seed hashes = Inr ((ct, length ?c) # pages, m @ bytes)"
      using False N ct ih(1) by (subst build_pages.simps) (simp add: Let_def)
    moreover have "evaluate_pages lib q ((ct, length ?c) # pages) = Inr (r # rs)" using r(1) ih(2) by simp
    moreover have "decrypt_loop lib off (r # rs) ((ct, length ?c) # pages) = Ret (Inr (true_slots off (map (\<lambda>x. x = h) hashes)))" for off
      using r(2) ih(3) by (simp only: decrypt_loop.simps snd_conv sum.case outcome.case ts)
    ultimately show ?thesis by blast
  qed
qed

lemma HashTerm_bound: "HashTerm u t < DefaultPlaintextModulus"
  by (simp add: HashTerm_def DefaultPlaintextModulus_def)

lemma index_keys:
  assumes "length ds \<le> 2 ^ 32" "h \<in> dom (Terms (build_index u ds))"
  shows "h < DefaultPlaintextModulus"
proof -
  from assms(2) index_of_build [OF assms(1), of u] have "matching u h ds \<noteq> []"
    by (auto simp: index_of_def split: if_splits)
  then obtain i where "has_hash u h (ds ! i)" by (auto simp: matching_def filter_empty_conv)
  then show ?thesis using HashTerm_bound by (auto simp: has_hash_def)
qed

section \<open>Indexing a directory\<close>

definition SupportedExtensions :: "string list" where
  "SupportedExtensions = [''.txt'', ''.md'', ''.log'', ''.csv'', ''.json'', ''.xml'', ''.html'', ''.htm'', ''.yaml'', ''.yml'',
     ''.toml'', ''.cfg'', ''.conf'', ''.ini'']"

text \<open>
  An entry as \<^verbatim>\<open>filepath.WalkDir\<close> visits it: its path, whether there was an error, whether it is a
  directory, its size and its content if they can be read, and what \<^verbatim>\<open>AddDocument\<close> will find.
\<close>

record dir_entry =
  en_path :: string
  en_err :: bool
  en_dir :: bool
  en_size :: "int option"
  en_content :: "string option"
  en_file :: file_env

definition index_entry :: "unicode \<Rightarrow> nat \<times> InvertedIndex \<Rightarrow> dir_entry \<Rightarrow> nat \<times> InvertedIndex" where
  "index_entry u st d =
     (case st of (count, idx) \<Rightarrow>
        if en_err d then st
        else if en_dir d then st
        else if to_lower (path_ext (en_path d)) \<notin> set SupportedExtensions then st
        else case en_size d of
          None \<Rightarrow> st
        | Some sz \<Rightarrow>
            if sz > 10 * 1024 * 1024 then st
            else case en_content d of
              None \<Rightarrow> st
            | Some content \<Rightarrow> (count + 1, snd (AddDocument u (en_file d) (en_path d) content idx)))"

text \<open>The callback never fails, so the only error is one of \<^verbatim>\<open>WalkDir\<close> itself.\<close>

definition IndexDirectory ::
  "unicode \<Rightarrow> string \<Rightarrow> dir_entry list \<Rightarrow> goerr option \<Rightarrow> InvertedIndex \<Rightarrow> (nat \<times> goerr option) \<times> InvertedIndex" where
  "IndexDirectory u dirPath visited walk_err idx =
     (case foldl (index_entry u) (0, idx) visited of
        (count, idx') \<Rightarrow> ((count, map_option (wrap (''walk '' @ dirPath)) walk_err), idx'))"

definition indexed :: "dir_entry \<Rightarrow> document option" where
  "indexed d =
     (if en_err d \<or> en_dir d \<or> to_lower (path_ext (en_path d)) \<notin> set SupportedExtensions then None
      else case (en_size d, en_content d) of
        (Some sz, Some content) \<Rightarrow> (if sz > 10 * 1024 * 1024 then None else Some (en_file d, en_path d, content))
      | _ \<Rightarrow> None)"

lemma index_entry_indexed:
  "index_entry u (n, idx) d = (case indexed d of None \<Rightarrow> (n, idx) | Some doc \<Rightarrow> (n + 1, add_document u idx doc))"
  by (auto simp: index_entry_def indexed_def add_document_def split: option.splits)

lemma index_entries:
  "foldl (index_entry u) (n, idx) ds =
     (n + length (List.map_filter indexed ds), foldl (add_document u) idx (List.map_filter indexed ds))"
  by (induction ds arbitrary: n idx) (simp_all add: List.map_filter_simps index_entry_indexed split: option.splits)

section \<open>Properties\<close>

text \<open>
  C34. The encrypted search is correct: for an index of at most \<open>2\<^sup>3\<^sup>2\<close> documents, whose term
  hashes are packed in any order, building the encrypted index, encrypting a query, letting a
  peer evaluate it and decrypting the answers succeeds, and gives exactly the positions of the
  queried hash among the packed ones. There is one exactly if the plain index finds a document.
  The hypothesis on the lattice library is \<open>he_correct\<close>; the order of the hashes is Go's map
  iteration order.
\<close>

theorem encrypted_search_correct:
  assumes "he_correct lib" "length ds \<le> 2 ^ 32" "idx = build_index u ds"
    and "set hashes = dom (Terms idx)"
  shows "\<exists>ei q rs slots. BuildEncryptedIndex lib seed hashes idx = Inr ei \<and> EncryptedQuery lib u qseed term = Inr q
    \<and> DelegatedEvaluate lib q ei = Inr rs \<and> DecryptResults lib rs ei = Ret (Inr slots)
    \<and> slots = filter (\<lambda>i. hashes ! i = HashTerm u term) [0..<length hashes]
    \<and> (slots \<noteq> [] \<longleftrightarrow> Query u term idx \<noteq> [])"
proof -
  let ?h = "HashTerm u term"
  have b: "\<forall>x \<in> set hashes. x < DefaultPlaintextModulus" using index_keys [OF assms(2)] assms(3,4) by auto
  have v: "valid_slots lib (replicate (bgv_N lib) ?h)" by (simp add: valid_slots_def HashTerm_bound)
  obtain q where q: "EncryptedQuery lib u qseed term = Inr q"
    using encrypt_slots_ok [OF assms(1) v, of qseed] by (auto simp: EncryptedQuery_def EncryptSingleTerm_def)
  then have "fresh lib (replicate (bgv_N lib) ?h) q"
    using v by (auto simp: EncryptedQuery_def EncryptSingleTerm_def intro: encrypt_slots_fresh)
  from pages_correct [OF assms(1) this b, of seed] obtain pages bytes rs where
    p: "build_pages lib seed hashes = Inr (pages, bytes)" "evaluate_pages lib q pages = Inr rs"
      "decrypt_loop lib 0 rs pages = Ret (Inr (true_slots 0 (map (\<lambda>x. x = ?h) hashes)))" by blast
  let ?slots = "filter (\<lambda>i. hashes ! i = ?h) [0..<length hashes]"
  have ts: "true_slots 0 (map (\<lambda>x. x = ?h) hashes) = ?slots"
    by (auto simp: true_slots_def intro!: filter_cong)
  have "?slots \<noteq> [] \<longleftrightarrow> ?h \<in> set hashes" by (auto simp: filter_empty_conv in_set_conv_nth)
  also have "\<dots> \<longleftrightarrow> Query u term idx \<noteq> []"
    using index_of_build [OF assms(2), of u] assms(3,4) by (auto simp: Query_def postings_def index_of_def dom_def split: option.splits if_splits)
  finally show ?thesis
    using p q ts by (auto simp: BuildEncryptedIndex_def DelegatedEvaluate_def DecryptResults_def)
qed

text \<open>A library whose ciphertexts are the slots themselves, for an example.\<close>

definition clear_lib :: "(nat list, nat list) bgv" where
  "clear_lib = \<lparr>bgv_N = 4, bgv_encode = Inr, bgv_encrypt = (\<lambda>_. Inr),
     bgv_sub = (\<lambda>xs ys. Inr (map2 (\<lambda>x y. (x + DefaultPlaintextModulus - y) mod DefaultPlaintextModulus) xs ys)),
     bgv_decrypt = id, bgv_decode = Inr, bgv_marshal = (\<lambda>_. Inr [])\<rparr>"

lemma clear_lib_correct: "he_correct clear_lib"
  by (auto simp: he_correct_def fresh_def valid_slots_def clear_lib_def)

theorem encrypted_search_correct_witness:
  "\<exists>ei q rs. BuildEncryptedIndex clear_lib 0 [HashTerm ascii ''onion''] (build_index ascii one_document) = Inr ei
     \<and> EncryptedQuery clear_lib ascii 1 ''onion'' = Inr q \<and> DelegatedEvaluate clear_lib q ei = Inr rs
     \<and> DecryptResults clear_lib rs ei = Ret (Inr [0])"
proof -
  have "index_of ascii one_document (build_index ascii one_document)"
    by (rule index_of_build) (simp add: one_document_def)
  then have "set [HashTerm ascii ''onion''] = dom (Terms (build_index ascii one_document))"
    by (auto simp: index_of_def matching_def has_hash_def one_document_def Tokenize_sample split: if_splits)
  from encrypted_search_correct [OF clear_lib_correct _ refl this, of 0 1 "''onion''"] show ?thesis
    by (auto simp: one_document_def)
qed

text \<open>
  Indexing a directory adds, in the order of the walk, exactly the files that can be read, have
  a supported extension and at most 10 MB, and returns their number; entries with errors,
  directories and other files change nothing, and the only error reported is that of the walk
  itself.
\<close>

theorem IndexDirectory_adds:
  "IndexDirectory u dir visited walk_err idx =
     ((length (List.map_filter indexed visited), map_option (wrap (''walk '' @ dir)) walk_err),
      foldl (add_document u) idx (List.map_filter indexed visited))"
  by (simp add: IndexDirectory_def index_entries)

section \<open>Keys on disk\<close>

text \<open>
  The key-derivation function is third-party code and an argument; so are the two operations of
  AES-GCM on a key and the random numbers. A nonce has 12 bytes and a key of 16, 24 or 32 bytes
  is accepted.
\<close>

record crypto =
  cr_salt :: "string res"
  cr_nonce :: "string res"
  cr_kdf :: "string \<Rightarrow> string \<Rightarrow> string"
  cr_seal :: "string \<Rightarrow> string \<Rightarrow> string \<Rightarrow> string"
  cr_open :: "string \<Rightarrow> string \<Rightarrow> string \<Rightarrow> string res"

definition new_gcm :: "string \<Rightarrow> string res" where
  "new_gcm key =
     (if length key \<in> {16, 24, 32} then Inr key
      else Inl (ErrMsg (''crypto/aes: invalid key size '' @ itoa (int (length key)))))"

definition encryptWithPassphrase :: "crypto \<Rightarrow> string \<Rightarrow> string \<Rightarrow> string res" where
  "encryptWithPassphrase cr data passphrase =
     bind_res (cr_salt cr) (\<lambda>salt.
     bind_res (new_gcm (cr_kdf cr passphrase salt)) (\<lambda>key.
     bind_res (cr_nonce cr) (\<lambda>nonce.
     Inr (salt @ nonce @ cr_seal cr key nonce data))))"

definition decryptWithPassphrase :: "crypto \<Rightarrow> string \<Rightarrow> string \<Rightarrow> string res" where
  "decryptWithPassphrase cr data passphrase =
     (if length data < 28 then Inl (ErrMsg ''encrypted data too short'')
      else let salt = take 16 data in
        bind_res (new_gcm (cr_kdf cr passphrase salt)) (\<lambda>key.
        if length data < 16 + 12 then Inl (ErrMsg ''encrypted data too short for nonce'')
        else cr_open cr key (take 12 (drop 16 data)) (drop 28 data)))"

record ('p, 'sk, 'pk, 'ek) KeySet =
  ks_Params :: 'p
  ks_SecretKey :: 'sk
  ks_PublicKey :: 'pk
  ks_EvaluationKey :: "'ek option"

text \<open>Reading and writing of keys and parameters by the library; unmarshalling a key needs the
  parameters.\<close>

record ('p, 'sk, 'pk) codec =
  co_params :: "'p \<Rightarrow> string res"
  co_pk :: "'pk \<Rightarrow> string res"
  co_sk :: "'sk \<Rightarrow> string res"
  co_params_back :: "string \<Rightarrow> 'p res"
  co_pk_back :: "'p \<Rightarrow> string \<Rightarrow> 'pk res"
  co_sk_back :: "'p \<Rightarrow> string \<Rightarrow> 'sk res"

type_synonym files = "string \<rightharpoonup> string"

text \<open>\<open>fail\<close> tells which of the file operations fail; a failed write leaves the file as it was.\<close>

definition write_file :: "(string \<Rightarrow> goerr option) \<Rightarrow> string \<Rightarrow> string \<Rightarrow> files \<Rightarrow> goerr option \<times> files" where
  "write_file fail path data fs = (case fail path of Some e \<Rightarrow> (Some e, fs) | None \<Rightarrow> (None, fs(path \<mapsto> data)))"

definition save_part ::
  "(string \<Rightarrow> goerr option) \<Rightarrow> string \<Rightarrow> string \<Rightarrow> string res \<Rightarrow> (files \<Rightarrow> goerr option \<times> files) \<Rightarrow> files \<Rightarrow> goerr option \<times> files" where
  "save_part fail what path data rest fs =
     (case data of
        Inl e \<Rightarrow> (Some e, fs)
      | Inr d \<Rightarrow>
          (case write_file fail path d fs of
             (Some e, fs') \<Rightarrow> (Some (wrap (''write '' @ what) e), fs')
           | (None, fs') \<Rightarrow> rest fs'))"

definition wrap_res :: "string \<Rightarrow> 'a res \<Rightarrow> 'a res" where
  "wrap_res what r = (case r of Inl e \<Rightarrow> Inl (wrap what e) | Inr x \<Rightarrow> Inr x)"

definition SaveKeys ::
  "crypto \<Rightarrow> ('p, 'sk, 'pk) codec \<Rightarrow> (string \<Rightarrow> goerr option) \<Rightarrow> goerr option \<Rightarrow> string \<Rightarrow> string
   \<Rightarrow> ('p, 'sk, 'pk, 'ek) KeySet \<Rightarrow> files \<Rightarrow> goerr option \<times> files" where
  "SaveKeys cr co fail mkdir dir passphrase ks fs =
     (case mkdir of
        Some e \<Rightarrow> (Some (wrap ''create key dir'' e), fs)
      | None \<Rightarrow>
          save_part fail ''public key'' (dir @ ''/pubkey.bin'')
            (wrap_res ''marshal public key'' (co_pk co (ks_PublicKey ks)))
         (save_part fail ''secret key'' (dir @ ''/seckey.enc'')
            (bind_res (wrap_res ''marshal secret key'' (co_sk co (ks_SecretKey ks)))
               (\<lambda>sk. wrap_res ''encrypt secret key'' (encryptWithPassphrase cr sk passphrase)))
         (save_part fail ''params'' (dir @ ''/params.bin'')
            (wrap_res ''marshal params'' (co_params co (ks_Params ks)))
         (\<lambda>fs. (None, fs)))) fs)"

definition read_file :: "string \<Rightarrow> files \<Rightarrow> string res" where
  "read_file path fs =
     (case fs path of None \<Rightarrow> Inl (ErrMsg (''open '' @ path @ '': no such file or directory'')) | Some d \<Rightarrow> Inr d)"

definition LoadKeys ::
  "crypto \<Rightarrow> ('p, 'sk, 'pk) codec \<Rightarrow> string \<Rightarrow> string \<Rightarrow> files \<Rightarrow> ('p, 'sk, 'pk, 'ek) KeySet res" where
  "LoadKeys cr co dir passphrase fs =
     bind_res (wrap_res ''read params'' (read_file (dir @ ''/params.bin'') fs)) (\<lambda>paramsBytes.
     bind_res (wrap_res ''unmarshal params'' (co_params_back co paramsBytes)) (\<lambda>params.
     bind_res (wrap_res ''read public key'' (read_file (dir @ ''/pubkey.bin'') fs)) (\<lambda>pkBytes.
     bind_res (wrap_res ''unmarshal public key'' (co_pk_back co params pkBytes)) (\<lambda>pk.
     bind_res (wrap_res ''read secret key'' (read_file (dir @ ''/seckey.enc'') fs)) (\<lambda>encBytes.
     bind_res (wrap_res ''decrypt secret key'' (decryptWithPassphrase cr encBytes passphrase)) (\<lambda>skBytes.
     bind_res (wrap_res ''unmarshal secret key'' (co_sk_back co params skBytes)) (\<lambda>sk.
     Inr \<lparr>ks_Params = params, ks_SecretKey = sk, ks_PublicKey = pk, ks_EvaluationKey = None\<rparr>)))))))"

text \<open>What the two libraries document: opening a sealed message gives it back, a derived key and the
  random strings have the lengths asked for, and unmarshalling inverts marshalling.\<close>

definition crypto_ok :: "crypto \<Rightarrow> bool" where
  "crypto_ok cr \<longleftrightarrow>
     (\<forall>p s. length (cr_kdf cr p s) = 32) \<and> (\<forall>k n d. cr_open cr k n (cr_seal cr k n d) = Inr d)
     \<and> (\<forall>s. cr_salt cr = Inr s \<longrightarrow> length s = 16) \<and> (\<forall>n. cr_nonce cr = Inr n \<longrightarrow> length n = 12)"

definition codec_ok :: "('p, 'sk, 'pk) codec \<Rightarrow> bool" where
  "codec_ok co \<longleftrightarrow>
     (\<forall>p b. co_params co p = Inr b \<longrightarrow> co_params_back co b = Inr p)
     \<and> (\<forall>p k b. co_pk co k = Inr b \<longrightarrow> co_pk_back co p b = Inr k)
     \<and> (\<forall>p k b. co_sk co k = Inr b \<longrightarrow> co_sk_back co p b = Inr k)"

lemma wrap_res_Inr [simp]: "wrap_res w r = Inr x \<longleftrightarrow> r = Inr x"
  by (cases r) (simp_all add: wrap_res_def)

lemma passphrase_roundtrip:
  assumes "crypto_ok cr" "encryptWithPassphrase cr data p = Inr c"
  shows "decryptWithPassphrase cr c p = Inr data"
  using assms
  by (auto simp: crypto_ok_def encryptWithPassphrase_def decryptWithPassphrase_def new_gcm_def Let_def)

lemma save_part_None:
  "save_part fail what path data rest fs = (None, fs') \<longleftrightarrow>
     (\<exists>d. data = Inr d \<and> fail path = None \<and> rest (fs(path \<mapsto> d)) = (None, fs'))"
  by (auto simp: save_part_def write_file_def split: sum.splits option.splits)

text \<open>
  C35. Keys that \<^verbatim>\<open>SaveKeys\<close> wrote without an error are read back by \<^verbatim>\<open>LoadKeys\<close> with the same
  directory and passphrase: the same parameters, public key and secret key. The evaluation key
  is not stored, so a loaded key set has none.
\<close>

theorem keys_roundtrip:
  assumes "crypto_ok cr" "codec_ok co" "SaveKeys cr co fail mkdir dir pass ks fs = (None, fs')"
  shows "LoadKeys cr co dir pass fs' = Inr (ks\<lparr>ks_EvaluationKey := None\<rparr>)"
proof -
  from assms(3) obtain pk sk enc ps where
    "co_pk co (ks_PublicKey ks) = Inr pk" "co_sk co (ks_SecretKey ks) = Inr sk"
    "encryptWithPassphrase cr sk pass = Inr enc" "co_params co (ks_Params ks) = Inr ps"
    "fs' = fs(dir @ ''/pubkey.bin'' \<mapsto> pk, dir @ ''/seckey.enc'' \<mapsto> enc, dir @ ''/params.bin'' \<mapsto> ps)"
    by (auto simp: SaveKeys_def save_part_None split: option.splits)
  with assms(2) passphrase_roundtrip [OF assms(1), of sk pass enc] show ?thesis
    by (simp add: LoadKeys_def read_file_def codec_ok_def wrap_res_def)
qed

definition sample_crypto :: crypto where
  "sample_crypto = \<lparr>cr_salt = Inr (replicate 16 NUL), cr_nonce = Inr (replicate 12 NUL),
     cr_kdf = (\<lambda>_ _. replicate 32 NUL), cr_seal = (\<lambda>_ _ d. d), cr_open = (\<lambda>_ _ d. Inr d)\<rparr>"

definition sample_codec :: "(string, string, string) codec" where
  "sample_codec = \<lparr>co_params = Inr, co_pk = Inr, co_sk = Inr, co_params_back = Inr, co_pk_back = (\<lambda>_. Inr), co_sk_back = (\<lambda>_. Inr)\<rparr>"

definition sample_keys :: "(string, string, string, string) KeySet" where
  "sample_keys = \<lparr>ks_Params = ''p'', ks_SecretKey = ''s'', ks_PublicKey = ''k'', ks_EvaluationKey = Some ''e''\<rparr>"

theorem keys_roundtrip_witness:
  "\<exists>fs'. SaveKeys sample_crypto sample_codec (\<lambda>_. None) None ''d'' ''pw'' sample_keys Map.empty = (None, fs')
     \<and> LoadKeys sample_crypto sample_codec ''d'' ''pw'' fs' = Inr (sample_keys\<lparr>ks_EvaluationKey := None\<rparr>)"
proof -
  have ok: "crypto_ok sample_crypto" "codec_ok sample_codec"
    by (simp_all add: crypto_ok_def codec_ok_def sample_crypto_def sample_codec_def)
  have "\<exists>fs'. SaveKeys sample_crypto sample_codec (\<lambda>_. None) None ''d'' ''pw'' sample_keys Map.empty = (None, fs')"
    by (simp add: SaveKeys_def save_part_def write_file_def wrap_res_def encryptWithPassphrase_def new_gcm_def
        sample_crypto_def sample_codec_def sample_keys_def)
  with keys_roundtrip [OF ok, of "\<lambda>_. None" None "''d''" "''pw''" sample_keys Map.empty] show ?thesis by blast
qed

text \<open>\<^verbatim>\<open>HashPassphrase\<close>, with which a passphrase can be checked without storing it.\<close>

definition HashPassphrase :: "string \<Rightarrow> string" where
  "HashPassphrase passphrase = hex_encode (string_of (sha256 (bytes_of passphrase)))"

lemma HashPassphrase_length: "length (HashPassphrase p) = 64"
  by (simp add: HashPassphrase_def hex_encode_length string_of_def sha256_length)

end
