(* ===== verification/Go_Heap.thy ===== *)
theory Go_Heap
  imports "HOL-Library.Multiset"
begin

text \<open>
  Package \<^verbatim>\<open>container/heap\<close> on a slice, and the exchange sort that the index packages write
  out as two nested loops. The order is the \<^verbatim>\<open>Less\<close> of the client, which need not be total: it
  compares distances in floating point. What holds for every order (the elements stay the same)
  is proved without hypotheses; the order of the results needs a strict weak order on the
  elements that occur.
\<close>

named_theorems heap_elems \<open>which elements a heap or sorted slice holds\<close>

definition weak_order_on :: "'a set \<Rightarrow> ('a \<Rightarrow> 'a \<Rightarrow> bool) \<Rightarrow> bool" where
  "weak_order_on A lt \<longleftrightarrow>
     (\<forall>x\<in>A. \<forall>y\<in>A. lt x y \<longrightarrow> \<not> lt y x)
   \<and> (\<forall>x\<in>A. \<forall>y\<in>A. \<forall>z\<in>A. \<not> lt x y \<longrightarrow> \<not> lt y z \<longrightarrow> \<not> lt x z)"

lemma weak_order_asym: "weak_order_on A lt \<Longrightarrow> x \<in> A \<Longrightarrow> y \<in> A \<Longrightarrow> lt x y \<Longrightarrow> \<not> lt y x"
  unfolding weak_order_on_def by blast

lemma weak_order_negtrans:
  "weak_order_on A lt \<Longrightarrow> x \<in> A \<Longrightarrow> y \<in> A \<Longrightarrow> z \<in> A \<Longrightarrow> \<not> lt x y \<Longrightarrow> \<not> lt y z \<Longrightarrow> \<not> lt x z"
  unfolding weak_order_on_def by blast

lemma weak_order_irrefl: "weak_order_on A lt \<Longrightarrow> x \<in> A \<Longrightarrow> \<not> lt x x"
  unfolding weak_order_on_def by blast

lemma weak_order_trans:
  assumes "weak_order_on A lt" "x \<in> A" "y \<in> A" "z \<in> A" "lt x y" "lt y z"
  shows "lt x z"
  using assms weak_order_negtrans [OF assms(1,4,2,3)] weak_order_asym [OF assms(1)]
    weak_order_negtrans [OF assms(1,2,4,3)] by blast

lemma weak_order_flip: "weak_order_on A lt \<Longrightarrow> weak_order_on A (\<lambda>x y. lt y x)"
  unfolding weak_order_on_def by blast

lemma weak_order_subset: "weak_order_on A lt \<Longrightarrow> B \<subseteq> A \<Longrightarrow> weak_order_on B lt"
  unfolding weak_order_on_def by blast

section \<open>Package container/heap\<close>

definition swap :: "'a list \<Rightarrow> nat \<Rightarrow> nat \<Rightarrow> 'a list" where
  "swap xs i j = xs[i := xs ! j, j := xs ! i]"

definition parent :: "nat \<Rightarrow> nat" where "parent j = (j - 1) div 2"

function heap_up :: "('a \<Rightarrow> 'a \<Rightarrow> bool) \<Rightarrow> 'a list \<Rightarrow> nat \<Rightarrow> 'a list" where
  "heap_up lt xs j =
     (let i = parent j in
      if i = j \<or> \<not> lt (xs ! j) (xs ! i) then xs else heap_up lt (swap xs i j) i)"
  by pat_completeness auto
termination by (relation "measure (\<lambda>(lt, xs, j). j)") (auto simp: parent_def)

function heap_down :: "('a \<Rightarrow> 'a \<Rightarrow> bool) \<Rightarrow> 'a list \<Rightarrow> nat \<Rightarrow> nat \<Rightarrow> 'a list" where
  "heap_down lt xs i n =
     (let j1 = 2 * i + 1; j2 = j1 + 1;
          j = (if j2 < n \<and> lt (xs ! j2) (xs ! j1) then j2 else j1) in
      if j1 \<ge> n \<or> \<not> lt (xs ! j) (xs ! i) then xs else heap_down lt (swap xs i j) j n)"
  by pat_completeness auto
termination by (relation "measure (\<lambda>(lt, xs, i, n). n - i)") (auto simp: Let_def split: if_splits)

declare heap_up.simps [simp del] heap_down.simps [simp del]

definition heap_Push :: "('a \<Rightarrow> 'a \<Rightarrow> bool) \<Rightarrow> 'a \<Rightarrow> 'a list \<Rightarrow> 'a list" where
  "heap_Push lt x xs = heap_up lt (xs @ [x]) (length xs)"

text \<open>\<^verbatim>\<open>heap.Pop\<close> of a non-empty heap: the element taken out and the rest.\<close>

definition heap_Pop :: "('a \<Rightarrow> 'a \<Rightarrow> bool) \<Rightarrow> 'a list \<Rightarrow> 'a \<times> 'a list" where
  "heap_Pop lt xs =
     (let n = length xs - 1; ys = heap_down lt (swap xs 0 n) 0 n in (ys ! n, take n ys))"

subsection \<open>The elements of a heap\<close>

lemma length_swap [simp]: "length (swap xs i j) = length xs"
  by (simp add: swap_def)

lemma nth_swap:
  "i < length xs \<Longrightarrow> j < length xs \<Longrightarrow> k < length xs \<Longrightarrow>
   swap xs i j ! k = (if k = i then xs ! j else if k = j then xs ! i else xs ! k)"
  by (auto simp: swap_def nth_list_update)

lemma mset_swap' [heap_elems]: "i < length xs \<Longrightarrow> j < length xs \<Longrightarrow> mset (swap xs i j) = mset xs"
  by (simp add: swap_def mset_swap)

lemma parent_less: "j < n \<Longrightarrow> parent j < n" by (simp add: parent_def)

lemma length_heap_up [simp]: "length (heap_up lt xs j) = length xs"
  by (induction lt xs j rule: heap_up.induct) (subst heap_up.simps, simp add: Let_def)

lemma length_heap_down [simp]: "length (heap_down lt xs i n) = length xs"
  by (induction lt xs i n rule: heap_down.induct) (subst heap_down.simps, simp add: Let_def)

lemma mset_heap_up [heap_elems]: "j < length xs \<Longrightarrow> mset (heap_up lt xs j) = mset xs"
proof (induction lt xs j rule: heap_up.induct)
  case (1 lt xs j)
  then show ?case
    by (subst heap_up.simps) (auto simp: Let_def mset_swap' parent_less)
qed

lemma mset_heap_down [heap_elems]: "i < n \<or> n = 0 \<Longrightarrow> n \<le> length xs \<Longrightarrow> mset (heap_down lt xs i n) = mset xs"
proof (induction lt xs i n rule: heap_down.induct)
  case (1 lt xs i n)
  then show ?case
    by (subst heap_down.simps) (auto simp: Let_def mset_swap')
qed

lemma heap_down_beyond: "n \<le> k \<Longrightarrow> k < length xs \<Longrightarrow> i < n \<or> n = 0 \<Longrightarrow> heap_down lt xs i n ! k = xs ! k"
proof (induction lt xs i n rule: heap_down.induct)
  case (1 lt xs i n)
  then show ?case
    by (subst heap_down.simps) (auto simp: Let_def nth_swap)
qed

lemma mset_heap_Push [heap_elems]: "mset (heap_Push lt x xs) = add_mset x (mset xs)"
  by (simp add: heap_Push_def heap_elems)

lemma set_heap_Push [simp]: "set (heap_Push lt x xs) = insert x (set xs)"
  using mset_eq_setD [OF mset_heap_Push [of lt x xs, folded mset.simps(2)]] by simp

lemma distinct_heap_Push [simp]: "distinct (heap_Push lt x xs) \<longleftrightarrow> x \<notin> set xs \<and> distinct xs"
  using mset_eq_imp_distinct_iff [of "heap_Push lt x xs" "x # xs"] mset_heap_Push [of lt x xs] by simp

lemma length_heap_Push [simp]: "length (heap_Push lt x xs) = Suc (length xs)"
  by (simp add: heap_Push_def)

lemma heap_Pop_elem:
  assumes "xs \<noteq> []" "heap_Pop lt xs = (y, ys)"
  shows "y = xs ! 0" and "mset xs = add_mset y (mset ys)" and "length xs = Suc (length ys)"
    and "ys = take (length xs - 1) (heap_down lt (swap xs 0 (length xs - 1)) 0 (length xs - 1))"
proof -
  define n where "n = length xs - 1"
  define zs where "zs = heap_down lt (swap xs 0 n) 0 n"
  have n: "n < length xs" "length zs = Suc n" using assms(1) by (auto simp: n_def zs_def)
  have pop: "y = zs ! n" "ys = take n zs"
    using assms(2) by (auto simp: heap_Pop_def Let_def n_def zs_def)
  show y: "y = xs ! 0"
    using n(1) pop(1) assms(1) by (cases "n = 0") (auto simp: zs_def heap_down_beyond nth_swap)
  have "mset xs = mset zs"
    using n assms(1) by (cases "n = 0") (auto simp: zs_def mset_heap_down mset_swap')
  moreover have "zs = ys @ [y]"
    using pop n(2) by (metis lessI take_Suc_conv_app_nth take_all order_refl)
  ultimately show "mset xs = add_mset y (mset ys)" by simp
  show "length xs = Suc (length ys)" using n pop by (simp add: n_def)
  show "ys = take (length xs - 1) (heap_down lt (swap xs 0 (length xs - 1)) 0 (length xs - 1))"
    using pop(2) by (simp add: n_def zs_def)
qed

lemma heap_Pop_set:
  assumes "xs \<noteq> []" "heap_Pop lt xs = (y, ys)"
  shows "set xs = insert y (set ys)" "y \<in> set xs" "set ys \<subseteq> set xs"
  using heap_Pop_elem(2) [OF assms] by (metis set_mset_add_mset_insert set_mset_mset insertI1 subset_insertI)+

lemma heap_Pop_distinct:
  assumes "distinct xs" "xs \<noteq> []" "heap_Pop lt xs = (y, ys)"
  shows "distinct ys" "y \<notin> set ys"
proof -
  have "mset xs = mset (y # ys)" using heap_Pop_elem(2) [OF assms(2,3)] by simp
  then have "distinct (y # ys)" using assms(1) by (metis mset_eq_imp_distinct_iff)
  then show "distinct ys" "y \<notin> set ys" by auto
qed

subsection \<open>The order of a heap\<close>

definition heap_upto :: "('a \<Rightarrow> 'a \<Rightarrow> bool) \<Rightarrow> nat \<Rightarrow> 'a list \<Rightarrow> bool" where
  "heap_upto lt n xs \<longleftrightarrow> (\<forall>k<n. \<not> lt (xs ! k) (xs ! parent k))"

abbreviation is_heap :: "('a \<Rightarrow> 'a \<Rightarrow> bool) \<Rightarrow> 'a list \<Rightarrow> bool" where
  "is_heap lt xs \<equiv> heap_upto lt (length xs) xs"

lemma heap_root:
  assumes "weak_order_on (set xs) lt" "heap_upto lt n xs" "n \<le> length xs" "k < n"
  shows "\<not> lt (xs ! k) (xs ! 0)"
  using assms(4)
proof (induction k rule: less_induct)
  case (less k)
  show ?case
  proof (cases "k = 0")
    case True
    have "0 < length xs" using less.prems assms(3) by linarith
    then show ?thesis using True weak_order_irrefl [OF assms(1)] by (metis nth_mem)
  next
    case False
    then have p: "parent k < k" "parent k < n" using less.prems by (auto simp: parent_def)
    have "\<not> lt (xs ! k) (xs ! parent k)" using assms(2) less.prems by (simp add: heap_upto_def)
    moreover have "0 < length xs" "parent k < length xs" "k < length xs" using p less.prems assms(3) by linarith+
    ultimately show ?thesis
      using less.IH [OF p] by (meson weak_order_negtrans [OF assms(1)] nth_mem)
  qed
qed

lemma heap_up_heap:
  assumes "weak_order_on (set xs) lt" "j < length xs"
    and "\<And>k. k < length xs \<Longrightarrow> k \<noteq> j \<Longrightarrow> \<not> lt (xs ! k) (xs ! parent k)"
    and "\<And>k. k < length xs \<Longrightarrow> k \<noteq> j \<Longrightarrow> parent k = j \<Longrightarrow> \<not> lt (xs ! k) (xs ! parent j)"
  shows "is_heap lt (heap_up lt xs j)"
  using assms
proof (induction lt xs j rule: heap_up.induct)
  case (1 lt xs j)
  define i where "i = parent j"
  note wo = "1.prems"(1)
  show ?case
  proof (cases "i = j \<or> \<not> lt (xs ! j) (xs ! i)")
    case True
    have "\<not> lt (xs ! k) (xs ! parent k)" if "k < length xs" for k
      using that True "1.prems"(2,3) weak_order_irrefl [OF wo, of "xs ! j"] by (cases "k = j") (auto simp: i_def)
    then show ?thesis using True by (subst heap_up.simps) (simp add: heap_upto_def i_def Let_def)
  next
    case False
    have ij: "i < j" "i < length xs" using False "1.prems"(2) by (auto simp: i_def parent_def)
    have mem: "\<And>k. k < length xs \<Longrightarrow> xs ! k \<in> set xs" by simp
    have asym: "\<not> lt (xs ! i) (xs ! j)" using weak_order_asym [OF wo] mem ij False "1.prems"(2) by blast
    have below: "\<not> lt (xs ! k) (xs ! j)" if "k < length xs" "\<not> lt (xs ! k) (xs ! i)" for k
      using weak_order_trans [OF wo, of "xs ! k" "xs ! j" "xs ! i"] that mem ij "1.prems"(2) False by blast
    have nt: "\<not> lt (xs ! k) (xs ! parent i)" if "k < length xs" "\<not> lt (xs ! k) (xs ! i)" for k
      using weak_order_negtrans [OF wo, of "xs ! k" "xs ! i" "xs ! parent i"] that mem ij "1.prems"(3) [of i]
        parent_less [OF ij(2)] by auto
    have pi: "parent i < i \<or> (i = 0 \<and> parent i = 0)" by (auto simp: parent_def)
    let ?ys = "swap xs i j"
    have nth: "\<And>k. k < length xs \<Longrightarrow> ?ys ! k = (if k = i then xs ! j else if k = j then xs ! i else xs ! k)"
      using ij "1.prems"(2) by (simp add: nth_swap)
    have c1: "\<not> lt (?ys ! k) (?ys ! parent k)" if k: "k < length xs" "k \<noteq> i" for k
    proof (cases "k = j")
      case True
      then show ?thesis using k ij asym by (simp add: nth i_def [symmetric])
    next
      case False
      then have "\<not> lt (xs ! k) (xs ! parent k)" "parent k = j \<longrightarrow> \<not> lt (xs ! k) (xs ! i)"
        using "1.prems"(3,4) k by (auto simp: i_def)
      then show ?thesis using False k below [of k] by (auto simp: nth parent_less)
    qed
    have c2: "\<not> lt (?ys ! k) (?ys ! parent i)" if k: "k < length xs" "k \<noteq> i" "parent k = i" for k
      using pi k ij asym nt [of k] nt [of i] below [of k] weak_order_irrefl [OF wo, of "xs ! i"]
        "1.prems"(3) [of k] by (auto simp: nth parent_less)
    have "set ?ys = set xs" using mset_swap' [OF ij(2) "1.prems"(2)] by (metis mset_eq_setD)
    then have "is_heap lt (heap_up lt ?ys i)"
      using "1.IH" [OF i_def False] wo c1 c2 ij by simp
    then show ?thesis using False by (subst heap_up.simps) (simp add: i_def Let_def)
  qed
qed

lemma heap_down_heap:
  assumes "weak_order_on (set xs) lt" "n \<le> length xs" "i < n \<or> n = 0"
    and "\<And>k. k < n \<Longrightarrow> k = 0 \<or> parent k \<noteq> i \<Longrightarrow> \<not> lt (xs ! k) (xs ! parent k)"
    and "\<And>k. k < n \<Longrightarrow> k \<noteq> 0 \<Longrightarrow> parent k = i \<Longrightarrow> i \<noteq> 0 \<Longrightarrow> \<not> lt (xs ! k) (xs ! parent i)"
  shows "heap_upto lt n (heap_down lt xs i n)"
  using assms
proof (induction lt xs i n rule: heap_down.induct)
  case (1 lt xs i n)
  define j1 where "j1 = 2 * i + 1"
  define j2 where "j2 = j1 + 1"
  define j where "j = (if j2 < n \<and> lt (xs ! j2) (xs ! j1) then j2 else j1)"
  have down: "heap_down lt xs i n = (if j1 \<ge> n \<or> \<not> lt (xs ! j) (xs ! i) then xs else heap_down lt (swap xs i j) j n)"
    by (subst heap_down.simps) (simp only: Let_def j_def j1_def j2_def)
  note wo = "1.prems"(1) and n = "1.prems"(2)
  have mem: "\<And>k. k < n \<Longrightarrow> xs ! k \<in> set xs" using n by simp
  have children: "\<And>k. k \<noteq> 0 \<Longrightarrow> parent k = i \<longleftrightarrow> k = j1 \<or> k = j2" by (auto simp: parent_def j1_def j2_def)
  have least: "\<not> lt (xs ! k) (xs ! j)" if "k < n" "k = j1 \<or> k = j2" for k
    using that weak_order_irrefl [OF wo mem] weak_order_asym [OF wo mem mem]
    by (auto simp: j_def j2_def)
  show ?case
  proof (cases "j1 \<ge> n \<or> \<not> lt (xs ! j) (xs ! i)")
    case True
    have "\<not> lt (xs ! k) (xs ! parent k)" if k: "k < n" for k
    proof (cases "k \<noteq> 0 \<and> parent k = i")
      case True
      then have kk: "k = j1 \<or> k = j2" using children by blast
      have j: "j < n" "i < n" using k kk by (auto simp: j_def j1_def j2_def)
      have "\<not> lt (xs ! j) (xs ! i)"
        using \<open>j1 \<ge> n \<or> \<not> lt (xs ! j) (xs ! i)\<close> kk k by (auto simp: j2_def)
      then show ?thesis
        using weak_order_negtrans [OF wo mem mem mem, of k j i] k j least [OF k kk] True by blast
    qed (use "1.prems"(4) k in auto)
    then show ?thesis
      using True by (simp add: down heap_upto_def)
  next
    case False
    then have jn: "j < n" "i < j" "i < n" "j \<noteq> 0" "parent j = i"
      by (auto simp: j_def j1_def j2_def parent_def)
    let ?ys = "swap xs i j"
    have nth: "\<And>k. k < n \<Longrightarrow> ?ys ! k = (if k = i then xs ! j else if k = j then xs ! i else xs ! k)"
      using jn n by (simp add: nth_swap)
    have asym: "\<not> lt (xs ! i) (xs ! j)" using weak_order_asym [OF wo mem mem] jn False by blast
    have c1: "\<not> lt (?ys ! k) (?ys ! parent k)" if k: "k < n" "k = 0 \<or> parent k \<noteq> j" for k
    proof (cases "k = 0")
      case True
      have "parent 0 = 0" by (simp add: parent_def)
      moreover have "?ys ! 0 \<in> set xs" using nth [of 0] mem jn by auto
      ultimately show ?thesis using True weak_order_irrefl [OF wo] by metis
    next
      case False
      have p: "parent k < n" "parent k \<noteq> k" using k False by (auto simp: parent_def)
      show ?thesis
      proof (cases "parent k = i")
        case True
        then have "k = j1 \<or> k = j2" using False by (simp add: children)
        then show ?thesis using True k jn p asym least [of k] by (auto simp: nth)
      next
        case ne: False
        then have "\<not> lt (xs ! k) (xs ! parent k)" using "1.prems"(4) k by blast
        moreover have "\<not> lt (xs ! j) (xs ! parent i)" if "k = i"
          using that "1.prems"(5) [of j] jn False by auto
        ultimately show ?thesis using ne k jn p False by (auto simp: nth)
      qed
    qed
    have c2: "\<not> lt (?ys ! k) (?ys ! parent j)" if k: "k < n" "k \<noteq> 0" "parent k = j" for k
    proof -
      have "k \<noteq> i" "k \<noteq> j" using k jn by (auto simp: parent_def)
      moreover have "\<not> lt (xs ! k) (xs ! j)" using "1.prems"(4) [OF k(1)] k jn by auto
      ultimately show ?thesis using k jn by (simp add: nth)
    qed
    have "set ?ys = set xs" using mset_swap' [of i xs j] jn n by (metis mset_eq_setD order_less_le_trans)
    then have "heap_upto lt n (heap_down lt ?ys j n)"
      using "1.IH" [OF j1_def j2_def j_def False] wo c1 c2 jn n by simp
    then show ?thesis using False by (simp add: down)
  qed
qed

lemma heap_Push_heap:
  assumes "weak_order_on (insert x (set xs)) lt" "is_heap lt xs"
  shows "is_heap lt (heap_Push lt x xs)"
proof -
  have "\<not> lt ((xs @ [x]) ! k) ((xs @ [x]) ! parent k)" if "k < length (xs @ [x])" "k \<noteq> length xs" for k
    using that assms(2) by (auto simp: heap_upto_def nth_append parent_def)
  then have "is_heap lt (heap_up lt (xs @ [x]) (length xs))"
    by (intro heap_up_heap) (use assms(1) in \<open>auto simp: parent_def\<close>)
  then show ?thesis by (simp add: heap_Push_def)
qed

lemma heap_Pop_heap:
  assumes "weak_order_on (set xs) lt" "is_heap lt xs" "xs \<noteq> []" "heap_Pop lt xs = (y, ys)"
  shows "is_heap lt ys" and "\<And>z. z \<in> set xs \<Longrightarrow> \<not> lt z y"
proof -
  define n where "n = length xs - 1"
  let ?s = "swap xs 0 n"
  have n: "n < length xs" "0 < length xs" using assms(3) by (auto simp: n_def)
  have ys: "ys = take n (heap_down lt ?s 0 n)" "length ys = n"
    using heap_Pop_elem(3,4) [OF assms(3,4)] by (auto simp: n_def)
  have set: "set ?s = set xs" using mset_swap' [OF n(2,1)] by (metis mset_eq_setD)
  have "\<not> lt (?s ! k) (?s ! parent k)" if k: "k < n" "k = 0 \<or> parent k \<noteq> 0" for k
  proof (cases "k = 0")
    case True
    have "?s ! 0 \<in> set xs" using set n by (metis length_swap nth_mem)
    then show ?thesis using True weak_order_irrefl [OF assms(1)] by (simp add: parent_def)
  next
    case False
    then show ?thesis using k n assms(2) parent_less [OF k(1)] by (auto simp: nth_swap heap_upto_def)
  qed
  then have "heap_upto lt n (heap_down lt ?s 0 n)"
    by (intro heap_down_heap) (use assms(1) set n in \<open>auto simp: parent_def\<close>)
  then show "is_heap lt ys" using ys by (auto simp: heap_upto_def parent_less)
  show "\<not> lt z y" if z: "z \<in> set xs" for z
  proof -
    obtain k where "k < length xs" "z = xs ! k" using z by (metis in_set_conv_nth)
    then show ?thesis
      using heap_root [OF assms(1,2) order_refl] heap_Pop_elem(1) [OF assms(3,4)] by simp
  qed
qed

section \<open>The exchange sort\<close>

text \<open>
  The inner loop of \<^verbatim>\<open>for i := range s { for j := i + 1; j < len(s); j++ { if s[j] < s[i] { swap } } }\<close>:
  the element at \<open>i\<close> against the rest of the slice, exchanged with every one that goes before it.
\<close>

fun exchange_pass :: "('a \<Rightarrow> 'a \<Rightarrow> bool) \<Rightarrow> 'a \<Rightarrow> 'a list \<Rightarrow> 'a \<times> 'a list" where
  "exchange_pass lt x [] = (x, [])"
| "exchange_pass lt x (y # ys) =
     (if lt y x then (case exchange_pass lt y ys of (z, zs) \<Rightarrow> (z, x # zs))
      else (case exchange_pass lt x ys of (z, zs) \<Rightarrow> (z, y # zs)))"

lemma exchange_pass_elems: "exchange_pass lt x ys = (z, zs) \<Longrightarrow> add_mset z (mset zs) = add_mset x (mset ys)"
proof (induction lt x ys arbitrary: z zs rule: exchange_pass.induct)
  case (2 lt x y ys)
  then show ?case by (auto split: if_splits prod.splits simp: add_mset_commute)
qed simp

lemma exchange_pass_length: "exchange_pass lt x ys = (z, zs) \<Longrightarrow> length zs = length ys"
  by (induction lt x ys arbitrary: z zs rule: exchange_pass.induct) (auto split: if_splits prod.splits)

lemma exchange_pass_set:
  assumes "exchange_pass lt x ys = (z, zs)"
  shows "insert z (set zs) = insert x (set ys)"
  using exchange_pass_elems [OF assms] by (metis set_mset_add_mset_insert set_mset_mset)

lemma exchange_pass_least:
  assumes "exchange_pass lt x ys = (z, zs)" "weak_order_on (insert x (set ys)) lt" "w \<in> insert x (set ys)"
  shows "\<not> lt w z"
  using assms
proof (induction lt x ys arbitrary: z zs w rule: exchange_pass.induct)
  case (1 lt x)
  then show ?case using weak_order_irrefl by fastforce
next
  case (2 lt x y ys)
  let ?b = "if lt y x then y else x" and ?o = "if lt y x then x else y"
  obtain vs where vs: "exchange_pass lt ?b ys = (z, vs)" using "2.prems"(1) by (auto split: if_splits prod.splits)
  have sub: "insert ?b (set ys) \<subseteq> insert x (set (y # ys))" by auto
  note wo = "2.prems"(2)
  have least: "\<not> lt v z" if "v \<in> insert ?b (set ys)" for v
    using that vs weak_order_subset [OF wo sub] "2.IH" by (cases "lt y x") auto
  have "z \<in> insert ?b (set ys)" using exchange_pass_set [OF vs] by auto
  then have zin: "z \<in> insert x (set (y # ys))" using sub by blast
  have ob: "\<not> lt ?o ?b" using weak_order_asym [OF wo] by auto
  have "\<not> lt ?o z"
    using weak_order_negtrans [OF wo _ _ zin ob least] by auto
  then show ?case using "2.prems"(3) least by (auto split: if_splits)
qed

function exchange_sort :: "('a \<Rightarrow> 'a \<Rightarrow> bool) \<Rightarrow> 'a list \<Rightarrow> 'a list" where
  "exchange_sort lt [] = []"
| "exchange_sort lt (x # xs) = (case exchange_pass lt x xs of (z, zs) \<Rightarrow> z # exchange_sort lt zs)"
  by pat_completeness auto
termination by (relation "measure (\<lambda>(lt, xs). length xs)") (auto dest: exchange_pass_length [OF sym])

lemma mset_exchange_sort [heap_elems]: "mset (exchange_sort lt xs) = mset xs"
  by (induction lt xs rule: exchange_sort.induct) (auto split: prod.splits dest: exchange_pass_elems)

lemma set_exchange_sort [simp]: "set (exchange_sort lt xs) = set xs"
  by (metis mset_eq_setD mset_exchange_sort)

lemma length_exchange_sort [simp]: "length (exchange_sort lt xs) = length xs"
  by (metis mset_exchange_sort size_mset)

lemma distinct_exchange_sort [simp]: "distinct (exchange_sort lt xs) = distinct xs"
  by (metis mset_eq_imp_distinct_iff mset_exchange_sort)

text \<open>In a sorted list no later element goes before an earlier one.\<close>

abbreviation ordered :: "('a \<Rightarrow> 'a \<Rightarrow> bool) \<Rightarrow> 'a list \<Rightarrow> bool" where
  "ordered lt xs \<equiv> sorted_wrt (\<lambda>x y. \<not> lt y x) xs"

lemma exchange_sort_ordered: "weak_order_on (set xs) lt \<Longrightarrow> ordered lt (exchange_sort lt xs)"
proof (induction lt xs rule: exchange_sort.induct)
  case (2 lt x xs)
  obtain z zs where p: "exchange_pass lt x xs = (z, zs)" by fastforce
  note set = exchange_pass_set [OF p]
  have "weak_order_on (set zs) lt" using 2(2) set weak_order_subset [of _ lt "set zs"] by (metis list.set(2) subset_insertI)
  moreover have "\<not> lt w z" if "w \<in> set zs" for w
    using exchange_pass_least [OF p] 2(2) that set by auto
  ultimately show ?case using 2(1) [OF p [symmetric]] p by simp
qed simp

subsection \<open>Emptying a heap\<close>

text \<open>\<^verbatim>\<open>for i := len(out) - 1; i >= 0; i-- { out[i] = heap.Pop(h) }\<close>: the last element popped comes
  first.\<close>

function drain_heap :: "('a \<Rightarrow> 'a \<Rightarrow> bool) \<Rightarrow> 'a list \<Rightarrow> 'a list" where
  "drain_heap lt xs = (if xs = [] then [] else case heap_Pop lt xs of (y, ys) \<Rightarrow> drain_heap lt ys @ [y])"
  by pat_completeness auto
termination by (relation "measure (\<lambda>(lt, xs). length xs)") (auto dest: heap_Pop_elem(3) [OF _ sym])

declare drain_heap.simps [simp del]

lemma mset_drain_heap [heap_elems]: "mset (drain_heap lt xs) = mset xs"
proof (induction lt xs rule: drain_heap.induct)
  case (1 lt xs)
  obtain y ys where "heap_Pop lt xs = (y, ys)" by fastforce
  then show ?case using 1 heap_Pop_elem(2) [of xs lt y ys] by (subst drain_heap.simps) auto
qed

lemma set_drain_heap [simp]: "set (drain_heap lt xs) = set xs"
  by (metis mset_eq_setD mset_drain_heap)

lemma length_drain_heap [simp]: "length (drain_heap lt xs) = length xs"
  by (metis mset_drain_heap size_mset)

lemma distinct_drain_heap [simp]: "distinct (drain_heap lt xs) = distinct xs"
  by (metis mset_eq_imp_distinct_iff mset_drain_heap)

lemma drain_heap_ordered:
  "weak_order_on (set xs) lt \<Longrightarrow> is_heap lt xs \<Longrightarrow> ordered (\<lambda>x y. lt y x) (drain_heap lt xs)"
proof (induction lt xs rule: drain_heap.induct)
  case (1 lt xs)
  show ?case
  proof (cases "xs = []")
    case True
    then show ?thesis by (simp add: drain_heap.simps)
  next
    case False
    obtain y ys where p: "heap_Pop lt xs = (y, ys)" by fastforce
    have "weak_order_on (set ys) lt"
      using "1.prems"(1) heap_Pop_set(3) [OF False p] weak_order_subset by blast
    then have "ordered (\<lambda>x y. lt y x) (drain_heap lt ys)"
      using "1.IH" [OF False p [symmetric]] heap_Pop_heap(1) [OF "1.prems" False p] by simp
    moreover have "\<not> lt w y" if "w \<in> set ys" for w
      using heap_Pop_heap(2) [OF "1.prems" False p] heap_Pop_set(3) [OF False p] that by blast
    ultimately show ?thesis
      using False p by (subst drain_heap.simps) (simp add: sorted_wrt_append)
  qed
qed

end
