(* ===== verification/Hnsw.thy ===== *)
theory Hnsw
  imports Go_Prelude Go_Heap
begin

text \<open>
  The approximate nearest-neighbour index (\<^verbatim>\<open>vectorindex/hnsw.go\<close>): a hierarchy of graphs over
  stored vectors, searched from the sparsest layer down. Arithmetic of \<^verbatim>\<open>float32\<close> is an
  argument, a record of its operations, so that what is proved holds for the rounding and the
  NaNs of the hardware; the random level of a new node is an argument as well. A search may read
  an entry that the graph does not have, which panics, and the greedy descent may in principle
  not end: the results are of type \<open>'a run\<close>, with \<open>None\<close> for a run that does not return.
\<close>

named_theorems hnsw_defs \<open>definitions of the index operations\<close>

section \<open>Data\<close>

text \<open>\<open>fl_sqrt\<close> is \<^verbatim>\<open>float32(math.Sqrt(float64(x)))\<close>.\<close>

record 'f float_ops =
  fl_zero :: 'f
  fl_one :: 'f
  fl_add :: "'f \<Rightarrow> 'f \<Rightarrow> 'f"
  fl_sub :: "'f \<Rightarrow> 'f \<Rightarrow> 'f"
  fl_mul :: "'f \<Rightarrow> 'f \<Rightarrow> 'f"
  fl_div :: "'f \<Rightarrow> 'f \<Rightarrow> 'f"
  fl_sqrt :: "'f \<Rightarrow> 'f"
  fl_eq :: "'f \<Rightarrow> 'f \<Rightarrow> bool"
  fl_lt :: "'f \<Rightarrow> 'f \<Rightarrow> bool"

record 'f SearchHit =
  hit_ID :: nat
  hit_Score :: 'f

record hnswNode =
  connections :: "nat list list"
  level :: nat

text \<open>\<open>entryPoint\<close> is \<open>None\<close> for the \<^verbatim>\<open>-1\<close> of an empty index. The parameters are positive by
  \<open>Validate\<close>.\<close>

record 'f HNSWIndex =
  dimension :: nat
  hn_m :: nat
  mMax0 :: nat
  efConstruct :: nat
  efSearch :: nat
  maxLevel :: nat
  entryPoint :: "nat option"
  nodes :: "hnswNode list"
  vectors :: "'f list"

definition NewHNSWIndex :: "nat \<Rightarrow> nat \<Rightarrow> nat \<Rightarrow> 'f HNSWIndex" where
  "NewHNSWIndex d m ef =
     \<lparr>dimension = d, hn_m = m, mMax0 = 2 * m, efConstruct = ef, efSearch = 50, maxLevel = 0,
      entryPoint = None, nodes = [], vectors = []\<rparr>"

definition Len :: "'f HNSWIndex \<Rightarrow> nat" where "Len h = length (nodes h)"

section \<open>Distances\<close>

definition vector_of :: "'f HNSWIndex \<Rightarrow> nat \<Rightarrow> 'f list" where
  "vector_of h i = take (dimension h) (drop (i * dimension h) (vectors h))"

definition add_component :: "'f float_ops \<Rightarrow> 'f \<times> 'f \<times> 'f \<Rightarrow> 'f \<times> 'f \<Rightarrow> 'f \<times> 'f \<times> 'f" where
  "add_component fl = (\<lambda>(dot, normA, normB) (x, y).
     (fl_add fl dot (fl_mul fl x y), fl_add fl normA (fl_mul fl x x), fl_add fl normB (fl_mul fl y y)))"

definition cosineSimilarity :: "'f float_ops \<Rightarrow> 'f HNSWIndex \<Rightarrow> 'f list \<Rightarrow> nat \<Rightarrow> 'f" where
  "cosineSimilarity fl h query i =
     (case foldl (add_component fl) (fl_zero fl, fl_zero fl, fl_zero fl)
             (zip (take (dimension h) query) (vector_of h i)) of
        (dot, normA, normB) \<Rightarrow>
          (let denom = fl_sqrt fl (fl_mul fl normA normB) in
           if fl_eq fl denom (fl_zero fl) then fl_zero fl else fl_div fl dot denom))"

definition distance :: "'f float_ops \<Rightarrow> 'f HNSWIndex \<Rightarrow> 'f list \<Rightarrow> nat \<Rightarrow> 'f" where
  "distance fl h query i = fl_sub fl (fl_one fl) (cosineSimilarity fl h query i)"

text \<open>Whether the node and its vector can be read, and the query is long enough; every use of a
  node that fails this panics, here at the first one.\<close>

definition readable :: "'f HNSWIndex \<Rightarrow> 'f list \<Rightarrow> nat \<Rightarrow> bool" where
  "readable h query i \<longleftrightarrow>
     i < length (nodes h) \<and> i * dimension h + dimension h \<le> length (vectors h) \<and> dimension h \<le> length query"

text \<open>\<^verbatim>\<open>Less\<close> of the two heaps: the candidates have the closest node on top, the results the
  farthest.\<close>

definition closer :: "'f float_ops \<Rightarrow> 'f HNSWIndex \<Rightarrow> 'f list \<Rightarrow> nat \<Rightarrow> nat \<Rightarrow> bool" where
  "closer fl h query a b = fl_lt fl (distance fl h query a) (distance fl h query b)"

abbreviation farther :: "'f float_ops \<Rightarrow> 'f HNSWIndex \<Rightarrow> 'f list \<Rightarrow> nat \<Rightarrow> nat \<Rightarrow> bool" where
  "farther fl h query \<equiv> (\<lambda>a b. closer fl h query b a)"

definition links :: "'f HNSWIndex \<Rightarrow> nat \<Rightarrow> nat \<Rightarrow> nat list" where
  "links h lc i =
     (if lc < length (connections (nodes h ! i)) then connections (nodes h ! i) ! lc else [])"

definition index_panic :: string where "index_panic = ''runtime error: index out of range''"

section \<open>Search in one layer\<close>

type_synonym beam = "nat set \<times> nat list \<times> nat list"

text \<open>The neighbours of a node: the visited ones, the candidates and the results are updated.\<close>

fun explore :: "'f float_ops \<Rightarrow> 'f HNSWIndex \<Rightarrow> 'f list \<Rightarrow> nat \<Rightarrow> nat list \<Rightarrow> beam \<Rightarrow> beam outcome" where
  "explore fl h query ef [] b = Ret b"
| "explore fl h query ef (nb # nbs) (visited, cands, results) =
     (if nb \<in> visited then explore fl h query ef nbs (visited, cands, results)
      else if \<not> readable h query nb \<or> (length results \<ge> ef \<and> results = []) then Panic index_panic
      else if length results < ef \<or> closer fl h query nb (results ! 0)
      then (let cands' = heap_Push (closer fl h query) nb cands;
                pushed = heap_Push (farther fl h query) nb results;
                results' = (if length pushed > ef then snd (heap_Pop (farther fl h query) pushed) else pushed)
            in explore fl h query ef nbs (insert nb visited, cands', results'))
      else explore fl h query ef nbs (insert nb visited, cands, results))"

text \<open>How much a search can still do: nodes not visited and candidates.\<close>

definition todo :: "'f HNSWIndex \<Rightarrow> beam \<Rightarrow> nat" where
  "todo h = (\<lambda>(visited, cands, results). card ({..<length (nodes h)} - visited) + length cands)"

lemma todo_visit:
  assumes "nb \<notin> visited" "nb < length (nodes h)"
  shows "Suc (todo h (insert nb visited, cands, results)) = todo h (visited, cands, results)"
proof -
  have "{..<length (nodes h)} - insert nb visited = ({..<length (nodes h)} - visited) - {nb}" by auto
  then have "Suc (card ({..<length (nodes h)} - insert nb visited)) = card ({..<length (nodes h)} - visited)"
    using assms card_Suc_Diff1 [of "{..<length (nodes h)} - visited" nb] by auto
  then show ?thesis by (simp add: todo_def)
qed

lemma todo_push: "todo h (visited, heap_Push lt x cands, results') = Suc (todo h (visited, cands, results))"
  by (simp add: todo_def)

lemma explore_todo: "explore fl h query ef nbs b = Ret b' \<Longrightarrow> todo h b' \<le> todo h b"
proof (induction fl h query ef nbs b rule: explore.induct)
  case (2 fl h query ef nb nbs visited cands results)
  have "todo h b' \<le> todo h (visited, cands, results)" if "nb \<notin> visited" "readable h query nb"
      and "todo h b' \<le> todo h (insert nb visited, heap_Push (closer fl h query) nb cands, r)
           \<or> todo h b' \<le> todo h (insert nb visited, cands, results)" for r
    using that todo_visit [of nb visited h cands results]
      todo_push [of h "insert nb visited" "closer fl h query" nb cands r results]
    by (auto simp: readable_def)
  with 2 show ?case by (auto simp: Let_def split: if_splits)
qed simp

lemma pop_todo:
  "cands \<noteq> [] \<Longrightarrow> heap_Pop lt cands = (y, cands') \<Longrightarrow>
   todo h (visited, cands', results) < todo h (visited, cands, results)"
  using heap_Pop_elem(3) [of cands lt y cands'] by (simp add: todo_def)

function search_loop :: "'f float_ops \<Rightarrow> 'f HNSWIndex \<Rightarrow> 'f list \<Rightarrow> nat \<Rightarrow> nat \<Rightarrow> beam \<Rightarrow> nat list outcome" where
  "search_loop fl h query ef lc (visited, cands, results) =
     (if cands = [] then Ret results
      else case heap_Pop (closer fl h query) cands of (nearest, cands') \<Rightarrow>
        if \<not> readable h query nearest \<or> (length results \<ge> ef \<and> results = []) then Panic index_panic
        else if length results \<ge> ef \<and> closer fl h query (results ! 0) nearest then Ret results
        else case explore fl h query ef (links h lc nearest) (visited, cands', results) of
               Panic m \<Rightarrow> Panic m
             | Ret b \<Rightarrow> search_loop fl h query ef lc b)"
  by pat_completeness auto
termination
  by (relation "measure (\<lambda>(fl, h, query, ef, lc, b). todo h b)")
     (auto dest!: explore_todo elim: le_less_trans [OF _ pop_todo [OF _ sym]])

declare search_loop.simps [simp del]

definition searchLayer :: "'f float_ops \<Rightarrow> 'f HNSWIndex \<Rightarrow> 'f list \<Rightarrow> nat \<Rightarrow> nat \<Rightarrow> nat \<Rightarrow> nat list outcome" where
  "searchLayer fl h query entryID ef lc =
     (case search_loop fl h query ef lc ({entryID}, [entryID], [entryID]) of
        Panic m \<Rightarrow> Panic m
      | Ret results \<Rightarrow> Ret (drain_heap (farther fl h query) results))"

section \<open>Greedy descent\<close>

type_synonym 'a run = "'a outcome option"

definition bind_run :: "'a run \<Rightarrow> ('a \<Rightarrow> 'b run) \<Rightarrow> 'b run" where
  "bind_run r f = (case r of None \<Rightarrow> None | Some (Panic m) \<Rightarrow> Some (Panic m) | Some (Ret x) \<Rightarrow> f x)"

lemma bind_run_Ret [simp]: "bind_run (Some (Ret x)) f = f x"
  by (simp add: bind_run_def)

fun greedy_pass :: "'f float_ops \<Rightarrow> 'f HNSWIndex \<Rightarrow> 'f list \<Rightarrow> nat list \<Rightarrow> nat \<times> 'f \<times> bool \<Rightarrow> (nat \<times> 'f \<times> bool) outcome" where
  "greedy_pass fl h query [] st = Ret st"
| "greedy_pass fl h query (nb # nbs) (cur, curDist, changed) =
     (if \<not> readable h query nb then Panic index_panic
      else let d = distance fl h query nb in
        if fl_lt fl d curDist then greedy_pass fl h query nbs (nb, d, True)
        else greedy_pass fl h query nbs (cur, curDist, changed))"

partial_function (option) greedy_loop :: "'f float_ops \<Rightarrow> 'f HNSWIndex \<Rightarrow> 'f list \<Rightarrow> nat \<Rightarrow> nat \<Rightarrow> 'f \<Rightarrow> nat run" where
  "greedy_loop fl h query lc cur curDist =
     (case greedy_pass fl h query (links h lc cur) (cur, curDist, False) of
        Panic m \<Rightarrow> Some (Panic m)
      | Ret (cur', curDist', changed) \<Rightarrow>
          (if changed then greedy_loop fl h query lc cur' curDist' else Some (Ret cur')))"

definition greedyClosest :: "'f float_ops \<Rightarrow> 'f HNSWIndex \<Rightarrow> 'f list \<Rightarrow> nat \<Rightarrow> nat \<Rightarrow> nat run" where
  "greedyClosest fl h query ep lc =
     (if \<not> readable h query ep then Some (Panic index_panic)
      else greedy_loop fl h query lc ep (distance fl h query ep))"

text \<open>The descent through the layers above the one to search, highest first.\<close>

fun descend :: "'f float_ops \<Rightarrow> 'f HNSWIndex \<Rightarrow> 'f list \<Rightarrow> nat list \<Rightarrow> nat \<Rightarrow> nat run" where
  "descend fl h query [] ep = Some (Ret ep)"
| "descend fl h query (lc # lcs) ep =
     bind_run (greedyClosest fl h query ep lc) (\<lambda>ep'. descend fl h query lcs ep')"

section \<open>Operations\<close>

definition selectNeighborsSimple :: "nat list \<Rightarrow> nat \<Rightarrow> nat list" where
  "selectNeighborsSimple cands m = (if length cands \<le> m then cands else take m cands)"

definition selectNeighborsForNode :: "'f float_ops \<Rightarrow> 'f HNSWIndex \<Rightarrow> nat \<Rightarrow> nat list \<Rightarrow> nat \<Rightarrow> nat list outcome" where
  "selectNeighborsForNode fl h nodeID cands m =
     (if length cands \<le> m then Ret cands
      else let nodeVec = vector_of h nodeID in
        if list_all (readable h nodeVec) (nodeID # cands)
        then Ret (map fst (take m (exchange_sort (\<lambda>a b. fl_lt fl (snd a) (snd b))
                                     (map (\<lambda>c. (c, distance fl h nodeVec c)) cands))))
        else Panic index_panic)"

definition set_links :: "nat \<Rightarrow> nat \<Rightarrow> nat list \<Rightarrow> 'f HNSWIndex \<Rightarrow> 'f HNSWIndex outcome" where
  "set_links i lc cs h =
     (if i < length (nodes h) \<and> lc < length (connections (nodes h ! i))
      then let nd = nodes h ! i in
           Ret (h\<lparr>nodes := (nodes h)[i := nd\<lparr>connections := (connections nd)[lc := cs]\<rparr>]\<rparr>)
      else Panic index_panic)"

definition max_links :: "'f HNSWIndex \<Rightarrow> nat \<Rightarrow> nat" where
  "max_links h lc = (if lc = 0 then mMax0 h else hn_m h)"

text \<open>The reverse connection from a neighbour, pruned when it has too many.\<close>

definition link_back :: "'f float_ops \<Rightarrow> nat \<Rightarrow> nat \<Rightarrow> nat \<Rightarrow> 'f HNSWIndex \<Rightarrow> 'f HNSWIndex outcome" where
  "link_back fl lc i n h =
     (if n < length (nodes h) \<and> lc < length (connections (nodes h ! n)) then
        (let cs = links h lc n @ [i] in
         if length cs > max_links h lc
         then (case selectNeighborsForNode fl h n cs (max_links h lc) of
                 Panic m \<Rightarrow> Panic m
               | Ret cs' \<Rightarrow> set_links n lc cs' h)
         else set_links n lc cs h)
      else Panic index_panic)"

fun link_all :: "'f float_ops \<Rightarrow> nat \<Rightarrow> nat \<Rightarrow> nat list \<Rightarrow> 'f HNSWIndex \<Rightarrow> 'f HNSWIndex outcome" where
  "link_all fl lc i [] h = Ret h"
| "link_all fl lc i (n # ns) h =
     (case link_back fl lc i n h of Panic m \<Rightarrow> Panic m | Ret h' \<Rightarrow> link_all fl lc i ns h')"

definition connect_level ::
  "'f float_ops \<Rightarrow> 'f list \<Rightarrow> nat \<Rightarrow> nat \<Rightarrow> nat \<Rightarrow> 'f HNSWIndex \<Rightarrow> (nat \<times> 'f HNSWIndex) outcome" where
  "connect_level fl vector i lc ep h =
     (case searchLayer fl h vector ep (efConstruct h) lc of
        Panic m \<Rightarrow> Panic m
      | Ret cands \<Rightarrow>
          (let neighbors = selectNeighborsSimple cands (max_links h lc) in
           case set_links i lc neighbors h of
             Panic m \<Rightarrow> Panic m
           | Ret h1 \<Rightarrow>
               (case link_all fl lc i neighbors h1 of
                  Panic m \<Rightarrow> Panic m
                | Ret h2 \<Rightarrow> Ret (if cands = [] then ep else cands ! 0, h2))))"

fun connect_levels :: "'f float_ops \<Rightarrow> 'f list \<Rightarrow> nat \<Rightarrow> nat list \<Rightarrow> nat \<Rightarrow> 'f HNSWIndex \<Rightarrow> 'f HNSWIndex outcome" where
  "connect_levels fl vector i [] ep h = Ret h"
| "connect_levels fl vector i (lc # lcs) ep h =
     (case connect_level fl vector i lc ep h of
        Panic m \<Rightarrow> Panic m
      | Ret (ep', h') \<Rightarrow> connect_levels fl vector i lcs ep' h')"

definition add_node :: "nat \<Rightarrow> 'f list \<Rightarrow> 'f HNSWIndex \<Rightarrow> 'f HNSWIndex" where
  "add_node lev vector h =
     h\<lparr>nodes := nodes h @ [\<lparr>connections = replicate (Suc lev) [], level = lev\<rparr>],
       vectors := vectors h @ vector\<rparr>"

definition Insert :: "'f float_ops \<Rightarrow> nat \<Rightarrow> 'f list \<Rightarrow> 'f HNSWIndex \<Rightarrow> (nat \<times> 'f HNSWIndex) run" where
  "Insert fl lev vector h =
     (let i = length (nodes h); h1 = add_node lev vector h in
      case entryPoint h1 of
        None \<Rightarrow> Some (Ret (i, h1\<lparr>entryPoint := Some i, maxLevel := lev\<rparr>))
      | Some ep0 \<Rightarrow>
          bind_run (descend fl h1 vector (rev [Suc lev..<Suc (maxLevel h1)]) ep0) (\<lambda>ep.
            case connect_levels fl vector i (rev [0..<Suc (min lev (maxLevel h1))]) ep h1 of
              Panic m \<Rightarrow> Some (Panic m)
            | Ret h2 \<Rightarrow>
                Some (Ret (i, if lev > maxLevel h2 then h2\<lparr>maxLevel := lev, entryPoint := Some i\<rparr> else h2))))"

definition SearchKNN :: "'f float_ops \<Rightarrow> 'f list \<Rightarrow> int \<Rightarrow> 'f HNSWIndex \<Rightarrow> 'f SearchHit list run" where
  "SearchKNN fl query k h =
     (case entryPoint h of
        None \<Rightarrow> Some (Ret [])
      | Some ep0 \<Rightarrow>
          (if nodes h = [] then Some (Ret [])
           else bind_run (descend fl h query (rev [1..<Suc (maxLevel h)]) ep0) (\<lambda>ep.
             case searchLayer fl h query ep (max (efSearch h) (nat k)) 0 of
               Panic m \<Rightarrow> Some (Panic m)
             | Ret cands \<Rightarrow>
                 (if int (length cands) > k \<and> k < 0 then Some (Panic ''slice bounds out of range'')
                  else Some (Ret (map (\<lambda>c. \<lparr>hit_ID = c, hit_Score = cosineSimilarity fl h query c\<rparr>)
                                    (if int (length cands) > k then take (nat k) cands else cands)))))))"

end
