(* ===== verification/Hnsw_Props.thy ===== *)
theory Hnsw_Props
  imports Hnsw
begin

text \<open>
  Correctness of the nearest-neighbour index: its graph invariant, that insertion keeps it and
  that insertion and search return without panicking, and in which cases the approximate search
  is exact.
\<close>

section \<open>The graph\<close>

definition links_ok :: "'f HNSWIndex \<Rightarrow> nat \<Rightarrow> nat \<Rightarrow> bool" where
  "links_ok h lc i \<longleftrightarrow>
     distinct (links h lc i) \<and> length (links h lc i) \<le> max_links h lc
   \<and> (\<forall>n\<in>set (links h lc i). n < length (nodes h) \<and> lc \<le> level (nodes h ! n) \<and> n \<noteq> i)"

definition graph_ok :: "'f HNSWIndex \<Rightarrow> bool" where
  "graph_ok h \<longleftrightarrow>
     length (vectors h) = length (nodes h) * dimension h
   \<and> (\<forall>i<length (nodes h). length (connections (nodes h ! i)) = Suc (level (nodes h ! i)))
   \<and> (\<forall>i<length (nodes h). \<forall>lc. links_ok h lc i)"

text \<open>The entry point is a node of the highest level.\<close>

definition entry_ok :: "'f HNSWIndex \<Rightarrow> bool" where
  "entry_ok h \<longleftrightarrow>
     (case entryPoint h of
        None \<Rightarrow> nodes h = []
      | Some e \<Rightarrow> e < length (nodes h) \<and> level (nodes h ! e) = maxLevel h)
   \<and> (\<forall>i<length (nodes h). level (nodes h ! i) \<le> maxLevel h)"

definition hnsw_inv :: "'f HNSWIndex \<Rightarrow> bool" where
  "hnsw_inv h \<longleftrightarrow> graph_ok h \<and> entry_ok h"

definition layer :: "'f HNSWIndex \<Rightarrow> nat \<Rightarrow> nat set" where
  "layer h lc = {n. n < length (nodes h) \<and> lc \<le> level (nodes h ! n)}"

definition closed_in :: "'f HNSWIndex \<Rightarrow> nat \<Rightarrow> nat set \<Rightarrow> bool" where
  "closed_in h lc S \<longleftrightarrow> (\<forall>i\<in>S. set (links h lc i) \<subseteq> S)"

lemma graph_okD:
  assumes "graph_ok h" "i < length (nodes h)"
  shows "length (connections (nodes h ! i)) = Suc (level (nodes h ! i))" "links_ok h lc i"
    "length (vectors h) = length (nodes h) * dimension h"
  using assms by (auto simp: graph_ok_def)

lemma readableI:
  assumes "graph_ok h" "dimension h \<le> length query" "i < length (nodes h)"
  shows "readable h query i"
proof -
  have "Suc i * dimension h \<le> length (nodes h) * dimension h" using assms(3) by (intro mult_le_mono1) simp
  then show ?thesis using assms graph_okD(3) [OF assms(1,3)] by (simp add: readable_def add.commute)
qed

lemma links_in_layer:
  assumes "graph_ok h" "i < length (nodes h)" "n \<in> set (links h lc i)"
  shows "n \<in> layer h lc" "n \<noteq> i" "n < length (nodes h)"
  using graph_okD(2) [OF assms(1,2), of lc] assms(3) by (auto simp: links_ok_def layer_def)

lemma layer_closed: "graph_ok h \<Longrightarrow> closed_in h lc (layer h lc)"
  using links_in_layer unfolding closed_in_def by (fastforce simp: layer_def)

lemma layer_nodes: "layer h lc \<subseteq> {..<length (nodes h)}" "finite (layer h lc)"
  by (auto simp: layer_def)

section \<open>Search in one layer\<close>

text \<open>What the state of a search keeps: it stays in a set of nodes, the results are distinct and
  not empty and, where the distances of these nodes compare, both heaps are heaps.\<close>

definition beam_ok :: "'f float_ops \<Rightarrow> 'f HNSWIndex \<Rightarrow> 'f list \<Rightarrow> nat set \<Rightarrow> beam \<Rightarrow> bool" where
  "beam_ok fl h query S = (\<lambda>(visited, cands, results).
     visited \<subseteq> S \<and> set cands \<subseteq> visited \<and> set results \<subseteq> visited \<and> distinct results \<and> results \<noteq> []
   \<and> (weak_order_on S (closer fl h query) \<longrightarrow>
        is_heap (closer fl h query) cands \<and> is_heap (farther fl h query) results))"

lemma single_heap: "weak_order_on S lt \<Longrightarrow> x \<in> S \<Longrightarrow> is_heap lt [x]"
  using weak_order_irrefl [of S lt x] by (simp add: heap_upto_def parent_def)

lemma push_heap:
  assumes "weak_order_on S lt" "is_heap lt xs" "insert x (set xs) \<subseteq> S"
  shows "is_heap lt (heap_Push lt x xs)"
  by (rule heap_Push_heap [OF weak_order_subset [OF assms(1,3)] assms(2)])

lemma pop_heap:
  assumes "weak_order_on S lt" "is_heap lt xs" "set xs \<subseteq> S" "xs \<noteq> []" "heap_Pop lt xs = (y, ys)"
  shows "is_heap lt ys" "\<And>z. z \<in> set xs \<Longrightarrow> \<not> lt z y"
  using heap_Pop_heap [OF weak_order_subset [OF assms(1,3)] assms(2,4,5)] by auto

text \<open>One neighbour: pushed on both heaps, the farthest result dropped when there are too many.\<close>

lemma beam_push:
  assumes b: "beam_ok fl h query S (visited, cands, results)" and nb: "nb \<in> S" "nb \<notin> visited"
    and pushed: "pushed = heap_Push (farther fl h query) nb results"
    and results': "results' = (if length pushed > ef then snd (heap_Pop (farther fl h query) pushed) else pushed)"
  shows "beam_ok fl h query S (insert nb visited, heap_Push (closer fl h query) nb cands, results')"
proof -
  let ?f = "farther fl h query"
  have p: "set pushed = insert nb (set results)" "length pushed = Suc (length results)" "pushed \<noteq> []"
    using pushed by (auto simp flip: length_0_conv)
  have "nb \<notin> set results" using b nb(2) by (auto simp: beam_ok_def)
  then have dist: "distinct pushed" using b pushed by (simp add: beam_ok_def)
  obtain y ys where pop: "heap_Pop ?f pushed = (y, ys)" by fastforce
  note ys = heap_Pop_elem(3) [OF p(3) pop] heap_Pop_set(3) [OF p(3) pop] heap_Pop_distinct(1) [OF dist p(3) pop]
  have "results \<noteq> []" using b by (simp add: beam_ok_def)
  then have r: "set results' \<subseteq> insert nb (set results)" "distinct results'" "results' \<noteq> []"
    using results' ys p dist pop by (auto split: if_splits)
  have heaps: "is_heap (closer fl h query) (heap_Push (closer fl h query) nb cands) \<and> is_heap ?f results'"
    if wo: "weak_order_on S (closer fl h query)"
  proof -
    note wf = weak_order_flip [OF wo]
    have sub: "insert nb (set cands) \<subseteq> S" "insert nb (set results) \<subseteq> S"
      "is_heap (closer fl h query) cands" "is_heap ?f results"
      using b nb(1) wo by (auto simp: beam_ok_def)
    have hp: "is_heap ?f pushed" using push_heap [OF wf sub(4,2)] pushed by simp
    then have "is_heap ?f ys" using pop_heap(1) [OF wf hp _ p(3) pop] p(1) sub(2) by simp
    then show ?thesis using push_heap [OF wo sub(3,1)] hp results' pop by simp
  qed
  show ?thesis using b nb r heaps by (auto simp: beam_ok_def)
qed

lemma beam_visit: "beam_ok fl h query S (visited, cands, results) \<Longrightarrow> nb \<in> S \<Longrightarrow>
   beam_ok fl h query S (insert nb visited, cands, results)"
  by (auto simp: beam_ok_def)

lemma explore_ok:
  assumes "\<And>i. i \<in> S \<Longrightarrow> readable h query i" "set nbs \<subseteq> S" "beam_ok fl h query S b"
  shows "\<exists>visited cands results. explore fl h query ef nbs b = Ret (visited, cands, results)
    \<and> beam_ok fl h query S (visited, cands, results) \<and> visited = fst b \<union> set nbs"
  using assms
proof (induction fl h query ef nbs b rule: explore.induct)
  case (2 fl h query ef nb nbs visited cands results)
  have nb: "nb \<in> S" "readable h query nb" "results \<noteq> []" using "2.prems" by (auto simp: beam_ok_def)
  show ?case
  proof (cases "nb \<in> visited")
    case True
    then show ?thesis using "2.IH"(1) [OF True "2.prems"(1)] "2.prems" by (auto simp: insert_absorb)
  next
    case False
    let ?pushed = "heap_Push (farther fl h query) nb results"
    let ?results' = "if length ?pushed > ef then snd (heap_Pop (farther fl h query) ?pushed) else ?pushed"
    note push = beam_push [OF "2.prems"(3) nb(1) False refl refl, of ef]
    show ?thesis
    proof (cases "length results < ef \<or> closer fl h query nb (results ! 0)")
      case True
      then show ?thesis
        using "2.IH"(2) [OF False _ True refl refl refl "2.prems"(1)] "2.prems"(2) push nb False
        by (auto simp: Let_def)
    next
      case skip: False
      then show ?thesis
        using "2.IH"(3) [OF False _ skip "2.prems"(1)] "2.prems"(2) beam_visit [OF "2.prems"(3) nb(1)] nb False
        by auto
    qed
  qed
qed auto

lemma search_loop_ok:
  assumes "\<And>i. i \<in> S \<Longrightarrow> readable h query i" "closed_in h lc S" "beam_ok fl h query S b"
  shows "\<exists>results. search_loop fl h query ef lc b = Ret results \<and> set results \<subseteq> S
    \<and> distinct results \<and> results \<noteq> []
    \<and> (weak_order_on S (closer fl h query) \<longrightarrow> is_heap (farther fl h query) results)"
  using assms
proof (induction fl h query ef lc b rule: search_loop.induct)
  case (1 fl h query ef lc visited cands results)
  note b = "1.prems"(3)
  have finish: ?case if "search_loop fl h query ef lc (visited, cands, results) = Ret results"
    using that b by (auto simp: beam_ok_def)
  show ?case
  proof (cases "cands = []")
    case True
    then show ?thesis by (intro finish) (simp add: search_loop.simps)
  next
    case False
    obtain nearest cands' where pop: "heap_Pop (closer fl h query) cands = (nearest, cands')" by fastforce
    note pset = heap_Pop_set [OF False pop]
    have near: "nearest \<in> S" "results \<noteq> []" "readable h query nearest"
      using pset(2) b "1.prems"(1) by (auto simp: beam_ok_def)
    show ?thesis
    proof (cases "length results \<ge> ef \<and> closer fl h query (results ! 0) nearest")
      case True
      then show ?thesis using False pop near by (intro finish) (simp add: search_loop.simps)
    next
      case go: False
      have "beam_ok fl h query S (visited, cands', results)"
        using b pset(3) pop_heap(1) [OF _ _ _ False pop, of S] by (auto simp: beam_ok_def)
      moreover have "set (links h lc nearest) \<subseteq> S" using "1.prems"(2) near(1) by (auto simp: closed_in_def)
      ultimately obtain b' where e: "explore fl h query ef (links h lc nearest) (visited, cands', results) = Ret b'"
        and b': "beam_ok fl h query S b'"
        using explore_ok [of S h query "links h lc nearest" fl "(visited, cands', results)" ef] "1.prems"(1) by blast
      show ?thesis
        using "1.IH" [OF False pop [symmetric] _ go e "1.prems"(1,2) b'] near False pop go e
        by (auto simp: search_loop.simps [of fl h query ef lc visited cands results])
    qed
  qed
qed

lemma searchLayer_ok:
  assumes "\<And>i. i \<in> S \<Longrightarrow> readable h query i" "closed_in h lc S" "ep \<in> S"
  shows "\<exists>out. searchLayer fl h query ep ef lc = Ret out \<and> set out \<subseteq> S \<and> distinct out \<and> out \<noteq> []
    \<and> (weak_order_on S (closer fl h query) \<longrightarrow> ordered (closer fl h query) out)"
proof -
  have "beam_ok fl h query S ({ep}, [ep], [ep])"
    using assms(3) single_heap [of S _ ep] weak_order_flip [of S "closer fl h query"] by (simp add: beam_ok_def)
  from search_loop_ok [where S = S, OF assms(1,2) this, of ef] obtain r where
    r: "search_loop fl h query ef lc ({ep}, [ep], [ep]) = Ret r" "set r \<subseteq> S" "distinct r" "r \<noteq> []"
       "weak_order_on S (closer fl h query) \<longrightarrow> is_heap (farther fl h query) r"
    by auto
  have "ordered (closer fl h query) (drain_heap (farther fl h query) r)" if "weak_order_on S (closer fl h query)"
    using drain_heap_ordered [OF weak_order_flip [OF weak_order_subset [OF that r(2)]]] r(5) that by simp
  moreover have "drain_heap (farther fl h query) r \<noteq> []" using r(4) by (metis length_0_conv length_drain_heap)
  ultimately show ?thesis using r by (simp add: searchLayer_def)
qed

subsection \<open>When the search sees the whole layer\<close>

lemma card_heap: "distinct r \<Longrightarrow> length r = card (set r)"
  by (simp add: distinct_card)

lemma explore_complete:
  assumes "\<And>i. i \<in> S \<Longrightarrow> readable h query i" "finite S" "card S \<le> ef" "set nbs \<subseteq> S"
    and "beam_ok fl h query S (visited, cands, results)" "set results = visited"
    and "explore fl h query ef nbs (visited, cands, results) = Ret (visited', cands', results')"
  shows "set results' = visited' \<and> set cands \<union> (visited' - visited) \<subseteq> set cands'"
  using assms(4-)
proof (induction nbs arbitrary: visited cands results)
  case (Cons nb nbs)
  note b = Cons.prems(2)
  have nb: "nb \<in> S" "readable h query nb" "results \<noteq> []" using Cons.prems assms(1) by (auto simp: beam_ok_def)
  show ?case
  proof (cases "nb \<in> visited")
    case True
    then show ?thesis using Cons by simp
  next
    case False
    let ?p = "heap_Push (farther fl h query) nb results"
    have "insert nb visited \<subseteq> S" "distinct results" using b nb(1) by (auto simp: beam_ok_def)
    then have len: "Suc (length results) \<le> ef"
      using card_mono [OF assms(2), of "insert nb visited"] assms(3) Cons.prems(3) False card_heap [of results]
      by (simp add: card_insert_disjoint finite_subset [OF _ assms(2)])
    let ?c = "heap_Push (closer fl h query) nb cands"
    have "beam_ok fl h query S (insert nb visited, ?c, ?p)"
      using beam_push [OF b nb(1) False refl refl, of ef] len by simp
    from Cons.IH [OF _ this] show ?thesis
      using Cons.prems(1,3,4) False nb len by (auto simp: Let_def)
  qed
qed simp

lemma search_loop_complete:
  assumes "\<And>i. i \<in> S \<Longrightarrow> readable h query i" "closed_in h lc S" "finite S" "card S \<le> ef"
    and "weak_order_on S (closer fl h query)"
    and "beam_ok fl h query S b" "b = (visited, cands, results)" "set results = visited"
    and "\<And>x. x \<in> visited - set cands \<Longrightarrow> set (links h lc x) \<subseteq> visited"
    and "search_loop fl h query ef lc b = Ret out"
  shows "visited \<subseteq> set out \<and> closed_in h lc (set out)"
  using assms
proof (induction fl h query ef lc b arbitrary: visited cands results rule: search_loop.induct)
  case (1 fl h query ef lc v0 c0 r0)
  have v: "v0 = visited" "c0 = cands" "r0 = results" using "1.prems"(7) by auto
  note b = "1.prems"(6) [unfolded v] and wo = "1.prems"(5) and full = "1.prems"(8) and clo = "1.prems"(9)
  note run = "1.prems"(10) [unfolded v search_loop.simps [of fl h query ef lc visited cands results]]
  show ?case
  proof (cases "cands = []")
    case True
    then show ?thesis using run full clo by (auto simp: closed_in_def)
  next
    case False
    obtain nearest cands' where pop: "heap_Pop (closer fl h query) cands = (nearest, cands')" by fastforce
    note pset = heap_Pop_set [OF False pop]
    have sub: "visited \<subseteq> S" "set cands \<subseteq> visited" "results \<noteq> []" "is_heap (farther fl h query) results"
      "is_heap (closer fl h query) cands"
      using b wo by (auto simp: beam_ok_def)
    have near: "nearest \<in> S" "nearest \<in> set results" "readable h query nearest"
      using pset(2) sub full "1.prems"(1) by auto
    obtain k where k: "k < length results" "nearest = results ! k" using near(2) by (metis in_set_conv_nth)
    have "\<not> closer fl h query (results ! 0) nearest"
      using heap_root [OF weak_order_flip [OF weak_order_subset [OF wo]] sub(4) order_refl k(1)] sub(1) full k(2) by simp
    then have go: "\<not> (length results \<ge> ef \<and> closer fl h query (results ! 0) nearest)" by simp
    have b': "beam_ok fl h query S (visited, cands', results)"
      using b pset(3) pop_heap(1) [OF wo sub(5) _ False pop] sub by (auto simp: beam_ok_def)
    have ls: "set (links h lc nearest) \<subseteq> S" using "1.prems"(2) near(1) by (auto simp: closed_in_def)
    obtain v2 c2 r2 where e: "explore fl h query ef (links h lc nearest) (visited, cands', results) = Ret (v2, c2, r2)"
      and b2: "beam_ok fl h query S (v2, c2, r2)" and v2: "v2 = visited \<union> set (links h lc nearest)"
      using explore_ok [where S = S, OF "1.prems"(1) ls b', of ef] by auto
    note comp = explore_complete [where S = S, OF "1.prems"(1) "1.prems"(3,4) ls b' full e]
    have rest: "search_loop fl h query ef lc (v2, c2, r2) = Ret out"
      using run False pop near(3) sub(3) go e by simp
    have clo2: "set (links h lc x) \<subseteq> v2" if "x \<in> v2 - set c2" for x
    proof (cases "x = nearest")
      case True
      then show ?thesis using v2 by simp
    next
      case False
      with that comp have "x \<in> visited - set cands" using pset(1) by auto
      then show ?thesis using clo v2 by blast
    qed
    have "v2 \<subseteq> set out \<and> closed_in h lc (set out)"
      by (rule "1.IH" [unfolded v, OF False pop [symmetric] _ go e "1.prems"(1-5) b2 refl _ clo2 rest])
         (use near sub(3) comp in auto)
    then show ?thesis using v2 by blast
  qed
qed

section \<open>Greedy descent\<close>

text \<open>Comparison of floats is irreflexive and transitive, also on NaN.\<close>

definition strict_lt :: "'f float_ops \<Rightarrow> bool" where
  "strict_lt fl \<longleftrightarrow> (\<forall>x. \<not> fl_lt fl x x) \<and> (\<forall>x y z. fl_lt fl x y \<longrightarrow> fl_lt fl y z \<longrightarrow> fl_lt fl x z)"

lemma greedy_pass_ok:
  assumes "strict_lt fl" "\<And>i. i \<in> S \<Longrightarrow> readable h query i" "set nbs \<subseteq> S" "cur \<in> S" "d = distance fl h query cur"
  shows "\<exists>cur' changed'. greedy_pass fl h query nbs (cur, d, changed) = Ret (cur', distance fl h query cur', changed')
    \<and> cur' \<in> S \<and> (cur' = cur \<and> changed' = changed \<or> changed' \<and> closer fl h query cur' cur)"
  using assms(3-)
proof (induction nbs arbitrary: cur d changed)
  case (Cons nb nbs)
  have r: "readable h query nb" "nb \<in> S" using Cons.prems(1) assms(2) by auto
  show ?case
  proof (cases "fl_lt fl (distance fl h query nb) d")
    case True
    from Cons.IH [OF _ r(2) refl, of True] Cons.prems(1) obtain cur' changed' where
      c: "greedy_pass fl h query nbs (nb, distance fl h query nb, True) = Ret (cur', distance fl h query cur', changed')"
         "cur' \<in> S" "cur' = nb \<and> changed' \<or> changed' \<and> closer fl h query cur' nb"
      by auto
    then have "changed' \<and> closer fl h query cur' cur"
      using assms(1) True Cons.prems(3) unfolding strict_lt_def closer_def by blast
    then show ?thesis using c True r by (auto simp: Let_def)
  next
    case False
    then show ?thesis using Cons.IH [OF _ Cons.prems(2,3), of changed] Cons.prems(1) r by (simp add: Let_def)
  qed
qed simp

lemma greedy_loop_ok:
  assumes "strict_lt fl" "\<And>i. i \<in> S \<Longrightarrow> readable h query i" "closed_in h lc S" "finite S"
    and "cur \<in> S" "d = distance fl h query cur"
  shows "\<exists>r. greedy_loop fl h query lc cur d = Some (Ret r) \<and> r \<in> S"
  using assms(5,6)
proof (induction "card {x \<in> S. closer fl h query x cur}" arbitrary: cur d rule: less_induct)
  case less
  have ls: "set (links h lc cur) \<subseteq> S" using assms(3) less.prems(1) by (auto simp: closed_in_def)
  from greedy_pass_ok [where S = S, OF assms(1,2) ls less.prems, of False] obtain cur' changed' where
    p: "greedy_pass fl h query (links h lc cur) (cur, d, False) = Ret (cur', distance fl h query cur', changed')"
       "cur' \<in> S" "cur' = cur \<and> \<not> changed' \<or> changed' \<and> closer fl h query cur' cur"
    by auto
  show ?case
  proof (cases changed')
    case True
    have "closer fl h query x cur" if "closer fl h query x cur'" for x
      using that p(3) True assms(1) unfolding strict_lt_def closer_def by blast
    moreover have "\<not> closer fl h query cur' cur'" using assms(1) by (simp add: strict_lt_def closer_def)
    ultimately have "{x \<in> S. closer fl h query x cur'} \<subset> {x \<in> S. closer fl h query x cur}"
      using p(2,3) True by blast
    then have "card {x \<in> S. closer fl h query x cur'} < card {x \<in> S. closer fl h query x cur}"
      by (intro psubset_card_mono) (use assms(4) in auto)
    from less.hyps [OF this p(2) refl] show ?thesis
      using p(1) True by (subst greedy_loop.simps) simp
  next
    case False
    then show ?thesis using p by (subst greedy_loop.simps) simp
  qed
qed

lemma descend_ok:
  assumes "strict_lt fl" "graph_ok h" "dimension h \<le> length query" "ep < length (nodes h)"
    and "\<And>lc. lc \<in> set lcs \<Longrightarrow> lc \<le> level (nodes h ! ep)" "sorted_wrt (\<ge>) lcs"
    and "T \<subseteq> {..<length (nodes h)}" "ep \<in> T" "\<And>lc. lc \<in> set lcs \<Longrightarrow> closed_in h lc T"
    and "k \<le> level (nodes h ! ep)" "\<And>lc. lc \<in> set lcs \<Longrightarrow> k \<le> lc"
  shows "\<exists>r. descend fl h query lcs ep = Some (Ret r) \<and> r \<in> T \<and> k \<le> level (nodes h ! r)"
  using assms(4-6,8-)
proof (induction lcs arbitrary: ep)
  case (Cons lc lcs)
  let ?S = "layer h lc \<inter> T"
  have S: "closed_in h lc ?S" "finite ?S" "ep \<in> ?S"
    using layer_closed [OF assms(2), of lc] Cons.prems layer_nodes(2) [of h lc]
    by (auto simp: closed_in_def layer_def)
  have read: "readable h query i" if "i \<in> ?S" for i
    using that readableI [OF assms(2,3)] by (auto simp: layer_def)
  obtain r where r: "greedyClosest fl h query ep lc = Some (Ret r)" "r \<in> ?S"
    using greedy_loop_ok [where S = ?S, OF assms(1) read S refl] read [OF S(3)] by (auto simp: greedyClosest_def)
  have rl: "r < length (nodes h)" "lc \<le> level (nodes h ! r)" "r \<in> T" using r(2) by (auto simp: layer_def)
  have "k \<le> level (nodes h ! r)" using rl(2) Cons.prems(7) [of lc] by simp
  then have "\<exists>r'. descend fl h query lcs r = Some (Ret r') \<and> r' \<in> T \<and> k \<le> level (nodes h ! r')"
    by (intro Cons.IH) (use Cons.prems rl in \<open>auto intro: order_trans\<close>)
  then show ?case using r(1) by simp
qed simp

section \<open>Linking a new node\<close>

text \<open>What linking leaves alone: everything but the contents of the connection lists.\<close>

definition frame :: "'f HNSWIndex \<Rightarrow> 'f HNSWIndex \<Rightarrow> bool" where
  "frame h h' \<longleftrightarrow> dimension h' = dimension h \<and> hn_m h' = hn_m h \<and> mMax0 h' = mMax0 h
   \<and> efConstruct h' = efConstruct h \<and> efSearch h' = efSearch h \<and> maxLevel h' = maxLevel h
   \<and> entryPoint h' = entryPoint h \<and> vectors h' = vectors h
   \<and> length (nodes h') = length (nodes h)
   \<and> (\<forall>j<length (nodes h). level (nodes h' ! j) = level (nodes h ! j)
        \<and> length (connections (nodes h' ! j)) = length (connections (nodes h ! j)))"

lemma frame_refl: "frame h h" by (simp add: frame_def)

lemma frame_trans: "frame a b \<Longrightarrow> frame b c \<Longrightarrow> frame a c" by (auto simp: frame_def)

lemma frame_layer: "frame h h' \<Longrightarrow> layer h' lc = layer h lc"
  by (auto simp: frame_def layer_def)

lemma frame_max_links: "frame h h' \<Longrightarrow> max_links h' lc = max_links h lc"
  by (simp add: frame_def max_links_def)

lemma set_links_ok:
  assumes "graph_ok h" "i < length (nodes h)" "lc \<le> level (nodes h ! i)"
    and "distinct cs" "length cs \<le> max_links h lc" "set cs \<subseteq> layer h lc - {i}"
  shows "\<exists>h'. set_links i lc cs h = Ret h' \<and> graph_ok h' \<and> frame h h'
    \<and> (\<forall>l j. links h' l j = (if l = lc \<and> j = i then cs else links h l j))"
proof -
  let ?nd = "nodes h ! i"
  let ?h = "h\<lparr>nodes := (nodes h)[i := ?nd\<lparr>connections := (connections ?nd)[lc := cs]\<rparr>]\<rparr>"
  have len: "lc < length (connections ?nd)" using graph_okD(1) [OF assms(1,2)] assms(3) by simp
  have run: "set_links i lc cs h = Ret ?h" using assms(2) len by (simp add: set_links_def Let_def)
  have lnk: "links ?h l j = (if l = lc \<and> j = i then cs else links h l j)" for l j
    using assms(2) len by (cases "j = i") (auto simp: links_def)
  have fr: "frame h ?h" using assms(2) by (auto simp: frame_def nth_list_update)
  have "links_ok ?h l j" if "j < length (nodes h)" for l j
    using graph_okD(2) [OF assms(1) that, of l] assms(4-6) fr that
    unfolding links_ok_def lnk frame_max_links [OF fr] by (auto simp: frame_def layer_def)
  then have "graph_ok ?h" using assms(1) fr by (auto simp: graph_ok_def frame_def)
  then show ?thesis using run fr lnk by blast
qed

lemma selectNeighborsForNode_ok:
  assumes "graph_ok h" "n < length (nodes h)" "set cs \<subseteq> {..<length (nodes h)}" "distinct cs"
  shows "\<exists>out. selectNeighborsForNode fl h n cs m = Ret out \<and> set out \<subseteq> set cs \<and> distinct out \<and> length out \<le> m"
proof (cases "length cs \<le> m")
  case True
  then show ?thesis using assms(4) by (simp add: selectNeighborsForNode_def)
next
  case False
  let ?v = "vector_of h n"
  let ?s = "exchange_sort (\<lambda>a b. fl_lt fl (snd a) (snd b)) (map (\<lambda>c. (c, distance fl h ?v c)) cs)"
  have "readable h (replicate (dimension h) undefined) n" by (rule readableI [OF assms(1) _ assms(2)]) simp
  then have "length ?v = dimension h" by (auto simp: vector_of_def readable_def min_def)
  then have read: "list_all (readable h ?v) (n # cs)"
    using readableI [OF assms(1), of ?v] assms(2,3) by (auto simp: list_all_iff)
  have "mset (map fst ?s) = mset (map fst (map (\<lambda>c. (c, distance fl h ?v c)) cs))"
    by (simp only: mset_map mset_exchange_sort)
  then have "mset (map fst ?s) = mset cs" by (simp only: map_map comp_def fst_conv list.map_ident)
  then have ms: "set (map fst ?s) = set cs" "distinct (map fst ?s)"
    using mset_eq_setD mset_eq_imp_distinct_iff assms(4) by (blast, blast)
  have t: "map fst (take m ?s) = take m (map fst ?s)" by (simp only: take_map)
  have "set (map fst (take m ?s)) \<subseteq> set cs" unfolding t ms(1) [symmetric] by (rule set_take_subset)
  moreover have "distinct (map fst (take m ?s))" unfolding t by (rule distinct_take [OF ms(2)])
  ultimately show ?thesis using False read by (simp add: selectNeighborsForNode_def Let_def)
qed

lemma link_back_ok:
  assumes "graph_ok h" "n \<in> layer h lc" "i \<in> layer h lc" "n \<noteq> i" "i \<notin> set (links h lc n)"
  shows "\<exists>h' cs. link_back fl lc i n h = Ret h' \<and> graph_ok h' \<and> frame h h'
    \<and> (\<forall>l j. links h' l j = (if l = lc \<and> j = n then cs else links h l j))"
proof -
  have n: "n < length (nodes h)" "lc \<le> level (nodes h ! n)" "lc < length (connections (nodes h ! n))"
    using assms(1,2) graph_okD(1) [OF assms(1)] by (auto simp: layer_def less_Suc_eq_le)
  note ok = graph_okD(2) [OF assms(1) n(1), of lc]
  let ?cs = "links h lc n @ [i]"
  have cs: "distinct ?cs" "set ?cs \<subseteq> layer h lc - {n}" "set ?cs \<subseteq> {..<length (nodes h)}"
    using ok assms by (auto simp: links_ok_def layer_def)
  obtain out where out: "selectNeighborsForNode fl h n ?cs (max_links h lc) = Ret out"
    "set out \<subseteq> set ?cs" "distinct out" "length out \<le> max_links h lc"
    using selectNeighborsForNode_ok [OF assms(1) n(1) cs(3,1)] by blast
  define cs' where "cs' = (if length ?cs > max_links h lc then out else ?cs)"
  have "link_back fl lc i n h = set_links n lc cs' h"
    using n out(1) by (simp add: link_back_def cs'_def Let_def)
  moreover have "\<exists>h'. set_links n lc cs' h = Ret h' \<and> graph_ok h' \<and> frame h h'
    \<and> (\<forall>l j. links h' l j = (if l = lc \<and> j = n then cs' else links h l j))"
    by (rule set_links_ok [OF assms(1) n(1,2)]) (use cs out in \<open>auto simp: cs'_def\<close>)
  ultimately show ?thesis by metis
qed

lemma link_all_ok:
  assumes "graph_ok h" "i \<in> layer h lc" "set ns \<subseteq> layer h lc - {i}" "distinct ns"
    and "\<And>n. n \<in> set ns \<Longrightarrow> i \<notin> set (links h lc n)"
  shows "\<exists>h'. link_all fl lc i ns h = Ret h' \<and> graph_ok h' \<and> frame h h'
    \<and> (\<forall>l j. l \<noteq> lc \<longrightarrow> links h' l j = links h l j)"
  using assms
proof (induction ns arbitrary: h)
  case Nil
  then show ?case by (simp add: frame_refl)
next
  case (Cons n ns)
  have "n \<in> layer h lc" "n \<noteq> i" "i \<notin> set (links h lc n)" using Cons.prems by auto
  from link_back_ok [OF Cons.prems(1) this(1) Cons.prems(2) this(2,3)] obtain h1 cs where
    h1: "link_back fl lc i n h = Ret h1" "graph_ok h1" "frame h h1"
        "\<And>l j. links h1 l j = (if l = lc \<and> j = n then cs else links h l j)"
    by metis
  note lay = frame_layer [OF h1(3), of lc]
  have "\<exists>h'. link_all fl lc i ns h1 = Ret h' \<and> graph_ok h' \<and> frame h1 h'
    \<and> (\<forall>l j. l \<noteq> lc \<longrightarrow> links h' l j = links h1 l j)"
    by (rule Cons.IH [OF h1(2)]) (use Cons.prems lay h1(4) in auto)
  then show ?case using h1 frame_trans by fastforce
qed

text \<open>The new node has no connection yet at the levels that are still to do.\<close>

definition fresh_upto :: "'f HNSWIndex \<Rightarrow> nat \<Rightarrow> nat \<Rightarrow> bool" where
  "fresh_upto h i k \<longleftrightarrow> (\<forall>l<k. \<forall>j<length (nodes h). i \<notin> set (links h l j))"

lemma connect_level_ok:
  assumes "graph_ok h" "dimension h \<le> length vector" "i \<in> layer h lc" "ep \<in> layer h lc" "ep \<noteq> i"
    and "fresh_upto h i (Suc lc)"
  shows "\<exists>ep' h'. connect_level fl vector i lc ep h = Ret (ep', h') \<and> graph_ok h' \<and> frame h h'
    \<and> ep' \<in> layer h lc \<and> ep' \<noteq> i \<and> (\<forall>l j. l \<noteq> lc \<longrightarrow> links h' l j = links h l j)"
proof -
  let ?S = "layer h lc - {i}"
  have fresh: "i \<notin> set (links h lc j)" if "j < length (nodes h)" for j
    using assms(6) that by (simp add: fresh_upto_def)
  then have closed: "closed_in h lc ?S"
    using layer_closed [OF assms(1), of lc] by (auto simp: closed_in_def layer_def)
  have read: "readable h vector j" if "j \<in> ?S" for j
    using that readableI [OF assms(1,2)] by (auto simp: layer_def)
  obtain out where out: "searchLayer fl h vector ep (efConstruct h) lc = Ret out" "set out \<subseteq> ?S"
    "distinct out" "out \<noteq> []"
    using searchLayer_ok [where S = ?S, OF read closed, of ep fl "efConstruct h"] assms(4,5) by auto
  define ns where "ns = selectNeighborsSimple out (max_links h lc)"
  have ns: "set ns \<subseteq> ?S" "distinct ns" "length ns \<le> max_links h lc"
    using out(2,3) set_take_subset [of "max_links h lc" out] by (auto simp: ns_def selectNeighborsSimple_def)
  have i: "i < length (nodes h)" "lc \<le> level (nodes h ! i)" using assms(3) by (auto simp: layer_def)
  obtain h1 where h1: "set_links i lc ns h = Ret h1" "graph_ok h1" "frame h h1"
    "\<And>l j. links h1 l j = (if l = lc \<and> j = i then ns else links h l j)"
    using set_links_ok [OF assms(1) i ns(2,3,1)] by metis
  have "\<exists>h'. link_all fl lc i ns h1 = Ret h' \<and> graph_ok h' \<and> frame h1 h'
    \<and> (\<forall>l j. l \<noteq> lc \<longrightarrow> links h' l j = links h1 l j)"
    by (rule link_all_ok [OF h1(2)])
       (use ns assms(3) frame_layer [OF h1(3)] h1(4) fresh in \<open>auto simp: layer_def\<close>)
  then obtain h2 where h2: "link_all fl lc i ns h1 = Ret h2" "graph_ok h2" "frame h1 h2"
    "\<forall>l j. l \<noteq> lc \<longrightarrow> links h2 l j = links h1 l j" by blast
  have "out ! 0 \<in> ?S" using out(2,4) by (meson length_greater_0_conv nth_mem subsetD)
  then show ?thesis
    using out(1,4) h1 h2 frame_trans [OF h1(3) h2(3)] by (simp add: connect_level_def Let_def flip: ns_def)
qed

lemma connect_levels_ok:
  assumes "graph_ok h" "dimension h \<le> length vector" "i \<in> layer h k" "ep \<in> layer h k" "ep \<noteq> i"
    and "fresh_upto h i (Suc k)"
  shows "\<exists>h'. connect_levels fl vector i (rev [0..<Suc k]) ep h = Ret h' \<and> graph_ok h' \<and> frame h h'"
  using assms
proof (induction k arbitrary: h ep)
  case 0
  from connect_level_ok [OF 0, of fl] show ?case by auto
next
  case (Suc k)
  obtain ep' h1 where h1: "connect_level fl vector i (Suc k) ep h = Ret (ep', h1)" "graph_ok h1" "frame h h1"
    "ep' \<in> layer h (Suc k)" "ep' \<noteq> i" "\<forall>l j. l \<noteq> Suc k \<longrightarrow> links h1 l j = links h l j"
    using connect_level_ok [OF Suc.prems, of fl] by metis
  have "layer h (Suc k) \<subseteq> layer h k" by (auto simp: layer_def)
  then have down: "layer h (Suc k) \<subseteq> layer h1 k" by (simp only: frame_layer [OF h1(3)])
  have "\<exists>h'. connect_levels fl vector i (rev [0..<Suc k]) ep' h1 = Ret h' \<and> graph_ok h' \<and> frame h1 h'"
    by (rule Suc.IH [OF h1(2)])
       (use Suc.prems h1(3-6) down in \<open>auto simp: fresh_upto_def frame_def\<close>)
  then show ?case using h1(1) frame_trans [OF h1(3)] by auto
qed

section \<open>Insertion and search\<close>

lemma add_node_sel [simp]:
  "maxLevel (add_node lev vector h) = maxLevel h" "entryPoint (add_node lev vector h) = entryPoint h"
  "dimension (add_node lev vector h) = dimension h" "vectors (add_node lev vector h) = vectors h @ vector"
  "length (nodes (add_node lev vector h)) = Suc (length (nodes h))"
  "max_links (add_node lev vector h) l = max_links h l"
  "level (nodes (add_node lev vector h) ! length (nodes h)) = lev"
  "j < length (nodes h) \<Longrightarrow> nodes (add_node lev vector h) ! j = nodes h ! j"
  "j < length (nodes h) \<Longrightarrow> links (add_node lev vector h) l j = links h l j"
  "links (add_node lev vector h) l (length (nodes h)) = []"
  by (auto simp: add_node_def nth_append links_def max_links_def simp del: replicate_Suc)

lemma add_node_ok:
  assumes g: "graph_ok h" and "length vector = dimension h"
  shows "graph_ok (add_node lev vector h)" (is "graph_ok ?h")
proof -
  have "links_ok ?h l j" if "j < Suc (length (nodes h))" for l j
  proof (cases "j < length (nodes h)")
    case True
    then show ?thesis using graph_okD(2) [OF g True, of l] by (auto simp: links_ok_def)
  next
    case False
    then have "j = length (nodes h)" using that by simp
    then show ?thesis by (simp add: links_ok_def)
  qed
  moreover have "length (connections (nodes ?h ! length (nodes h))) = Suc lev"
    by (simp add: add_node_def nth_append)
  ultimately show ?thesis using g assms(2) by (auto simp: graph_ok_def less_Suc_eq)
qed

lemma graph_ok_entry [simp]:
  "graph_ok (h\<lparr>entryPoint := e, maxLevel := l\<rparr>) = graph_ok h" "graph_ok (h\<lparr>maxLevel := l, entryPoint := e\<rparr>) = graph_ok h"
  by (simp_all add: graph_ok_def links_ok_def links_def max_links_def)

lemma Insert_ok:
  assumes "hnsw_inv h" "length vector = dimension h" "strict_lt fl"
  shows "\<exists>h'. Insert fl lev vector h = Some (Ret (length (nodes h), h')) \<and> hnsw_inv h'
    \<and> vectors h' = vectors h @ vector \<and> length (nodes h') = Suc (length (nodes h)) \<and> dimension h' = dimension h"
proof (cases "entryPoint h")
  case None
  have "nodes h = []" using None assms(1) by (simp add: hnsw_inv_def entry_ok_def)
  then show ?thesis
    using None assms add_node_ok [of h vector lev]
    by (simp add: Insert_def Let_def hnsw_inv_def entry_ok_def add_node_def)
next
  case (Some ep0)
  let ?h = "add_node lev vector h" and ?i = "length (nodes h)"
  have g: "graph_ok h" using assms(1) by (simp add: hnsw_inv_def)
  note a = add_node_ok [OF g assms(2), of lev]
  have ep0: "ep0 < ?i" "level (nodes h ! ep0) = maxLevel h" "\<And>j. j < ?i \<Longrightarrow> level (nodes h ! j) \<le> maxLevel h"
    using assms(1) Some by (auto simp: hnsw_inv_def entry_ok_def)
  let ?T = "{..<?i}"
  have T: "closed_in ?h l ?T" for l
    using links_in_layer(3) [OF g] by (auto simp: closed_in_def)
  have "\<exists>r. descend fl ?h vector (rev [Suc lev..<Suc (maxLevel h)]) ep0 = Some (Ret r) \<and> r \<in> ?T
    \<and> min lev (maxLevel h) \<le> level (nodes ?h ! r)"
    by (rule descend_ok [OF assms(3) a(1)])
       (use ep0 T assms(2) sorted_upt in \<open>auto simp: sorted_wrt_rev simp del: upt_Suc\<close>)
  then obtain ep where ep: "descend fl ?h vector (rev [Suc lev..<Suc (maxLevel h)]) ep0 = Some (Ret ep)"
    "ep < ?i" "min lev (maxLevel h) \<le> level (nodes ?h ! ep)"
    by auto
  let ?k = "min lev (maxLevel h)"
  have "\<exists>h'. connect_levels fl vector ?i (rev [0..<Suc ?k]) ep ?h = Ret h' \<and> graph_ok h' \<and> frame ?h h'"
  proof (rule connect_levels_ok [OF a])
    show "fresh_upto ?h ?i (Suc ?k)"
      using links_in_layer(3) [OF g] by (fastforce simp: fresh_upto_def less_Suc_eq)
  qed (use ep assms(2) in \<open>auto simp: layer_def\<close>)
  then obtain h' where h': "connect_levels fl vector ?i (rev [0..<Suc ?k]) ep ?h = Ret h'" "graph_ok h'" "frame ?h h'"
    by blast
  let ?r = "if lev > maxLevel h' then h'\<lparr>maxLevel := lev, entryPoint := Some ?i\<rparr> else h'"
  have "Insert fl lev vector h = Some (Ret (?i, ?r))"
    using Some ep(1) h'(1,3) by (simp add: Insert_def Let_def del: upt_Suc)
  moreover have "graph_ok ?r" using h'(2) by simp
  moreover have "entry_ok ?r"
    using h'(3) Some ep0 by (fastforce simp: entry_ok_def frame_def less_Suc_eq)
  moreover have "vectors ?r = vectors h @ vector" "length (nodes ?r) = Suc ?i" "dimension ?r = dimension h"
    using h'(3) by (auto simp: frame_def)
  ultimately show ?thesis by (auto simp: hnsw_inv_def)
qed

text \<open>The nodes that a search at the lowest layer can reach from a node.\<close>

definition reach0 :: "'f HNSWIndex \<Rightarrow> nat \<Rightarrow> nat set" where
  "reach0 h ep = {n. (ep, n) \<in> {(a, b). b \<in> set (links h 0 a)}\<^sup>*}"

lemma reach0_closed: "closed_in h 0 (reach0 h ep)" "ep \<in> reach0 h ep"
  by (auto simp: closed_in_def reach0_def intro: rtrancl_into_rtrancl)

lemma reach0_least:
  assumes "closed_in h 0 S" "ep \<in> S"
  shows "reach0 h ep \<subseteq> S"
proof
  fix n assume "n \<in> reach0 h ep"
  then have "(ep, n) \<in> {(a, b). b \<in> set (links h 0 a)}\<^sup>*" by (simp add: reach0_def)
  then show "n \<in> S" by induction (use assms in \<open>auto simp: closed_in_def\<close>)
qed

lemma searchLayer_complete:
  assumes "\<And>i. i \<in> reach0 h ep \<Longrightarrow> readable h query i" "finite (reach0 h ep)" "card (reach0 h ep) \<le> ef"
    and "weak_order_on (reach0 h ep) (closer fl h query)" "searchLayer fl h query ep ef 0 = Ret out"
  shows "set out = reach0 h ep"
proof -
  let ?S = "reach0 h ep"
  note c = reach0_closed [where h = h and ep = ep]
  have "beam_ok fl h query ?S ({ep}, [ep], [ep])"
    using c(2) assms(4) single_heap [of ?S _ ep] weak_order_flip [of ?S "closer fl h query"]
    by (simp add: beam_ok_def)
  note run = search_loop_complete [where S = ?S, OF assms(1) c(1) assms(2-4) this refl]
  obtain r where r: "search_loop fl h query ef 0 ({ep}, [ep], [ep]) = Ret r" "set out = set r"
    using assms(5) by (auto simp: searchLayer_def split: outcome.splits)
  have "{ep} \<subseteq> set r \<and> closed_in h 0 (set r)" using run r(1) by simp
  then have "?S \<subseteq> set r" using reach0_least by blast
  moreover have "set out \<subseteq> ?S"
    using searchLayer_ok [where S = ?S, OF assms(1) c, of fl ef] assms(5) by auto
  ultimately show ?thesis using r(2) by blast
qed

lemma Search_descends:
  assumes "hnsw_inv h" "nodes h \<noteq> []" "dimension h \<le> length query" "strict_lt fl"
  shows "\<exists>e ep. entryPoint h = Some e \<and> ep < length (nodes h)
    \<and> descend fl h query (rev [1..<Suc (maxLevel h)]) e = Some (Ret ep)"
proof -
  obtain e where e: "entryPoint h = Some e" "e < length (nodes h)" "level (nodes h ! e) = maxLevel h"
    using assms(1,2) by (auto simp: hnsw_inv_def entry_ok_def split: option.splits)
  have g: "graph_ok h" using assms(1) by (simp add: hnsw_inv_def)
  let ?T = "{..<length (nodes h)}"
  have "\<exists>r. descend fl h query (rev [1..<Suc (maxLevel h)]) e = Some (Ret r) \<and> r \<in> ?T \<and> 0 \<le> level (nodes h ! r)"
    by (rule descend_ok [OF assms(4) g assms(3) e(2)])
       (use e(2,3) links_in_layer(3) [OF g] sorted_upt in \<open>auto simp: sorted_wrt_rev closed_in_def simp del: upt_Suc\<close>)
  then show ?thesis using e(1) by blast
qed

text \<open>The hits of a search: \<open>hits_from\<close> says which node it starts from at the lowest layer.\<close>

definition knn_hits :: "'f float_ops \<Rightarrow> 'f HNSWIndex \<Rightarrow> 'f list \<Rightarrow> nat \<Rightarrow> nat list \<Rightarrow> 'f SearchHit list" where
  "knn_hits fl h query k out = map (\<lambda>c. \<lparr>hit_ID = c, hit_Score = cosineSimilarity fl h query c\<rparr>) (take k out)"

lemma SearchKNN_run:
  assumes "hnsw_inv h" "nodes h \<noteq> []" "dimension h \<le> length query" "strict_lt fl"
  obtains ep out where "ep < length (nodes h)" "searchLayer fl h query ep (max (efSearch h) k) 0 = Ret out"
    "SearchKNN fl query (int k) h = Some (Ret (knn_hits fl h query k out))"
    "set out \<subseteq> {..<length (nodes h)}" "distinct out" "out \<noteq> []"
    "weak_order_on {..<length (nodes h)} (closer fl h query) \<Longrightarrow> ordered (closer fl h query) out"
proof -
  have g: "graph_ok h" using assms(1) by (simp add: hnsw_inv_def)
  obtain e ep where e: "entryPoint h = Some e" "ep < length (nodes h)"
    "descend fl h query (rev [1..<Suc (maxLevel h)]) e = Some (Ret ep)"
    using Search_descends [OF assms] by blast
  let ?S = "{..<length (nodes h)}"
  have "closed_in h 0 ?S" using links_in_layer(3) [OF g] by (auto simp: closed_in_def)
  then obtain out where out: "searchLayer fl h query ep (max (efSearch h) k) 0 = Ret out" "set out \<subseteq> ?S"
    "distinct out" "out \<noteq> []" "weak_order_on ?S (closer fl h query) \<longrightarrow> ordered (closer fl h query) out"
    using searchLayer_ok [of ?S h query 0 ep fl "max (efSearch h) k"] readableI [OF g assms(3)] e(2) by auto
  have "SearchKNN fl query (int k) h = Some (Ret (knn_hits fl h query k out))"
    using e out(1) assms(2) by (simp add: SearchKNN_def knn_hits_def del: upt_Suc)
  then show thesis using that e(2) out by blast
qed

section \<open>Properties\<close>

text \<open>Vectors inserted one after the other, each with the level drawn for it.\<close>

fun insert_all :: "'f float_ops \<Rightarrow> (nat \<times> 'f list) list \<Rightarrow> 'f HNSWIndex \<Rightarrow> 'f HNSWIndex run" where
  "insert_all fl [] h = Some (Ret h)"
| "insert_all fl ((lev, v) # vs) h = bind_run (Insert fl lev v h) (\<lambda>(_, h'). insert_all fl vs h')"

lemma new_inv: "hnsw_inv (NewHNSWIndex d m ef)"
  by (simp add: hnsw_inv_def graph_ok_def entry_ok_def NewHNSWIndex_def)

lemma insert_all_ok:
  assumes "hnsw_inv h" "strict_lt fl" "\<And>lev v. (lev, v) \<in> set vs \<Longrightarrow> length v = dimension h"
  shows "\<exists>h'. insert_all fl vs h = Some (Ret h') \<and> hnsw_inv h' \<and> vectors h' = vectors h @ concat (map snd vs)
    \<and> Len h' = Len h + length vs"
  using assms(1,3)
proof (induction vs arbitrary: h)
  case (Cons p vs)
  obtain lev v where p: "p = (lev, v)" by fastforce
  have "length v = dimension h" using Cons.prems(2) [of lev v] by (simp add: p)
  from Insert_ok [OF Cons.prems(1) this assms(2), of lev] obtain h1 where
    h1: "Insert fl lev v h = Some (Ret (length (nodes h), h1))" "hnsw_inv h1" "vectors h1 = vectors h @ v"
        "length (nodes h1) = Suc (length (nodes h))" "dimension h1 = dimension h"
    by blast
  show ?case using Cons.IH [OF h1(2)] Cons.prems(2) h1 by (auto simp: p Len_def)
qed (simp add: Len_def)


text \<open>Exact arithmetic on integers; the norms that occur below are 0 and 1.\<close>

definition int_floats :: "int float_ops" where
  "int_floats = \<lparr>fl_zero = 0, fl_one = 1, fl_add = (+), fl_sub = (-), fl_mul = (*), fl_div = (div),
     fl_sqrt = (\<lambda>x. x), fl_eq = (=), fl_lt = (<)\<rparr>"

lemma int_floats_strict: "strict_lt int_floats"
  by (simp add: strict_lt_def int_floats_def)


text \<open>
  A search for the k nearest vectors. On a well-formed index it returns without a panic and
  without looping; the hits are distinct nodes of the index, at least one and at most k of them,
  each with its cosine similarity, and when the distances involved are comparable (none is NaN)
  they are ordered from the closest to the farthest.
\<close>

theorem hnsw_search_sound:
  assumes "hnsw_inv h" "nodes h \<noteq> []" "dimension h \<le> length query" "strict_lt fl" "0 < k"
  shows "\<exists>hits. SearchKNN fl query (int k) h = Some (Ret hits) \<and> hits \<noteq> [] \<and> length hits \<le> k
    \<and> distinct (map hit_ID hits)
    \<and> (\<forall>x\<in>set hits. hit_ID x < Len h \<and> hit_Score x = cosineSimilarity fl h query (hit_ID x))
    \<and> (weak_order_on {..<Len h} (closer fl h query) \<longrightarrow> ordered (closer fl h query) (map hit_ID hits))"
proof -
  obtain ep out where o: "SearchKNN fl query (int k) h = Some (Ret (knn_hits fl h query k out))"
    "set out \<subseteq> {..<length (nodes h)}" "distinct out" "out \<noteq> []"
    "weak_order_on {..<length (nodes h)} (closer fl h query) \<Longrightarrow> ordered (closer fl h query) out"
    by (rule SearchKNN_run [OF assms(1-4), of k]) blast
  have ids: "map hit_ID (knn_hits fl h query k out) = take k out" by (simp add: knn_hits_def comp_def)
  show ?thesis
  proof (intro exI conjI)
    show "SearchKNN fl query (int k) h = Some (Ret (knn_hits fl h query k out))" by (rule o(1))
    show "weak_order_on {..<Len h} (closer fl h query) \<longrightarrow> ordered (closer fl h query) (map hit_ID (knn_hits fl h query k out))"
      using o(5) by (simp add: ids Len_def sorted_wrt_take)
  qed (use o(2-4) assms(5) in \<open>auto simp: ids, auto simp: knn_hits_def Len_def dest: in_set_takeD\<close>)
qed

definition two_nodes :: "int HNSWIndex" where
  "two_nodes = \<lparr>dimension = 1, hn_m = 16, mMax0 = 32, efConstruct = 200, efSearch = 50, maxLevel = 0,
     entryPoint = Some 0, nodes = [\<lparr>connections = [[1]], level = 0\<rparr>, \<lparr>connections = [[0]], level = 0\<rparr>],
     vectors = [1, -1]\<rparr>"

lemma two_nodes_links:
  "links two_nodes l 0 = (if l = 0 then [1] else [])" "links two_nodes l (Suc 0) = (if l = 0 then [0] else [])"
  by (simp_all add: two_nodes_def links_def)

lemma two_nodes_inv: "hnsw_inv two_nodes" "Len two_nodes = 2" "nodes two_nodes \<noteq> []" "dimension two_nodes = 1" "efSearch two_nodes = 50"
proof -
  have "graph_ok two_nodes"
    by (auto simp: graph_ok_def links_ok_def links_def two_nodes_def max_links_def less_Suc_eq numeral_2_eq_2)
  then show "hnsw_inv two_nodes" by (auto simp: hnsw_inv_def entry_ok_def two_nodes_def less_Suc_eq numeral_2_eq_2)
qed (simp_all add: Len_def two_nodes_def)

lemma two_nodes_order: "weak_order_on A (closer int_floats two_nodes query)"
  by (auto simp: weak_order_on_def closer_def int_floats_def)

lemma two_nodes_reach:
  assumes "i < 2"
  shows "reach0 two_nodes i = {..<2}"
proof -
  have i: "i = 0 \<or> i = Suc 0" using assms by auto
  have "closed_in two_nodes 0 {..<2}" by (auto simp: closed_in_def two_nodes_links less_Suc_eq numeral_2_eq_2)
  then have "reach0 two_nodes i \<subseteq> {..<2}" using assms by (intro reach0_least) auto
  moreover have "0 \<in> reach0 two_nodes i \<and> Suc 0 \<in> reach0 two_nodes i"
    using i reach0_closed [where h = two_nodes and ep = i] by (auto simp: closed_in_def two_nodes_links)
  ultimately show ?thesis by (auto simp: less_Suc_eq numeral_2_eq_2)
qed

theorem hnsw_search_sound_witness:
  "hnsw_inv two_nodes \<and> nodes two_nodes \<noteq> [] \<and> strict_lt int_floats
   \<and> (\<exists>hits. SearchKNN int_floats [1] (int 1) two_nodes = Some (Ret hits) \<and> hits \<noteq> [] \<and> length hits \<le> 1)"
  using hnsw_search_sound [OF two_nodes_inv(1,3) _ int_floats_strict, of "[1]" 1] two_nodes_inv int_floats_strict by auto

text \<open>
  C38. When the approximate search is exact. If every node can be reached from every other at the
  lowest layer, the index has no more nodes than the beam is wide (the larger of \<open>efSearch\<close>, which
  is 50, and k), and the distances are comparable, then the search returns the k nearest vectors:
  min(k, n) hits in order of distance, and no vector that is left out is closer than a hit.
\<close>

theorem hnsw_search_exact:
  assumes "hnsw_inv h" "nodes h \<noteq> []" "dimension h \<le> length query" "strict_lt fl"
    and "weak_order_on {..<Len h} (closer fl h query)" "Len h \<le> max (efSearch h) k"
    and "\<And>i. i < Len h \<Longrightarrow> reach0 h i = {..<Len h}"
  shows "\<exists>hits. SearchKNN fl query (int k) h = Some (Ret hits) \<and> length hits = min k (Len h)
    \<and> distinct (map hit_ID hits) \<and> ordered (closer fl h query) (map hit_ID hits)
    \<and> (\<forall>x\<in>set hits. \<forall>i<Len h. i \<notin> hit_ID ` set hits \<longrightarrow> \<not> closer fl h query i (hit_ID x))"
proof -
  obtain ep out where o: "ep < length (nodes h)" "searchLayer fl h query ep (max (efSearch h) k) 0 = Ret out"
    "SearchKNN fl query (int k) h = Some (Ret (knn_hits fl h query k out))" "distinct out"
    "weak_order_on {..<length (nodes h)} (closer fl h query) \<Longrightarrow> ordered (closer fl h query) out"
    by (rule SearchKNN_run [OF assms(1-4), of k]) blast
  have g: "graph_ok h" using assms(1) by (simp add: hnsw_inv_def)
  have r: "reach0 h ep = {..<Len h}" using assms(7) o(1) by (simp add: Len_def)
  have all: "set out = {..<Len h}"
    using searchLayer_complete [OF _ _ _ _ o(2)] readableI [OF g assms(3)] assms(5,6) by (simp add: r Len_def)
  then have len: "length out = Len h" using o(4) by (metis distinct_card card_lessThan)
  have ord: "ordered (closer fl h query) out" using o(5) assms(5) by (simp add: Len_def)
  have ids: "map hit_ID (knn_hits fl h query k out) = take k out" by (simp add: knn_hits_def comp_def)
  then have idset: "hit_ID ` set (knn_hits fl h query k out) = set (take k out)" by (metis set_map)
  have "\<not> closer fl h query i j" if "j \<in> set (take k out)" "i < Len h" "i \<notin> set (take k out)" for i j
  proof -
    have "i \<in> set (drop k out)" using that all by (metis Un_iff append_take_drop_id lessThan_iff set_append)
    moreover have "ordered (closer fl h query) (take k out @ drop k out)" using ord by simp
    ultimately show ?thesis using that(1) unfolding sorted_wrt_append by blast
  qed
  then have best: "\<forall>x\<in>set (knn_hits fl h query k out). \<forall>i<Len h.
      i \<notin> hit_ID ` set (knn_hits fl h query k out) \<longrightarrow> \<not> closer fl h query i (hit_ID x)"
    using idset by blast
  have "length (knn_hits fl h query k out) = min k (Len h)" using len by (simp add: knn_hits_def min.commute)
  then show ?thesis using o(3,4) ord best ids sorted_wrt_take [OF ord, of k] by (metis distinct_take)
qed

theorem hnsw_search_exact_witness:
  "hnsw_inv two_nodes \<and> reach0 two_nodes 0 = {..<2} \<and> reach0 two_nodes 1 = {..<2}
   \<and> (\<exists>hits. SearchKNN int_floats [-1] (int 2) two_nodes = Some (Ret hits) \<and> length hits = 2
        \<and> ordered (closer int_floats two_nodes [-1]) (map hit_ID hits))"
proof -
  have "\<exists>hits. SearchKNN int_floats [-1] (int 2) two_nodes = Some (Ret hits) \<and> length hits = min 2 (Len two_nodes)
    \<and> distinct (map hit_ID hits) \<and> ordered (closer int_floats two_nodes [-1]) (map hit_ID hits)
    \<and> (\<forall>x\<in>set hits. \<forall>i<Len two_nodes. i \<notin> hit_ID ` set hits \<longrightarrow> \<not> closer int_floats two_nodes [-1] i (hit_ID x))"
    by (rule hnsw_search_exact) (auto simp: two_nodes_inv int_floats_strict two_nodes_order two_nodes_reach)
  then show ?thesis by (auto simp: two_nodes_inv two_nodes_reach)
qed

end
