(* ===== verification/Vector_Index.thy ===== *)
theory Vector_Index
  imports Search_Index Hnsw_Props
begin

text \<open>
  Semantic search: the TF-IDF embedder (\<^verbatim>\<open>vectorindex/embedder_tfidf.go\<close>), the vector index that
  puts embeddings into the nearest-neighbour graph (\<^verbatim>\<open>vectorindex/vectorindex.go\<close>) and the
  composite index that keeps it beside the keyword index (\<^verbatim>\<open>index/composite.go\<close>). What the vector
  index needs of an embedder is the locale \<open>embedder\<close>, which the TF-IDF embedder interprets.
\<close>

section \<open>The TF-IDF embedder\<close>

text \<open>\<open>tf_log n\<close> is \<^verbatim>\<open>float32(math.Log(1 + float64(n)))\<close> and \<open>idf_log n df\<close> is
  \<^verbatim>\<open>float32(math.Log(1 + float64(n)/float64(1+df)))\<close>.\<close>

record 'f log_ops =
  tf_log :: "nat \<Rightarrow> 'f"
  idf_log :: "nat \<Rightarrow> nat \<Rightarrow> 'f"

record TFIDFEmbedder =
  em_dimension :: nat
  docFreq :: "string \<rightharpoonup> nat"
  docCount :: nat
  trained :: bool

definition NewTFIDFEmbedder :: "nat \<Rightarrow> TFIDFEmbedder" where
  "NewTFIDFEmbedder d = \<lparr>em_dimension = d, docFreq = Map.empty, docCount = 0, trained = False\<rparr>"

definition tokenizeSimple :: "unicode \<Rightarrow> string \<Rightarrow> string list" where
  "tokenizeSimple u txt = filter (\<lambda>w. 2 \<le> length w) (map (un_lower u) (fields_func (un_word u) txt))"

text \<open>Reading a missing key of a Go map of numbers gives 0; \<^verbatim>\<open>m[k]++\<close>.\<close>

definition count_of :: "(string \<rightharpoonup> nat) \<Rightarrow> string \<Rightarrow> nat" where
  "count_of f t = (case f t of None \<Rightarrow> 0 | Some n \<Rightarrow> n)"

definition incr :: "(string \<rightharpoonup> nat) \<Rightarrow> string \<Rightarrow> (string \<rightharpoonup> nat)" where
  "incr f t = f(t \<mapsto> count_of f t + 1)"

fun count_new :: "string set \<Rightarrow> (string \<rightharpoonup> nat) \<Rightarrow> string list \<Rightarrow> (string \<rightharpoonup> nat)" where
  "count_new seen f [] = f"
| "count_new seen f (t # ts) =
     (if t \<in> seen then count_new seen f ts else count_new (insert t seen) (incr f t) ts)"

definition Train :: "unicode \<Rightarrow> string list \<Rightarrow> TFIDFEmbedder \<Rightarrow> TFIDFEmbedder" where
  "Train u documents e =
     e\<lparr>docFreq := foldl (\<lambda>f doc. count_new {} f (tokenizeSimple u doc)) Map.empty documents,
       docCount := length documents, trained := True\<rparr>"

text \<open>FNV-1a; \<^verbatim>\<open>h % uint32(buckets)\<close> panics when the divisor is 0.\<close>

definition hashStringToBucket :: "string \<Rightarrow> nat \<Rightarrow> nat outcome" where
  "hashStringToBucket s buckets =
     (let h = foldl (\<lambda>h c. (h XOR of_char c) * 16777619) (2166136261 :: 32 word) s;
          b = (word_of_nat buckets :: 32 word) in
      if b = 0 then Panic ''runtime error: integer divide by zero'' else Ret (unat (h mod b)))"

definition normalize :: "'f float_ops \<Rightarrow> 'f list \<Rightarrow> 'f list" where
  "normalize fl v =
     (let total = foldl (\<lambda>s x. fl_add fl s (fl_mul fl x x)) (fl_zero fl) v in
      if fl_eq fl total (fl_zero fl) then v
      else map (\<lambda>x. fl_div fl x (fl_sqrt fl total)) v)"

text \<open>The loop over the term frequencies; Go leaves open in which order a map is iterated over,
  so the order is an argument.\<close>

definition weight :: "'f float_ops \<Rightarrow> 'f log_ops \<Rightarrow> TFIDFEmbedder \<Rightarrow> nat \<Rightarrow> string \<Rightarrow> 'f" where
  "weight fl lg e n term =
     fl_mul fl (tf_log lg n) (idf_log lg (if docCount e = 0 then 1 else docCount e) (count_of (docFreq e) term))"

fun add_weights ::
  "'f float_ops \<Rightarrow> 'f log_ops \<Rightarrow> TFIDFEmbedder \<Rightarrow> (string \<rightharpoonup> nat) \<Rightarrow> string list \<Rightarrow> 'f list \<Rightarrow> 'f list outcome" where
  "add_weights fl lg e tf [] vec = Ret vec"
| "add_weights fl lg e tf (term # terms) vec =
     (case hashStringToBucket term (em_dimension e) of
        Panic m \<Rightarrow> Panic m
      | Ret b \<Rightarrow>
          (if b < length vec
           then add_weights fl lg e tf terms (vec[b := fl_add fl (vec ! b) (weight fl lg e (count_of tf term) term)])
           else Panic index_panic))"

definition Embed ::
  "'f float_ops \<Rightarrow> 'f log_ops \<Rightarrow> unicode \<Rightarrow> (string list \<Rightarrow> string list) \<Rightarrow> TFIDFEmbedder \<Rightarrow> string \<Rightarrow> 'f list res outcome" where
  "Embed fl lg u order e txt =
     (let vec = replicate (em_dimension e) (fl_zero fl); terms = tokenizeSimple u txt in
      if terms = [] then Ret (Inr vec)
      else let tf = foldl incr Map.empty terms in
        case add_weights fl lg e tf (order (remdups terms)) vec of
          Panic m \<Rightarrow> Panic m
        | Ret vec' \<Rightarrow> Ret (Inr (normalize fl vec')))"

section \<open>The vector index\<close>

record DocRef =
  dr_DocID :: docid
  dr_Path :: string
  dr_Title :: string

record 'f VectorIndex =
  hnsw :: "'f HNSWIndex"
  vi_docs :: "nat \<rightharpoonup> DocRef"
  ready :: bool

definition NewVectorIndex :: "nat \<Rightarrow> nat \<Rightarrow> nat \<Rightarrow> 'f VectorIndex" where
  "NewVectorIndex d m ef = \<lparr>hnsw = NewHNSWIndex d m ef, vi_docs = Map.empty, ready = False\<rparr>"

text \<open>\<open>emb\<close> is the method of the embedder, \<open>lev\<close> the random level of the new node.\<close>

definition vector_AddDocument ::
  "'f float_ops \<Rightarrow> (string \<Rightarrow> 'f list res outcome) \<Rightarrow> nat \<Rightarrow> docid \<Rightarrow> string \<Rightarrow> string \<Rightarrow> string
   \<Rightarrow> 'f VectorIndex \<Rightarrow> (goerr option \<times> 'f VectorIndex) run" where
  "vector_AddDocument fl emb lev docID path title content vi =
     (case emb content of
        Panic m \<Rightarrow> Some (Panic m)
      | Ret (Inl e) \<Rightarrow> Some (Ret (Some e, vi))
      | Ret (Inr vec) \<Rightarrow>
          bind_run (Insert fl lev vec (hnsw vi)) (\<lambda>(hnswID, h).
            Some (Ret (None, \<lparr>hnsw = h,
              vi_docs = (vi_docs vi)(hnswID \<mapsto> \<lparr>dr_DocID = docID, dr_Path = path, dr_Title = title\<rparr>),
              ready = True\<rparr>))))"

definition doc_hit :: "'f VectorIndex \<Rightarrow> 'f SearchHit \<Rightarrow> 'f SearchHit" where
  "doc_hit vi hit =
     (case vi_docs vi (hit_ID hit) of Some ref \<Rightarrow> hit\<lparr>hit_ID := unat (dr_DocID ref)\<rparr> | None \<Rightarrow> hit)"

definition vector_Search ::
  "'f float_ops \<Rightarrow> (string \<Rightarrow> 'f list res outcome) \<Rightarrow> string \<Rightarrow> int \<Rightarrow> 'f VectorIndex \<Rightarrow> 'f SearchHit list res run" where
  "vector_Search fl emb query k vi =
     (if \<not> ready vi \<or> Len (hnsw vi) = 0 then Some (Ret (Inr []))
      else case emb query of
        Panic m \<Rightarrow> Some (Panic m)
      | Ret (Inl e) \<Rightarrow> Some (Ret (Inl e))
      | Ret (Inr queryVec) \<Rightarrow>
          bind_run (SearchKNN fl queryVec k (hnsw vi)) (\<lambda>hits. Some (Ret (Inr (map (doc_hit vi) hits)))))"

text \<open>\<^verbatim>\<open>GetEmbedding\<close> looks for the document in the order in which the map happens to be iterated
  over, an argument again.\<close>

definition GetEmbedding :: "(nat set \<Rightarrow> nat list) \<Rightarrow> int \<Rightarrow> 'f VectorIndex \<Rightarrow> 'f list option" where
  "GetEmbedding keys docID vi =
     (case find (\<lambda>i. case vi_docs vi i of Some ref \<Rightarrow> int (unat (dr_DocID ref)) = docID | None \<Rightarrow> False)
             (keys (dom (vi_docs vi))) of
        None \<Rightarrow> None
      | Some i \<Rightarrow>
          (let d = dimension (hnsw vi); offset = i * d in
           if offset + d > length (vectors (hnsw vi)) then None
           else Some (take d (drop offset (vectors (hnsw vi))))))"

section \<open>The composite index\<close>

record 'f CompositeIndex =
  Keyword :: InvertedIndex
  Vector :: "'f VectorIndex option"

definition NewCompositeIndex :: "'f VectorIndex option \<Rightarrow> 'f CompositeIndex" where
  "NewCompositeIndex vi = \<lparr>Keyword = NewInvertedIndex, Vector = vi\<rparr>"

text \<open>The error of the vector index is dropped.\<close>

definition composite_AddDocument ::
  "'f float_ops \<Rightarrow> (string \<Rightarrow> 'f list res outcome) \<Rightarrow> unicode \<Rightarrow> file_env \<Rightarrow> nat \<Rightarrow> string \<Rightarrow> string
   \<Rightarrow> 'f CompositeIndex \<Rightarrow> (docid \<times> 'f CompositeIndex) run" where
  "composite_AddDocument fl emb u fe lev path content ci =
     (case AddDocument u fe path content (Keyword ci) of (docID, kw) \<Rightarrow>
        (case Vector ci of
           None \<Rightarrow> Some (Ret (docID, ci\<lparr>Keyword := kw\<rparr>))
         | Some vi \<Rightarrow>
             bind_run (vector_AddDocument fl emb lev docID path (path_base path) content vi) (\<lambda>(_, vi').
               Some (Ret (docID, \<lparr>Keyword = kw, Vector = Some vi'\<rparr>)))))"

definition vector_result :: "InvertedIndex \<Rightarrow> 'f SearchHit \<Rightarrow> 'f SearchResult" where
  "vector_result idx hit =
     (let docID = (word_of_nat (hit_ID hit) :: docid) in
      case GetDoc docID idx of
        Some doc \<Rightarrow>
          \<lparr>sr_DocID = docID, sr_Path = dm_Path doc, sr_Title = dm_Title doc, sr_Score = hit_Score hit,
           sr_Mode = ModeVector, sr_FileType = dm_FileType doc, sr_Size = dm_Size doc,
           sr_CreatedAt = unix (dm_CreatedAt doc), sr_ModifiedAt = unix (dm_ModifiedAt doc),
           sr_WordCount = dm_WordCount doc\<rparr>
      | None \<Rightarrow>
          \<lparr>sr_DocID = docID, sr_Path = [], sr_Title = [], sr_Score = hit_Score hit, sr_Mode = ModeVector,
           sr_FileType = [], sr_Size = 0, sr_CreatedAt = 0, sr_ModifiedAt = 0, sr_WordCount = 0\<rparr>)"

definition vectorSearch ::
  "'f float_ops \<Rightarrow> (string \<Rightarrow> 'f list res outcome) \<Rightarrow> string \<Rightarrow> int \<Rightarrow> 'f CompositeIndex \<Rightarrow> 'f SearchResult list run" where
  "vectorSearch fl emb query k ci =
     (case Vector ci of
        None \<Rightarrow> Some (Ret [])
      | Some vi \<Rightarrow>
          bind_run (vector_Search fl emb query k vi) (\<lambda>r.
            case r of Inl e \<Rightarrow> Some (Ret []) | Inr hs \<Rightarrow> Some (Ret (map (vector_result (Keyword ci)) hs))))"

text \<open>
  \<^verbatim>\<open>hybridSearch\<close>: reciprocal rank fusion. \<open>rrf n\<close> is \<^verbatim>\<open>1.0 / float32(n)\<close>; \<open>rank\<close> stands for the
  iteration over the map of scores and the sort by descending score.
\<close>

record 'f fused =
  fu_scores :: "docid \<rightharpoonup> 'f"
  fu_paths :: "docid \<rightharpoonup> string"
  fu_titles :: "docid \<rightharpoonup> string"

definition add_score :: "'f float_ops \<Rightarrow> (nat \<Rightarrow> 'f) \<Rightarrow> 'f fused \<Rightarrow> nat \<times> 'f SearchResult \<Rightarrow> 'f fused" where
  "add_score fl rrf f = (\<lambda>(rank, r).
     f\<lparr>fu_scores := (fu_scores f)(sr_DocID r \<mapsto>
         fl_add fl (case fu_scores f (sr_DocID r) of None \<Rightarrow> fl_zero fl | Some s \<Rightarrow> s) (rrf (60 + rank)))\<rparr>)"

definition add_keyword :: "'f float_ops \<Rightarrow> (nat \<Rightarrow> 'f) \<Rightarrow> 'f fused \<Rightarrow> nat \<times> 'f SearchResult \<Rightarrow> 'f fused" where
  "add_keyword fl rrf f = (\<lambda>(rank, r).
     let f' = add_score fl rrf f (rank, r) in
     f'\<lparr>fu_paths := (fu_paths f')(sr_DocID r \<mapsto> sr_Path r), fu_titles := (fu_titles f')(sr_DocID r \<mapsto> sr_Title r)\<rparr>)"

definition add_vector :: "'f float_ops \<Rightarrow> (nat \<Rightarrow> 'f) \<Rightarrow> 'f fused \<Rightarrow> nat \<times> 'f SearchResult \<Rightarrow> 'f fused" where
  "add_vector fl rrf f = (\<lambda>(rank, r).
     let f' = add_score fl rrf f (rank, r) in
     if sr_DocID r \<in> dom (fu_paths f') then f'
     else f'\<lparr>fu_paths := (fu_paths f')(sr_DocID r \<mapsto> sr_Path r), fu_titles := (fu_titles f')(sr_DocID r \<mapsto> sr_Title r)\<rparr>)"

definition fuse :: "'f float_ops \<Rightarrow> (nat \<Rightarrow> 'f) \<Rightarrow> 'f SearchResult list \<Rightarrow> 'f SearchResult list \<Rightarrow> 'f fused" where
  "fuse fl rrf kw vec =
     foldl (add_vector fl rrf)
       (foldl (add_keyword fl rrf) \<lparr>fu_scores = Map.empty, fu_paths = Map.empty, fu_titles = Map.empty\<rparr> (enumerate 0 kw))
       (enumerate 0 vec)"

definition lookup_string :: "(docid \<rightharpoonup> string) \<Rightarrow> docid \<Rightarrow> string" where
  "lookup_string f d = (case f d of None \<Rightarrow> [] | Some s \<Rightarrow> s)"

definition hybrid_result :: "'f fused \<Rightarrow> docid \<times> 'f \<Rightarrow> 'f SearchResult" where
  "hybrid_result f = (\<lambda>(d, s).
     \<lparr>sr_DocID = d, sr_Path = lookup_string (fu_paths f) d, sr_Title = lookup_string (fu_titles f) d,
      sr_Score = s, sr_Mode = ModeHybrid, sr_FileType = [], sr_Size = 0, sr_CreatedAt = 0, sr_ModifiedAt = 0,
      sr_WordCount = 0\<rparr>)"

definition hybridSearch ::
  "'f float_ops \<Rightarrow> (nat \<Rightarrow> 'f) \<Rightarrow> ((docid \<rightharpoonup> 'f) \<Rightarrow> (docid \<times> 'f) list) \<Rightarrow> (string \<Rightarrow> 'f list res outcome) \<Rightarrow> unicode
   \<Rightarrow> string \<Rightarrow> int \<Rightarrow> 'f CompositeIndex \<Rightarrow> 'f SearchResult list run" where
  "hybridSearch fl rrf rank emb u query k ci =
     bind_run (vectorSearch fl emb query (k * 2) ci) (\<lambda>vec.
       let f = fuse fl rrf (keywordSearch (fl_one fl) u query (k * 2) (Keyword ci)) vec in
       Some (Ret (map (hybrid_result f) (limit k (rank (fu_scores f))))))"

text \<open>\<^verbatim>\<open>Search\<close> in all its modes: the results of the mode, then filter and bound.\<close>

definition composite_Search ::
  "'f float_ops \<Rightarrow> (nat \<Rightarrow> 'f) \<Rightarrow> ((docid \<rightharpoonup> 'f) \<Rightarrow> (docid \<times> 'f) list) \<Rightarrow> (string \<Rightarrow> 'f list res outcome) \<Rightarrow> unicode
   \<Rightarrow> 'f CompositeIndex \<Rightarrow> string \<Rightarrow> SearchMode \<Rightarrow> int \<Rightarrow> MetadataFilter option \<Rightarrow> 'f SearchResult list run" where
  "composite_Search fl rrf rank emb u ci query mode k flt =
     bind_run (case mode of
                 ModeVector \<Rightarrow> vectorSearch fl emb query (k * 2) ci
               | ModeHybrid \<Rightarrow> hybridSearch fl rrf rank emb u query (k * 2) ci
               | _ \<Rightarrow> Some (Ret []))
       (\<lambda>rs. Some (Ret (Search (fl_one fl) u (\<lambda>_ _. rs) (\<lambda>_ _. rs) (Keyword ci) query mode k flt)))"

section \<open>What the vector index needs of an embedder\<close>

text \<open>The index over a list of references: the n-th document added is node n of the graph.\<close>

definition holds :: "nat \<Rightarrow> DocRef list \<Rightarrow> 'f VectorIndex \<Rightarrow> bool" where
  "holds d refs vi \<longleftrightarrow> hnsw_inv (hnsw vi) \<and> dimension (hnsw vi) = d \<and> Len (hnsw vi) = length refs
   \<and> vi_docs vi = (\<lambda>i. if i < length refs then Some (refs ! i) else None) \<and> (ready vi \<longleftrightarrow> refs \<noteq> [])"

locale embedder =
  fixes emb :: "string \<Rightarrow> 'f list res outcome"
    and d :: nat
  assumes emb_dimension: "emb txt = Ret (Inr v) \<Longrightarrow> length v = d"
begin

lemma holds_new: "holds d [] (NewVectorIndex d m ef)"
  using new_inv [of d m ef] by (auto simp: holds_def NewVectorIndex_def NewHNSWIndex_def Len_def)

lemma holds_add:
  assumes "holds d refs vi" "strict_lt fl" "emb content = Ret (Inr v)"
  shows "\<exists>vi'. vector_AddDocument fl emb lev docID path title content vi = Some (Ret (None, vi'))
    \<and> holds d (refs @ [\<lparr>dr_DocID = docID, dr_Path = path, dr_Title = title\<rparr>]) vi'
    \<and> vectors (hnsw vi') = vectors (hnsw vi) @ v"
proof -
  have "length v = dimension (hnsw vi)" using emb_dimension [OF assms(3)] assms(1) by (simp add: holds_def)
  from Insert_ok [OF _ this assms(2), of lev] obtain h where
    h: "Insert fl lev v (hnsw vi) = Some (Ret (length (nodes (hnsw vi)), h))" "hnsw_inv h"
       "vectors h = vectors (hnsw vi) @ v" "length (nodes h) = Suc (length (nodes (hnsw vi)))"
       "dimension h = dimension (hnsw vi)"
    using assms(1) by (auto simp: holds_def)
  show ?thesis
    using h assms(1,3) by (auto simp: vector_AddDocument_def holds_def Len_def nth_append fun_eq_iff)
qed

text \<open>A search reports documents that were added, each node once, nearest first.\<close>

lemma holds_search:
  assumes "holds d refs vi" "strict_lt fl" "emb query = Ret (Inr v)" "0 < k"
  shows "\<exists>ids. vector_Search fl emb query (int k) vi =
      Some (Ret (Inr (map (\<lambda>i. \<lparr>hit_ID = unat (dr_DocID (refs ! i)),
                              hit_Score = cosineSimilarity fl (hnsw vi) v i\<rparr>) ids)))
    \<and> set ids \<subseteq> {..<length refs} \<and> distinct ids \<and> length ids \<le> k \<and> (ids = [] \<longleftrightarrow> refs = [])"
proof (cases "refs = []")
  case True
  then show ?thesis using assms(1) by (intro exI [of _ "[]"]) (simp add: vector_Search_def holds_def)
next
  case False
  have inv: "hnsw_inv (hnsw vi)" "nodes (hnsw vi) \<noteq> []" "dimension (hnsw vi) \<le> length v"
    using assms(1) False emb_dimension [OF assms(3)] by (auto simp: holds_def Len_def)
  obtain ep out where o: "SearchKNN fl v (int k) (hnsw vi) = Some (Ret (knn_hits fl (hnsw vi) v k out))"
    "set out \<subseteq> {..<length (nodes (hnsw vi))}" "distinct out" "out \<noteq> []"
    by (rule SearchKNN_run [OF inv assms(2), of k]) blast
  have n: "length (nodes (hnsw vi)) = length refs" "Len (hnsw vi) \<noteq> 0" "ready vi"
    using assms(1) False by (auto simp: holds_def Len_def)
  have hit: "doc_hit vi \<lparr>hit_ID = i, hit_Score = x\<rparr> = \<lparr>hit_ID = unat (dr_DocID (refs ! i)), hit_Score = x\<rparr>"
    if "i < length refs" for i x
    using that assms(1) by (simp add: doc_hit_def holds_def)
  have "map (doc_hit vi) (knn_hits fl (hnsw vi) v k out) =
      map (\<lambda>i. \<lparr>hit_ID = unat (dr_DocID (refs ! i)), hit_Score = cosineSimilarity fl (hnsw vi) v i\<rparr>) (take k out)"
    unfolding knn_hits_def map_map comp_def
    by (rule map_cong [OF refl hit]) (use o(2) n(1) in \<open>auto dest: in_set_takeD\<close>)
  then show ?thesis
    using o n assms(3,4) False
    by (intro exI [of _ "take k out"]) (auto simp: vector_Search_def dest: in_set_takeD)
qed

end

section \<open>The TF-IDF embedder keeps the contract\<close>

lemma bucket_bound:
  assumes "0 < n" "n < 2 ^ 32"
  shows "\<exists>b<n. hashStringToBucket s n = Ret b"
proof -
  have u: "unat (word_of_nat n :: 32 word) = n" using assms(2) by (simp add: unat_docid)
  then have ne: "(word_of_nat n :: 32 word) \<noteq> 0" using assms(1) by (metis unat_0 less_irrefl)
  have "unat (x mod word_of_nat n) < n" for x :: "32 word"
    using assms(1) by (simp add: unat_mod u)
  then show ?thesis using ne by (simp add: hashStringToBucket_def Let_def)
qed

lemma add_weights_length: "add_weights fl lg e tf ts vec = Ret vec' \<Longrightarrow> length vec' = length vec"
  by (induction fl lg e tf ts vec arbitrary: vec' rule: add_weights.induct)
     (auto split: outcome.splits if_splits)

lemma add_weights_ok:
  "0 < em_dimension e \<Longrightarrow> em_dimension e < 2 ^ 32 \<Longrightarrow> length vec = em_dimension e \<Longrightarrow>
   \<exists>vec'. add_weights fl lg e tf ts vec = Ret vec'"
proof (induction ts arbitrary: vec)
  case (Cons t ts)
  then show ?case using bucket_bound [of "em_dimension e" t] by auto
qed simp

lemma length_normalize [simp]: "length (normalize fl v) = length v"
  by (simp add: normalize_def Let_def)

lemma Embed_dimension: "Embed fl lg u order e txt = Ret (Inr v) \<Longrightarrow> length v = em_dimension e"
  by (auto simp: Embed_def Let_def split: if_splits outcome.splits dest: add_weights_length)

lemma Embed_ok:
  assumes "0 < em_dimension e" "em_dimension e < 2 ^ 32"
  shows "\<exists>v. Embed fl lg u order e txt = Ret (Inr v)"
proof -
  obtain v where "add_weights fl lg e (foldl incr Map.empty (tokenizeSimple u txt))
      (order (remdups (tokenizeSimple u txt))) (replicate (em_dimension e) (fl_zero fl)) = Ret v"
    using add_weights_ok [OF assms, of "replicate (em_dimension e) (fl_zero fl)"] by (metis length_replicate)
  then show ?thesis by (simp add: Embed_def Let_def)
qed

interpretation tfidf: embedder "Embed fl lg u order e" "em_dimension e" for fl lg u order e
  by unfold_locales (rule Embed_dimension)

text \<open>The document frequencies are those of the corpus, each document counted once.\<close>

lemma count_incr: "count_of (incr f a) t = count_of f t + (if t = a then 1 else 0)"
  by (auto simp: incr_def count_of_def)

lemma count_new_of: "count_of (count_new seen f ts) t = count_of f t + (if t \<in> set ts - seen then 1 else 0)"
  by (induction seen f ts rule: count_new.induct) (auto simp: count_incr)

lemma Train_counts:
  "count_of (docFreq (Train u documents e)) t = length (filter (\<lambda>doc. t \<in> set (tokenizeSimple u doc)) documents)"
proof -
  have "count_of (foldl (\<lambda>f doc. count_new {} f (tokenizeSimple u doc)) f documents) t =
      count_of f t + length (filter (\<lambda>doc. t \<in> set (tokenizeSimple u doc)) documents)" for f
    by (induction documents arbitrary: f) (auto simp: count_new_of)
  from this [of Map.empty] show ?thesis by (simp add: Train_def count_of_def)
qed

section \<open>The composite index over a collection\<close>

text \<open>Documents added one after the other, each with the level drawn for it.\<close>

fun add_all ::
  "'f float_ops \<Rightarrow> (string \<Rightarrow> 'f list res outcome) \<Rightarrow> unicode \<Rightarrow> (nat \<times> document) list \<Rightarrow> 'f CompositeIndex
   \<Rightarrow> 'f CompositeIndex run" where
  "add_all fl emb u [] ci = Some (Ret ci)"
| "add_all fl emb u ((lev, fe, path, content) # ds) ci =
     bind_run (composite_AddDocument fl emb u fe lev path content ci) (\<lambda>(_, ci'). add_all fl emb u ds ci')"

definition refs_of :: "document list \<Rightarrow> DocRef list" where
  "refs_of ds = map (\<lambda>(i, fe, path, content).
     \<lparr>dr_DocID = word_of_nat i, dr_Path = path, dr_Title = path_base path\<rparr>) (enumerate 0 ds)"

lemma refs_of_snoc:
  "refs_of (ds @ [(fe, path, content)]) =
   refs_of ds @ [\<lparr>dr_DocID = word_of_nat (length ds), dr_Path = path, dr_Title = path_base path\<rparr>]"
  by (simp add: refs_of_def enumerate_append_eq)

lemma refs_of_sel [simp]: "length (refs_of ds) = length ds" "refs_of [] = []" "refs_of ds = [] \<longleftrightarrow> ds = []"
  "i < length ds \<Longrightarrow> dr_DocID (refs_of ds ! i) = word_of_nat i"
  by (auto simp: refs_of_def nth_enumerate_eq split: prod.split simp flip: length_0_conv)

definition composite_of :: "unicode \<Rightarrow> nat \<Rightarrow> document list \<Rightarrow> 'f CompositeIndex \<Rightarrow> bool" where
  "composite_of u d ds ci \<longleftrightarrow>
     Keyword ci = build_index u ds \<and> (\<exists>vi. Vector ci = Some vi \<and> holds d (refs_of ds) vi)"

lemma build_snoc: "build_index u (ds @ [d]) = add_document u (build_index u ds) d"
  by (simp add: build_index_def)

lemma next_docid: "nextDocID (build_index u ds) = word_of_nat (length ds)"
  by (induction ds rule: rev_induct)
     (auto simp: build_index_def NewInvertedIndex_def add_document_def AddDocument_def Let_def)

context embedder
begin

lemma composite_add:
  assumes "composite_of u d ds ci" "strict_lt fl" "emb content = Ret (Inr v)"
  shows "\<exists>ci'. composite_AddDocument fl emb u fe lev path content ci = Some (Ret (word_of_nat (length ds), ci'))
    \<and> composite_of u d (ds @ [(fe, path, content)]) ci'"
proof -
  obtain vi where vi: "Keyword ci = build_index u ds" "Vector ci = Some vi" "holds d (refs_of ds) vi"
    using assms(1) by (auto simp: composite_of_def)
  let ?kw = "add_document u (build_index u ds) (fe, path, content)"
  have kw: "AddDocument u fe path content (build_index u ds) = (word_of_nat (length ds), ?kw)"
    by (simp add: add_document_def AddDocument_def next_docid Let_def)
  obtain vi' where vi': "vector_AddDocument fl emb lev (word_of_nat (length ds)) path (path_base path) content vi = Some (Ret (None, vi'))"
    "holds d (refs_of (ds @ [(fe, path, content)])) vi'"
    using holds_add [OF vi(3) assms(2,3)] unfolding refs_of_snoc by blast
  show ?thesis
    using vi(1,2) kw vi' by (simp add: composite_AddDocument_def composite_of_def build_snoc)
qed

lemma composite_add_all:
  assumes "composite_of u d ds ci" "strict_lt fl" "\<And>txt. \<exists>v. emb txt = Ret (Inr v)"
  shows "\<exists>ci'. add_all fl emb u new ci = Some (Ret ci') \<and> composite_of u d (ds @ map snd new) ci'"
  using assms(1)
proof (induction new arbitrary: ds ci)
  case (Cons x new)
  obtain lev fe path content where x: "x = (lev, fe, path, content)" by (cases x)
  obtain v where "emb content = Ret (Inr v)" using assms(3) by blast
  from composite_add [OF Cons.prems assms(2) this] obtain ci1 where
    "composite_AddDocument fl emb u fe lev path content ci = Some (Ret (word_of_nat (length ds), ci1))"
    "composite_of u d (ds @ [(fe, path, content)]) ci1" by blast
  then show ?case using Cons.IH [of "ds @ [(fe, path, content)]" ci1] by (simp add: x)
qed simp

lemma composite_vector_search:
  assumes "composite_of u d ds ci" "length ds \<le> 2 ^ 32" "strict_lt fl" "emb query = Ret (Inr v)" "0 < k"
  shows "\<exists>ids vi. Vector ci = Some vi \<and> set ids \<subseteq> {..<length ds} \<and> distinct ids \<and> length ids \<le> k
    \<and> vectorSearch fl emb query (int k) ci =
      Some (Ret (map (\<lambda>i. (keyword_result (cosineSimilarity fl (hnsw vi) v i) (meta_of u ds i))\<lparr>sr_Mode := ModeVector\<rparr>) ids))"
proof -
  obtain vi where vi: "Keyword ci = build_index u ds" "Vector ci = Some vi" "holds d (refs_of ds) vi"
    using assms(1) by (auto simp: composite_of_def)
  obtain ids where ids: "vector_Search fl emb query (int k) vi =
      Some (Ret (Inr (map (\<lambda>i. \<lparr>hit_ID = unat (dr_DocID (refs_of ds ! i)),
                              hit_Score = cosineSimilarity fl (hnsw vi) v i\<rparr>) ids)))"
    "set ids \<subseteq> {..<length ds}" "distinct ids" "length ids \<le> k"
    using holds_search [OF vi(3) assms(3-5)] by auto
  have res: "vector_result (build_index u ds) \<lparr>hit_ID = unat (dr_DocID (refs_of ds ! i)), hit_Score = x\<rparr> =
      (keyword_result x (meta_of u ds i))\<lparr>sr_Mode := ModeVector\<rparr>" if "i < length ds" for i x
  proof -
    have "dm_ID (meta_of u ds i) = word_of_nat i"
      by (simp add: meta_of_def doc_meta_def Let_def split: prod.splits option.splits)
    then show ?thesis
      using that index_of_build [OF assms(2), of u] assms(2)
      by (simp add: vector_result_def GetDoc_def index_of_def unat_docid keyword_result_def)
  qed
  have "map (\<lambda>i. vector_result (build_index u ds) \<lparr>hit_ID = unat (dr_DocID (refs_of ds ! i)),
                              hit_Score = cosineSimilarity fl (hnsw vi) v i\<rparr>) ids =
      map (\<lambda>i. (keyword_result (cosineSimilarity fl (hnsw vi) v i) (meta_of u ds i))\<lparr>sr_Mode := ModeVector\<rparr>) ids"
    by (rule map_cong [OF refl res]) (use ids(2) in auto)
  then show ?thesis using vi ids by (auto simp: vectorSearch_def comp_def)
qed

end

lemma composite_new: "composite_of u d [] (NewCompositeIndex (Some (NewVectorIndex d m ef)))"
  using new_inv [of d m ef]
  by (auto simp: composite_of_def NewCompositeIndex_def build_index_def holds_def NewVectorIndex_def
      NewHNSWIndex_def Len_def)

text \<open>The filter of \<open>Search\<close> on results that stand for documents.\<close>

lemma Search_vector_results:
  assumes "length ds \<le> 2 ^ 32" "set ids \<subseteq> {..<length ds}" "0 < k"
  shows "Search one u (\<lambda>_ _. map (\<lambda>i. (keyword_result (sc i) (meta_of u ds i))\<lparr>sr_Mode := ModeVector\<rparr>) ids) hs
      (build_index u ds) query ModeVector (int k) flt
    = map (\<lambda>i. (keyword_result (sc i) (meta_of u ds i))\<lparr>sr_Mode := ModeVector\<rparr>)
        (take k (filter (\<lambda>i. Matches u flt (meta_of u ds i)) ids))"
proof -
  let ?r = "\<lambda>i. (keyword_result (sc i) (meta_of u ds i))\<lparr>sr_Mode := ModeVector\<rparr>"
  let ?P = "\<lambda>r. case GetDoc (sr_DocID r) (build_index u ds) of Some doc \<Rightarrow> Matches u flt doc | None \<Rightarrow> False"
  have doc: "?P (?r i) = Matches u flt (meta_of u ds i)" if "i < length ds" for i
  proof -
    have "sr_DocID (?r i) = word_of_nat i"
      by (simp add: keyword_result_def meta_of_def doc_meta_def Let_def split: prod.splits option.splits)
    then show ?thesis
      using that index_of_build [OF assms(1), of u] assms(1) by (simp add: GetDoc_def index_of_def unat_docid)
  qed
  have "filter ?P (map ?r ids) = map ?r (filter (\<lambda>i. Matches u flt (meta_of u ds i)) ids)"
    using assms(2) doc by (induction ids) auto
  moreover have "filter (\<lambda>i. Matches u flt (meta_of u ds i)) ids = ids" if "\<not> (flt \<noteq> None \<and> \<not> IsEmpty flt)"
    using that IsEmpty_Matches [of flt u] by (cases flt) (auto simp: IsEmpty_def)
  ultimately show ?thesis using assms(3) by (auto simp: Search_def Let_def limit_def take_map)
qed

section \<open>Properties\<close>



end
