(* ===== verification/Vector_Replica.thy ===== *)
theory Vector_Replica
  imports Search_Encrypted Vector_Index
begin

text \<open>
  The encrypted replica of the vector index (\<^verbatim>\<open>fhe/vector_encrypt.go\<close>, \<^verbatim>\<open>fhe/vector_compare.go\<close>,
  \<^verbatim>\<open>index/encrypted_vector.go\<close>): embeddings are quantized to integers modulo the plaintext modulus,
  encrypted one document per ciphertext, and a peer multiplies them with an encrypted query slot
  by slot; the owner decrypts the products and adds them up.
\<close>

section \<open>Fixed-point numbers\<close>

text \<open>
  The conversions in floating point: \<open>fx_round v\<close> is \<^verbatim>\<open>math.Round(float64(v) * scale)\<close>, an integral
  number; \<open>fx_uint64\<close> is the conversion of such a number to \<^verbatim>\<open>uint64\<close>, which Go leaves open outside
  the range of the type; \<open>fx_value x\<close> is \<^verbatim>\<open>float32(float64(x) / scale)\<close>, \<open>fx_neg\<close> the negation and
  \<open>fx_score s\<close> is \<^verbatim>\<open>float32(float64(s) / (scale * scale))\<close>.
\<close>

record 'f fixed_point =
  fx_round :: "'f \<Rightarrow> int"
  fx_uint64 :: "int \<Rightarrow> nat"
  fx_value :: "nat \<Rightarrow> 'f"
  fx_neg :: "'f \<Rightarrow> 'f"
  fx_score :: "int \<Rightarrow> 'f"

text \<open>The operations depend on the scale, a \<^verbatim>\<open>float64\<close>; the zero value stands for the default.\<close>

definition DefaultScale :: rat where "DefaultScale = 100"

definition effective_scale :: "rat \<Rightarrow> rat" where
  "effective_scale scale = (if scale = 0 then DefaultScale else scale)"

definition halfT :: nat where "halfT = DefaultPlaintextModulus div 2"

definition quantize :: "'f fixed_point \<Rightarrow> 'f \<Rightarrow> nat" where
  "quantize fx v =
     (let scaled = fx_round fx v;
          scaled = (if scaled < 0 then scaled + int DefaultPlaintextModulus else scaled) in
      fx_uint64 fx scaled mod DefaultPlaintextModulus)"

definition QuantizeVector :: "'f fixed_point \<Rightarrow> 'f list \<Rightarrow> nat list" where
  "QuantizeVector fx vec = map (quantize fx) vec"

definition DequantizeVector :: "'f float_ops \<Rightarrow> 'f fixed_point \<Rightarrow> nat list \<Rightarrow> nat \<Rightarrow> 'f list" where
  "DequantizeVector fl fx vals n =
     map (\<lambda>i. if i < length vals
              then (let v = vals ! i in
                    if v > halfT then fx_neg fx (fx_value fx (DefaultPlaintextModulus - v)) else fx_value fx v)
              else fl_zero fl) [0..<n]"

definition EncryptVector :: "('pt, 'ct) bgv \<Rightarrow> nat \<Rightarrow> nat list \<Rightarrow> 'ct res" where
  "EncryptVector lib seed vec = EncryptTermPage lib seed vec"

fun EncryptVectorBatch :: "('pt, 'ct) bgv \<Rightarrow> nat \<Rightarrow> nat list list \<Rightarrow> 'ct list res" where
  "EncryptVectorBatch lib seed [] = Inr []"
| "EncryptVectorBatch lib seed (vec # vecs) =
     bind_res (EncryptVector lib seed vec) (\<lambda>ct. bind_res (EncryptVectorBatch lib (Suc seed) vecs) (\<lambda>cts. Inr (ct # cts)))"

definition DecryptVector :: "('pt, 'ct) bgv \<Rightarrow> 'f float_ops \<Rightarrow> 'f fixed_point \<Rightarrow> 'ct \<Rightarrow> nat \<Rightarrow> 'f list res" where
  "DecryptVector lib fl fx ct n = bind_res (DecryptSlots lib ct) (\<lambda>vals. Inr (DequantizeVector fl fx vals n))"

section \<open>Products\<close>

text \<open>\<open>mul\<close> is \<^verbatim>\<open>MulRelinNew\<close> of an evaluator with the keys of the replica.\<close>

definition EvaluateElementWiseProduct :: "('ct \<Rightarrow> 'ct \<Rightarrow> 'ct res) \<Rightarrow> 'ct \<Rightarrow> 'ct \<Rightarrow> 'ct res" where
  "EvaluateElementWiseProduct mul a b =
     (case mul a b of Inl e \<Rightarrow> Inl (wrap ''homomorphic multiplication'' e) | Inr c \<Rightarrow> Inr c)"

definition add_slot :: "int \<Rightarrow> nat \<Rightarrow> int" where
  "add_slot acc v = (if v > halfT then acc - int (DefaultPlaintextModulus - v) else acc + int v)"

definition DecryptDotProduct :: "('pt, 'ct) bgv \<Rightarrow> 'f fixed_point \<Rightarrow> 'ct \<Rightarrow> nat \<Rightarrow> 'f res" where
  "DecryptDotProduct lib fx ct n =
     bind_res (DecryptSlots lib ct) (\<lambda>slots. Inr (fx_score fx (foldl add_slot 0 (take n slots))))"

section \<open>The replica\<close>

text \<open>The keys and parameters that the replica carries are part of the library argument here.\<close>

record 'ct EncryptedVectorReplica =
  rp_Version :: nat
  DocVectors :: "'ct list"
  DocInfos :: "ReplicaDocInfo list"
  rp_DocCount :: nat
  rp_Dimension :: nat
  rp_Scale :: rat
  rp_Checksum :: "byte list"
  rp_CreatedAt :: int

fun replica_docs ::
  "('pt, 'ct) bgv \<Rightarrow> 'f fixed_point \<Rightarrow> (nat set \<Rightarrow> nat list) \<Rightarrow> 'f VectorIndex \<Rightarrow> InvertedIndex \<Rightarrow> nat \<Rightarrow> nat list
   \<Rightarrow> (('ct \<times> ReplicaDocInfo) list \<times> byte list) res" where
  "replica_docs lib fx keys vi idx seed [] = Inr ([], [])"
| "replica_docs lib fx keys vi idx seed (i # ids) =
     (case (GetDoc (word_of_nat i) idx, GetEmbedding keys (int i) vi) of
        (Some doc, Some embedding) \<Rightarrow>
          bind_res (EncryptVector lib seed (QuantizeVector fx embedding)) (\<lambda>ct.
          bind_res (replica_docs lib fx keys vi idx (Suc seed) ids) (\<lambda>(docs, bytes).
            Inr ((ct, DocMetaToReplicaInfo doc) # docs,
                 (case bgv_marshal lib ct of Inr bs \<Rightarrow> bs | Inl _ \<Rightarrow> []) @ bytes)))
      | _ \<Rightarrow> replica_docs lib fx keys vi idx seed ids)"

definition BuildEncryptedVectorReplica ::
  "('pt, 'ct) bgv \<Rightarrow> (rat \<Rightarrow> 'f fixed_point) \<Rightarrow> rat \<Rightarrow> (nat set \<Rightarrow> nat list) \<Rightarrow> nat \<Rightarrow> int \<Rightarrow> 'f VectorIndex \<Rightarrow> InvertedIndex
   \<Rightarrow> 'ct EncryptedVectorReplica res" where
  "BuildEncryptedVectorReplica lib fx scale keys seed now vi idx =
     bind_res (replica_docs lib (fx (effective_scale scale)) keys vi idx seed [0..<DocCount idx]) (\<lambda>(docs, bytes).
       Inr \<lparr>rp_Version = 1, DocVectors = map fst docs, DocInfos = map snd docs, rp_DocCount = length docs,
            rp_Dimension = dimension (hnsw vi), rp_Scale = effective_scale scale, rp_Checksum = sha256 bytes, rp_CreatedAt = now\<rparr>)"

text \<open>One document of the search: skipped by the filter or when an operation fails.\<close>

definition replica_score ::
  "('pt, 'ct) bgv \<Rightarrow> (rat \<Rightarrow> 'f fixed_point) \<Rightarrow> ('ct \<Rightarrow> 'ct \<Rightarrow> 'ct res) \<Rightarrow> 'ct EncryptedVectorReplica \<Rightarrow> 'ct \<Rightarrow> MetadataFilter option
   \<Rightarrow> nat \<times> 'ct \<Rightarrow> (nat \<times> 'f) option" where
  "replica_score lib fx mul replica encQuery flt = (\<lambda>(i, ct).
     if flt \<noteq> None \<and> i < length (DocInfos replica) \<and> \<not> MatchesReplicaInfo flt (DocInfos replica ! i) then None
     else case EvaluateElementWiseProduct mul encQuery ct of
       Inl _ \<Rightarrow> None
     | Inr product \<Rightarrow>
         (case DecryptDotProduct lib (fx (rp_Scale replica)) product (rp_Dimension replica) of Inl _ \<Rightarrow> None | Inr score \<Rightarrow> Some (i, score)))"

definition replica_result :: "'ct EncryptedVectorReplica \<Rightarrow> nat \<times> 'f \<Rightarrow> 'f SearchResult" where
  "replica_result replica = (\<lambda>(i, score).
     let r = \<lparr>sr_DocID = word_of_nat i, sr_Path = [], sr_Title = [], sr_Score = score, sr_Mode = ModeVector,
              sr_FileType = [], sr_Size = 0, sr_CreatedAt = 0, sr_ModifiedAt = 0, sr_WordCount = 0\<rparr> in
     if i < length (DocInfos replica)
     then let info = DocInfos replica ! i in
          r\<lparr>sr_FileType := ri_FileType info, sr_Size := ri_Size info, sr_CreatedAt := ri_CreatedAt info,
            sr_ModifiedAt := ri_ModifiedAt info, sr_WordCount := ri_WordCount info\<rparr>
     else r)"

definition SearchReplica ::
  "('pt, 'ct) bgv \<Rightarrow> 'f float_ops \<Rightarrow> (rat \<Rightarrow> 'f fixed_point) \<Rightarrow> ('ct \<Rightarrow> 'ct \<Rightarrow> 'ct res) \<Rightarrow> 'ct EncryptedVectorReplica \<Rightarrow> 'ct
   \<Rightarrow> MetadataFilter option \<Rightarrow> int \<Rightarrow> 'f SearchResult list" where
  "SearchReplica lib fl fx mul replica encQuery flt k =
     (let matches = List.map_filter (replica_score lib fx mul replica encQuery flt) (enumerate 0 (DocVectors replica));
          ranked = exchange_sort (\<lambda>a b. fl_lt fl (snd b) (snd a)) matches in
      map (replica_result replica) (limit k ranked))"

section \<open>Signed numbers in the slots\<close>

text \<open>What Go documents of the conversion to \<^verbatim>\<open>uint64\<close>.\<close>

definition fixed_ok :: "'f fixed_point \<Rightarrow> bool" where
  "fixed_ok fx \<longleftrightarrow> (\<forall>x. 0 \<le> x \<and> x < 2 ^ 64 \<longrightarrow> fx_uint64 fx x = nat x)"

abbreviation T :: int where "T \<equiv> 65537"

lemma modulus [simp]: "int DefaultPlaintextModulus = T" "halfT = 32768"
  by (simp_all add: DefaultPlaintextModulus_def halfT_def)

lemma mod_negative: "- T < r \<Longrightarrow> r < 0 \<Longrightarrow> r mod T = r + T"
  using mod_pos_pos_trivial [of "r + T" T] by simp

lemma quantize_small:
  assumes "fixed_ok fx" "\<bar>fx_round fx v\<bar> \<le> 32768"
  shows "quantize fx v = nat (fx_round fx v mod T)"
proof -
  let ?r = "fx_round fx v" let ?s = "if ?r < 0 then ?r + T else ?r"
  have s: "0 \<le> ?s" "?s < T" "?r mod T = ?s" using assms(2) mod_negative [of ?r] by auto
  then have "fx_uint64 fx ?s = nat ?s" using assms(1) by (simp add: fixed_ok_def)
  then show ?thesis
    using s by (cases "?r < 0") (auto simp: quantize_def Let_def DefaultPlaintextModulus_def nat_less_iff)
qed

lemma quantize_bound: "quantize fx v < DefaultPlaintextModulus"
  by (simp add: quantize_def DefaultPlaintextModulus_def Let_def)

lemma mul_slots: "nat (a mod T) * nat (b mod T) mod DefaultPlaintextModulus = nat (a * b mod T)"
proof -
  have "nat (a mod T) * nat (b mod T) mod 65537 = nat ((a mod T) * (b mod T) mod T)"
    by (simp add: nat_mult_distrib nat_mod_distrib)
  then show ?thesis by (simp add: mod_mult_eq DefaultPlaintextModulus_def)
qed

lemma add_slot_signed: "\<bar>r\<bar> \<le> 32768 \<Longrightarrow> add_slot acc (nat (r mod T)) = acc + r"
proof (cases "r < 0")
  case True
  assume r: "\<bar>r\<bar> \<le> 32768"
  have "r mod T = r + T" using r True by (simp add: mod_negative)
  then show ?thesis using r True by (simp add: add_slot_def DefaultPlaintextModulus_def)
next
  case False
  assume "\<bar>r\<bar> \<le> 32768"
  then show ?thesis using False by (simp add: add_slot_def)
qed

definition dot :: "'f fixed_point \<Rightarrow> 'f list \<Rightarrow> 'f list \<Rightarrow> int" where
  "dot fx a b = sum_list (map2 (\<lambda>x y. fx_round fx x * fx_round fx y) a b)"

text \<open>Vectors whose products do not wrap around modulo the plaintext modulus.\<close>

definition no_wrap :: "'f fixed_point \<Rightarrow> 'f list \<Rightarrow> 'f list \<Rightarrow> bool" where
  "no_wrap fx a b \<longleftrightarrow> list_all (\<lambda>x. \<bar>fx_round fx x\<bar> \<le> 32768) (a @ b)
     \<and> list_all (\<lambda>(x, y). \<bar>fx_round fx x * fx_round fx y\<bar> \<le> 32768) (zip a b)"

lemma dot_slots:
  assumes "fixed_ok fx" "no_wrap fx a b" "length a = length b"
  shows "foldl add_slot acc (map2 (\<lambda>x y. x * y mod DefaultPlaintextModulus) (QuantizeVector fx a) (QuantizeVector fx b))
    = acc + dot fx a b"
  using assms(3,2)
proof (induction a b arbitrary: acc rule: list_induct2)
  case (Cons x xs y ys)
  have "quantize fx x * quantize fx y mod DefaultPlaintextModulus = nat (fx_round fx x * fx_round fx y mod T)"
    using Cons.prems quantize_small [OF assms(1)] by (simp add: no_wrap_def mul_slots)
  then show ?case
    using Cons.IH [of "acc + fx_round fx x * fx_round fx y"] Cons.prems
    by (simp add: QuantizeVector_def no_wrap_def dot_def add_slot_signed)
qed (simp add: QuantizeVector_def dot_def)

text \<open>A round trip through the slots: the signed number comes back, so decryption gives the rounded
  component back.\<close>

lemma slot_roundtrip:
  assumes "fixed_ok fx" "\<bar>fx_round fx v\<bar> \<le> 32768"
  shows "add_slot 0 (quantize fx v) = fx_round fx v"
  using add_slot_signed [of "fx_round fx v" 0] assms quantize_small [OF assms] by simp

section \<open>The replica of a collection\<close>

lemma DocCount_build: "length ds \<le> 2 ^ 32 \<Longrightarrow> DocCount (build_index u ds) = length ds"
proof -
  assume n: "length ds \<le> 2 ^ 32"
  have "dom (Documents (build_index u ds)) = {w. unat w < length ds}"
    using index_of_build [OF n, of u] by (auto simp: index_of_def dom_def)
  moreover have "{w :: docid. unat w < length ds} = word_of_nat ` {..<length ds}"
    using n by (auto simp: unat_docid intro!: rev_image_eqI [of "unat _"])
  moreover have "inj_on (word_of_nat :: nat \<Rightarrow> docid) {..<length ds}"
    by (rule inj_on_inverseI [of _ unat]) (use n in \<open>simp add: unat_docid\<close>)
  ultimately show ?thesis by (simp add: DocCount_def card_image)
qed

lemma GetEmbedding_of:
  assumes "holds d (refs_of ds) vi" "length ds \<le> 2 ^ 32" "i < length ds" "\<And>A. finite A \<Longrightarrow> set (keys A) = A"
  shows "GetEmbedding keys (int i) vi = Some (vector_of (hnsw vi) i)"
proof -
  let ?P = "\<lambda>j. case vi_docs vi j of Some ref \<Rightarrow> int (unat (dr_DocID ref)) = int i | None \<Rightarrow> False"
  have docs: "vi_docs vi = (\<lambda>j. if j < length ds then Some (refs_of ds ! j) else None)"
    using assms(1) by (simp add: holds_def)
  have P: "?P j \<longleftrightarrow> j = i" if "j < length ds" for j
    using that assms(2) by (simp add: docs unat_docid)
  have "dom (vi_docs vi) = {..<length ds}" by (auto simp: docs dom_def split: if_splits)
  then have ks: "set (keys (dom (vi_docs vi))) = {..<length ds}" using assms(4) by simp
  have "find ?P (keys (dom (vi_docs vi))) = Some i"
  proof (cases "find ?P (keys (dom (vi_docs vi)))")
    case None
    then show ?thesis using ks assms(3) P [OF assms(3)] unfolding find_None_iff by blast
  next
    case (Some j)
    then have "j \<in> set (keys (dom (vi_docs vi)))" "?P j" by (auto simp: find_Some_iff)
    then show ?thesis using ks P Some by simp
  qed
  moreover have "i * dimension (hnsw vi) + dimension (hnsw vi) \<le> length (vectors (hnsw vi))"
    using readableI [of "hnsw vi" "replicate (dimension (hnsw vi)) undefined" i] assms(1,3)
    by (simp add: readable_def holds_def hnsw_inv_def Len_def)
  ultimately show ?thesis by (simp add: GetEmbedding_def vector_of_def Let_def)
qed

definition padded :: "('pt, 'ct) bgv \<Rightarrow> nat list \<Rightarrow> nat list" where
  "padded lib xs = xs @ replicate (bgv_N lib - length xs) 0"

lemma EncryptVector_ok:
  assumes "he_correct lib" "length v \<le> bgv_N lib"
  shows "\<exists>ct. EncryptVector lib seed (QuantizeVector fx v) = Inr ct \<and> fresh lib (padded lib (QuantizeVector fx v)) ct"
proof -
  have len: "length (QuantizeVector fx v) = length v" by (simp add: QuantizeVector_def)
  have v: "valid_slots lib (padded lib (QuantizeVector fx v))"
    using assms(2) quantize_bound [of fx] by (auto simp: valid_slots_def padded_def QuantizeVector_def DefaultPlaintextModulus_def)
  obtain ct where "encrypt_slots lib seed (padded lib (QuantizeVector fx v)) = Inr ct"
    using encrypt_slots_ok [OF assms(1) v] by blast
  then show ?thesis
    using encrypt_slots_fresh [OF _ v] assms(2) by (auto simp: EncryptVector_def EncryptTermPage_def padded_def Let_def len)
qed

lemma length_vector_of: "hnsw_inv h \<Longrightarrow> i < Len h \<Longrightarrow> length (vector_of h i) = dimension h"
  using readableI [of h "replicate (dimension h) undefined" i] by (auto simp: vector_of_def readable_def hnsw_inv_def Len_def min_def)

lemma replica_docs_of:
  assumes "holds d (refs_of ds) vi" "length ds \<le> 2 ^ 32" "\<And>A. finite A \<Longrightarrow> set (keys A) = A"
    and "he_correct lib" "d \<le> bgv_N lib" "set is \<subseteq> {..<length ds}"
  shows "\<exists>docs bytes. replica_docs lib fx keys vi (build_index u ds) seed is = Inr (docs, bytes)
    \<and> map snd docs = map (\<lambda>i. DocMetaToReplicaInfo (meta_of u ds i)) is
    \<and> list_all2 (\<lambda>i ct. fresh lib (padded lib (QuantizeVector fx (vector_of (hnsw vi) i))) ct) is (map fst docs)"
  using assms(6)
proof (induction "is" arbitrary: seed)
  case (Cons i "is")
  have i: "i < length ds" using Cons.prems by simp
  have doc: "GetDoc (word_of_nat i) (build_index u ds) = Some (meta_of u ds i)"
    using index_of_build [OF assms(2), of u] i assms(2) by (simp add: GetDoc_def index_of_def unat_docid)
  have "length (vector_of (hnsw vi) i) \<le> bgv_N lib"
    using length_vector_of [of "hnsw vi" i] assms(1,5) i by (simp add: holds_def)
  then obtain ct where ct: "EncryptVector lib seed (QuantizeVector fx (vector_of (hnsw vi) i)) = Inr ct"
    "fresh lib (padded lib (QuantizeVector fx (vector_of (hnsw vi) i))) ct"
    using EncryptVector_ok [OF assms(4)] by blast
  obtain docs bytes where ih: "replica_docs lib fx keys vi (build_index u ds) (Suc seed) is = Inr (docs, bytes)"
    "map snd docs = map (\<lambda>i. DocMetaToReplicaInfo (meta_of u ds i)) is"
    "list_all2 (\<lambda>i ct. fresh lib (padded lib (QuantizeVector fx (vector_of (hnsw vi) i))) ct) is (map fst docs)"
    using Cons.IH [of "Suc seed"] Cons.prems by auto
  show ?case using doc GetEmbedding_of [OF assms(1,2) i assms(3)] ct ih by (simp add: bind_res_def)
qed simp

text \<open>What the library documents of the product of two fresh encryptions.\<close>

definition he_mul_correct :: "('pt, 'ct) bgv \<Rightarrow> ('ct \<Rightarrow> 'ct \<Rightarrow> 'ct res) \<Rightarrow> bool" where
  "he_mul_correct lib mul \<longleftrightarrow>
     (\<forall>xs ys a b. fresh lib xs a \<and> fresh lib ys b \<longrightarrow>
        (\<exists>c. mul a b = Inr c \<and> bgv_decode lib (bgv_decrypt lib c)
             = Inr (map2 (\<lambda>x y. x * y mod DefaultPlaintextModulus) xs ys)))"

lemma take_map2_padded:
  assumes "length xs = n" "length ys = n"
  shows "take n (map2 f (padded lib xs) (padded lib ys)) = map2 f xs ys"
  using assms by (simp add: padded_def take_map take_zip)

lemma replica_score_of:
  assumes "he_mul_correct lib mul" "fixed_ok fx" "no_wrap fx q v" "length q = n" "length v = n"
    and "fresh lib (padded lib (QuantizeVector fx q)) eq" "fresh lib (padded lib (QuantizeVector fx v)) ct"
    and "rp_Dimension r = n" "i < length (DocInfos r)" "fxs (rp_Scale r) = fx"
  shows "replica_score lib fxs mul r eq flt (i, ct) =
    (if MatchesReplicaInfo flt (DocInfos r ! i) then Some (i, fx_score fx (dot fx q v)) else None)"
proof -
  obtain c where c: "mul eq ct = Inr c" "bgv_decode lib (bgv_decrypt lib c)
      = Inr (map2 (\<lambda>x y. x * y mod DefaultPlaintextModulus) (padded lib (QuantizeVector fx q)) (padded lib (QuantizeVector fx v)))"
    using assms(1,6,7) unfolding he_mul_correct_def by blast
  have "take n (map2 (\<lambda>x y. x * y mod DefaultPlaintextModulus) (padded lib (QuantizeVector fx q)) (padded lib (QuantizeVector fx v)))
      = map2 (\<lambda>x y. x * y mod DefaultPlaintextModulus) (QuantizeVector fx q) (QuantizeVector fx v)"
    by (rule take_map2_padded) (use assms(4,5) in \<open>auto simp: QuantizeVector_def\<close>)
  then have "DecryptDotProduct lib fx c n = Inr (fx_score fx (dot fx q v))"
    using c(2) dot_slots [OF assms(2,3), of 0] assms(4,5) by (simp add: DecryptDotProduct_def DecryptSlots_def bind_res_def)
  moreover have "MatchesReplicaInfo flt x" if "flt = None" for x using that by (simp add: MatchesReplicaInfo_def)
  ultimately show ?thesis
    using c(1) assms(8-) by (auto simp: replica_score_def EvaluateElementWiseProduct_def)
qed

lemma replica_built:
  assumes "holds d (refs_of ds) vi" "kw = build_index u ds" "length ds \<le> 2 ^ 32" "he_correct lib" "fx = fxs (effective_scale scale)"
    "d \<le> bgv_N lib" "\<forall>A. finite A \<longrightarrow> set (keys A) = A"
  shows "\<exists>r. BuildEncryptedVectorReplica lib fxs scale keys seed now vi kw = Inr r
    \<and> rp_DocCount r = length ds \<and> rp_Dimension r = d \<and> rp_Scale r = effective_scale scale
    \<and> DocInfos r = map (\<lambda>i. DocMetaToReplicaInfo (meta_of u ds i)) [0..<length ds]
    \<and> list_all2 (\<lambda>i ct. fresh lib (padded lib (QuantizeVector fx (vector_of (hnsw vi) i))) ct) [0..<length ds] (DocVectors r)"
proof -
  have dim: "dimension (hnsw vi) = d" "Len (hnsw vi) = length ds" using assms(1) by (auto simp: holds_def)
  obtain docs bytes where docs: "replica_docs lib fx keys vi (build_index u ds) seed [0..<length ds] = Inr (docs, bytes)"
    "map snd docs = map (\<lambda>i. DocMetaToReplicaInfo (meta_of u ds i)) [0..<length ds]"
    "list_all2 (\<lambda>i ct. fresh lib (padded lib (QuantizeVector fx (vector_of (hnsw vi) i))) ct) [0..<length ds] (map fst docs)"
    using replica_docs_of [OF assms(1,3) assms(7) [rule_format] assms(4,6), of "[0..<length ds]" fx u seed]
    by (auto simp: atLeast0LessThan)
  have "length docs = length ds" using arg_cong [OF docs(2), of length] by simp
  then show ?thesis using docs
    by (auto simp: BuildEncryptedVectorReplica_def assms(2) DocCount_build [OF assms(3)] bind_res_def dim simp flip: assms(5))
qed

lemma replica_result_of:
  assumes "DocInfos r ! i = DocMetaToReplicaInfo (meta_of u ds i)" "i < length (DocInfos r)"
  shows "replica_result r (i, s) = (keyword_result s (meta_of u ds i))\<lparr>sr_Path := [], sr_Title := [], sr_Mode := ModeVector\<rparr>"
proof -
  have "dm_ID (meta_of u ds i) = word_of_nat i"
    by (simp add: meta_of_def doc_meta_def Let_def split: prod.splits option.splits)
  then show ?thesis
    using assms by (simp add: replica_result_def Let_def keyword_result_def DocMetaToReplicaInfo_def)
qed

section \<open>Properties\<close>

lemma map_filter_scores:
  assumes "list_all2 P [m..<n] cts" "\<And>i ct. P i ct \<Longrightarrow> i < n \<Longrightarrow> f (i, ct) = (if Q i then Some (i, g i) else None)"
  shows "List.map_filter f (enumerate m cts) = map (\<lambda>i. (i, g i)) (filter Q [m..<n])"
  using assms
proof (induction cts arbitrary: m rule: list.induct)
  case (Cons ct cts)
  have "m < n" using Cons.prems(1) by (cases "m < n") auto
  then have ms: "[m..<n] = m # [Suc m..<n]" by (simp add: upt_conv_Cons)
  have "P m ct" "list_all2 P [Suc m..<n] cts" using Cons.prems(1) ms by auto
  then show ?case using Cons.IH [of "Suc m"] Cons.prems(2) \<open>m < n\<close> ms
    by (simp add: List.map_filter_simps)
qed (auto simp: List.map_filter_simps)

text \<open>
  C40. Search on the encrypted replica. The owner builds the replica of an index, a peer encrypts the
  quantized embedding of a query and multiplies, the owner decrypts. Whenever no product of
  quantized components leaves the range -32768 to 32768 (which holds for normalized vectors and the
  default scale of 100), the scores are exactly the dot products of the quantized vectors, and the
  results are the documents that pass the filter on the shared metadata, in descending order of
  score and cut to k; the replica holds every document of the index under its own number.
\<close>

theorem replica_search:
  assumes "composite_of u d ds ci" "Vector ci = Some vi" "length ds \<le> 2 ^ 32"
    and "he_correct lib" "he_mul_correct lib mul" "fx = fxs (effective_scale scale)" "fixed_ok fx" "d \<le> bgv_N lib"
    and "\<forall>A. finite A \<longrightarrow> set (keys A) = A"
    and "length q = d" "\<forall>i<length ds. no_wrap fx q (vector_of (hnsw vi) i)"
  shows "\<exists>r eq. BuildEncryptedVectorReplica lib fxs scale keys seed now vi (Keyword ci) = Inr r
    \<and> EncryptVector lib seed' (QuantizeVector fx q) = Inr eq \<and> rp_DocCount r = length ds
    \<and> SearchReplica lib fl fxs mul r eq flt k =
        map (\<lambda>(i, s). (keyword_result s (meta_of u ds i))\<lparr>sr_Path := [], sr_Title := [], sr_Mode := ModeVector\<rparr>)
          (limit k (exchange_sort (\<lambda>a b. fl_lt fl (snd b) (snd a))
             (map (\<lambda>i. (i, fx_score fx (dot fx q (vector_of (hnsw vi) i))))
                (filter (\<lambda>i. MatchesReplicaInfo flt (DocMetaToReplicaInfo (meta_of u ds i))) [0..<length ds]))))"
proof -
  have hl: "holds d (refs_of ds) vi" "Keyword ci = build_index u ds"
    using assms(1,2) by (auto simp: composite_of_def)
  have dim: "dimension (hnsw vi) = d" "hnsw_inv (hnsw vi)" "Len (hnsw vi) = length ds" using hl(1) by (auto simp: holds_def)
  obtain r where build: "BuildEncryptedVectorReplica lib fxs scale keys seed now vi (Keyword ci) = Inr r"
      and r: "rp_DocCount r = length ds" "rp_Dimension r = d" "rp_Scale r = effective_scale scale"
      and infos: "DocInfos r = map (\<lambda>i. DocMetaToReplicaInfo (meta_of u ds i)) [0..<length ds]"
      and docs: "list_all2 (\<lambda>i ct. fresh lib (padded lib (QuantizeVector fx (vector_of (hnsw vi) i))) ct) [0..<length ds] (DocVectors r)"
    using replica_built [where fxs = fxs and scale = scale, OF hl assms(3,4,6,8,9)] by metis
  obtain eq where eq: "EncryptVector lib seed' (QuantizeVector fx q) = Inr eq" "fresh lib (padded lib (QuantizeVector fx q)) eq"
    using EncryptVector_ok [OF assms(4), of q] assms(8,10) by auto
  have info: "DocInfos r ! i = DocMetaToReplicaInfo (meta_of u ds i)" "i < length (DocInfos r)" if "i < length ds" for i
    using that infos by auto
  have score: "replica_score lib fxs mul r eq flt (i, ct) =
      (if MatchesReplicaInfo flt (DocMetaToReplicaInfo (meta_of u ds i)) then Some (i, fx_score fx (dot fx q (vector_of (hnsw vi) i))) else None)"
    if "fresh lib (padded lib (QuantizeVector fx (vector_of (hnsw vi) i))) ct" "i < length ds" for i ct
    using replica_score_of [OF assms(5,7) _ assms(10) _ eq(2) that(1), of r i fxs flt] assms(11) that(2) info [OF that(2)]
      length_vector_of [OF dim(2), of i] by (simp add: dim r assms(6))
  have matches: "List.map_filter (replica_score lib fxs mul r eq flt) (enumerate 0 (DocVectors r)) =
      map (\<lambda>i. (i, fx_score fx (dot fx q (vector_of (hnsw vi) i))))
        (filter (\<lambda>i. MatchesReplicaInfo flt (DocMetaToReplicaInfo (meta_of u ds i))) [0..<length ds])" (is "_ = ?ms")
    using map_filter_scores [OF docs score] by simp
  let ?s = "limit k (exchange_sort (\<lambda>a b. fl_lt fl (snd b) (snd a)) ?ms)"
  have "replica_result r x = (\<lambda>(i, s). (keyword_result s (meta_of u ds i))\<lparr>sr_Path := [], sr_Title := [], sr_Mode := ModeVector\<rparr>) x"
    if "x \<in> set ?s" for x
    using set_limit [OF that] replica_result_of [OF info, of "fst x" "snd x"] by auto
  then have "SearchReplica lib fl fxs mul r eq flt k =
      map (\<lambda>(i, s). (keyword_result s (meta_of u ds i))\<lparr>sr_Path := [], sr_Title := [], sr_Mode := ModeVector\<rparr>) ?s"
    unfolding SearchReplica_def Let_def matches by (intro map_cong refl)
  then show ?thesis using build eq(1) r(1) by blast
qed

text \<open>A product on the library of the example, and a quantization to two digits.\<close>

definition clear_mul :: "nat list \<Rightarrow> nat list \<Rightarrow> nat list res" where
  "clear_mul xs ys = Inr (map2 (\<lambda>x y. x * y mod DefaultPlaintextModulus) xs ys)"

definition int_fixed :: "int fixed_point" where
  "int_fixed = \<lparr>fx_round = (\<lambda>x. x mod 100), fx_uint64 = nat, fx_value = int, fx_neg = uminus, fx_score = id\<rparr>"

lemma clear_mul_correct: "he_mul_correct clear_lib clear_mul"
  by (auto simp: he_mul_correct_def clear_mul_def clear_lib_def fresh_def)

lemma int_fixed_ok: "fixed_ok int_fixed" "no_wrap int_fixed a b"
proof -
  have m: "0 \<le> x mod 100 \<and> x mod 100 \<le> 99" for x :: int by (simp add: pos_mod_bound [of 100 x, simplified] zle_diff1_eq [symmetric])
  have p: "\<bar>(x mod 100) * (y mod 100)\<bar> \<le> 32768" for x y :: int
  proof -
    have "(x mod 100) * (y mod 100) \<le> 99 * 99" using m [of x] m [of y] by (intro mult_mono) auto
    moreover have "0 \<le> (x mod 100) * (y mod 100)" using m [of x] m [of y] by simp
    ultimately show ?thesis by linarith
  qed
  have "\<bar>x mod 100\<bar> \<le> 32768" for x :: int using m [of x] by simp
  with p show "no_wrap int_fixed a b" by (auto simp: no_wrap_def int_fixed_def list_all_iff)
qed (simp add: fixed_ok_def int_fixed_def)

theorem replica_search_witness:
  "\<exists>ci vi r eq. composite_of ascii 4 [hd one_document] ci \<and> Vector ci = Some vi
    \<and> BuildEncryptedVectorReplica clear_lib (\<lambda>_. int_fixed) 0 sorted_list_of_set 0 0 vi (Keyword ci) = Inr r
    \<and> EncryptVector clear_lib 1 (QuantizeVector int_fixed [1, 0, 2, 3]) = Inr eq \<and> rp_DocCount r = 1
    \<and> length (SearchReplica clear_lib int_floats (\<lambda>_. int_fixed) clear_mul r eq None 5) = 1"
proof -
  let ?e = "NewTFIDFEmbedder 4" let ?lg = "\<lparr>tf_log = int, idf_log = (\<lambda>n df. 1)\<rparr>"
  have e: "0 < em_dimension ?e" "em_dimension ?e < 2 ^ 32" "em_dimension ?e = 4" by (auto simp: NewTFIDFEmbedder_def)
  have "\<exists>ci. add_all int_floats (Embed int_floats ?lg ascii id ?e) ascii [(0 :: nat, hd one_document)]
      (NewCompositeIndex (Some (NewVectorIndex (em_dimension ?e) 16 200))) = Some (Ret ci)
    \<and> composite_of ascii (em_dimension ?e) ([] @ map snd [(0 :: nat, hd one_document)]) ci"
    by (rule tfidf.composite_add_all [OF composite_new int_floats_strict Embed_ok [OF e(1,2)]])
  then obtain ci :: "int CompositeIndex" and vi where ci: "composite_of ascii 4 [hd one_document] ci" "Vector ci = Some vi"
    by (auto simp: composite_of_def e)
  have "\<exists>r eq. BuildEncryptedVectorReplica clear_lib (\<lambda>_. int_fixed) 0 sorted_list_of_set 0 0 vi (Keyword ci) = Inr r
    \<and> EncryptVector clear_lib 1 (QuantizeVector int_fixed [1, 0, 2, 3]) = Inr eq \<and> rp_DocCount r = length [hd one_document]
    \<and> SearchReplica clear_lib int_floats (\<lambda>_. int_fixed) clear_mul r eq None 5 =
        map (\<lambda>(i, s). (keyword_result s (meta_of ascii [hd one_document] i))\<lparr>sr_Path := [], sr_Title := [], sr_Mode := ModeVector\<rparr>)
          (limit 5 (exchange_sort (\<lambda>a b. fl_lt int_floats (snd b) (snd a))
             (map (\<lambda>i. (i, fx_score int_fixed (dot int_fixed [1, 0, 2, 3] (vector_of (hnsw vi) i))))
                (filter (\<lambda>i. MatchesReplicaInfo None (DocMetaToReplicaInfo (meta_of ascii [hd one_document] i))) [0..<length [hd one_document]]))))"
    by (rule replica_search [OF ci _ clear_lib_correct clear_mul_correct refl int_fixed_ok(1)])
       (simp_all add: clear_lib_def int_fixed_ok(2))
  then show ?thesis using ci by (fastforce simp: limit_def MatchesReplicaInfo_def)
qed

end
