(* ===== verification/Fhe_Params.thy ===== *)
theory Fhe_Params
  imports Search_Encrypted Config_Model
begin

text \<open>
  The choice of the encryption parameters and the generation of keys (\<^verbatim>\<open>fhe/params.go\<close>, \<^verbatim>\<open>fhe/keys.go\<close>).
  The functions of the lattice library are arguments.
\<close>

section \<open>Parameters\<close>

definition DefaultLogN :: int where "DefaultLogN = 12"

definition SlotsPerCiphertext :: "nat \<Rightarrow> nat" where
  "SlotsPerCiphertext logN = push_bit logN 1"

text \<open>The literal handed to the library: the degree, the sizes of the moduli in bits, the plaintext modulus.\<close>

record ParametersLiteral =
  pl_LogN :: int
  pl_LogQ :: "int list"
  pl_LogP :: "int list"
  pl_PlaintextModulus :: nat

definition moduli :: "int \<Rightarrow> int list \<times> int list" where
  "moduli logN =
     (if logN \<ge> 14 then ([56, 55, 55, 54, 54], [55, 55])
      else if logN \<ge> 12 then ([40, 40, 40], [40])
      else ([30, 30], [30]))"

definition NewParams :: "(ParametersLiteral \<Rightarrow> 'p res) \<Rightarrow> int \<Rightarrow> 'p res" where
  "NewParams from_literal logN =
     (if logN < 10 \<or> logN > 15 then Inl (ErrMsg (''logN must be 10-15, got '' @ itoa logN))
      else wrap_res ''create BFV params''
             (from_literal \<lparr>pl_LogN = logN, pl_LogQ = fst (moduli logN), pl_LogP = snd (moduli logN),
                    pl_PlaintextModulus = DefaultPlaintextModulus\<rparr>))"

section \<open>Keys\<close>

text \<open>The key generator of the library for given parameters and randomness.\<close>

record ('p, 'sk, 'pk, 'rk, 'ek) keygen =
  kg_pair :: "'p \<Rightarrow> 'sk \<times> 'pk"
  kg_relin :: "'p \<Rightarrow> 'sk \<Rightarrow> 'rk"
  kg_set :: "'rk \<Rightarrow> 'ek"

definition GenerateKeys :: "('p, 'sk, 'pk, 'rk, 'ek) keygen \<Rightarrow> 'p \<Rightarrow> ('p, 'sk, 'pk, 'ek) KeySet" where
  "GenerateKeys kg params =
     (case kg_pair kg params of
        (sk, pk) \<Rightarrow> \<lparr>ks_Params = params, ks_SecretKey = sk, ks_PublicKey = pk,
                      ks_EvaluationKey = Some (kg_set kg (kg_relin kg params sk))\<rparr>)"

section \<open>Lemmas\<close>

text \<open>For a valid configuration the only error left is that of the library.\<close>

lemma NewParams_valid:
  assumes "validate_fhe f = None" "fhe_Enabled f" "n = fhe_RingDegree f"
  shows "NewParams from_literal n = wrap_res ''create BFV params''
     (from_literal \<lparr>pl_LogN = n, pl_LogQ = fst (moduli n), pl_LogP = snd (moduli n),
                    pl_PlaintextModulus = DefaultPlaintextModulus\<rparr>)"
  using assms by (simp add: validate_fhe_def check_range_def NewParams_def)

text \<open>
  The sizes of the moduli against the table of the homomorphic encryption standard for 128 bits of
  security with ternary secrets: the largest admissible number of bits of all moduli together, for
  each degree. The parameters meet it from degree 2 ^ 13 on only; the default degree 2 ^ 12 has
  160 bits where the table allows 109.
\<close>

definition standard_bits :: "int \<Rightarrow> int" where
  "standard_bits logN =
     (if logN = 10 then 27 else if logN = 11 then 54 else if logN = 12 then 109
      else if logN = 13 then 218 else if logN = 14 then 438 else 881)"

definition modulus_bits :: "int \<Rightarrow> int" where
  "modulus_bits logN = sum_list (fst (moduli logN)) + sum_list (snd (moduli logN))"

theorem params_standard:
  assumes "10 \<le> logN" "logN \<le> 15"
  shows "modulus_bits logN \<le> standard_bits logN \<longleftrightarrow> DefaultLogN < logN"
proof -
  have "logN \<in> {10, 11, 12, 13, 14, 15}" using assms by auto
  then show ?thesis by (auto simp: modulus_bits_def standard_bits_def moduli_def DefaultLogN_def)
qed

text \<open>Generated keys have an evaluation key, so saving and loading them loses something.\<close>

lemma generated_keys_evaluation: "ks_EvaluationKey (GenerateKeys kg params) \<noteq> None"
  by (simp add: GenerateKeys_def split: prod.splits)

lemma slots_power: "SlotsPerCiphertext logN = 2 ^ logN"
  by (simp add: SlotsPerCiphertext_def push_bit_eq_mult)

end
