(* ===== verification/Config_Flow.thy ===== *)
theory Config_Flow
  imports Config_Watcher Gui_App Tor_Control
begin

text \<open>
  From the configuration file to the running Tor: the watcher (\<^verbatim>\<open>config/watcher.go\<close>), the callback
  that \<^verbatim>\<open>main\<close> gives it, the hot reload of the engine, the overlay it pushes (\<^verbatim>\<open>lifecycle.go\<close>,
  \<^verbatim>\<open>config/torrc.go\<close>) and the command that the control client writes (\<^verbatim>\<open>tor/control.go\<close>), taken
  together. The theorems about the whole way are in the root theory.
\<close>

section \<open>Directives that are safe to send\<close>

lemma find_Some: "find P xs = Some x \<Longrightarrow> x \<in> set xs \<and> P x"
  by (induction xs) (auto split: if_splits)

lemma no_graphic_space: "e \<in> set (map rev space_encodings) \<Longrightarrow> c \<in> set e \<Longrightarrow> \<not> graphic c"
proof -
  have "list_all (list_all (\<lambda>c. \<not> graphic c)) (map rev space_encodings)"
    by (simp add: space_encodings_def graphic_def)
  then show "e \<in> set (map rev space_encodings) \<Longrightarrow> c \<in> set e \<Longrightarrow> \<not> graphic c" unfolding list_all_iff by blast
qed

text \<open>Trimming from the right stops at a visible character.\<close>

lemma drop_space_stops:
  "graphic c \<Longrightarrow> \<exists>k. drop_space space_len_rev (r @ c # t) = drop k r @ c # t"
proof (induction "length r" arbitrary: r rule: less_induct)
  case less
  let ?n = "space_len_rev (r @ c # t)"
  show ?case
  proof (cases "?n = 0")
    case True
    then have "drop_space space_len_rev (r @ c # t) = drop 0 r @ c # t" by (simp add: drop_space.simps)
    then show ?thesis ..
  next
    case False
    then obtain e where e: "find (has_prefix (r @ c # t)) (map rev space_encodings) = Some e" "?n = length e"
      by (auto simp: space_len_rev_def split: option.splits)
    then have in_es: "e \<in> set (map rev space_encodings)" and pre: "take (length e) (r @ c # t) = e"
      using find_Some [OF e(1)] has_prefix_take by blast+
    have "length e \<le> length r"
    proof (rule ccontr)
      assume "\<not> length e \<le> length r"
      then have "c \<in> set (take (length e) (r @ c # t))" by (cases "length e - length r") auto
      then have "c \<in> set e" unfolding pre .
      then show False using no_graphic_space [OF in_es] less.prems by blast
    qed
    then have d: "drop ?n (r @ c # t) = drop ?n r @ c # t" "length (drop ?n r) < length r"
      using e(2) False by (auto simp flip: length_greater_0_conv)
    obtain k where "drop_space space_len_rev (drop ?n r @ c # t) = drop k (drop ?n r) @ c # t"
      using less.hyps [OF d(2) less.prems] by blast
    then have "drop_space space_len_rev (r @ c # t) = drop (k + ?n) r @ c # t"
      using False d(1) by (subst drop_space.simps) simp
    then show ?thesis ..
  qed
qed

lemma keywords_graphic:
  assumes "k \<in> set overlay_keywords"
  shows "k \<noteq> []" "graphic (hd k)" "graphic (last k)" "CHR '' '' \<notin> set k"
proof -
  have "list_all (\<lambda>k. k \<noteq> [] \<and> graphic (hd k) \<and> graphic (last k) \<and> CHR '' '' \<notin> set k) overlay_keywords"
    by (simp add: overlay_keywords_def graphic_def)
  then show "k \<noteq> []" "graphic (hd k)" "graphic (last k)" "CHR '' '' \<notin> set k" using assms by (auto simp: list_all_iff)
qed

lemma trim_line:
  assumes "torrc_key l \<in> set overlay_keywords"
  shows "torrc_key (trim_space l) = torrc_key l" "trim_space l \<noteq> []"
proof -
  let ?k = "torrc_key l"
  note g = keywords_graphic [OF assms]
  define rest where "rest = dropWhile (\<lambda>c. c \<noteq> CHR '' '') l"
  have l: "l = ?k @ rest" by (simp add: torrc_key_def rest_def)
  have ne: "l \<noteq> []" "hd l = hd ?k" using g(1) l by (metis append_is_Nil_conv, metis hd_append2)
  then have "space_len l = 0" using g(2) space_len_graphic [of "hd l" "tl l"] by (metis list.collapse)
  then have left: "trim_left_space l = l" unfolding trim_left_space_def by (subst drop_space.simps) simp
  have "rev ?k = last ?k # rev (butlast ?k)" using g(1) by (metis append_butlast_last_id rev_eq_Cons_iff rev_rev_ident)
  then have "rev l = rev rest @ last ?k # rev (butlast ?k)" using arg_cong [OF l, of rev] by simp
  then obtain n where "drop_space space_len_rev (rev l) = drop n (rev rest) @ last ?k # rev (butlast ?k)"
    using drop_space_stops [OF g(3)] by metis
  then have "trim_space l = ?k @ rev (drop n (rev rest))"
    using g(1) unfolding trim_space_def left trim_right_space_def by simp
  then have t: "trim_space l = ?k @ take (length rest - n) rest" by (simp add: rev_drop)
  have "rest = [] \<or> hd rest = CHR '' ''" unfolding rest_def using hd_dropWhile [of "\<lambda>c. c \<noteq> CHR '' ''" l] by blast
  then have "takeWhile (\<lambda>c. c \<noteq> CHR '' '') (take (length rest - n) rest) = []"
    by (cases rest; cases "length rest - n") auto
  moreover have "takeWhile (\<lambda>c. c \<noteq> CHR '' '') (?k @ q) = ?k @ takeWhile (\<lambda>c. c \<noteq> CHR '' '') q" for q
    using g(4) by (intro takeWhile_append2) auto
  ultimately show "torrc_key (trim_space l) = ?k" unfolding t torrc_key_def [of "?k @ _"] by simp
  show "trim_space l \<noteq> []" using t g(1) by simp
qed

definition safe_directives :: "(string \<rightharpoonup> string) \<Rightarrow> bool" where
  "safe_directives m \<longleftrightarrow> dom m \<subseteq> set overlay_keywords \<and> (\<forall>v \<in> ran m. clean v)"

lemma parse_directive_safe:
  assumes "safe_line l \<or> l = []" "safe_directives m"
  shows "safe_directives (parse_directive m l)"
proof (cases "l = []")
  case False
  then have s: "clean l" "torrc_key l \<in> set overlay_keywords" using assms(1) by (auto simp: safe_line_def)
  let ?t = "trim_space l"
  have t: "torrc_key ?t = torrc_key l" "?t \<noteq> []" using trim_line [OF s(2)] .
  have "clean ?t" using s(1) set_trim_space [of l] by (auto simp: clean_def)
  then have v: "clean (drop n ?t)" for n by (auto simp: clean_def dest: in_set_dropD)
  have "parse_directive m l = m(torrc_key ?t \<mapsto> torrc_value ?t)"
  proof (cases "CHR '' '' \<in> set ?t")
    case True
    then show ?thesis
      using take_torrc_key [of ?t] t(2)
      by (simp add: parse_directive_def Let_def index_byte_takeWhile torrc_value_def flip: torrc_key_def)
  next
    case False
    then show ?thesis
      using t(2) by (simp add: parse_directive_def Let_def index_byte_takeWhile torrc_value_def torrc_key_free)
  qed
  then show ?thesis using assms(2) s(2) t(1) v by (auto simp: safe_directives_def torrc_value_def ran_def)
qed (use assms in \<open>simp add: parse_directive_def\<close>)

lemma parse_safe:
  "\<forall>l \<in> set ls. safe_line l \<or> l = [] \<Longrightarrow> safe_directives m \<Longrightarrow> safe_directives (foldl parse_directive m ls)"
  by (induction ls arbitrary: m) (auto simp: parse_directive_safe)

lemma overlay_directives_safe:
  assumes "Validate os c = None" "TorrcOverlay c = Inr out"
  shows "safe_directives (parseTorrcOverlay out)"
proof -
  obtain ls where ls: "overlay_lines c = Inr ls" and out: "out = (if length ls = 0 then [] else join [NL] ls @ [NL])"
    using assms(2) by (auto simp: TorrcOverlay_def)
  have safe: "\<forall>l \<in> set ls. safe_line l" using overlay_lines_safe [OF assms(1) ls] by blast
  have "set (split_on NL out) \<subseteq> set ls \<union> {[]}"
    using safe out split_lines [of ls] by (cases "ls = []") (auto simp: safe_line_def)
  then have "\<forall>l \<in> set (split_on NL out). safe_line l \<or> l = []" using safe by auto
  then show ?thesis unfolding parseTorrcOverlay_def by (rule parse_safe) (simp add: safe_directives_def)
qed

section \<open>Hot reload\<close>

definition safe_setconfs :: "('s, 'c) event list \<Rightarrow> bool" where
  "safe_setconfs evs \<longleftrightarrow> (\<forall>cl m r. ESetConf cl m r \<in> set evs \<longrightarrow> safe_directives m)"

definition safe_step :: "('w, 's, 'c) sys \<Rightarrow> ('w, 's, 'c) sys \<Rightarrow> bool" where
  "safe_step s s' \<longleftrightarrow> (\<exists>evs. calls s' = calls s @ evs \<and> safe_setconfs evs)"

lemma safe_step_same: "calls s' = calls s \<Longrightarrow> safe_step s s'"
  by (auto simp: safe_step_def safe_setconfs_def)

lemma safe_step_verbose: "safe_step s s' \<Longrightarrow> calls s'' = calls s' @ [ESetVerbose b] \<Longrightarrow> safe_step s s''"
  by (fastforce simp: safe_step_def safe_setconfs_def)

lemma safe_step_calls: "safe_step s s' \<Longrightarrow> calls s'' = calls s' \<Longrightarrow> safe_step s s''"
  by (simp add: safe_step_def)

lemma push_config_safe:
  assumes "Validate os c = None"
  shows "safe_step s (snd (push_config env c client s))"
  using overlay_directives_safe [OF assms]
  by (auto simp: push_config_def ask_def safe_step_def safe_setconfs_def split: sum.splits prod.splits option.splits)

lemma ReloadConfig_safe:
  assumes "Validate os c = None"
  shows "safe_step s (snd (ReloadConfig env c s))"
proof -
  define r where "r = (case TorControl s of
      Some client \<Rightarrow> (if length (HotReloadable (Diff (config s) c)) > 0 \<and> state s = StateRunning
                      then push_config env c client s else (None, s))
    | None \<Rightarrow> (None, s))"
  have r: "safe_step s (snd r)"
    using push_config_safe [OF assms] by (auto simp: r_def safe_step_same split: option.split)
  show ?thesis
  proof (cases "HasChanges (Diff (config s) c)")
    case True
    then have "ReloadConfig env c s = (case r of (Some e, s1) \<Rightarrow> (Some e, s1)
      | (None, s1) \<Rightarrow> (None, (if Verbose c \<noteq> Verbose (config s1)
           then s1\<lparr>calls := calls s1 @ [ESetVerbose (Verbose c)]\<rparr> else s1)\<lparr>config := c\<rparr>))"
      by (simp add: ReloadConfig_def Let_def r_def)
    then show ?thesis using r safe_step_verbose [OF r] safe_step_calls [OF r]
      by (auto split: prod.splits option.splits)
  qed (simp add: ReloadConfig_def safe_step_same)
qed

lemma watcher_callback_safe:
  assumes "Validate os c = None"
  shows "safe_step (ap_engine a) (ap_engine (watcher_callback env c a))"
proof -
  let ?a = "a\<lparr>ap_store := ap_store a @ [c]\<rparr>"
  have "calls (engine_of ?a) = calls (ap_engine a)" by (simp add: engine_of_def)
  then have "safe_step (ap_engine a) (snd (ReloadConfig env c (engine_of ?a)))"
    using ReloadConfig_safe [OF assms, of "engine_of ?a" env] by (simp add: safe_step_def)
  then show ?thesis
    by (auto simp: watcher_callback_def reload_ptr_def Let_def safe_step_same split: prod.splits)
qed

section \<open>The command of the control client\<close>

text \<open>
  What Tor makes of a \<^verbatim>\<open>SETCONF\<close> command, as the control protocol specifies it for values that are
  not quoted: arguments are separated by single spaces, each a keyword with an optional value after
  an equals sign.
\<close>

definition setconf_arg :: "string \<Rightarrow> string \<times> string option" where
  "setconf_arg w =
     (case index_byte w (CHR ''='') of None \<Rightarrow> (w, None) | Some i \<Rightarrow> (take i w, Some (drop (Suc i) w)))"

definition setconf_args :: "string \<Rightarrow> (string \<times> string option) list" where
  "setconf_args cmd = map setconf_arg (split_on (CHR '' '') (drop (length ''SETCONF '') cmd))"

lemma split_on_snoc: "split_on c (a @ c # s) = split_on c a @ split_on c s"
proof (induction a)
  case (Cons x a)
  obtain l ls where "split_on c a = l # ls" by (meson list.exhaust split_on_nonempty)
  with Cons show ?case by simp
qed simp

lemma split_on_join_words: "xs \<noteq> [] \<Longrightarrow> split_on c (join [c] xs) = concat (map (split_on c) xs)"
  by (induction xs rule: list_nonempty_induct) (simp_all add: join_Cons split_on_snoc)

lemma keyword_clean: "k \<in> set overlay_keywords \<Longrightarrow> clean k"
proof -
  have "list_all clean overlay_keywords" by (simp add: overlay_keywords_def clean_def NL_def CR_def)
  then show "k \<in> set overlay_keywords \<Longrightarrow> clean k" by (simp add: list_all_iff)
qed

text \<open>Safe directives pass the checks of the client and are written as they are.\<close>

lemma SetConf_sends:
  assumes "safe_directives (map_of ds)" "distinct (map fst ds)"
  shows "fst (SetConf p ds) = Some (''SETCONF '' @ join '' '' (map (\<lambda>(k, v). k @ ''='' @ v) ds) @ [CR, NL])"
proof -
  have "validateNoNewlines k = None \<and> validateNoNewlines v = None" if "(k, v) \<in> set ds" for k v
  proof -
    have "map_of ds k = Some v" using that assms(2) by simp
    then have "k \<in> set overlay_keywords" "clean v" using assms(1) by (auto simp: safe_directives_def ran_def)
    then show ?thesis using keyword_clean by (simp add: no_newlines_clean)
  qed
  then have "first_err (\<lambda>(k, v). and_then (map_option (wrap ''tor: setconf key'') (validateNoNewlines k))
      (map_option (wrap ''tor: setconf value'') (validateNoNewlines v))) ds = None"
    by (fastforce simp: first_err_None)
  then show ?thesis unfolding SetConf_def simple_command_def by (simp split: prod.splits sum.splits) (metis fst_conv fst_sendCommand append.assoc append_Cons)
qed

end
