(* ===== verification/Spec2Isabelle.thy ===== *)
theory Spec2Isabelle
  imports Main_Stop Metrics Health_Server Gui_Shell Gui_Browser Gui_Log Gui_Coast
    Update_Checker Network Vector_Replica Fhe_Params Config_Flow
begin

text \<open>
  A verification development for the TorVM controller, the Go program under \<^verbatim>\<open>src/controller\<close>. The
  controller starts a small virtual machine that runs Tor, routes the traffic of the host through
  it and restores the network at the end; beside this it starts a second, isolated VM with a
  browser, offers a graphical interface, and has a search index over encrypted documents.

  \<^bold>\<open>Parts and theories.\<close> Paths are relative to \<^verbatim>\<open>src/controller/internal\<close> unless they start with
  \<^verbatim>\<open>gui\<close> or \<^verbatim>\<open>cmd\<close>. A definition has the name of the Go function where Isabelle allows it, prefixed
  by its package or system where two functions share a name (\<open>linux_SetupRouting\<close>,
  \<open>launchd_Install\<close>, \<open>checker_Stop\<close>).

  \<^item> \<open>Go_Prelude\<close>, \<open>Go_Net\<close>, \<open>Go_Sha256\<close>, \<open>Go_Scan\<close>, \<open>Go_Json\<close>, \<open>Go_Heap\<close>: what the program uses of the language and
    its standard library: strings, runes, numbers, IP addresses, SHA-256 and HMAC, \<^verbatim>\<open>Sscanf\<close>, flat JSON
    objects with a reader and the round trip, \<^verbatim>\<open>container/heap\<close>; errors as values (\<open>goerr\<close>, \<open>'a res\<close>), panics as \<open>'a outcome\<close>.
  \<^item> \<open>Config_Model\<close>, \<open>Torrc\<close> (\<^verbatim>\<open>config/config.go\<close>, \<^verbatim>\<open>diff.go\<close>, \<^verbatim>\<open>migrate.go\<close>, \<^verbatim>\<open>torrc.go\<close>): configuration, its
    validation, loading, migration and differences, the torrc overlay; no value can add a line.
  \<^item> \<open>Config_Watcher\<close> (\<^verbatim>\<open>config/watcher.go\<close>): the watching goroutine; \<open>Config_Flow\<close>: lemmas on the
    way of a configuration file through watcher, engine and control client.
  \<^item> \<open>Retry_Policy\<close>, \<open>Lifecycle\<close>, \<open>Lifecycle_Inv\<close>, \<open>Lifecycle_Props\<close> (\<^verbatim>\<open>lifecycle/lifecycle.go\<close>, \<^verbatim>\<open>retry.go\<close>,
    \<^verbatim>\<open>failsafe.go\<close>): the engine. Its state is a record with the trace of the calls it made; VM,
    network, Tor and clock are functions of an environment record on an abstract world. Lemmas:
    order and cause of transitions, termination, restoring of the network, the failsafe, and what
    a cancelled context does.
  \<^item> \<open>Tor_Control\<close>, \<open>Tor_Geo\<close> (\<^verbatim>\<open>tor/*.go\<close>): the control connection with its reader goroutine, commands
    and parsers, and the table of countries.
  \<^item> \<open>Qemu_Args\<close>, \<open>Vm_Host\<close>, \<open>Vm_Instance\<close> (\<^verbatim>\<open>vm/*.go\<close>, \<^verbatim>\<open>security/entropy.go\<close>): command lines of both VMs, the
    state disk, QMP, and instances as step relations over goroutines and processes.
  \<^item> \<open>Network\<close> (\<^verbatim>\<open>network/*.go\<close>): the managers of Linux, macOS and Windows with the commands they run, as
    interpretations of one locale for the contract of the interface; the route verifiers.
  \<^item> \<open>Browser_Engine\<close> (\<^verbatim>\<open>lifecycle/browser.go\<close>, \<^verbatim>\<open>secwatch/*.go\<close>): the browser VM, its monitor and the
    handling of a compromise, interleaved.
  \<^item> \<open>Logging\<close> (\<^verbatim>\<open>logging/*.go\<close>): line writers under one locale, ring buffer and JSON.
  \<^item> \<open>Search_Index\<close>, \<open>Search_Encrypted\<close>, \<open>Fhe_Params\<close>, \<open>Hnsw\<close>, \<open>Hnsw_Props\<close>, \<open>Vector_Index\<close>, \<open>Vector_Replica\<close>
    (\<^verbatim>\<open>index/*.go\<close>, \<^verbatim>\<open>fhe/*.go\<close>, \<^verbatim>\<open>vectorindex/*.go\<close>): keyword, encrypted and nearest-neighbour search.
    Floating-point numbers and the lattice library are arguments; what is needed of the latter
    is named (\<open>he_correct\<close>) and shown to be satisfiable.
  \<^item> \<open>Gui_App\<close>, \<open>Gui_Circuits\<close>, \<open>Gui_Refresh\<close>, \<open>Gui_Browser\<close>, \<open>Gui_Log\<close>, \<open>Gui_Globe\<close>, \<open>Gui_Coast\<close>, \<open>Gui_Service\<close>,
    \<open>Gui_Shell\<close> (\<^verbatim>\<open>gui/*.go\<close>): the state behind the windows and the callbacks of the widgets, the polling
    goroutines, the tray and the observers. Sharing is modelled where it matters: the
    configuration is a store with pointers, the slices of the log view have their arrays.
  \<^item> \<open>Service_Units\<close>, \<open>Service_Os\<close> (\<^verbatim>\<open>launchd\<close>, \<^verbatim>\<open>systemd\<close>, \<^verbatim>\<open>winsvc\<close>): service managers, each package on its own
    system and as the stub it is on the others; \<open>Update_Checker\<close> (\<^verbatim>\<open>update\<close>); \<open>Metrics\<close>, \<open>Health_Server\<close>
    (\<^verbatim>\<open>metrics\<close>): the recorder, and the server with the bytes of its health answer.
  \<^item> \<open>Main_Program\<close>, \<open>Main_Modes\<close>, \<open>Main_Stop\<close> (\<^verbatim>\<open>cmd/torvm/main.go\<close>, \<^verbatim>\<open>platform\<close>): the start of the program up
    to its mode, the observers it registers, what each mode sets up, runs and releases, and how
    the program ends or is stopped.

  \<^bold>\<open>How the parts interact.\<close> \<open>main\<close> loads a configuration, starts the engine and hangs observers on its
  transitions (systemd, metrics, the browser engine, the interface). The watcher and the interface
  change the configuration and ask the engine for a hot reload, which goes over the control
  connection. Where one part relies on another through an interface, the interface is a locale and
  the parts interpret it: line writers, network managers, VM processes, embedders of text, tabs that
  poll a service. The theorems below take the whole way of a configuration file to Tor together.

  \<^bold>\<open>What is shown.\<close> The safety of command lines, torrc lines, shell and netsh commands against
  injection; isolation of the browser VM; at most one process per VM; the order of the
  lifecycle, its termination and the restoring of the network; refinement of collections by the
  index, of line lists by the ring buffer, of message sorting by the control reader; exactness of
  encrypted and of nearest-neighbour search; validity of what the interface writes; drawing of
  lines; exit code and clean-up of a run that is left alone; the end of the polling goroutines; the
  health answer read back; a display that follows the engine. Theorems also record where the code
  does not do what it means to: a run that is stopped, by whatever way the program offers, never
  restores the network and panics under systemd, the error dialog never appears, edits in the interface do not reach Tor,
  two runs can overlap, Start and Stop fail on Linux beside an installed service, the log view
  loses lines, values of directives are written unquoted.

  \<^bold>\<open>Bounds and fuel.\<close> The polling loops of the engine take the number of polls as an argument, with
  a lemma that the time limit of the code ends them within it; \<open>Run\<close> takes a number of rounds, and
  53 are enough whenever the context is not cancelled. The descent in the graph and \<^verbatim>\<open>drawLine\<close>, whose
  loops need not end for arbitrary states, are partial functions, and they are shown to return for
  all states that can occur. All other loops terminate by a measure. Integers are unbounded where
  they are only compared and printed, and have their width where they are added up or hashed.

  \<^bold>\<open>Not modelled.\<close> The texts of most log messages; the arrangement of widgets, their icons and the
  graphical toolkit, which hold no state of the program; locks as such, since the steps of the
  models are the critical sections of the code; the registration of observers, which is fixed by
  the caller. Third-party code (lattice library, file notifications, Prometheus, the service libraries
  of Windows, the toolkit) and the operating system are arguments of the definitions.
\<close>

section \<open>From the configuration file to the running Tor\<close>

text \<open>
  C10. What a hot reload can set. Whatever is written to the configuration file and whatever events the
  file system reports: every configuration that the watcher hands on makes the engine send
  only directives with one of the fifteen keywords of the overlay and values without line
  breaks, and no other \<^verbatim>\<open>SetConf\<close>.
\<close>

theorem reload_directives_safe:
  assumes "NewConfigWatcher made add path now = Inr b" "watch_reach os js b w" "c \<in> set (cw_onChange w)"
  shows "\<exists>evs. calls (ap_engine (watcher_callback env c a)) = calls (ap_engine a) @ evs
    \<and> (\<forall>cl m r. ESetConf cl m r \<in> set evs \<longrightarrow> dom m \<subseteq> set overlay_keywords \<and> (\<forall>v \<in> ran m. clean v))"
proof -
  have "watch_inv os w" using assms(1,2) new_watcher_inv watch_reach_inv by blast
  then have "Validate os c = None" using assms(3) by (auto simp: watch_inv_def list_all_iff)
  from watcher_callback_safe [OF this, of a env] show ?thesis
    by (auto simp: safe_step_def safe_setconfs_def safe_directives_def)
qed

text \<open>The watcher after one write to the file, and a reload of what it read.\<close>

theorem reload_directives_safe_witness:
  "\<exists>b w c evs. NewConfigWatcher None None ''c.json'' 0 = Inr b \<and> watch_reach Linux sample_json b w
     \<and> c \<in> set (cw_onChange w)
     \<and> calls (ap_engine (watcher_callback calm c (NewApp (DefaultConfig Linux) calm_connected ''c.json'')))
         = calls calm_connected @ evs
     \<and> (\<forall>cl m r. ESetConf cl m r \<in> set evs \<longrightarrow> dom m \<subseteq> set overlay_keywords)"
proof -
  obtain b w where w: "NewConfigWatcher None None ''c.json'' 0 = Inr b" "watch_reach Linux sample_json b w"
    "cw_onChange w = [(DefaultConfig Linux)\<lparr>SOCKSPort := 9150, Version := 1\<rparr>]"
    using sample_watch by blast
  have "ap_engine (NewApp (DefaultConfig Linux) calm_connected ''c.json'') = calm_connected" by (simp add: NewApp_def)
  with reload_directives_safe [OF w(1,2), of "(DefaultConfig Linux)\<lparr>SOCKSPort := 9150, Version := 1\<rparr>" calm
      "NewApp (DefaultConfig Linux) calm_connected ''c.json''"] w
  show ?thesis by (metis list.set_intros(1))
qed


definition bridge_with_option :: Config where
  "bridge_with_option = (DefaultConfig Linux)\<lparr>Bridge := \<lparr>br_UseBridges = True, br_Transport = ''none'',
     br_Bridges = Some [''1.2.3.4:443 SocksPort=0.0.0.0:9050'']\<rparr>\<rparr>"

lemma bridge_with_option_valid: "Validate Linux bridge_with_option = None"
  by (simp add: bridge_with_option_def validate_defs DefaultConfig_def default_ips default_tap_names
        validateTAPName_def filepath_join_nonempty defaultQMPPath_def defaultBrowserQMPPath_def)

lemma bridge_with_option_overlay:
  "TorrcOverlay bridge_with_option = Inr (join [NL] [''UseBridges 1'', ''Bridge 1.2.3.4:443 SocksPort=0.0.0.0:9050'', ''''])"
  by code_simp


end
